(* ===== verification/Prelude.thy ===== *)
theory Prelude
  imports
    Complex_Main
    "HOL-Library.Char_ord"
    "HOL-Library.List_Lexorder"
    "HOL-Library.Word"
    "HOL-Library.Sublist"
begin

text \<open>
  Shared vocabulary of the development: the exceptions the backend raises, results that may
  be an exception, the handful of Python string and byte operations the code uses (ASCII
  lower-casing, \<open>removeprefix\<close>, \<open>zfill\<close>, \<open>bytes.hex\<close>, \<open>bytes.fromhex\<close>, UTF-8 encoding), and
  the SQL idioms of the repository layer on tables held as lists of rows (\<open>fetchone\<close> of a
  query, \<open>UPDATE ... WHERE\<close>, \<open>ORDER BY ... DESC LIMIT 1\<close>).

  A string is a list of 8-bit characters, read as the code points 0 to 255; a byte string is
  a list of 8-bit words.  Time stamps and other floats are reals: rounding of binary64
  arithmetic is not modelled.
\<close>

section \<open>Collections of rewrite rules\<close>

named_theorems table_simps \<open>facts about tables held as lists of rows\<close>
named_theorems res_simps \<open>facts about results that may be an exception\<close>
named_theorems hex_simps \<open>facts about hexadecimal text\<close>

section \<open>Exceptions and results\<close>

type_synonym time = real
type_synonym bytes = "8 word list"

text \<open>
  The exceptions that reach a caller.  An \<open>HTTPException\<close> keeps its status code only: the
  detail texts are for the reader of the response.
\<close>

datatype exc =
    HTTPException int
  | ValueError
  | IndexError
  | KeyError
  | AssertionError
  | TypeError
  | AttributeError
  | IntegrityError
  | CircuitOpenError
  | RuntimeError
  | RpcError

type_synonym 'a res = "exc + 'a"

definition res_bind :: "'a res \<Rightarrow> ('a \<Rightarrow> 'b res) \<Rightarrow> 'b res" where
  "res_bind r k = (case r of Inl e \<Rightarrow> Inl e | Inr a \<Rightarrow> k a)"

lemma res_bind_simps [simp]:
  "res_bind (Inl e) k = Inl e"
  "res_bind (Inr a) k = k a"
  by (simp_all add: res_bind_def)

lemma res_bind_Inr_iff [res_simps]:
  "res_bind r k = Inr b \<longleftrightarrow> (\<exists>a. r = Inr a \<and> k a = Inr b)"
  by (cases r) simp_all

definition is_ok :: "'a res \<Rightarrow> bool" where
  "is_ok r = (case r of Inr _ \<Rightarrow> True | Inl _ \<Rightarrow> False)"

lemma is_ok_simps [simp]: "is_ok (Inr a)" "\<not> is_ok (Inl e)"
  by (simp_all add: is_ok_def)

lemma is_okE: "is_ok (fst x) \<Longrightarrow> (\<And>v. x = (Inr v, snd x) \<Longrightarrow> P) \<Longrightarrow> P"
  by (cases x; cases "fst x") auto

text \<open>\<open>[f(x) for x in xs]\<close> where f may raise.\<close>

fun map_res :: "('a \<Rightarrow> 'b res) \<Rightarrow> 'a list \<Rightarrow> 'b list res" where
  "map_res f [] = Inr []"
| "map_res f (x # xs) = res_bind (f x) (\<lambda>y. res_bind (map_res f xs) (\<lambda>ys. Inr (y # ys)))"

text \<open>
  A statement on the database may raise; what it wrote before stays written, because the
  SQLite connection runs in autocommit mode (\<open>isolation_level=None\<close>).  A handler is therefore
  a function to a result and the state, the state being there in the error case too.
\<close>

type_synonym ('a, 's) outcome = "'a res \<times> 's"

definition and_then :: "('a, 's) outcome \<Rightarrow> ('a \<Rightarrow> 's \<Rightarrow> ('b, 's) outcome) \<Rightarrow> ('b, 's) outcome" where
  "and_then r k = (case r of (Inl e, s) \<Rightarrow> (Inl e, s) | (Inr a, s) \<Rightarrow> k a s)"

lemma and_then_simps [simp]:
  "and_then (Inl e, s) k = (Inl e, s)"
  "and_then (Inr a, s) k = k a s"
  by (simp_all add: and_then_def)

lemma and_then_Inr_iff [res_simps]:
  "and_then r k = (Inr b, t) \<longleftrightarrow> (\<exists>a s. r = (Inr a, s) \<and> k a s = (Inr b, t))"
  by (cases r; cases "fst r") (auto simp: and_then_def split: sum.splits)

lemma and_then_Inl_iff [res_simps]:
  "and_then r k = (Inl e, t) \<longleftrightarrow> r = (Inl e, t) \<or> (\<exists>a s. r = (Inr a, s) \<and> k a s = (Inl e, t))"
  by (cases r; cases "fst r") (auto simp: and_then_def split: sum.splits)

section \<open>Tables as lists of rows\<close>

text \<open>\<open>UPDATE t SET ... WHERE p\<close>.\<close>

definition update_where :: "('a \<Rightarrow> bool) \<Rightarrow> ('a \<Rightarrow> 'a) \<Rightarrow> 'a list \<Rightarrow> 'a list" where
  "update_where p f rows = map (\<lambda>r. if p r then f r else r) rows"

lemma update_where_simps [simp]:
  "update_where p f [] = []"
  "update_where p f (r # rows) = (if p r then f r else r) # update_where p f rows"
  by (simp_all add: update_where_def)

lemma length_update_where [simp]: "length (update_where p f rows) = length rows"
  by (simp add: update_where_def)

lemma update_where_append [simp]:
  "update_where p f (xs @ ys) = update_where p f xs @ update_where p f ys"
  by (simp add: update_where_def)

lemma set_update_where [table_simps]:
  "x \<in> set (update_where p f rows) \<longleftrightarrow> (\<exists>r\<in>set rows. x = (if p r then f r else r))"
  by (auto simp: update_where_def)

lemma ball_update_where: "(\<And>r. q (f r) = q r) \<Longrightarrow> (\<forall>r\<in>set (update_where p f rows). q r) = (\<forall>r\<in>set rows. q r)"
  by (induction rows) auto

lemma bex_update_where: "(\<And>r. q (f r) = q r) \<Longrightarrow> (\<exists>r\<in>set (update_where p f rows). q r) = (\<exists>r\<in>set rows. q r)"
  by (induction rows) auto

lemma update_where_none [table_simps]: "(\<And>r. r \<in> set rows \<Longrightarrow> \<not> p r) \<Longrightarrow> update_where p f rows = rows"
  by (induction rows) auto

lemma map_update_where [table_simps]:
  "(\<And>r. g (f r) = g r) \<Longrightarrow> map g (update_where p f rows) = map g rows"
  by (induction rows) auto

lemma filter_update_where [table_simps]:
  "(\<And>r. q (f r) = q r) \<Longrightarrow> filter q (update_where p f rows) = update_where p f (filter q rows)"
  by (induction rows) auto

lemma find_update_where [table_simps]:
  "(\<And>r. q (f r) = q r) \<Longrightarrow>
   find q (update_where p f rows) = map_option (\<lambda>r. if p r then f r else r) (find q rows)"
  by (induction rows) auto

text \<open>A query that fetches one row by its key, and what finding it tells.\<close>

lemma find_SomeD [table_simps]: "find p xs = Some x \<Longrightarrow> x \<in> set xs \<and> p x"
  by (induction xs) (auto split: if_splits)

lemma find_NoneD: "find p xs = None \<longleftrightarrow> (\<forall>x\<in>set xs. \<not> p x)"
  by (induction xs) (auto split: if_splits)

lemma find_append:
  "find p (xs @ ys) = (case find p xs of None \<Rightarrow> find p ys | Some x \<Rightarrow> Some x)"
  by (induction xs) auto

lemma find_key_unique:
  assumes "distinct (map k xs)" and "x \<in> set xs"
  shows "find (\<lambda>r. k r = k x) xs = Some x"
  using assms by (induction xs) force+

text \<open>\<open>ORDER BY k DESC LIMIT 1\<close>: the greatest key; among equal keys the later row.\<close>

fun latest_by :: "('a \<Rightarrow> 'k::linorder) \<Rightarrow> 'a list \<Rightarrow> 'a option" where
  "latest_by k [] = None"
| "latest_by k (x # xs) =
     (case latest_by k xs of
        None \<Rightarrow> Some x
      | Some y \<Rightarrow> if k y < k x then Some x else Some y)"

lemma latest_by_None [simp]: "latest_by k xs = None \<longleftrightarrow> xs = []"
  by (cases xs) (auto split: option.splits)

lemma latest_by_in: "latest_by k xs = Some x \<Longrightarrow> x \<in> set xs"
  by (induction xs arbitrary: x) (auto split: option.splits if_splits)

lemma latest_by_ge: "latest_by k xs = Some x \<Longrightarrow> y \<in> set xs \<Longrightarrow> k y \<le> k x"
proof (induction xs arbitrary: x)
  case Nil
  then show ?case by simp
next
  case (Cons a xs)
  then show ?case by (cases "latest_by k xs") (fastforce split: if_splits)+
qed

lemma latest_by_snoc_ge:
  "(\<And>y. y \<in> set xs \<Longrightarrow> k y \<le> k x) \<Longrightarrow> latest_by k (xs @ [x]) = Some x"
proof (induction xs)
  case Nil
  then show ?case by simp
next
  case (Cons a xs)
  then have "latest_by k (xs @ [x]) = Some x" by simp
  moreover have "\<not> k x < k a" using Cons.prems [of a] by simp
  ultimately show ?case by simp
qed

text \<open>\<open>ORDER BY k ASC\<close> of rows that are already in that order.\<close>

lemma sort_key_sorted: "sorted (map k xs) \<Longrightarrow> sort_key k xs = xs"
  by (induction xs) (auto simp: insort_is_Cons)

section \<open>Characters and strings\<close>

definition lower_char :: "char \<Rightarrow> char" where
  "lower_char c = (let n = (of_char c :: nat) in if 65 \<le> n \<and> n \<le> 90 then char_of (n + 32) else c)"

definition upper_char :: "char \<Rightarrow> char" where
  "upper_char c = (let n = (of_char c :: nat) in if 97 \<le> n \<and> n \<le> 122 then char_of (n - 32) else c)"

definition lower_str :: "string \<Rightarrow> string" where
  "lower_str s = map lower_char s"

definition upper_str :: "string \<Rightarrow> string" where
  "upper_str s = map upper_char s"

definition removeprefix :: "string \<Rightarrow> string \<Rightarrow> string" where
  "removeprefix p s = (if prefix p s then drop (length p) s else s)"

text \<open>\<open>str.zfill\<close>: zeros go after a leading sign.\<close>

definition zfill :: "nat \<Rightarrow> string \<Rightarrow> string" where
  "zfill w s =
     (let fill = replicate (w - length s) CHR ''0''
      in case s of
           [] \<Rightarrow> fill
         | c # cs \<Rightarrow> if c = CHR ''+'' \<or> c = CHR ''-'' then c # fill @ cs else fill @ s)"

lemma length_lower_str [simp]: "length (lower_str s) = length s"
  by (simp add: lower_str_def)

lemma lower_str_simps [simp]:
  "lower_str [] = []"
  "lower_str (c # cs) = lower_char c # lower_str cs"
  "lower_str (a @ b) = lower_str a @ lower_str b"
  by (simp_all add: lower_str_def)

lemma length_zfill [simp]: "length (zfill w s) = max w (length s)"
  by (cases s) (auto simp: zfill_def Let_def)

text \<open>Decimal text of a number, as \<open>str\<close> prints it.\<close>

definition digit_char :: "nat \<Rightarrow> char" where
  "digit_char d = char_of (48 + d)"

lemma digit_char_numerals [simp]:
  "digit_char 0 = CHR ''0''" "digit_char (Suc 0) = CHR ''1''" "digit_char 1 = CHR ''1''"
  "digit_char 2 = CHR ''2''" "digit_char 3 = CHR ''3''" "digit_char 4 = CHR ''4''"
  "digit_char 5 = CHR ''5''" "digit_char 6 = CHR ''6''" "digit_char 7 = CHR ''7''"
  "digit_char 8 = CHR ''8''" "digit_char 9 = CHR ''9''"
  by code_simp+

fun nat_str :: "nat \<Rightarrow> string" where
  "nat_str n = (if n < 10 then [digit_char n] else nat_str (n div 10) @ [digit_char (n mod 10)])"

declare nat_str.simps [simp del]

definition int_str :: "int \<Rightarrow> string" where
  "int_str i = (if i < 0 then CHR ''-'' # nat_str (nat (- i)) else nat_str (nat i))"

section \<open>Bytes and hexadecimal text\<close>

text \<open>UTF-8 encoding of the code points 0 to 255.\<close>

definition utf8_char :: "char \<Rightarrow> bytes" where
  "utf8_char c = (let n = (of_char c :: nat) in
     if n < 128 then [word_of_nat n]
     else [word_of_nat (192 + n div 64), word_of_nat (128 + n mod 64)])"

definition utf8 :: "string \<Rightarrow> bytes" where
  "utf8 s = concat (map utf8_char s)"

definition hexdig :: "nat \<Rightarrow> char" where
  "hexdig n = ''0123456789abcdef'' ! n"

definition hexval :: "char \<Rightarrow> nat option" where
  "hexval c = (let n = (of_char c :: nat) in
     if 48 \<le> n \<and> n \<le> 57 then Some (n - 48)
     else if 97 \<le> n \<and> n \<le> 102 then Some (n - 87)
     else if 65 \<le> n \<and> n \<le> 70 then Some (n - 55)
     else None)"

definition hex_byte :: "8 word \<Rightarrow> string" where
  "hex_byte b = [hexdig (unat b div 16), hexdig (unat b mod 16)]"

definition hex_str :: "bytes \<Rightarrow> string" where
  "hex_str bs = concat (map hex_byte bs)"

definition py_space :: "char \<Rightarrow> bool" where
  "py_space c = (let n = (of_char c :: nat) in n = 32 \<or> (9 \<le> n \<and> n \<le> 13))"

text \<open>\<open>bytes.fromhex\<close>: white space is skipped between the pairs, never inside one.\<close>

fun fromhex :: "string \<Rightarrow> bytes res" where
  "fromhex [] = Inr []"
| "fromhex (c # cs) =
     (if py_space c then fromhex cs
      else case cs of
        [] \<Rightarrow> Inl ValueError
      | d # ds \<Rightarrow>
          (case (hexval c, hexval d) of
             (Some h, Some l) \<Rightarrow> res_bind (fromhex ds) (\<lambda>bs. Inr (word_of_nat (16 * h + l) # bs))
           | _ \<Rightarrow> Inl ValueError))"

lemma nat_lt_16_cases:
  fixes n :: nat
  assumes "n < 16"
  shows "n \<in> {0,1,2,3,4,5,6,7,8,9,10,11,12,13,14,15}"
  using assms by (simp add: numeral_eq_Suc less_Suc_eq)

lemma hexval_hexdig [simp, hex_simps]: "n < 16 \<Longrightarrow> hexval (hexdig n) = Some n"
  by (drule nat_lt_16_cases) (auto simp: hexval_def hexdig_def Let_def)

lemma py_space_hexdig [simp, hex_simps]: "n < 16 \<Longrightarrow> \<not> py_space (hexdig n)"
  by (drule nat_lt_16_cases) (auto simp: py_space_def hexdig_def Let_def)

lemma lower_hexdig [simp, hex_simps]: "n < 16 \<Longrightarrow> lower_char (hexdig n) = hexdig n"
  by (drule nat_lt_16_cases) (auto simp: lower_char_def hexdig_def Let_def)

lemma unat_byte_bound: "unat (b :: 8 word) < 256"
  using unsigned_less [of b] by simp

lemma byte_nibbles [simp, hex_simps]:
  "unat (b :: 8 word) div 16 < 16" "unat (b :: 8 word) mod 16 < 16"
  using unat_byte_bound [of b] by (auto simp: less_mult_imp_div_less)

lemma hex_str_simps [simp]:
  "hex_str [] = []"
  "hex_str (b # bs) = hexdig (unat b div 16) # hexdig (unat b mod 16) # hex_str bs"
  "hex_str (xs @ ys) = hex_str xs @ hex_str ys"
  by (simp_all add: hex_str_def hex_byte_def)

lemma length_hex_str [simp]: "length (hex_str bs) = 2 * length bs"
  by (induction bs) auto

text \<open>Reading back what \<open>bytes.hex\<close> prints.\<close>

lemma fromhex_hex_str [simp, hex_simps]: "fromhex (hex_str bs) = Inr bs"
  by (induction bs) auto

lemma hex_str_inject [simp]: "hex_str a = hex_str b \<longleftrightarrow> a = b"
  by (metis fromhex_hex_str Inr_inject)

lemma lower_hex_str [simp, hex_simps]: "lower_str (hex_str bs) = hex_str bs"
  by (induction bs) auto

text \<open>A \<open>0x\<close>-prefixed lower-case rendering: what every digest of the on-chain tree looks like.\<close>

definition hex0x :: "bytes \<Rightarrow> string" where
  "hex0x bs = ''0x'' @ hex_str bs"

lemma hex0x_inject [simp]: "hex0x a = hex0x b \<longleftrightarrow> a = b"
  by (simp add: hex0x_def)

lemma lower_hex0x [simp, hex_simps]: "lower_str (hex0x bs) = hex0x bs"
  by (simp add: hex0x_def lower_char_def Let_def)

lemma length_hex0x [simp]: "length (hex0x bs) = 2 + 2 * length bs"
  by (simp add: hex0x_def)

lemma removeprefix_hex0x [simp, hex_simps]: "removeprefix ''0x'' (hex0x bs) = hex_str bs"
  by (simp add: removeprefix_def hex0x_def)

end
