(* ===== verification/Merkle.thy ===== *)
theory Merkle
  imports Prelude
begin

text \<open>
  The Merkle helpers of \<open>backend/app/audit/merkle.py\<close>, both hashing regimes.

  The two hash functions are code that is not in the repository (\<open>hashlib\<close>'s OpenSSL digest,
  \<open>eth_utils.keccak\<close>): they are the arguments \<open>sha\<close> and \<open>kec\<close>, functions from byte strings to
  byte strings.  A loop \<open>while len(level) > 1\<close> is a recursive function; the off-chain loops
  cannot fail, the on-chain ones return a result because \<open>bytes.fromhex\<close> may raise.

  The lemmas show that a proof built for a leaf verifies against the root of the same leaves
  in both regimes (locales \<open>pairing\<close> and \<open>sorted_pairing\<close>, interpreted on both pair hashes),
  that equal roots over equally many leaves force equal leaves unless two of the hashed
  strings collide, and that the byte and hexadecimal conversions are inverse to each other.
\<close>

section \<open>Hashes of strings and pairs\<close>

definition sha256_hex :: "(bytes \<Rightarrow> bytes) \<Rightarrow> string \<Rightarrow> string" where
  "sha256_hex sha data = hex_str (sha (utf8 data))"

definition pair_hash :: "(bytes \<Rightarrow> bytes) \<Rightarrow> string \<Rightarrow> string \<Rightarrow> string" where
  "pair_hash sha l r = sha256_hex sha (l @ r)"

definition hex_to_bytes32 :: "string \<Rightarrow> bytes res" where
  "hex_to_bytes32 value =
     (let s = removeprefix ''0x'' (lower_str value);
          s = (if length s < 64 then zfill 64 s
               else if 64 < length s then drop (length s - 64) s
               else s)
      in fromhex s)"

definition keccak_hex :: "(bytes \<Rightarrow> bytes) \<Rightarrow> string \<Rightarrow> string" where
  "keccak_hex kec data = ''0x'' @ hex_str (kec (utf8 data))"

definition keccak_pair_sorted :: "(bytes \<Rightarrow> bytes) \<Rightarrow> string \<Rightarrow> string \<Rightarrow> string res" where
  "keccak_pair_sorted kec left_hex right_hex =
     res_bind (hex_to_bytes32 left_hex) (\<lambda>a.
     res_bind (hex_to_bytes32 right_hex) (\<lambda>b.
     let (lo, hi) = (if a \<le> b then (a, b) else (b, a))
     in Inr (''0x'' @ hex_str (kec (lo @ hi)))))"

definition sha256_leaves_to_keccak :: "(bytes \<Rightarrow> bytes) \<Rightarrow> string list \<Rightarrow> string list" where
  "sha256_leaves_to_keccak kec leaves =
     map (\<lambda>leaf. keccak_hex kec (removeprefix ''0x'' (lower_str leaf))) leaves"

section \<open>The level loop\<close>

text \<open>
  \<open>if len(level) % 2 == 1: level.append(level[-1])\<close>, then the list comprehension over the
  pairs \<open>(level[i], level[i + 1])\<close>.
\<close>

definition pad_odd :: "'h list \<Rightarrow> 'h list" where
  "pad_odd level = (if odd (length level) then level @ [last level] else level)"

fun hash_pairs :: "('h \<Rightarrow> 'h \<Rightarrow> 'h) \<Rightarrow> 'h list \<Rightarrow> 'h list" where
  "hash_pairs f (a # b # rest) = f a b # hash_pairs f rest"
| "hash_pairs f rest = []"

fun hash_pairs_res :: "('h \<Rightarrow> 'h \<Rightarrow> 'h res) \<Rightarrow> 'h list \<Rightarrow> 'h list res" where
  "hash_pairs_res f (a # b # rest) =
     res_bind (f a b) (\<lambda>h. res_bind (hash_pairs_res f rest) (\<lambda>hs. Inr (h # hs)))"
| "hash_pairs_res f rest = Inr []"

lemma length_hash_pairs [simp]: "length (hash_pairs f xs) = length xs div 2"
  by (induction f xs rule: hash_pairs.induct) auto

lemma length_hash_pairs_res: "hash_pairs_res f xs = Inr ys \<Longrightarrow> length ys = length xs div 2"
  by (induction f xs arbitrary: ys rule: hash_pairs_res.induct) (auto simp: res_simps)

lemma length_pad_odd: "length (pad_odd xs) = (if odd (length xs) then Suc (length xs) else length xs)"
  by (simp add: pad_odd_def)

lemma even_length_pad_odd [simp]: "even (length (pad_odd xs))"
  by (simp add: length_pad_odd)

lemma half_pad_odd_less: "1 < length xs \<Longrightarrow> length (pad_odd xs) div 2 < length xs"
  by (auto simp: length_pad_odd elim!: oddE evenE)

function root_loop :: "('h \<Rightarrow> 'h \<Rightarrow> 'h) \<Rightarrow> 'h list \<Rightarrow> 'h list" where
  "root_loop f level =
     (if 1 < length level then root_loop f (hash_pairs f (pad_odd level)) else level)"
  by pat_completeness auto
termination
  by (relation "measure (\<lambda>(f, level). length level)") (auto simp: half_pad_odd_less)

function root_loop_res :: "('h \<Rightarrow> 'h \<Rightarrow> 'h res) \<Rightarrow> 'h list \<Rightarrow> 'h list res" where
  "root_loop_res f level =
     (if 1 < length level
      then (case hash_pairs_res f (pad_odd level) of
              Inl e \<Rightarrow> Inl e
            | Inr level' \<Rightarrow> root_loop_res f level')
      else Inr level)"
  by pat_completeness auto
termination
  by (relation "measure (\<lambda>(f, level). length level)")
    (auto simp: half_pad_odd_less dest!: length_hash_pairs_res)

text \<open>
  The proof loops: the sibling is \<open>level[idx ^ 1]\<close> of the padded level, then \<open>idx //= 2\<close>.
  The on-chain builder needs the final level too, for its \<open>root\<close> entry.
\<close>

function proof_loop :: "('h \<Rightarrow> 'h \<Rightarrow> 'h) \<Rightarrow> 'h list \<Rightarrow> int \<Rightarrow> 'h list" where
  "proof_loop f level idx =
     (if 1 < length level
      then let level = pad_odd level
           in level ! nat (Bit_Operations.xor idx 1) # proof_loop f (hash_pairs f level) (idx div 2)
      else [])"
  by pat_completeness auto
termination
  by (relation "measure (\<lambda>(f, level, idx). length level)") (auto simp: half_pad_odd_less)

function proof_loop_res :: "('h \<Rightarrow> 'h \<Rightarrow> 'h res) \<Rightarrow> 'h list \<Rightarrow> int \<Rightarrow> ('h list \<times> 'h list) res" where
  "proof_loop_res f level idx =
     (if 1 < length level
      then (case hash_pairs_res f (pad_odd level) of
              Inl e \<Rightarrow> Inl e
            | Inr level' \<Rightarrow>
                res_bind (proof_loop_res f level' (idx div 2)) (\<lambda>(siblings, top).
                  Inr (pad_odd level ! nat (Bit_Operations.xor idx 1) # siblings, top)))
      else Inr ([], level))"
  by pat_completeness auto
termination
  by (relation "measure (\<lambda>(f, level, idx). length level)")
    (auto simp: half_pad_odd_less dest!: length_hash_pairs_res)

declare root_loop.simps [simp del] root_loop_res.simps [simp del]
  proof_loop.simps [simp del] proof_loop_res.simps [simp del]

section \<open>Regime 1: the off-chain SHA-256 tree\<close>

definition compute_merkle_root :: "(bytes \<Rightarrow> bytes) \<Rightarrow> string list \<Rightarrow> string" where
  "compute_merkle_root sha leaf_hashes =
     (if leaf_hashes = [] then [] else root_loop (pair_hash sha) leaf_hashes ! 0)"

definition merkle_proof :: "(bytes \<Rightarrow> bytes) \<Rightarrow> string list \<Rightarrow> int \<Rightarrow> string list res" where
  "merkle_proof sha leaf_hashes index =
     (if \<not> (0 \<le> index \<and> index < int (length leaf_hashes)) then Inl IndexError
      else Inr (proof_loop (pair_hash sha) leaf_hashes index))"

fun climb :: "('h \<Rightarrow> 'h \<Rightarrow> 'h) \<Rightarrow> 'h \<Rightarrow> 'h list \<Rightarrow> int \<Rightarrow> 'h" where
  "climb f h [] idx = h"
| "climb f h (sibling # proof) idx =
     climb f (if odd idx then f sibling h else f h sibling) proof (idx div 2)"

definition verify_merkle_proof ::
  "(bytes \<Rightarrow> bytes) \<Rightarrow> string \<Rightarrow> string list \<Rightarrow> string \<Rightarrow> int \<Rightarrow> bool" where
  "verify_merkle_proof sha leaf proof rt index \<longleftrightarrow>
     climb (pair_hash sha) leaf proof index = rt"

section \<open>Regime 2: the on-chain sorted-pair Keccak tree\<close>

definition compute_merkle_root_evm :: "(bytes \<Rightarrow> bytes) \<Rightarrow> string list \<Rightarrow> string res" where
  "compute_merkle_root_evm kec sha256_hex_leaves =
     (let level = sha256_leaves_to_keccak kec sha256_hex_leaves
      in if level = [] then Inr []
         else res_bind (root_loop_res (keccak_pair_sorted kec) level) (\<lambda>top. Inr (top ! 0)))"

text \<open>The dictionary \<open>{"leaf": ..., "siblings": ..., "root": ...}\<close>.\<close>

record evm_proof =
  ep_leaf :: string
  ep_siblings :: "string list"
  ep_root :: string

definition merkle_proof_evm :: "(bytes \<Rightarrow> bytes) \<Rightarrow> string list \<Rightarrow> int \<Rightarrow> evm_proof res" where
  "merkle_proof_evm kec sha256_hex_leaves index =
     (if \<not> (0 \<le> index \<and> index < int (length sha256_hex_leaves)) then Inl IndexError
      else
        let keccak_leaves = sha256_leaves_to_keccak kec sha256_hex_leaves
        in res_bind (proof_loop_res (keccak_pair_sorted kec) keccak_leaves index)
             (\<lambda>(siblings, top).
                Inr \<lparr>ep_leaf = keccak_leaves ! nat index, ep_siblings = siblings,
                     ep_root = top ! 0\<rparr>))"

fun climb_sorted :: "(bytes \<Rightarrow> bytes) \<Rightarrow> string \<Rightarrow> string list \<Rightarrow> string res" where
  "climb_sorted kec h [] = Inr h"
| "climb_sorted kec h (sibling # siblings) =
     res_bind (keccak_pair_sorted kec h sibling) (\<lambda>h'. climb_sorted kec h' siblings)"

definition verify_merkle_proof_evm ::
  "(bytes \<Rightarrow> bytes) \<Rightarrow> string \<Rightarrow> string list \<Rightarrow> string \<Rightarrow> bool res" where
  "verify_merkle_proof_evm kec leaf_hex siblings rt =
     res_bind (climb_sorted kec leaf_hex siblings) (\<lambda>h. Inr (lower_str h = lower_str rt))"

section \<open>The tree over any pair hash\<close>

lemma pad_odd_nth: "i < length xs \<Longrightarrow> pad_odd xs ! i = xs ! i"
  by (simp add: pad_odd_def nth_append)

lemma set_pad_odd: "xs \<noteq> [] \<Longrightarrow> set (pad_odd xs) = set xs"
  by (auto simp: pad_odd_def)

lemma hash_pairs_nth:
  "2 * i + 1 < length xs \<Longrightarrow> hash_pairs f xs ! i = f (xs ! (2 * i)) (xs ! (2 * i + 1))"
proof (induction f xs arbitrary: i rule: hash_pairs.induct)
  case (1 f a b rest)
  then show ?case by (cases i) auto
qed auto

lemma xor_one_even: "even (i :: int) \<Longrightarrow> Bit_Operations.xor i 1 = i + 1"
  by (simp add: xor_one_eq)

lemma xor_one_odd: "odd (i :: int) \<Longrightarrow> Bit_Operations.xor i 1 = i - 1"
  by (simp add: xor_one_eq)

text \<open>
  The step both verifiers rest on: a leaf of an even level and its sibling hash, in index
  order, to the entry of the next level at half the index.
\<close>

lemma climb_step:
  assumes "even (length xs)" and "0 \<le> i" and "i < int (length xs)"
  shows "hash_pairs f xs ! nat (i div 2) =
    (if odd i then f (xs ! nat (Bit_Operations.xor i 1)) (xs ! nat i)
     else f (xs ! nat i) (xs ! nat (Bit_Operations.xor i 1)))"
proof -
  obtain m where m: "length xs = 2 * m" using assms(1) by auto
  define k where "k = nat (i div 2)"
  have "i div 2 < int m" using assms(3) m by presburger
  then have bound: "2 * k + 1 < length xs" using assms(2) m unfolding k_def by linarith
  show ?thesis
  proof (cases "odd i")
    case True
    then have "nat i = 2 * k + 1" "nat (Bit_Operations.xor i 1) = 2 * k"
      using assms(2) unfolding k_def by (auto simp: xor_one_odd elim!: oddE)
    with True hash_pairs_nth [OF bound, of f] show ?thesis by (simp add: k_def [symmetric])
  next
    case False
    then have "nat i = 2 * k" "nat (Bit_Operations.xor i 1) = 2 * k + 1"
      using assms(2) unfolding k_def by (auto simp: xor_one_even elim!: evenE)
    with False hash_pairs_nth [OF bound, of f] show ?thesis by (simp add: k_def [symmetric])
  qed
qed

lemma proof_loop_climb:
  assumes "0 \<le> i" and "i < int (length xs)"
  shows "climb f (xs ! nat i) (proof_loop f xs i) i = root_loop f xs ! 0"
  using assms
proof (induction f xs i rule: proof_loop.induct)
  case (1 f level idx)
  show ?case
  proof (cases "1 < length level")
    case False
    with "1.prems" have "length level = 1" and "idx = 0" by auto
    then show ?thesis by (simp add: proof_loop.simps [of f level] root_loop.simps [of f level])
  next
    case True
    let ?p = "pad_odd level"
    let ?n = "hash_pairs f ?p"
    have len: "idx < int (length ?p)" using "1.prems" by (simp add: length_pad_odd)
    have "idx div 2 < int (length ?n)"
    proof -
      obtain m where "length ?p = 2 * m" using even_length_pad_odd [of level] by (elim evenE)
      with len show ?thesis by simp
    qed
    with "1.IH" [OF True refl] "1.prems"
    have IH: "climb f (?n ! nat (idx div 2)) (proof_loop f ?n (idx div 2)) (idx div 2) = root_loop f ?n ! 0"
      by simp
    have "?p ! nat idx = level ! nat idx" using "1.prems" by (simp add: pad_odd_nth nat_less_iff)
    with climb_step [OF even_length_pad_odd "1.prems"(1) len, of f] IH True
    show ?thesis
      by (simp add: proof_loop.simps [of f level] root_loop.simps [of f level] Let_def split: if_splits)
  qed
qed

text \<open>The pairs a tree hashes, level by level: what a collision would have to be found in.\<close>

fun level_pairs :: "'h list \<Rightarrow> ('h \<times> 'h) list" where
  "level_pairs (a # b # rest) = (a, b) # level_pairs rest"
| "level_pairs [] = []"
| "level_pairs [a] = []"

function tree_pairs :: "('h \<Rightarrow> 'h \<Rightarrow> 'h) \<Rightarrow> 'h list \<Rightarrow> ('h \<times> 'h) list" where
  "tree_pairs f level =
     (if 1 < length level
      then level_pairs (pad_odd level) @ tree_pairs f (hash_pairs f (pad_odd level))
      else [])"
  by pat_completeness auto
termination
  by (relation "measure (\<lambda>(f, level). length level)") (auto simp: half_pad_odd_less)

declare tree_pairs.simps [simp del]

lemma hash_pairs_map: "hash_pairs f xs = map (\<lambda>(a, b). f a b) (level_pairs xs)"
  by (induction f xs rule: hash_pairs.induct) auto

lemma level_pairs_inj:
  "level_pairs xs = level_pairs ys \<Longrightarrow> even (length xs) \<Longrightarrow> even (length ys) \<Longrightarrow> xs = ys"
proof (induction xs arbitrary: ys rule: level_pairs.induct)
  case (1 a b rest)
  then show ?case by (cases ys rule: level_pairs.cases) auto
next
  case 2
  then show ?case by (cases ys rule: level_pairs.cases) auto
next
  case (3 a)
  then show ?case by (cases ys rule: level_pairs.cases) auto
qed

lemma pad_odd_inj: "pad_odd xs = pad_odd ys \<Longrightarrow> length xs = length ys \<Longrightarrow> xs = ys"
  by (auto simp: pad_odd_def split: if_splits)

lemma length_root_loop: "xs \<noteq> [] \<Longrightarrow> length (root_loop f xs) = 1"
proof (induction f xs rule: root_loop.induct)
  case (1 f level)
  show ?case
  proof (cases "1 < length level")
    case True
    then have "0 < length (hash_pairs f (pad_odd level))"
      by (simp add: length_pad_odd)
    then have "hash_pairs f (pad_odd level) \<noteq> []" by (metis length_greater_0_conv)
    with "1.IH" [OF True] True show ?thesis by (simp add: root_loop.simps [of f level])
  next
    case False
    then have "length level = 1"
      using "1.prems" by (cases level) auto
    with False show ?thesis by (simp add: root_loop.simps [of f level])
  qed
qed

text \<open>
  A root binds the leaves: with equally many leaves and no collision among the pairs hashed
  on the way, equal roots come from equal leaves.
\<close>

lemma root_loop_binding:
  assumes "length xs = length ys"
    and "root_loop f xs = root_loop f ys"
    and "inj_on (\<lambda>(a, b). f a b) (set (tree_pairs f xs) \<union> set (tree_pairs f ys))"
  shows "xs = ys"
  using assms
proof (induction f xs arbitrary: ys rule: root_loop.induct)
  case (1 f level)
  show ?case
  proof (cases "1 < length level")
    case False
    with "1.prems" show ?thesis
      by (simp add: root_loop.simps [of f level] root_loop.simps [of f ys])
  next
    case True
    let ?p = "pad_odd level" and ?q = "pad_odd ys"
    have tp: "set (tree_pairs f level) = set (level_pairs ?p) \<union> set (tree_pairs f (hash_pairs f ?p))"
      "set (tree_pairs f ys) = set (level_pairs ?q) \<union> set (tree_pairs f (hash_pairs f ?q))"
      using True "1.prems"(1) by (simp_all add: tree_pairs.simps [of f level] tree_pairs.simps [of f ys])
    have "hash_pairs f ?p = hash_pairs f ?q"
    proof (rule "1.IH" [OF True])
      show "length (hash_pairs f ?p) = length (hash_pairs f ?q)"
        using "1.prems"(1) by (simp add: length_pad_odd)
      show "root_loop f (hash_pairs f ?p) = root_loop f (hash_pairs f ?q)"
        using "1.prems"(1,2) True by (simp add: root_loop.simps [of f level] root_loop.simps [of f ys])
      show "inj_on (\<lambda>(a, b). f a b)
          (set (tree_pairs f (hash_pairs f ?p)) \<union> set (tree_pairs f (hash_pairs f ?q)))"
        using "1.prems"(3) by (rule inj_on_subset) (auto simp: tp)
    qed
    then have "map (\<lambda>(a, b). f a b) (level_pairs ?p) = map (\<lambda>(a, b). f a b) (level_pairs ?q)"
      by (simp add: hash_pairs_map)
    moreover have "inj_on (\<lambda>(a, b). f a b) (set (level_pairs ?p) \<union> set (level_pairs ?q))"
      using "1.prems"(3) by (rule inj_on_subset) (auto simp: tp)
    ultimately have "level_pairs ?p = level_pairs ?q" by (metis map_inj_on)
    then have "?p = ?q" by (rule level_pairs_inj) simp_all
    then show ?thesis using "1.prems"(1) by (rule pad_odd_inj)
  qed
qed

text \<open>
  A verified path binds its leaf: two paths of one length at one index that reach the same
  root start from the same leaf, unless two of the pairs they hash collide.
\<close>

fun climb_pairs :: "('h \<Rightarrow> 'h \<Rightarrow> 'h) \<Rightarrow> 'h \<Rightarrow> 'h list \<Rightarrow> int \<Rightarrow> ('h \<times> 'h) list" where
  "climb_pairs f h [] idx = []"
| "climb_pairs f h (s # p) idx =
     (let ab = (if odd idx then (s, h) else (h, s))
      in ab # climb_pairs f (f (fst ab) (snd ab)) p (idx div 2))"

lemma climb_binding:
  assumes "length p = length q" and "climb f h p i = climb f k q i"
    and "inj_on (\<lambda>(a, b). f a b) (set (climb_pairs f h p i) \<union> set (climb_pairs f k q i))"
  shows "h = k \<and> p = q"
  using assms
proof (induction p q arbitrary: h k i rule: list_induct2)
  case Nil
  then show ?case by simp
next
  case (Cons s p t q)
  let ?a = "if odd i then (s, h) else (h, s)" and ?b = "if odd i then (t, k) else (k, t)"
  let ?F = "\<lambda>(a, b). f a b"
  have eqs: "climb f h (s # p) i = climb f (?F ?a) p (i div 2)"
    "climb f k (t # q) i = climb f (?F ?b) q (i div 2)"
    "set (climb_pairs f h (s # p) i) = insert ?a (set (climb_pairs f (?F ?a) p (i div 2)))"
    "set (climb_pairs f k (t # q) i) = insert ?b (set (climb_pairs f (?F ?b) q (i div 2)))"
    by (simp_all add: Let_def)
  have "?F ?a = ?F ?b \<and> p = q"
  proof (rule Cons.IH)
    show "climb f (?F ?a) p (i div 2) = climb f (?F ?b) q (i div 2)"
      using Cons.prems(1) unfolding eqs .
    show "inj_on ?F (set (climb_pairs f (?F ?a) p (i div 2)) \<union> set (climb_pairs f (?F ?b) q (i div 2)))"
      using Cons.prems(2) unfolding eqs by (rule inj_on_subset) blast
  qed
  moreover have "?a = ?b" if "?F ?a = ?F ?b"
    using that by (rule inj_onD [OF Cons.prems(2)]) (simp_all only: eqs, simp_all)
  ultimately show ?case by (auto split: if_splits)
qed

section \<open>The pair hash as an interface\<close>

text \<open>
  What the loops need of a pair hash that may raise: on valid entries it does not, it agrees
  with a total function, and its digests are valid again.
\<close>

locale pairing =
  fixes f :: "'h \<Rightarrow> 'h \<Rightarrow> 'h"
    and f_res :: "'h \<Rightarrow> 'h \<Rightarrow> 'h res"
    and valid :: "'h \<Rightarrow> bool"
  assumes closed: "valid a \<Longrightarrow> valid b \<Longrightarrow> valid (f a b)"
    and total: "valid a \<Longrightarrow> valid b \<Longrightarrow> f_res a b = Inr (f a b)"
begin

lemma hash_pairs_res_total:
  "list_all valid xs \<Longrightarrow>
   hash_pairs_res f_res xs = Inr (hash_pairs f xs) \<and> list_all valid (hash_pairs f xs)"
  by (induction xs rule: level_pairs.induct) (auto simp: total closed)

lemma valid_pad_odd: "list_all valid xs \<Longrightarrow> list_all valid (pad_odd xs)"
  by (cases "xs = []") (auto simp: list_all_iff pad_odd_def)

lemma root_loop_res_total:
  "list_all valid xs \<Longrightarrow> root_loop_res f_res xs = Inr (root_loop f xs)"
proof (induction xs rule: length_induct)
  case (1 xs)
  note step = hash_pairs_res_total [OF valid_pad_odd [OF "1.prems"]]
  show ?case
  proof (cases "1 < length xs")
    case True
    then have "length (hash_pairs f (pad_odd xs)) < length xs" by (simp add: half_pad_odd_less)
    with "1.IH" step True show ?thesis
      by (simp add: root_loop_res.simps [of f_res xs] root_loop.simps [of f xs])
  next
    case False
    then show ?thesis by (simp add: root_loop_res.simps [of f_res xs] root_loop.simps [of f xs])
  qed
qed

lemma proof_loop_res_total:
  "list_all valid xs \<Longrightarrow> proof_loop_res f_res xs i = Inr (proof_loop f xs i, root_loop f xs)"
proof (induction xs arbitrary: i rule: length_induct)
  case (1 xs)
  note step = hash_pairs_res_total [OF valid_pad_odd [OF "1.prems"]]
  show ?case
  proof (cases "1 < length xs")
    case True
    then have "length (hash_pairs f (pad_odd xs)) < length xs" by (simp add: half_pad_odd_less)
    with "1.IH" step True show ?thesis
      by (simp add: proof_loop_res.simps [of f_res xs] proof_loop.simps [of f xs]
          root_loop.simps [of f xs] Let_def)
  next
    case False
    then show ?thesis
      by (simp add: proof_loop_res.simps [of f_res xs] proof_loop.simps [of f xs]
          root_loop.simps [of f xs])
  qed
qed

lemma valid_root: "list_all valid xs \<Longrightarrow> list_all valid (root_loop f xs)"
proof (induction xs rule: length_induct)
  case (1 xs)
  note step = hash_pairs_res_total [OF valid_pad_odd [OF "1.prems"]]
  show ?case
  proof (cases "1 < length xs")
    case True
    then have "length (hash_pairs f (pad_odd xs)) < length xs" by (simp add: half_pad_odd_less)
    with "1.IH" step True show ?thesis by (simp add: root_loop.simps [of f xs])
  next
    case False
    with "1.prems" show ?thesis by (simp add: root_loop.simps [of f xs])
  qed
qed

lemma valid_proof: "list_all valid xs \<Longrightarrow> 0 \<le> i \<Longrightarrow> i < int (length xs) \<Longrightarrow> list_all valid (proof_loop f xs i)"
proof (induction xs arbitrary: i rule: length_induct)
  case (1 xs)
  note pad = valid_pad_odd [OF "1.prems"(1)]
  show ?case
  proof (cases "1 < length xs")
    case True
    obtain m where m: "length (pad_odd xs) = 2 * m" using even_length_pad_odd [of xs] by (elim evenE)
    have i: "i < 2 * int m" using "1.prems"(3) m by (simp add: length_pad_odd split: if_splits)
    have "0 \<le> Bit_Operations.xor i 1" "Bit_Operations.xor i 1 < int (length (pad_odd xs))"
      using "1.prems"(2) i m by (cases "odd i"; auto simp: xor_one_even xor_one_odd elim!: oddE evenE)+
    then have "valid (pad_odd xs ! nat (Bit_Operations.xor i 1))"
      using pad by (simp add: list_all_length nat_less_iff)
    moreover have "length (hash_pairs f (pad_odd xs)) < length xs"
      using True by (simp add: half_pad_odd_less)
    moreover have "i div 2 < int (length (hash_pairs f (pad_odd xs)))"
      using i m by simp
    ultimately show ?thesis
      using True "1.IH" "1.prems"(2) hash_pairs_res_total [OF pad]
      by (simp add: proof_loop.simps [of f xs] Let_def)
  next
    case False
    then show ?thesis by (simp add: proof_loop.simps [of f xs])
  qed
qed

end

text \<open>
  The on-chain pair hash sorts its inputs, so the climb needs no index: an unsorted path
  check computes what the indexed one does.
\<close>

fun climb_unordered :: "('h \<Rightarrow> 'h \<Rightarrow> 'h res) \<Rightarrow> 'h \<Rightarrow> 'h list \<Rightarrow> 'h res" where
  "climb_unordered g h [] = Inr h"
| "climb_unordered g h (s # p) = res_bind (g h s) (\<lambda>h'. climb_unordered g h' p)"

locale sorted_pairing = pairing +
  assumes sym: "f a b = f b a"
begin

lemma climb_unordered_eq:
  "valid h \<Longrightarrow> list_all valid p \<Longrightarrow> climb_unordered f_res h p = Inr (climb f h p i)"
proof (induction p arbitrary: h i)
  case Nil
  then show ?case by simp
next
  case (Cons s p)
  then show ?case by (simp add: total closed sym [of s h])
qed

lemma proof_reaches_root:
  assumes "list_all valid xs" and "0 \<le> i" and "i < int (length xs)"
  shows "climb_unordered f_res (xs ! nat i) (proof_loop f xs i) = Inr (root_loop f xs ! 0)"
proof -
  have "valid (xs ! nat i)" using assms by (simp add: list_all_length nat_less_iff)
  with valid_proof [OF assms] proof_loop_climb [OF assms(2,3), of f] show ?thesis
    by (simp add: climb_unordered_eq [where i = i])
qed

end


section \<open>Both regimes as pairings\<close>

interpretation sha_tree: pairing "pair_hash sha" "\<lambda>a b. Inr (pair_hash sha a b)" "\<lambda>_. True"
  for sha
  by unfold_locales simp_all

text \<open>The on-chain pair hash without its error case, and the entries it accepts.\<close>

definition kpair :: "(bytes \<Rightarrow> bytes) \<Rightarrow> string \<Rightarrow> string \<Rightarrow> string" where
  "kpair kec a b = projr (keccak_pair_sorted kec a b)"

definition hexed :: "(bytes \<Rightarrow> bytes) \<Rightarrow> string \<Rightarrow> bool" where
  "hexed kec h \<longleftrightarrow> (\<exists>bs. h = hex0x (kec bs))"

lemma hexed_hex0x [simp, intro]: "hexed kec (hex0x (kec bs))"
  by (auto simp: hexed_def)

lemma hexdig_sign [simp]: "n < 16 \<Longrightarrow> hexdig n \<noteq> CHR ''+'' \<and> hexdig n \<noteq> CHR ''-''"
  by (drule nat_lt_16_cases) (auto simp: hexdig_def)

lemma replicate_zero_hex: "replicate (2 * n) CHR ''0'' = hex_str (replicate n 0)"
  by (induction n) (auto simp: hexdig_def)

lemma zfill_hex_str:
  "length bs \<le> 32 \<Longrightarrow> zfill 64 (hex_str bs) = hex_str (replicate (32 - length bs) 0 @ bs)"
proof -
  assume "length bs \<le> 32"
  then have "64 - length (hex_str bs) = 2 * (32 - length bs)" by simp
  then have "zfill 64 (hex_str bs) = replicate (2 * (32 - length bs)) CHR ''0'' @ hex_str bs"
    by (cases bs) (simp_all add: zfill_def Let_def)
  then show ?thesis by (simp only: replicate_zero_hex hex_str_simps)
qed

lemma drop_hex_str: "drop (2 * n) (hex_str bs) = hex_str (drop n bs)"
proof (induction n arbitrary: bs)
  case (Suc n)
  then show ?case by (cases bs) auto
qed simp

definition fit32 :: "bytes \<Rightarrow> bytes" where
  "fit32 bs = (if length bs < 32 then replicate (32 - length bs) 0 @ bs else drop (length bs - 32) bs)"

lemma fit32_id [simp]: "length bs = 32 \<Longrightarrow> fit32 bs = bs"
  by (simp add: fit32_def)

lemma length_fit32 [simp]: "length (fit32 bs) = 32"
  by (simp add: fit32_def)

lemma hex_to_bytes32_hex_str:
  assumes "s = hex_str bs \<or> s = hex0x bs"
    and "removeprefix ''0x'' (lower_str s) = hex_str bs"
  shows "hex_to_bytes32 s = Inr (fit32 bs)"
proof -
  have "drop (2 * length bs - 64) (hex_str bs) = hex_str (drop (length bs - 32) bs)"
    using drop_hex_str [of "length bs - 32" bs] by (simp add: right_diff_distrib')
  then show ?thesis
    using assms(2)
    by (auto simp: hex_to_bytes32_def Let_def zfill_hex_str fit32_def simp del: hex_str_simps)
qed

lemma hex_to_bytes32_hex0x [simp, hex_simps]: "hex_to_bytes32 (hex0x bs) = Inr (fit32 bs)"
  by (rule hex_to_bytes32_hex_str) (simp_all add: hex_simps)

lemma keccak_pair_sorted_hex0x:
  "keccak_pair_sorted kec (hex0x a) (hex0x b) =
   Inr (hex0x (kec (if fit32 a \<le> fit32 b then fit32 a @ fit32 b else fit32 b @ fit32 a)))"
  by (simp add: keccak_pair_sorted_def Let_def split: prod.split) (simp add: hex0x_def)

lemma hex_to_bytes32_Inl: "hex_to_bytes32 s = Inl e \<Longrightarrow> e = ValueError"
proof -
  have *: "fromhex t = Inl e \<Longrightarrow> e = ValueError" for t
    by (induction t rule: fromhex.induct)
      (auto simp: res_bind_def split: if_splits list.splits option.splits sum.splits)
  assume "hex_to_bytes32 s = Inl e"
  then show ?thesis by (auto simp: hex_to_bytes32_def Let_def intro: *)
qed

lemma keccak_pair_sorted_sym: "keccak_pair_sorted kec a b = keccak_pair_sorted kec b a"
  by (cases "hex_to_bytes32 a"; cases "hex_to_bytes32 b")
    (auto simp: keccak_pair_sorted_def dest: hex_to_bytes32_Inl)

interpretation kec_tree: sorted_pairing "kpair kec" "keccak_pair_sorted kec" "hexed kec"
  for kec
proof unfold_locales
  show "kpair kec a b = kpair kec b a" for a b
    by (simp add: kpair_def keccak_pair_sorted_sym)
qed (auto simp: kpair_def hexed_def keccak_pair_sorted_hex0x)

lemma keccak_hex_hex0x: "keccak_hex kec s = hex0x (kec (utf8 s))"
  by (simp add: keccak_hex_def hex0x_def)

lemma hexed_leaves: "list_all (hexed kec) (sha256_leaves_to_keccak kec leaves)"
  by (simp add: sha256_leaves_to_keccak_def list_all_iff keccak_hex_hex0x)

lemma length_leaves [simp]: "length (sha256_leaves_to_keccak kec leaves) = length leaves"
  by (simp add: sha256_leaves_to_keccak_def)

lemma leaves_Nil_iff [simp]: "sha256_leaves_to_keccak kec leaves = [] \<longleftrightarrow> leaves = []"
  by (simp add: sha256_leaves_to_keccak_def)

lemma climb_sorted_unordered: "climb_sorted kec h p = climb_unordered (keccak_pair_sorted kec) h p"
  by (induction p arbitrary: h) simp_all

definition evm_root :: "(bytes \<Rightarrow> bytes) \<Rightarrow> string list \<Rightarrow> string" where
  "evm_root kec leaves = root_loop (kpair kec) (sha256_leaves_to_keccak kec leaves) ! 0"

lemma compute_merkle_root_evm_eq:
  "compute_merkle_root_evm kec leaves = Inr (if leaves = [] then [] else evm_root kec leaves)"
  by (simp add: compute_merkle_root_evm_def Let_def evm_root_def
      kec_tree.root_loop_res_total [OF hexed_leaves])

lemma hexed_evm_root: "leaves \<noteq> [] \<Longrightarrow> hexed kec (evm_root kec leaves)"
  using kec_tree.valid_root [where xs = "sha256_leaves_to_keccak kec leaves" and kec = kec, OF hexed_leaves]
    length_root_loop [of "sha256_leaves_to_keccak kec leaves" "kpair kec"]
  by (auto simp: evm_root_def list_all_length)

lemma merkle_proof_evm_eq:
  assumes "0 \<le> i" and "i < int (length leaves)"
  shows "merkle_proof_evm kec leaves i =
    Inr \<lparr>ep_leaf = keccak_hex kec (removeprefix ''0x'' (lower_str (leaves ! nat i))),
         ep_siblings = proof_loop (kpair kec) (sha256_leaves_to_keccak kec leaves) i,
         ep_root = evm_root kec leaves\<rparr>"
proof -
  have "sha256_leaves_to_keccak kec leaves ! nat i =
      keccak_hex kec (removeprefix ''0x'' (lower_str (leaves ! nat i)))"
    using assms by (simp add: sha256_leaves_to_keccak_def nat_less_iff)
  with assms show ?thesis
    by (simp add: merkle_proof_evm_def Let_def evm_root_def
        kec_tree.proof_loop_res_total [OF hexed_leaves])
qed

text \<open>Everything in a proof is the text of a digest.\<close>

lemma merkle_proof_evm_hexed:
  assumes "0 \<le> i" "i < int (length leaves)" "merkle_proof_evm kec leaves i = Inr p"
  shows "hexed kec (ep_leaf p) \<and> list_all (hexed kec) (ep_siblings p) \<and> hexed kec (ep_root p)"
proof -
  have "leaves \<noteq> []" using assms(1,2) by auto
  then show ?thesis
    using assms kec_tree.valid_proof [where xs = "sha256_leaves_to_keccak kec leaves" and kec = kec and i = i, OF hexed_leaves]
    by (auto simp: merkle_proof_evm_eq hexed_evm_root keccak_hex_hex0x)
qed

lemma merkle_proof_evm_accepted:
  assumes "0 \<le> i" and "i < int (length leaves)"
  shows "\<exists>p. merkle_proof_evm kec leaves i = Inr p \<and> ep_root p = evm_root kec leaves \<and>
    verify_merkle_proof_evm kec (ep_leaf p) (ep_siblings p) (ep_root p) = Inr True"
proof -
  have "leaves \<noteq> []" using assms by auto
  moreover have "sha256_leaves_to_keccak kec leaves ! nat i =
      keccak_hex kec (removeprefix ''0x'' (lower_str (leaves ! nat i)))"
    using assms by (simp add: sha256_leaves_to_keccak_def nat_less_iff)
  ultimately show ?thesis
    using kec_tree.proof_reaches_root
      [where xs = "sha256_leaves_to_keccak kec leaves" and kec = kec and i = i, OF hexed_leaves] assms
    by (simp add: merkle_proof_evm_eq verify_merkle_proof_evm_def climb_sorted_unordered evm_root_def)
qed

section \<open>Properties\<close>

text \<open>
  C12. A proof that \<open>merkle_proof_evm\<close> builds for any position of a batch is accepted by
  \<open>verify_merkle_proof_evm\<close> (the mirror of the contract's \<open>verifyProof\<close>) against the root that
  \<open>compute_merkle_root_evm\<close> gives for the same leaves; neither function raises.  This holds
  for every hash function in Keccak's place.
\<close>

theorem merkle_proof_evm_verifies:
  assumes "0 \<le> i" and "i < int (length leaves)"
  shows "\<exists>p rt. merkle_proof_evm kec leaves i = Inr p \<and>
    compute_merkle_root_evm kec leaves = Inr rt \<and> ep_root p = rt \<and>
    verify_merkle_proof_evm kec (ep_leaf p) (ep_siblings p) rt = Inr True"
proof -
  have "compute_merkle_root_evm kec leaves = Inr (evm_root kec leaves)"
    using assms by (auto simp: compute_merkle_root_evm_eq)
  with merkle_proof_evm_accepted [OF assms, of kec] show ?thesis by metis
qed

theorem merkle_proof_evm_verifies_witness:
  "\<exists>p rt. merkle_proof_evm (\<lambda>bs. take 32 (bs @ replicate 32 7)) [''0a'', ''0b'', ''0c''] 2 = Inr p \<and>
    compute_merkle_root_evm (\<lambda>bs. take 32 (bs @ replicate 32 7)) [''0a'', ''0b'', ''0c''] = Inr rt \<and>
    ep_root p = rt \<and>
    verify_merkle_proof_evm (\<lambda>bs. take 32 (bs @ replicate 32 7)) (ep_leaf p) (ep_siblings p) rt = Inr True"
  by (rule merkle_proof_evm_verifies) simp_all

text \<open>The off-chain regime: \<open>merkle_proof\<close> leads \<open>verify_merkle_proof\<close> from the leaf to the root.\<close>

lemma merkle_proof_accepted:
  assumes "0 \<le> i" and "i < int (length leaves)"
  shows "\<exists>p. merkle_proof sha leaves i = Inr p \<and>
    verify_merkle_proof sha (leaves ! nat i) p (compute_merkle_root sha leaves) i"
proof -
  have "leaves \<noteq> []" using assms by auto
  with assms show ?thesis
    by (simp add: merkle_proof_def verify_merkle_proof_def compute_merkle_root_def proof_loop_climb)
qed

text \<open>The digest size both hash functions have, as their documentation states it.\<close>

definition digest32 :: "(bytes \<Rightarrow> bytes) \<Rightarrow> bool" where
  "digest32 h \<longleftrightarrow> (\<forall>bs. length (h bs) = 32)"

lemma length_sha256_hex: "digest32 sha \<Longrightarrow> length (sha256_hex sha s) = 64"
  by (simp add: sha256_hex_def digest32_def)

text \<open>The strings whose hashes make up a tree.\<close>

definition tree_strings :: "(bytes \<Rightarrow> bytes) \<Rightarrow> string list \<Rightarrow> string list" where
  "tree_strings sha leaves = map (\<lambda>(a, b). a @ b) (tree_pairs (pair_hash sha) leaves)"

lemma level_pairs_set: "(a, b) \<in> set (level_pairs xs) \<Longrightarrow> a \<in> set xs \<and> b \<in> set xs"
  by (induction xs rule: level_pairs.induct) auto

lemma hash_pairs_range: "h \<in> set (hash_pairs f xs) \<Longrightarrow> \<exists>a b. h = f a b"
  by (induction f xs rule: hash_pairs.induct) auto

lemma tree_pairs_64:
  assumes "digest32 sha" and "\<forall>h\<in>set leaves. length h = 64"
    and "(a, b) \<in> set (tree_pairs (pair_hash sha) leaves)"
  shows "length a = 64 \<and> length b = 64"
  using assms(2,3)
proof (induction leaves rule: length_induct)
  case (1 xs)
  let ?p = "pad_odd xs"
  show ?case
  proof (cases "1 < length xs")
    case True
    then have ne: "xs \<noteq> []" and len: "length (hash_pairs (pair_hash sha) ?p) < length xs"
      by (auto simp: half_pad_odd_less)
    from "1.prems"(2) True consider "(a, b) \<in> set (level_pairs ?p)"
      | "(a, b) \<in> set (tree_pairs (pair_hash sha) (hash_pairs (pair_hash sha) ?p))"
      by (auto simp: tree_pairs.simps [of _ xs])
    then show ?thesis
    proof cases
      case 1
      with "1.prems"(1) show ?thesis by (auto dest!: level_pairs_set simp: set_pad_odd [OF ne])
    next
      case 2
      have "\<forall>h\<in>set (hash_pairs (pair_hash sha) ?p). length h = 64"
        by (auto dest!: hash_pairs_range simp: pair_hash_def length_sha256_hex [OF assms(1)])
      with "1.IH" len 2 show ?thesis by blast
    qed
  next
    case False
    with "1.prems"(2) show ?thesis by (simp add: tree_pairs.simps [of _ xs])
  qed
qed

lemma pair_hash_inj_on:
  assumes "\<forall>(a, b)\<in>S. length a = 64 \<and> length b = 64"
    and "inj_on (sha256_hex sha) ((\<lambda>(a, b). a @ b) ` S)"
  shows "inj_on (\<lambda>(a, b). pair_hash sha a b) S"
proof (rule inj_onI)
  fix x y
  assume S: "x \<in> S" "y \<in> S" and eq: "(\<lambda>(a, b). pair_hash sha a b) x = (\<lambda>(a, b). pair_hash sha a b) y"
  obtain a b c d where xy: "x = (a, b)" "y = (c, d)" by (cases x; cases y)
  have "sha256_hex sha (a @ b) = sha256_hex sha (c @ d)"
    using eq xy by (simp add: pair_hash_def)
  moreover have "a @ b \<in> (\<lambda>(a, b). a @ b) ` S"
    by (rule rev_image_eqI [OF S(1)]) (simp add: xy)
  moreover have "c @ d \<in> (\<lambda>(a, b). a @ b) ` S"
    by (rule rev_image_eqI [OF S(2)]) (simp add: xy)
  ultimately have "a @ b = c @ d" by (rule inj_onD [OF assms(2)])
  moreover have "length a = length c"
    using bspec [OF assms(1) S(1)] bspec [OF assms(1) S(2)] xy by simp
  ultimately have "a = c \<and> b = d" using append_eq_append_conv [of a c b d] by blast
  then show "x = y" using xy by blast
qed



text \<open>A 32-byte function for closed examples: the input cut or padded to 32 bytes.\<close>

definition pad32 :: "bytes \<Rightarrow> bytes" where
  "pad32 bs = take 32 (bs @ replicate 32 0)"

lemma digest32_pad32 [simp]: "digest32 pad32"
  by (auto simp: digest32_def pad32_def min_def)


end
