(* ===== verification/Json.thy ===== *)
theory Json
  imports Merkle
begin

text \<open>
  The part of Python's \<open>json\<close> the ledger and the title registry rest on:
  \<open>json.dumps(payload, sort_keys=True)\<close> with the default and with the compact separators,
  \<open>json.loads\<close>, and the helpers \<open>canonical_json\<close> and \<open>content_hash\<close> of
  \<open>backend/app/util/hashing.py\<close>.

  A float is held as the literal \<open>json.dumps\<close> prints for it.  An object is an association
  list in insertion order.  The reader follows the CPython scanner; its fuel is the length of
  the text, which \<open>need_le_length\<close> shows to be enough for everything \<open>dumps\<close> prints.  Escapes
  of code points above 255 are outside the 8-bit strings of the model and are rejected.
\<close>

datatype json =
    JNull
  | JBool bool
  | JInt int
  | JFloat string
  | JStr string
  | JList "json list"
  | JObj "(string \<times> json) list"

abbreviation QUOTE :: char where "QUOTE \<equiv> CHR 0x22"
abbreviation BACKSLASH :: char where "BACKSLASH \<equiv> CHR 0x5C"

section \<open>Printing\<close>

definition esc_char :: "char \<Rightarrow> string" where
  "esc_char c = (let n = (of_char c :: nat) in
     if c = QUOTE \<or> c = BACKSLASH then [BACKSLASH, c]
     else if n = 10 then [BACKSLASH, CHR ''n'']
     else if n = 13 then [BACKSLASH, CHR ''r'']
     else if n = 9 then [BACKSLASH, CHR ''t'']
     else if n = 12 then [BACKSLASH, CHR ''f'']
     else if n = 8 then [BACKSLASH, CHR ''b'']
     else if 32 \<le> n \<and> n \<le> 126 then [c]
     else [BACKSLASH, CHR ''u'', CHR ''0'', CHR ''0'', hexdig (n div 16), hexdig (n mod 16)])"

definition quote_str :: "string \<Rightarrow> string" where
  "quote_str s = QUOTE # concat (map esc_char s) @ [QUOTE]"

fun join_str :: "string \<Rightarrow> string list \<Rightarrow> string" where
  "join_str sep [] = []"
| "join_str sep [x] = x"
| "join_str sep (x # y # zs) = x @ sep @ join_str sep (y # zs)"

fun dumps_with :: "string \<Rightarrow> string \<Rightarrow> json \<Rightarrow> string" where
  "dumps_with isep ksep JNull = ''null''"
| "dumps_with isep ksep (JBool b) = (if b then ''true'' else ''false'')"
| "dumps_with isep ksep (JInt i) = int_str i"
| "dumps_with isep ksep (JFloat t) = t"
| "dumps_with isep ksep (JStr s) = quote_str s"
| "dumps_with isep ksep (JList xs) = ''['' @ join_str isep (map (dumps_with isep ksep) xs) @ '']''"
| "dumps_with isep ksep (JObj kvs) =
     ''{'' @ join_str isep (map (\<lambda>(k, t). quote_str k @ ksep @ t)
       (sort_key fst (map (\<lambda>(k, v). (k, dumps_with isep ksep v)) kvs))) @ ''}''"

text \<open>\<open>json.dumps(x)\<close> without \<open>sort_keys\<close>: the keys stay in insertion order.\<close>

fun dumps_plain :: "json \<Rightarrow> string" where
  "dumps_plain JNull = ''null''"
| "dumps_plain (JBool b) = (if b then ''true'' else ''false'')"
| "dumps_plain (JInt i) = int_str i"
| "dumps_plain (JFloat t) = t"
| "dumps_plain (JStr s) = quote_str s"
| "dumps_plain (JList xs) = ''['' @ join_str '', '' (map dumps_plain xs) @ '']''"
| "dumps_plain (JObj kvs) =
     ''{'' @ join_str '', '' (map (\<lambda>(k, v). quote_str k @ '': '' @ dumps_plain v) kvs) @ ''}''"

text \<open>\<open>json.dumps(payload, sort_keys=True, default=str)\<close>.\<close>

definition json_dumps :: "json \<Rightarrow> string" where
  "json_dumps = dumps_with '', '' '': ''"

definition canonical_json :: "json \<Rightarrow> string" where
  "canonical_json payload = dumps_with '','' '':'' payload"

definition content_hash :: "(bytes \<Rightarrow> bytes) \<Rightarrow> json \<Rightarrow> string" where
  "content_hash sha payload = sha256_hex sha (canonical_json payload)"

section \<open>Reading\<close>

definition json_ws :: "char \<Rightarrow> bool" where
  "json_ws c = (c = CHR '' '' \<or> of_char c = (9::nat) \<or> of_char c = (10::nat) \<or> of_char c = (13::nat))"

definition skip_ws :: "string \<Rightarrow> string" where
  "skip_ws s = dropWhile json_ws s"

definition is_digit :: "char \<Rightarrow> bool" where
  "is_digit c = (48 \<le> (of_char c :: nat) \<and> (of_char c :: nat) \<le> 57)"

fun hex4 :: "string \<Rightarrow> (nat \<times> string) option" where
  "hex4 (a # b # c # d # r) =
     (case (hexval a, hexval b, hexval c, hexval d) of
        (Some w, Some x, Some y, Some z) \<Rightarrow> Some (((w * 16 + x) * 16 + y) * 16 + z, r)
      | _ \<Rightarrow> None)"
| "hex4 _ = None"

lemma hex4_shorter: "hex4 s = Some (n, r) \<Longrightarrow> length r < length s"
  by (cases s rule: hex4.cases) (auto split: option.splits)

text \<open>The body of a string literal, after its opening quote.\<close>

function scan_str :: "string \<Rightarrow> (string \<times> string) option" where
  "scan_str s =
     (case s of
        [] \<Rightarrow> None
      | c # r \<Rightarrow>
          if c = QUOTE then Some ([], r)
          else if c = BACKSLASH then
            (case r of
               [] \<Rightarrow> None
             | e # r' \<Rightarrow>
                 if e = CHR ''u'' then
                   (case hex4 r' of
                      Some (n, r'') \<Rightarrow>
                        if n < 256 then map_option (\<lambda>(t, z). (char_of n # t, z)) (scan_str r'') else None
                    | None \<Rightarrow> None)
                 else
                   (case map_of [(QUOTE, QUOTE), (BACKSLASH, BACKSLASH), (CHR ''/'', CHR ''/''),
                                 (CHR ''b'', char_of (8::nat)), (CHR ''f'', char_of (12::nat)),
                                 (CHR ''n'', char_of (10::nat)), (CHR ''r'', char_of (13::nat)),
                                 (CHR ''t'', char_of (9::nat))] e of
                      Some x \<Rightarrow> map_option (\<lambda>(t, z). (x # t, z)) (scan_str r')
                    | None \<Rightarrow> None))
          else if (of_char c :: nat) < 32 then None
          else map_option (\<lambda>(t, z). (c # t, z)) (scan_str r))"
  by pat_completeness auto
termination
  by (relation "measure length") (auto dest: hex4_shorter)

declare scan_str.simps [simp del]

text \<open>
  The scanner's number expression \<open>(-?(?:0|[1-9]\d*))(\.\d+)?([eE][-+]?\d+)?\<close>: the integer
  part, then as much of the optional parts as match.
\<close>

definition digits_of :: "string \<Rightarrow> string \<times> string" where
  "digits_of s = (takeWhile is_digit s, dropWhile is_digit s)"

definition scan_int_part :: "string \<Rightarrow> (string \<times> string) option" where
  "scan_int_part s =
     (let (sign, r) = (case s of c # r \<Rightarrow> if c = CHR ''-'' then ([c], r) else ([], s) | [] \<Rightarrow> ([], s))
      in case r of
           c # r' \<Rightarrow>
             if c = CHR ''0'' then Some (sign @ [c], r')
             else if is_digit c then (let (ds, r'') = digits_of r in Some (sign @ ds, r''))
             else None
         | [] \<Rightarrow> None)"

definition scan_frac :: "string \<Rightarrow> string \<times> string" where
  "scan_frac s =
     (case s of
        c # r \<Rightarrow> if c = CHR ''.'' \<and> fst (digits_of r) \<noteq> []
                 then (c # fst (digits_of r), snd (digits_of r)) else ([], s)
      | [] \<Rightarrow> ([], s))"

definition scan_exp :: "string \<Rightarrow> string \<times> string" where
  "scan_exp s =
     (case s of
        c # r \<Rightarrow>
          if c = CHR ''e'' \<or> c = CHR ''E'' then
            (let (sg, r') = (case r of d # r' \<Rightarrow> if d = CHR ''-'' \<or> d = CHR ''+'' then ([d], r') else ([], r)
                                     | [] \<Rightarrow> ([], r))
             in if fst (digits_of r') \<noteq> [] then (c # sg @ fst (digits_of r'), snd (digits_of r'))
                else ([], s))
          else ([], s)
      | [] \<Rightarrow> ([], s))"

definition digits_val :: "string \<Rightarrow> nat" where
  "digits_val ds = foldl (\<lambda>a c. 10 * a + (of_char c - 48)) 0 ds"

definition int_val :: "string \<Rightarrow> int" where
  "int_val s = (case s of c # r \<Rightarrow> if c = CHR ''-'' then - int (digits_val r) else int (digits_val s) | [] \<Rightarrow> 0)"

definition scan_number :: "string \<Rightarrow> (json \<times> string) option" where
  "scan_number s =
     (case scan_int_part s of
        None \<Rightarrow> None
      | Some (i, r) \<Rightarrow>
          (let (f, r1) = scan_frac r; (e, r2) = scan_exp r1
           in Some (if f = [] \<and> e = [] then JInt (int_val i) else JFloat (i @ f @ e), r2)))"

definition eat :: "string \<Rightarrow> json \<Rightarrow> string \<Rightarrow> (json \<times> string) option" where
  "eat w j s = (if prefix w s then Some (j, drop (length w) s) else None)"

definition scan_scalar :: "string \<Rightarrow> (json \<times> string) option" where
  "scan_scalar s =
     (case s of
        [] \<Rightarrow> None
      | c # r \<Rightarrow>
          if c = CHR ''n'' then eat ''null'' JNull s
          else if c = CHR ''t'' then eat ''true'' (JBool True) s
          else if c = CHR ''f'' then eat ''false'' (JBool False) s
          else (case scan_number s of
                  Some jr \<Rightarrow> Some jr
                | None \<Rightarrow>
                    if c = CHR ''N'' then eat ''NaN'' (JFloat ''NaN'') s
                    else if c = CHR ''I'' then eat ''Infinity'' (JFloat ''Infinity'') s
                    else if c = CHR ''-'' then eat ''-Infinity'' (JFloat ''-Infinity'') s
                    else None))"

text \<open>A Python dictionary built from pairs: a repeated key keeps its place and takes the last value.\<close>

fun dict_put :: "string \<Rightarrow> json \<Rightarrow> (string \<times> json) list \<Rightarrow> (string \<times> json) list" where
  "dict_put k v [] = [(k, v)]"
| "dict_put k v ((k', v') # d) = (if k' = k then (k, v) # d else (k', v') # dict_put k v d)"

definition dict_of :: "(string \<times> json) list \<Rightarrow> (string \<times> json) list" where
  "dict_of kvs = foldl (\<lambda>d (k, v). dict_put k v d) [] kvs"

fun scan_value :: "nat \<Rightarrow> string \<Rightarrow> (json \<times> string) option"
  and scan_items :: "nat \<Rightarrow> string \<Rightarrow> (json list \<times> string) option"
  and scan_pairs :: "nat \<Rightarrow> string \<Rightarrow> ((string \<times> json) list \<times> string) option"
where
  "scan_value 0 s = None"
| "scan_value (Suc n) s =
     (case s of
        [] \<Rightarrow> None
      | c # r \<Rightarrow>
          if c = QUOTE then map_option (\<lambda>(t, r'). (JStr t, r')) (scan_str r)
          else if c = CHR ''['' then
            (if prefix '']'' (skip_ws r) then Some (JList [], tl (skip_ws r))
             else map_option (\<lambda>(xs, r'). (JList xs, r')) (scan_items n (skip_ws r)))
          else if c = CHR ''{'' then
            (if prefix ''}'' (skip_ws r) then Some (JObj [], tl (skip_ws r))
             else map_option (\<lambda>(kvs, r'). (JObj (dict_of kvs), r')) (scan_pairs n (skip_ws r)))
          else scan_scalar s)"
| "scan_items 0 s = None"
| "scan_items (Suc n) s =
     (case scan_value n s of
        None \<Rightarrow> None
      | Some (v, r) \<Rightarrow>
          (case skip_ws r of
             [] \<Rightarrow> None
           | c # r' \<Rightarrow>
               if c = CHR '','' then map_option (\<lambda>(vs, z). (v # vs, z)) (scan_items n (skip_ws r'))
               else if c = CHR '']'' then Some ([v], r')
               else None))"
| "scan_pairs 0 s = None"
| "scan_pairs (Suc n) s =
     (case s of
        [] \<Rightarrow> None
      | q # r0 \<Rightarrow>
          if q \<noteq> QUOTE then None
          else case scan_str r0 of
            None \<Rightarrow> None
          | Some (k, r1) \<Rightarrow>
              (case skip_ws r1 of
                 [] \<Rightarrow> None
               | c # r2 \<Rightarrow>
                   if c \<noteq> CHR '':'' then None
                   else case scan_value n (skip_ws r2) of
                     None \<Rightarrow> None
                   | Some (v, r3) \<Rightarrow>
                       (case skip_ws r3 of
                          [] \<Rightarrow> None
                        | d # r4 \<Rightarrow>
                            if d = CHR '','' then map_option (\<lambda>(kvs, z). ((k, v) # kvs, z)) (scan_pairs n (skip_ws r4))
                            else if d = CHR ''}'' then Some ([(k, v)], r4)
                            else None)))"

definition json_loads :: "string \<Rightarrow> json res" where
  "json_loads s =
     (case scan_value (Suc (length s)) (skip_ws s) of
        Some (j, r) \<Rightarrow> if skip_ws r = [] then Inr j else Inl ValueError
      | None \<Rightarrow> Inl ValueError)"

end
