(* ===== verification/Json_Roundtrip.thy ===== *)
theory Json_Roundtrip
  imports Json "HOL-Library.Multiset"
begin

text \<open>
  Reading with \<open>json.loads\<close> what \<open>json.dumps\<close> printed.  The locale \<open>printer\<close> is what the three ways of
  printing share (an arrangement of the keys, a separator after the colon); its interpretations are the
  sorted text of the ledger, the compact canonical text that is hashed and the text in insertion order
  of the stored columns.  Each reads back as the arranged value, and printing that again gives the same text.
\<close>

section \<open>Reading back what was printed\<close>

text \<open>Objects have distinct keys and floats are literals the scanner reads as a whole.\<close>

definition float_lit :: "string \<Rightarrow> bool" where
  "float_lit t \<longleftrightarrow> scan_number t = Some (JFloat t, []) \<or> t \<in> {''NaN'', ''Infinity'', ''-Infinity''}"

fun wf_json :: "json \<Rightarrow> bool" where
  "wf_json (JFloat t) = float_lit t"
| "wf_json (JList xs) = list_all wf_json xs"
| "wf_json (JObj kvs) = (distinct (map fst kvs) \<and> list_all (\<lambda>(k, v). wf_json v) kvs)"
| "wf_json _ = True"

text \<open>The value read back: the same one with the keys of every object in order.\<close>

fun canon :: "json \<Rightarrow> json" where
  "canon (JList xs) = JList (map canon xs)"
| "canon (JObj kvs) = JObj (sort_key fst (map (\<lambda>(k, v). (k, canon v)) kvs))"
| "canon j = j"

fun need :: "json \<Rightarrow> nat" where
  "need (JList xs) = Suc (sum_list (map (\<lambda>x. Suc (need x)) xs))"
| "need (JObj kvs) = Suc (sum_list (map (\<lambda>(k, v). Suc (need v)) kvs))"
| "need _ = 1"

definition delimited :: "string \<Rightarrow> bool" where
  "delimited r \<longleftrightarrow> (case r of [] \<Rightarrow> True | c # _ \<Rightarrow> c = CHR '','' \<or> c = CHR '']'' \<or> c = CHR ''}'' \<or> json_ws c)"

lemma char_code_bound [simp]: "(of_char c :: nat) < 256"
  by (metis of_char_mod_256 mod_less_divisor zero_less_numeral)

lemma hexval_0 [simp]: "hexval CHR ''0'' = Some 0"
  by (simp add: hexval_def Let_def)

lemma scan_str_esc: "scan_str (esc_char c @ t) = map_option (\<lambda>(u, z). (c # u, z)) (scan_str t)"
proof -
  have div16: "(of_char c :: nat) div 16 < 16" by (rule less_mult_imp_div_less) simp
  consider "c = QUOTE \<or> c = BACKSLASH"
    | "c \<noteq> QUOTE" "c \<noteq> BACKSLASH" "(of_char c :: nat) \<in> {8, 9, 10, 12, 13}"
    | "c \<noteq> QUOTE" "c \<noteq> BACKSLASH" "(of_char c :: nat) \<notin> {8, 9, 10, 12, 13}" by blast
  then show ?thesis
  proof cases
    case 1
    then show ?thesis by (auto simp: esc_char_def Let_def scan_str.simps [of "_ # _"])
  next
    case 2
    have code: "char_of n = c" if "(of_char c :: nat) = n" for n :: nat
      using that by auto
    from 2 show ?thesis
      by (auto simp: esc_char_def Let_def scan_str.simps [of "_ # _"] dest: code)
  next
    case 3
    then show ?thesis
      using div16 by (auto simp: esc_char_def Let_def scan_str.simps [of "_ # _"])
  qed
qed

lemma scan_str_quote: "scan_str (concat (map esc_char s) @ QUOTE # rest) = Some (s, rest)"
  by (induction s) (auto simp: scan_str_esc, simp add: scan_str.simps)

lemma takeWhile_dropWhile_stop:
  "(case r of [] \<Rightarrow> True | c # _ \<Rightarrow> \<not> P c) \<Longrightarrow>
   takeWhile P (t @ r) = takeWhile P t \<and> dropWhile P (t @ r) = dropWhile P t @ r"
  by (induction t) (auto split: list.splits)

lemma delimited_stop:
  assumes "delimited r"
  shows "(case r of [] \<Rightarrow> True | c # _ \<Rightarrow> \<not> is_digit c)"
    "(case r of [] \<Rightarrow> True | c # _ \<Rightarrow>
       c \<notin> {CHR ''.'', CHR ''e'', CHR ''E'', CHR ''-'', CHR ''+''})"
  using assms by (auto simp: delimited_def is_digit_def json_ws_def split: list.splits)

lemma digits_of_append:
  "delimited r \<Longrightarrow> digits_of (t @ r) = (fst (digits_of t), snd (digits_of t) @ r)"
  using takeWhile_dropWhile_stop [OF delimited_stop(1)] by (simp add: digits_of_def)

lemma scan_int_part_append:
  assumes "scan_int_part t = Some (i, z)" and "delimited r"
  shows "scan_int_part (t @ r) = Some (i, z @ r)"
proof (cases t)
  case Nil
  with assms show ?thesis by (simp add: scan_int_part_def)
next
  case (Cons c t')
  show ?thesis
  proof (cases "c = CHR ''-''")
    case True
    with assms Cons show ?thesis
      by (cases t') (auto simp: scan_int_part_def Let_def split: if_splits prod.splits
          dest: digits_of_append [where t = t'])
  next
    case False
    with assms Cons digits_of_append [OF assms(2), of t] show ?thesis
      by (auto simp: scan_int_part_def Let_def split: if_splits prod.splits)
  qed
qed

lemma scan_frac_append:
  assumes "delimited r"
  shows "scan_frac (t @ r) = (fst (scan_frac t), snd (scan_frac t) @ r)"
proof (cases t)
  case Nil
  then show ?thesis
    using delimited_stop(2) [OF assms] by (auto simp: scan_frac_def split: list.splits)
next
  case (Cons c t')
  then show ?thesis by (simp add: scan_frac_def digits_of_append [OF assms])
qed

lemma scan_exp_append:
  assumes "delimited r"
  shows "scan_exp (t @ r) = (fst (scan_exp t), snd (scan_exp t) @ r)"
proof (cases t)
  case Nil
  then show ?thesis
    using delimited_stop(2) [OF assms] by (auto simp: scan_exp_def split: list.splits)
next
  case (Cons c t')
  have empty: "fst (digits_of r) = []"
    using delimited_stop(1) [OF assms] by (auto simp: digits_of_def split: list.splits)
  show ?thesis
  proof (cases t')
    case Nil
    with Cons empty delimited_stop(2) [OF assms] show ?thesis
      by (auto simp: scan_exp_def Let_def digits_of_def split: list.splits)
  next
    case (Cons d u)
    with \<open>t = c # t'\<close> digits_of_append [OF assms, of u] digits_of_append [OF assms, of "d # u"]
    show ?thesis by (simp add: scan_exp_def Let_def)
  qed
qed

lemma scan_number_append:
  assumes "scan_number t = Some (j, [])" and "delimited r"
  shows "scan_number (t @ r) = Some (j, r)"
  using assms
  by (auto simp: scan_number_def Let_def scan_int_part_append scan_frac_append scan_exp_append
      split: option.splits prod.splits)


section \<open>Numbers\<close>

lemma of_char_digit_char [simp]: "d < 10 \<Longrightarrow> (of_char (digit_char d) :: nat) = 48 + d"
  by (simp add: digit_char_def)

lemma is_digit_digit_char [simp]: "d < 10 \<Longrightarrow> is_digit (digit_char d)"
  by (simp add: is_digit_def)

lemma nat_str_digits: "c \<in> set (nat_str n) \<Longrightarrow> is_digit c"
proof (induction n rule: nat_str.induct)
  case (1 n)
  then show ?case by (subst (asm) nat_str.simps) (auto split: if_splits)
qed

lemma nat_str_not_Nil [simp]: "nat_str n \<noteq> []"
  by (subst nat_str.simps) simp

lemma digits_val_snoc: "digits_val (ds @ [c]) = 10 * digits_val ds + (of_char c - 48)"
  by (simp add: digits_val_def)

lemma digits_val_nat_str [simp]: "digits_val (nat_str n) = n"
proof (induction n rule: nat_str.induct)
  case (1 n)
  show ?case
  proof (cases "n < 10")
    case True
    then show ?thesis by (simp add: nat_str.simps [of n] digits_val_def)
  next
    case False
    with 1 show ?thesis by (simp add: nat_str.simps [of n] digits_val_snoc)
  qed
qed

lemma nat_str_lead: "n > 0 \<Longrightarrow> hd (nat_str n) \<noteq> CHR ''0''"
proof (induction n rule: nat_str.induct)
  case (1 n)
  show ?case
  proof (cases "n < 10")
    case True
    have "digit_char n \<noteq> CHR ''0''"
    proof
      assume "digit_char n = CHR ''0''"
      then have "(of_char (digit_char n) :: nat) = 48" by simp
      with True 1(2) show False by simp
    qed
    then show ?thesis using True by (simp add: nat_str.simps [of n])
  next
    case False
    then show ?thesis using 1 by (subst nat_str.simps) simp
  qed
qed

lemma digits_of_nat_str [simp]: "digits_of (nat_str n) = (nat_str n, [])"
  by (simp add: digits_of_def takeWhile_eq_all_conv dropWhile_eq_Nil_conv nat_str_digits)

lemma nat_str_Cons: "\<exists>c cs. nat_str n = c # cs \<and> is_digit c \<and> (c = CHR ''0'' \<longrightarrow> n = 0)"
proof (cases "nat_str n")
  case Nil
  then show ?thesis by simp
next
  case (Cons c cs)
  then show ?thesis using nat_str_digits [of c n] nat_str_lead [of n] by (cases "n = 0") auto
qed

lemma is_digit_not_sign: "is_digit c \<Longrightarrow> c \<noteq> CHR ''-''"
  by (auto simp: is_digit_def)

lemma scan_int_part_int_str: "scan_int_part (int_str i) = Some (int_str i, [])"
proof (cases "i < 0")
  case True
  obtain c cs where c: "nat_str (nat (- i)) = c # cs" "is_digit c" "c = CHR ''0'' \<longrightarrow> nat (- i) = 0"
    using nat_str_Cons by blast
  from c(1) have d: "digits_of (c # cs) = (c # cs, [])" by (metis digits_of_nat_str)
  show ?thesis using True c d by (auto simp: scan_int_part_def Let_def int_str_def)
next
  case False
  obtain c cs where c: "nat_str (nat i) = c # cs" "is_digit c" "c = CHR ''0'' \<longrightarrow> nat i = 0"
    using nat_str_Cons by blast
  from c(1) have d: "digits_of (c # cs) = (c # cs, [])" by (metis digits_of_nat_str)
  have "cs = []" if "c = CHR ''0''"
    using c that by (simp add: nat_str.simps [of 0])
  then show ?thesis using False c d is_digit_not_sign by (auto simp: scan_int_part_def Let_def int_str_def)
qed

lemma int_val_int_str [simp]: "int_val (int_str i) = i"
proof (cases "i < 0")
  case True
  then show ?thesis by (simp add: int_val_def int_str_def)
next
  case False
  obtain c cs where c: "nat_str (nat i) = c # cs" "is_digit c"
    using nat_str_Cons by blast
  then have "c \<noteq> CHR ''-''" by (simp add: is_digit_not_sign)
  moreover have "digits_val (c # cs) = nat i" using c by (metis digits_val_nat_str)
  ultimately show ?thesis using False c by (simp add: int_val_def int_str_def)
qed

lemma scan_number_int_str: "scan_number (int_str i) = Some (JInt i, [])"
  by (simp add: scan_number_def scan_int_part_int_str scan_frac_def scan_exp_def)

lemma scan_number_first:
  assumes "scan_number (c # r) = Some x"
  shows "c = CHR ''-'' \<or> is_digit c"
  using assms by (auto simp: scan_number_def scan_int_part_def is_digit_def Let_def split: option.splits if_splits)


section \<open>Values\<close>

text \<open>What \<open>sort_keys=True\<close> does to a printed object.\<close>

lemma sort_key_map_snd:
  "sort_key fst (map (\<lambda>(k, v). (k, f v)) kvs) = map (\<lambda>(k, v). (k, f v)) (sort_key fst kvs)"
proof (induction kvs)
  case Nil
  then show ?case by simp
next
  case (Cons p kvs)
  have ins: "insort_key fst (k, f v) (map (\<lambda>(k, v). (k, f v)) xs)
      = map (\<lambda>(k, v). (k, f v)) (insort_key fst (k, v) xs)" for k v xs
    by (induction xs) auto
  show ?case by (cases p) (simp add: Cons.IH ins)
qed

lemma json_dumps_simps [simp]:
  "json_dumps JNull = ''null''"
  "json_dumps (JBool b) = (if b then ''true'' else ''false'')"
  "json_dumps (JInt i) = int_str i"
  "json_dumps (JFloat t) = t"
  "json_dumps (JStr s) = quote_str s"
  "json_dumps (JList xs) = CHR ''['' # join_str '', '' (map json_dumps xs) @ '']''"
  "json_dumps (JObj kvs) = CHR ''{'' # join_str '', ''
     (map (\<lambda>(k, v). quote_str k @ '': '' @ json_dumps v) (sort_key fst kvs)) @ ''}''"
proof -
  show "json_dumps (JObj kvs) = CHR ''{'' # join_str '', ''
     (map (\<lambda>(k, v). quote_str k @ '': '' @ json_dumps v) (sort_key fst kvs)) @ ''}''"
    by (simp add: json_dumps_def sort_key_map_snd) (simp add: case_prod_unfold comp_def)
qed (simp_all add: json_dumps_def)

definition starter :: "char \<Rightarrow> bool" where
  "starter c \<longleftrightarrow> \<not> json_ws c \<and> c \<noteq> CHR '']'' \<and> c \<noteq> CHR ''}''"

lemma starter_digit: "is_digit c \<or> c = CHR ''-'' \<Longrightarrow> starter c"
  by (auto simp: starter_def json_ws_def is_digit_def)

lemma starter_consts [simp]:
  "starter CHR ''n''" "starter CHR ''t''" "starter CHR ''f''" "starter CHR ''N''" "starter CHR ''I''"
  "starter CHR ''-''" "starter CHR ''[''" "starter CHR ''{''" "starter QUOTE"
  by (simp_all add: starter_def json_ws_def)

lemma int_str_first: "\<exists>c cs. int_str i = c # cs \<and> (is_digit c \<or> c = CHR ''-'')"
  using nat_str_Cons [of "nat i"] by (auto simp: int_str_def)

lemma float_lit_first:
  assumes "float_lit t"
  obtains c cs where "t = c # cs" "starter c"
proof (cases "scan_number t = Some (JFloat t, [])")
  case True
  then obtain c cs where "t = c # cs" by (cases t) (auto simp: scan_number_def scan_int_part_def)
  moreover with True have "is_digit c \<or> c = CHR ''-''" using scan_number_first by blast
  ultimately show thesis using that starter_digit by blast
next
  case False
  with assms have "t = ''NaN'' \<or> t = ''Infinity'' \<or> t = ''-Infinity''"
    by (simp add: float_lit_def)
  then show thesis using that by (elim disjE) simp_all
qed

lemma scan_scalar_int: "delimited r \<Longrightarrow> scan_scalar (int_str i @ r) = Some (JInt i, r)"
proof -
  assume r: "delimited r"
  obtain c cs where c: "int_str i = c # cs" "is_digit c \<or> c = CHR ''-''" using int_str_first by blast
  have "scan_number (int_str i @ r) = Some (JInt i, r)"
    by (rule scan_number_append [OF scan_number_int_str r])
  moreover have "c \<noteq> CHR ''n''" "c \<noteq> CHR ''t''" "c \<noteq> CHR ''f''"
    using c(2) by (auto simp: is_digit_def)
  ultimately show ?thesis using c(1) by (simp add: scan_scalar_def)
qed

lemma scan_scalar_float:
  assumes "float_lit t" and r: "delimited r"
  shows "scan_scalar (t @ r) = Some (JFloat t, r)"
proof (cases "scan_number t = Some (JFloat t, [])")
  case True
  then obtain c cs where t: "t = c # cs" by (cases t) (auto simp: scan_number_def scan_int_part_def)
  have "scan_number (t @ r) = Some (JFloat t, r)" by (rule scan_number_append [OF True r])
  moreover have "c \<noteq> CHR ''n''" "c \<noteq> CHR ''t''" "c \<noteq> CHR ''f''"
    using scan_number_first [of c cs] True t by (auto simp: is_digit_def)
  ultimately show ?thesis using t by (simp add: scan_scalar_def)
next
  case False
  with assms(1) show ?thesis
    by (auto simp: float_lit_def scan_scalar_def eat_def scan_number_def scan_int_part_def is_digit_def Let_def)
qed

lemma first_not_compound:
  assumes "is_digit c \<or> c = CHR ''-''"
  shows "c \<noteq> QUOTE" "c \<noteq> CHR ''[''" "c \<noteq> CHR ''{''"
  using assms by (auto simp: is_digit_def)

lemma skip_ws_starter [simp]: "starter c \<Longrightarrow> skip_ws (c # cs) = c # cs"
  by (simp add: skip_ws_def starter_def)

lemma skip_ws_delims [simp]:
  "skip_ws (CHR '' '' # s) = skip_ws s" "skip_ws (CHR '','' # s) = CHR '','' # s"
  "skip_ws (CHR '']'' # s) = CHR '']'' # s" "skip_ws (CHR ''}'' # s) = CHR ''}'' # s"
  "skip_ws (CHR '':'' # s) = CHR '':'' # s"
  by (simp_all add: skip_ws_def json_ws_def)

lemma dict_put_fresh: "k \<notin> fst ` set d \<Longrightarrow> dict_put k v d = d @ [(k, v)]"
  by (induction d) auto

lemma dict_of_distinct: "distinct (map fst kvs) \<Longrightarrow> dict_of kvs = kvs"
proof (induction kvs rule: rev_induct)
  case Nil
  then show ?case by (simp add: dict_of_def)
next
  case (snoc p kvs)
  then show ?case by (cases p) (auto simp: dict_of_def dict_put_fresh)
qed


section \<open>The round trip\<close>

lemma join_str_Cons: "join_str sep (x # ys) = x @ (if ys = [] then [] else sep @ join_str sep ys)"
  by (cases ys) simp_all

lemma delimited_simps [simp]:
  "delimited []" "delimited (CHR '','' # s)" "delimited (CHR '']'' # s)" "delimited (CHR ''}'' # s)"
  by (simp_all add: delimited_def)

lemma sum_list_le_joined:
  "(\<And>x. x \<in> set xs \<Longrightarrow> h x \<le> length (g x)) \<Longrightarrow> xs \<noteq> [] \<Longrightarrow> sep \<noteq> [] \<Longrightarrow>
   sum_list (map (\<lambda>x. Suc (h x)) xs) \<le> Suc (length (join_str sep (map g xs)))"
proof (induction xs)
  case Nil
  then show ?case by simp
next
  case (Cons x xs)
  show ?case
  proof (cases "xs = []")
    case True
    then show ?thesis using Cons by simp
  next
    case False
    with Cons have "sum_list (map (\<lambda>x. Suc (h x)) xs) \<le> Suc (length (join_str sep (map g xs)))" by simp
    moreover have "h x \<le> length (g x)" using Cons by simp
    moreover have "1 \<le> length sep" using Cons.prems by (cases sep) auto
    ultimately show ?thesis using False by (simp add: join_str_Cons)
  qed
qed

lemma float_lit_not_compound:
  assumes "float_lit t"
  obtains c cs where "t = c # cs" "c \<noteq> QUOTE" "c \<noteq> CHR ''[''" "c \<noteq> CHR ''{''"
proof (cases "scan_number t = Some (JFloat t, [])")
  case True
  then obtain c cs where "t = c # cs" by (cases t) (auto simp: scan_number_def scan_int_part_def)
  with True that show thesis using scan_number_first first_not_compound by metis
next
  case False
  with assms have "t = ''NaN'' \<or> t = ''Infinity'' \<or> t = ''-Infinity''" by (simp add: float_lit_def)
  then show thesis using that by (elim disjE) simp_all
qed

text \<open>
  A printer writes the pairs of an object in some arrangement of its own; the reader gives back the
  value with every object so arranged.  A printer may break lines: \<open>brk d\<close> stands inside the brackets
  of a list or an object at depth d, \<open>gap d\<close> after a comma and \<open>ksp\<close> after a colon, all white space.
\<close>

lemma skip_white: "list_all json_ws w \<Longrightarrow> skip_ws (w @ s) = skip_ws s"
  by (simp add: skip_ws_def dropWhile_append2 list_all_iff)

lemma delimited_white: "list_all json_ws w \<Longrightarrow> delimited s \<Longrightarrow> delimited (w @ s)"
  by (cases w) (auto simp: delimited_def)

locale printer =
  fixes prn :: "nat \<Rightarrow> json \<Rightarrow> string" and norm :: "json \<Rightarrow> json" and arrange :: "(string \<times> json) list \<Rightarrow> (string \<times> json) list"
    and brk gap :: "nat \<Rightarrow> string" and ksp :: string
  assumes prints: "prn d JNull = ''null''" "prn d (JBool b) = (if b then ''true'' else ''false'')" "prn d (JInt i) = int_str i"
      "prn d (JFloat t) = t" "prn d (JStr s) = quote_str s" "prn d (JList []) = ''[]''" "prn d (JObj []) = ''{}''"
    and print_list: "xs \<noteq> [] \<Longrightarrow> prn d (JList xs)
      = CHR ''['' # brk (Suc d) @ join_str (CHR '','' # gap (Suc d)) (map (prn (Suc d)) xs) @ brk d @ '']''"
    and print_obj: "kvs \<noteq> [] \<Longrightarrow> prn d (JObj kvs)
      = CHR ''{'' # brk (Suc d) @ join_str (CHR '','' # gap (Suc d))
          (map (\<lambda>(k, v). quote_str k @ CHR '':'' # ksp @ prn (Suc d) v) (arrange kvs)) @ brk d @ ''}''"
    and norms: "norm JNull = JNull" "norm (JBool b) = JBool b" "norm (JInt i) = JInt i" "norm (JFloat t) = JFloat t"
      "norm (JStr s) = JStr s" "norm (JList xs) = JList (map norm xs)"
      "norm (JObj kvs) = JObj (map (\<lambda>(k, v). (k, norm v)) (arrange kvs))"
    and arranged: "mset (arrange kvs) = mset kvs"
    and spacing: "list_all json_ws (brk d)" "list_all json_ws (gap d)" "list_all json_ws ksp"
begin

lemmas skip_spacing = skip_white [OF spacing(1)] skip_white [OF spacing(2)] skip_white [OF spacing(3)]

declare skip_spacing [simp] prints [simp] norms [simp] spacing [simp]

lemma set_arrange [simp]: "set (arrange kvs) = set kvs"
  by (rule mset_eq_setD) (rule arranged)

lemma length_arrange [simp]: "length (arrange kvs) = length kvs"
  by (rule mset_eq_length) (rule arranged)

lemma arrange_Nil [simp]: "arrange kvs = [] \<longleftrightarrow> kvs = []"
  by (metis length_arrange length_0_conv)

lemma arrange_empty [simp]: "arrange [] = []"
  by simp

lemma distinct_pairs_arrange [simp]: "distinct (arrange kvs) = distinct kvs"
  by (rule mset_eq_imp_distinct_iff) (rule arranged)

lemma distinct_arrange: "distinct (map fst kvs) \<Longrightarrow> distinct (map fst (arrange kvs))"
  using mset_eq_imp_distinct_iff [of "map fst (arrange kvs)" "map fst kvs"] by (simp add: arranged)

lemma sum_list_arrange: "sum_list (map h (arrange kvs)) = (sum_list (map h kvs) :: nat)"
  by (metis mset_map arranged sum_mset_sum_list)

lemma dumps_first:
  assumes "wf_json j"
  obtains c cs where "prn d j = c # cs" "starter c"
proof (cases j)
  case (JInt i)
  then show thesis using int_str_first [of i] starter_digit that by auto
next
  case (JFloat t)
  with assms have "float_lit t" by simp
  then show thesis using JFloat that by (elim float_lit_first) simp
next
  case (JBool b)
  then show thesis using that by (cases b) simp_all
next
  case (JList xs)
  then show thesis using that by (cases "xs = []") (simp_all add: print_list)
next
  case (JObj kvs)
  then show thesis using that by (cases "kvs = []") (simp_all add: print_obj)
qed (use that in \<open>simp_all add: quote_str_def\<close>)

definition pair_text :: "nat \<Rightarrow> string \<times> json \<Rightarrow> string" where
  "pair_text d p = quote_str (fst p) @ CHR '':'' # ksp @ prn d (snd p)"

lemma prn_obj:
  "kvs \<noteq> [] \<Longrightarrow> prn d (JObj kvs)
     = CHR ''{'' # brk (Suc d) @ join_str (CHR '','' # gap (Suc d)) (map (pair_text (Suc d)) (arrange kvs)) @ brk d @ ''}''"
  by (simp add: print_obj pair_text_def case_prod_unfold cong: map_cong)

definition reads_value :: "nat \<Rightarrow> bool" where
  "reads_value n \<longleftrightarrow> (\<forall>d j rest. wf_json j \<longrightarrow> need j \<le> n \<longrightarrow> delimited rest \<longrightarrow>
     scan_value n (prn d j @ rest) = Some (norm j, rest))"

definition reads_items :: "nat \<Rightarrow> bool" where
  "reads_items n \<longleftrightarrow> (\<forall>d w xs rest. xs \<noteq> [] \<longrightarrow> list_all wf_json xs \<longrightarrow> list_all json_ws w \<longrightarrow>
     sum_list (map (\<lambda>x. Suc (need x)) xs) \<le> n \<longrightarrow>
     scan_items n (join_str (CHR '','' # gap d) (map (prn d) xs) @ w @ CHR '']'' # rest) = Some (map norm xs, rest))"

definition reads_pairs :: "nat \<Rightarrow> bool" where
  "reads_pairs n \<longleftrightarrow> (\<forall>d w kvs rest. kvs \<noteq> [] \<longrightarrow> list_all (wf_json \<circ> snd) kvs \<longrightarrow> list_all json_ws w \<longrightarrow>
     sum_list (map (\<lambda>p. Suc (need (snd p))) kvs) \<le> n \<longrightarrow>
     scan_pairs n (join_str (CHR '','' # gap d) (map (pair_text d) kvs) @ w @ CHR ''}'' # rest)
       = Some (map (\<lambda>(k, v). (k, norm v)) kvs, rest))"

lemma reads_items_step:
  assumes "reads_value n" and "reads_items n"
  shows "reads_items (Suc n)"
  unfolding reads_items_def
proof (intro allI impI)
  fix d w and xs :: "json list" and rest
  assume xs: "xs \<noteq> []" "list_all wf_json xs" "sum_list (map (\<lambda>x. Suc (need x)) xs) \<le> Suc n" and w: "list_all json_ws w"
  then obtain x ys where [simp]: "xs = x # ys" by (cases xs) auto
  have v: "delimited r \<Longrightarrow> scan_value n (prn d x @ r) = Some (norm x, r)" for r
    using assms(1) xs by (simp add: reads_value_def)
  show "scan_items (Suc n) (join_str (CHR '','' # gap d) (map (prn d) xs) @ w @ CHR '']'' # rest) = Some (map norm xs, rest)"
  proof (cases "ys = []")
    case True
    then show ?thesis using v [of "w @ CHR '']'' # rest"] w by (simp add: delimited_white skip_white)
  next
    case False
    then obtain y zs where ys: "ys = y # zs" by (cases ys) auto
    let ?more = "join_str (CHR '','' # gap d) (map (prn d) ys) @ w @ CHR '']'' # rest"
    have "wf_json y" using xs ys by simp
    then obtain c cs where "prn d y = c # cs" "starter c" by (rule dumps_first)
    then have "skip_ws (gap d @ ?more) = ?more" using ys by (simp add: join_str_Cons)
    moreover have "scan_items n ?more = Some (map norm ys, rest)"
      using assms(2) xs w False by (simp add: reads_items_def)
    ultimately show ?thesis
      using False v [of "CHR '','' # gap d @ ?more"] by (simp add: join_str_Cons)
  qed
qed

lemma reads_pairs_step:
  assumes "reads_value n" and "reads_pairs n"
  shows "reads_pairs (Suc n)"
  unfolding reads_pairs_def
proof (intro allI impI)
  fix d w and kvs :: "(string \<times> json) list" and rest
  assume kvs: "kvs \<noteq> []" "list_all (wf_json \<circ> snd) kvs" "sum_list (map (\<lambda>p. Suc (need (snd p))) kvs) \<le> Suc n"
    and w: "list_all json_ws w"
  then obtain k x ys where [simp]: "kvs = (k, x) # ys" by (cases kvs) auto
  have v: "delimited r \<Longrightarrow> scan_value n (prn d x @ r) = Some (norm x, r)" for r
    using assms(1) kvs by (simp add: reads_value_def)
  have "wf_json x" using kvs by simp
  then obtain c cs where x: "prn d x = c # cs" "starter c" by (rule dumps_first)
  have colon: "skip_ws (ksp @ prn d x @ r) = prn d x @ r" for r
    using x by simp
  show "scan_pairs (Suc n) (join_str (CHR '','' # gap d) (map (pair_text d) kvs) @ w @ CHR ''}'' # rest)
      = Some (map (\<lambda>(k, v). (k, norm v)) kvs, rest)"
  proof (cases "ys = []")
    case True
    then show ?thesis using v [of "w @ CHR ''}'' # rest"] colon w
      by (simp add: pair_text_def quote_str_def scan_str_quote delimited_white skip_white)
  next
    case False
    then obtain p zs where ys: "ys = p # zs" by (cases ys) auto
    let ?more = "join_str (CHR '','' # gap d) (map (pair_text d) ys) @ w @ CHR ''}'' # rest"
    have "skip_ws (gap d @ ?more) = ?more"
      using ys by (simp add: join_str_Cons pair_text_def quote_str_def)
    moreover have "scan_pairs n ?more = Some (map (\<lambda>(k, v). (k, norm v)) ys, rest)"
      using assms(2) kvs w False by (simp add: reads_pairs_def)
    ultimately show ?thesis
      using False v [of "CHR '','' # gap d @ ?more"] colon
      by (simp add: join_str_Cons pair_text_def quote_str_def scan_str_quote)
  qed
qed

lemma reads_value_list:
  assumes "reads_items n" and w: "wf_json (JList xs)" "need (JList xs) \<le> Suc n"
  shows "scan_value (Suc n) (prn d (JList xs) @ rest) = Some (norm (JList xs), rest)"
proof (cases xs)
  case Nil
  then show ?thesis by simp
next
  case (Cons x ys)
  let ?body = "join_str (CHR '','' # gap (Suc d)) (map (prn (Suc d)) xs) @ brk d @ CHR '']'' # rest"
  have "wf_json x" using w Cons by simp
  then obtain c cs where "prn (Suc d) x = c # cs" "starter c" by (rule dumps_first)
  then have "skip_ws ?body = ?body" "\<not> prefix '']'' ?body"
    using Cons by (auto simp: join_str_Cons starter_def)
  moreover have "scan_items n ?body = Some (map norm xs, rest)"
  proof -
    have "xs \<noteq> []" "list_all wf_json xs" "sum_list (map (\<lambda>x. Suc (need x)) xs) \<le> n"
      using w Cons by simp_all
    then show ?thesis using assms(1) spacing(1) unfolding reads_items_def by blast
  qed
  ultimately show ?thesis using Cons by (simp add: print_list)
qed

lemma reads_value_obj:
  assumes "reads_pairs n" and w: "wf_json (JObj kvs)" "need (JObj kvs) \<le> Suc n"
  shows "scan_value (Suc n) (prn d (JObj kvs) @ rest) = Some (norm (JObj kvs), rest)"
proof (cases "arrange kvs")
  case Nil
  then have "kvs = []" by simp
  then show ?thesis by simp
next
  case (Cons p ys)
  let ?s = "arrange kvs"
  let ?body = "join_str (CHR '','' # gap (Suc d)) (map (pair_text (Suc d)) ?s) @ brk d @ CHR ''}'' # rest"
  have ne: "kvs \<noteq> []" using Cons by force
  have "skip_ws ?body = ?body" "\<not> prefix ''}'' ?body"
    using Cons by (auto simp: join_str_Cons pair_text_def quote_str_def)
  moreover have "scan_pairs n ?body = Some (map (\<lambda>(k, v). (k, norm v)) ?s, rest)"
  proof -
    have "list_all (wf_json \<circ> snd) ?s" using w by (auto simp: list_all_iff case_prod_unfold)
    moreover have "sum_list (map (\<lambda>p. Suc (need (snd p))) ?s) \<le> n"
      using w by (simp add: sum_list_arrange case_prod_unfold)
    moreover have "?s \<noteq> []" using Cons by simp
    ultimately show ?thesis using assms(1) spacing(1) unfolding reads_pairs_def by blast
  qed
  moreover have "dict_of (map (\<lambda>(k, v). (k, norm v)) ?s) = map (\<lambda>(k, v). (k, norm v)) ?s"
    by (rule dict_of_distinct)
      (use w in \<open>simp add: case_prod_unfold comp_def distinct_map\<close>)
  ultimately show ?thesis
    by (simp add: prn_obj ne)
qed

lemma reads_all: "reads_value n \<and> reads_items n \<and> reads_pairs n"
proof (induction n)
  case 0
  have "\<not> need j \<le> 0" for j by (cases j) simp_all
  then have "reads_value 0" unfolding reads_value_def by blast
  moreover have "reads_items 0" by (simp add: reads_items_def neq_Nil_conv)
  moreover have "reads_pairs 0"
    unfolding reads_pairs_def
  proof (intro allI impI)
    fix d w and kvs :: "(string \<times> json) list" and rest
    assume "kvs \<noteq> []" "sum_list (map (\<lambda>p. Suc (need (snd p))) kvs) \<le> 0"
    then show "scan_pairs 0 (join_str (CHR '','' # gap d) (map (pair_text d) kvs) @ w @ CHR ''}'' # rest)
      = Some (map (\<lambda>(k, v). (k, norm v)) kvs, rest)" by (cases kvs) simp_all
  qed
  ultimately show ?case by blast
next
  case (Suc n)
  have "reads_value (Suc n)"
    unfolding reads_value_def
  proof (intro allI impI)
    fix d j rest
    assume j: "wf_json j" "need j \<le> Suc n" "delimited rest"
    show "scan_value (Suc n) (prn d j @ rest) = Some (norm j, rest)"
    proof (cases j)
      case (JInt i)
      obtain c cs where c: "int_str i = c # cs" "is_digit c \<or> c = CHR ''-''" using int_str_first by blast
      with first_not_compound [OF c(2)] scan_scalar_int [OF j(3), of i] show ?thesis
        by (simp add: JInt)
    next
      case (JFloat t)
      with j have f: "float_lit t" by simp
      obtain c cs where c: "t = c # cs" "c \<noteq> QUOTE" "c \<noteq> CHR ''[''" "c \<noteq> CHR ''{''"
        using f by (rule float_lit_not_compound)
      with scan_scalar_float [OF f j(3)] show ?thesis by (simp add: JFloat)
    next
      case (JStr s)
      then show ?thesis by (simp add: quote_str_def scan_str_quote)
    next
      case (JList xs)
      then show ?thesis using reads_value_list Suc j by blast
    next
      case (JObj kvs)
      then show ?thesis using reads_value_obj Suc j by blast
    qed (simp_all add: scan_scalar_def eat_def)
  qed
  then show ?case using Suc reads_items_step reads_pairs_step by blast
qed

lemma need_le_length: "wf_json j \<Longrightarrow> need j \<le> length (prn d j)"
proof (induction j arbitrary: d)
  case (JInt i)
  then show ?case using int_str_first [of i] by auto
next
  case (JFloat t)
  then show ?case by (auto elim!: float_lit_first)
next
  case (JList xs)
  have "need x \<le> length (prn (Suc d) x)" if "x \<in> set xs" for x
    using JList that by (auto simp: list_all_iff)
  then show ?case
    using sum_list_le_joined [of xs need "prn (Suc d)" "CHR '','' # gap (Suc d)"] by (cases "xs = []") (simp_all add: print_list)
next
  case (JObj kvs)
  have v: "need (snd p) \<le> length (prn (Suc d) (snd p))" if "p \<in> set kvs" for p
    using JObj that by (auto simp: list_all_iff case_prod_unfold snds.simps)
  have "need (snd p) \<le> length (pair_text (Suc d) p)" if "p \<in> set (arrange kvs)" for p
    using v [of p] that by (simp add: pair_text_def)
  note le = sum_list_le_joined [of "arrange kvs" "\<lambda>p. need (snd p)" "pair_text (Suc d)" "CHR '','' # gap (Suc d)", OF this]
  show ?case
  proof (cases "kvs = []")
    case True
    then show ?thesis by simp
  next
    case False
    with le show ?thesis
      by (simp add: prn_obj case_prod_unfold sum_list_arrange)
  qed
qed (simp_all add: quote_str_def)

text \<open>White space after the value, such as the end of a file, does not matter.\<close>

lemma loads_prn_ws:
  assumes w: "wf_json j" and e: "list_all json_ws e"
  shows "json_loads (prn d j @ e) = Inr (norm j)"
proof -
  obtain c cs where c: "prn d j = c # cs" "starter c" using w by (rule dumps_first)
  have "need j \<le> Suc (length (prn d j @ e))" using need_le_length [OF w, of d] by simp
  then have "scan_value (Suc (length (prn d j @ e))) (prn d j @ e) = Some (norm j, e)"
    using reads_all w delimited_white [OF e, of "[]"] unfolding reads_value_def by (metis append_Nil2 delimited_simps(1))
  moreover have "skip_ws (prn d j @ e) = prn d j @ e" using c by simp
  moreover have "skip_ws e = []" using skip_white [OF e, of "[]"] by (simp add: skip_ws_def)
  ultimately show ?thesis by (simp add: json_loads_def del: scan_value.simps)
qed

lemma loads_prn: "wf_json j \<Longrightarrow> json_loads (prn d j) = Inr (norm j)"
  using loads_prn_ws [of j "[]"] by simp

declare prints [simp del] norms [simp del] set_arrange [simp del] length_arrange [simp del] arrange_Nil [simp del]
  arrange_empty [simp del] distinct_pairs_arrange [simp del] skip_spacing [simp del] spacing [simp del]

end

interpretation sorted_keys: printer "\<lambda>_. json_dumps" canon "sort_key fst" "\<lambda>_. []" "\<lambda>_. '' ''" "'' ''"
  by unfold_locales (simp_all add: sort_key_map_snd json_ws_def)

lemma canonical_json_fun: "canonical_json = dumps_with '','' '':''"
  by (rule ext) (simp add: canonical_json_def)

lemma canonical_json_simps:
  "canonical_json JNull = ''null''"
  "canonical_json (JBool b) = (if b then ''true'' else ''false'')"
  "canonical_json (JInt i) = int_str i"
  "canonical_json (JFloat t) = t"
  "canonical_json (JStr s) = quote_str s"
  "canonical_json (JList xs) = CHR ''['' # join_str '','' (map canonical_json xs) @ '']''"
  "canonical_json (JObj kvs) = CHR ''{'' # join_str '',''
     (map (\<lambda>(k, v). quote_str k @ '':'' @ canonical_json v) (sort_key fst kvs)) @ ''}''"
proof -
  show "canonical_json (JObj kvs) = CHR ''{'' # join_str '',''
     (map (\<lambda>(k, v). quote_str k @ '':'' @ canonical_json v) (sort_key fst kvs)) @ ''}''"
    by (simp add: canonical_json_fun sort_key_map_snd) (simp add: case_prod_unfold comp_def)
qed (simp_all add: canonical_json_fun)

interpretation compact: printer "\<lambda>_. canonical_json" canon "sort_key fst" "\<lambda>_. []" "\<lambda>_. []" "[]"
  by unfold_locales (simp_all add: sort_key_map_snd canonical_json_simps canon.simps)

interpretation insertion_order: printer "\<lambda>_. dumps_plain" "\<lambda>j. j" "\<lambda>kvs. kvs" "\<lambda>_. []" "\<lambda>_. '' ''" "'' ''"
  by unfold_locales (simp_all add: case_prod_unfold json_ws_def)

declare json_dumps_simps [simp] canon.simps [simp] dumps_plain.simps [simp]

lemma json_loads_dumps: "wf_json j \<Longrightarrow> json_loads (json_dumps j) = Inr (canon j)"
  by (rule sorted_keys.loads_prn)

lemma json_loads_plain: "wf_json j \<Longrightarrow> json_loads (dumps_plain j) = Inr j"
  by (rule insertion_order.loads_prn)

context printer
begin

text \<open>Printing does not see the arrangement, when arranging twice is arranging once.\<close>

lemma prn_norm:
  assumes twice: "\<And>kvs :: (string \<times> json) list. arrange (map (\<lambda>(k, v). (k, norm v)) (arrange kvs)) = map (\<lambda>(k, v). (k, norm v)) (arrange kvs)"
  shows "prn d (norm j) = prn d j"
proof (induction j arbitrary: d)
  case (JList xs)
  then show ?case by (cases "xs = []") (simp_all add: prints print_list norms comp_def cong: map_cong)
next
  case (JObj kvs)
  have "pair_text e (k, norm v) = pair_text e (k, v)" if "(k, v) \<in> set kvs" for e k v
    using JObj that by (auto simp: pair_text_def snds.simps)
  then show ?case
    by (cases "kvs = []")
      (auto simp: prints prn_obj norms twice set_arrange arrange_Nil arrange_empty intro!: arg_cong [where f = "join_str _"] map_cong)
qed (simp_all add: prints norms)

end

lemma sort_canon:
  "sort_key fst (map (\<lambda>(k, v). (k, canon v)) (sort_key fst kvs)) = map (\<lambda>(k, v). (k, canon v)) (sort_key fst (kvs :: (string \<times> json) list))"
  by (rule sort_key_sorted) (simp add: case_prod_unfold comp_def)

lemma json_dumps_canon: "json_dumps (canon j) = json_dumps j"
  by (rule sorted_keys.prn_norm) (rule sort_canon)

lemma canonical_json_canon: "canonical_json (canon j) = canonical_json j"
  by (rule compact.prn_norm) (rule sort_canon)

section \<open>Properties\<close>

text \<open>
  C18. The canonical form of a payload identifies it: for values that JSON can carry, reading the
  compact canonical text gives the payload back with its keys sorted, so two payloads have the same
  canonical text, and before hashing the same bytes, exactly when they differ in the order of keys
  only.  The spaced texts of the ledger and of the cache are read back in the same way.
\<close>

theorem canonical_json_roundtrip:
  assumes "wf_json a" and "wf_json b"
  shows "json_loads (canonical_json a) = Inr (canon a) \<and> json_loads (json_dumps a) = Inr (canon a)
    \<and> json_loads (dumps_plain a) = Inr a \<and> (canonical_json a = canonical_json b \<longleftrightarrow> canon a = canon b)"
proof -
  have r: "json_loads (canonical_json j) = Inr (canon j)" if "wf_json j" for j
    using that by (rule compact.loads_prn)
  have "canonical_json a = canonical_json b \<longleftrightarrow> canon a = canon b"
    using r [OF assms(1)] r [OF assms(2)] canonical_json_canon by (metis Inr_inject)
  then show ?thesis using r json_loads_dumps json_loads_plain assms(1) by blast
qed

theorem canonical_json_roundtrip_witness:
  "json_loads (canonical_json (JObj [(''b'', JInt 1), (''a'', JStr ''x'')])) = Inr (JObj [(''a'', JStr ''x''), (''b'', JInt 1)])"
  using canonical_json_roundtrip [of "JObj [(''b'', JInt 1), (''a'', JStr ''x'')]" "JNull"] by simp

end
