(* ===== verification/Ledger.thy ===== *)
theory Ledger
  imports Json_Roundtrip
begin

text \<open>
  The hash-chained audit ledger of \<open>backend/app/audit\<close>: \<open>ledger.py\<close> (\<open>AuditLedger\<close>),
  \<open>verifier.py\<close> (\<open>verify_chain\<close>) and \<open>audit_emit\<close> of \<open>__init__.py\<close>.

  The table \<open>audit_events\<close> is the list of its rows in insertion order.  The lock of
  \<open>append\<close> serialises the two statements of one append, so an append is one step here.
  SHA-256 is the parameter \<open>sha\<close>; \<open>uuid4\<close> and \<open>time.time()\<close> are arguments.
\<close>

section \<open>Rows\<close>

record audit_row =
  ae_id :: string
  ae_type :: string
  ae_tenant :: string
  ae_user :: string
  ae_payload :: string
  ae_ts :: time
  ae_seq :: int
  ae_prev :: string
  ae_payload_hash :: string
  ae_row_hash :: string
  ae_anchored :: "string option"

text \<open>What \<open>AuditEvent\<close> holds before it becomes a row: the payload is still structured.\<close>

record audit_event =
  ev_id :: string
  ev_type :: string
  ev_tenant :: string
  ev_user :: string
  ev_payload :: json
  ev_ts :: time
  ev_seq :: int
  ev_prev :: string
  ev_payload_hash :: string
  ev_row_hash :: string

definition to_row :: "audit_event \<Rightarrow> audit_row" where
  "to_row e =
     \<lparr>ae_id = ev_id e, ae_type = ev_type e, ae_tenant = ev_tenant e, ae_user = ev_user e,
      ae_payload = json_dumps (ev_payload e), ae_ts = ev_ts e, ae_seq = ev_seq e,
      ae_prev = ev_prev e, ae_payload_hash = ev_payload_hash e, ae_row_hash = ev_row_hash e,
      ae_anchored = None\<rparr>"

definition GENESIS_HASH :: string where
  "GENESIS_HASH = replicate 64 CHR ''0''"

definition tenant_rows :: "string \<Rightarrow> audit_row list \<Rightarrow> audit_row list" where
  "tenant_rows tenant rows = filter (\<lambda>r. ae_tenant r = tenant) rows"

section \<open>AuditLedger\<close>

definition last_seq_and_hash :: "string \<Rightarrow> audit_row list \<Rightarrow> int \<times> string" where
  "last_seq_and_hash tenant rows =
     (case latest_by ae_seq (tenant_rows tenant rows) of
        None \<Rightarrow> (0, GENESIS_HASH)
      | Some r \<Rightarrow> (ae_seq r, ae_row_hash r))"

text \<open>\<open>append\<close>; the \<open>INSERT\<close> raises when the event id is already taken.\<close>

definition ledger_append ::
  "(bytes \<Rightarrow> bytes) \<Rightarrow> string \<Rightarrow> time \<Rightarrow> string \<Rightarrow> json \<Rightarrow> string \<Rightarrow> string
   \<Rightarrow> audit_row list \<Rightarrow> (audit_event, audit_row list) outcome" where
  "ledger_append sha uuid ts event_type payload tenant user rows =
     (let (prev_seq, prev_hash) = last_seq_and_hash tenant rows;
          canonical = json_dumps payload;
          payload_hash = sha256_hex sha canonical;
          row_hash = sha256_hex sha (prev_hash @ payload_hash);
          event = \<lparr>ev_id = uuid, ev_type = event_type, ev_tenant = tenant, ev_user = user,
                   ev_payload = payload, ev_ts = ts, ev_seq = prev_seq + 1, ev_prev = prev_hash,
                   ev_payload_hash = payload_hash, ev_row_hash = row_hash\<rparr>
      in if uuid \<in> ae_id ` set rows then (Inl IntegrityError, rows)
         else (Inr event, rows @ [to_row event]))"

text \<open>
  \<open>read\<close>: the rows of one tenant above a sequence number, in order, with the payload parsed;
  a payload that is not JSON makes the whole call raise.
\<close>

record read_row =
  rr_row :: audit_row
  rr_payload :: json

fun parse_rows :: "audit_row list \<Rightarrow> read_row list res" where
  "parse_rows [] = Inr []"
| "parse_rows (r # rs) =
     res_bind (json_loads (ae_payload r)) (\<lambda>j.
     res_bind (parse_rows rs) (\<lambda>vs. Inr (\<lparr>rr_row = r, rr_payload = j\<rparr> # vs)))"

definition select_rows :: "string \<Rightarrow> int \<Rightarrow> nat \<Rightarrow> string list \<Rightarrow> audit_row list \<Rightarrow> audit_row list" where
  "select_rows tenant since limit types rows =
     take limit (sort_key ae_seq
       (filter (\<lambda>r. ae_seq r > since \<and> (types = [] \<or> ae_type r \<in> set types)) (tenant_rows tenant rows)))"

definition ledger_read :: "string \<Rightarrow> int \<Rightarrow> nat \<Rightarrow> string list \<Rightarrow> audit_row list \<Rightarrow> read_row list res" where
  "ledger_read tenant since limit types rows = parse_rows (select_rows tenant since limit types rows)"

definition ledger_count :: "string \<Rightarrow> audit_row list \<Rightarrow> nat" where
  "ledger_count tenant rows = length (tenant_rows tenant rows)"

definition unanchored :: "string \<Rightarrow> nat \<Rightarrow> audit_row list \<Rightarrow> (int \<times> string) list" where
  "unanchored tenant limit rows =
     take limit (map (\<lambda>r. (ae_seq r, ae_payload_hash r))
       (sort_key ae_seq (filter (\<lambda>r. ae_anchored r = None) (tenant_rows tenant rows))))"

definition in_range :: "string \<Rightarrow> int \<Rightarrow> int \<Rightarrow> audit_row \<Rightarrow> bool" where
  "in_range tenant a b r \<longleftrightarrow> ae_tenant r = tenant \<and> a \<le> ae_seq r \<and> ae_seq r \<le> b"

text \<open>
  \<open>mark_anchored\<close> returns the number of rows it updated.  The column is a foreign key into
  \<open>anchors\<close>: \<open>batches\<close> are the batch ids that exist.
\<close>

definition mark_anchored ::
  "string list \<Rightarrow> string \<Rightarrow> int \<Rightarrow> int \<Rightarrow> string \<Rightarrow> audit_row list \<Rightarrow> (nat, audit_row list) outcome" where
  "mark_anchored batches tenant first_seq last_seq batch_id rows =
     (let hit = (\<lambda>r. in_range tenant first_seq last_seq r \<and> ae_anchored r = None);
          n = length (filter hit rows)
      in if n > 0 \<and> batch_id \<notin> set batches then (Inl IntegrityError, rows)
         else (Inr n, update_where hit (\<lambda>r. r\<lparr>ae_anchored := Some batch_id\<rparr>) rows))"

definition range_hashes :: "string \<Rightarrow> int \<Rightarrow> int \<Rightarrow> audit_row list \<Rightarrow> string list" where
  "range_hashes tenant a b rows = map ae_payload_hash (sort_key ae_seq (filter (in_range tenant a b) rows))"

record range_root =
  rg_tenant :: string
  rg_first :: int
  rg_last :: int
  rg_count :: nat
  rg_root :: string

definition anchor_range ::
  "(bytes \<Rightarrow> bytes) \<Rightarrow> int \<Rightarrow> int \<Rightarrow> string \<Rightarrow> audit_row list \<Rightarrow> range_root" where
  "anchor_range sha first_seq last_seq tenant rows =
     (let leaves = range_hashes tenant first_seq last_seq rows
      in \<lparr>rg_tenant = tenant, rg_first = first_seq, rg_last = last_seq, rg_count = length leaves,
          rg_root = compute_merkle_root sha leaves\<rparr>)"

text \<open>\<open>erasure_tombstone\<close>: \<open>now\<close> is the \<open>time.time()\<close> in the payload, printed by \<open>json.dumps\<close>.\<close>

definition erasure_tombstone ::
  "(bytes \<Rightarrow> bytes) \<Rightarrow> string \<Rightarrow> time \<Rightarrow> string \<Rightarrow> string \<Rightarrow> string \<Rightarrow> string
   \<Rightarrow> audit_row list \<Rightarrow> (audit_event, audit_row list) outcome" where
  "erasure_tombstone sha uuid ts now_text user_id reason tenant rows =
     ledger_append sha uuid ts ''erasure_tombstone''
       (JObj [(''erased_user_hash'', JStr (sha256_hex sha user_id)), (''reason'', JStr reason),
              (''ts'', JFloat now_text)])
       tenant ''system'' rows"

text \<open>
  \<open>audit_emit\<close> swallows every exception: the caller sees None and an unchanged ledger.
\<close>

definition audit_emit ::
  "(bytes \<Rightarrow> bytes) \<Rightarrow> string \<Rightarrow> time \<Rightarrow> string \<Rightarrow> json \<Rightarrow> string \<Rightarrow> string
   \<Rightarrow> audit_row list \<Rightarrow> audit_event option \<times> audit_row list" where
  "audit_emit sha uuid ts event_type payload district actor rows =
     (case ledger_append sha uuid ts event_type payload district actor rows of
        (Inr e, rows') \<Rightarrow> (Some e, rows')
      | (Inl _, rows') \<Rightarrow> (None, rows'))"

section \<open>verify_chain\<close>

record report =
  vr_tenant :: string
  vr_total :: nat
  vr_verified :: bool
  vr_corrupt :: "int option"
  vr_reason :: "string option"

text \<open>The walk over one batch: a failing row, or where the walk stands after the batch.\<close>

fun walk_batch ::
  "(bytes \<Rightarrow> bytes) \<Rightarrow> read_row list \<Rightarrow> string \<Rightarrow> nat \<Rightarrow> int \<Rightarrow> (int \<times> string) + (string \<times> nat \<times> int)" where
  "walk_batch sha [] prev seen cursor = Inr (prev, seen, cursor)"
| "walk_batch sha (r # rs) prev seen cursor =
     (if sha256_hex sha (json_dumps (rr_payload r)) \<noteq> ae_payload_hash (rr_row r)
      then Inl (ae_seq (rr_row r), ''payload_hash_mismatch'')
      else if sha256_hex sha (prev @ ae_payload_hash (rr_row r)) \<noteq> ae_row_hash (rr_row r)
      then Inl (ae_seq (rr_row r), ''row_hash_chain_break'')
      else walk_batch sha rs (ae_row_hash (rr_row r)) (seen + 1) (ae_seq (rr_row r)))"

text \<open>
  The outer \<open>while\<close>: every batch moves the cursor to the sequence number of its last row,
  which is above the old cursor, so fewer rows are left.
\<close>

lemma parse_rows_map: "parse_rows rs = Inr vs \<Longrightarrow> map rr_row vs = rs"
  by (induction rs arbitrary: vs) (auto simp: res_simps)

lemma walk_batch_cursor:
  "walk_batch sha rs prev seen cursor = Inr (p, n, c) \<Longrightarrow>
   c = (if rs = [] then cursor else ae_seq (rr_row (last rs)))"
  by (induction rs arbitrary: prev seen cursor) (auto split: if_splits)

definition rows_left :: "string \<Rightarrow> int \<Rightarrow> audit_row list \<Rightarrow> nat" where
  "rows_left tenant cursor rows = length (filter (\<lambda>r. ae_seq r > cursor) (tenant_rows tenant rows))"

lemma select_rows_set:
  "r \<in> set (select_rows tenant since limit types rows) \<Longrightarrow>
   r \<in> set (tenant_rows tenant rows) \<and> ae_seq r > since"
  by (auto simp: select_rows_def dest: in_set_takeD)

lemma rows_left_less:
  assumes "r \<in> set (tenant_rows tenant rows)" and "ae_seq r > cursor"
  shows "rows_left tenant (ae_seq r) rows < rows_left tenant cursor rows"
proof -
  let ?R = "tenant_rows tenant rows"
  have "filter (\<lambda>x. ae_seq x > ae_seq r) ?R = filter (\<lambda>x. ae_seq x > ae_seq r) (filter (\<lambda>x. ae_seq x > cursor) ?R)"
    using assms(2) by (auto intro!: filter_cong)
  then have "rows_left tenant (ae_seq r) rows
      = length (filter (\<lambda>x. ae_seq x > ae_seq r) (filter (\<lambda>x. ae_seq x > cursor) ?R))"
    by (simp add: rows_left_def)
  also have "\<dots> < length (filter (\<lambda>x. ae_seq x > cursor) ?R)"
    by (rule length_filter_less [of r]) (use assms in auto)
  finally show ?thesis by (simp add: rows_left_def)
qed

function verify_loop ::
  "(bytes \<Rightarrow> bytes) \<Rightarrow> string \<Rightarrow> nat \<Rightarrow> nat \<Rightarrow> audit_row list \<Rightarrow> string \<Rightarrow> nat \<Rightarrow> int \<Rightarrow> report res" where
  "verify_loop sha tenant batch cnt rows prev seen cursor =
     (case ledger_read tenant cursor batch [] rows of
        Inl e \<Rightarrow> Inl e
      | Inr vs \<Rightarrow>
          if vs = [] then
            Inr \<lparr>vr_tenant = tenant, vr_total = seen, vr_verified = True, vr_corrupt = None, vr_reason = None\<rparr>
          else case walk_batch sha vs prev seen cursor of
            Inl (seq, reason) \<Rightarrow>
              Inr \<lparr>vr_tenant = tenant, vr_total = cnt, vr_verified = False,
                   vr_corrupt = Some seq, vr_reason = Some reason\<rparr>
          | Inr (prev', seen', cursor') \<Rightarrow> verify_loop sha tenant batch cnt rows prev' seen' cursor')"
  by pat_completeness auto
termination
proof (relation "measure (\<lambda>(sha, tenant, batch, cnt, rows, prev, seen, cursor). rows_left tenant cursor rows)", goal_cases)
  case 1
  then show ?case by simp
next
  case (2 sha tenant batch cnt rows prev seen cursor vs w p y n c)
  let ?sel = "select_rows tenant cursor batch [] rows"
  have sel: "map rr_row vs = ?sel"
    using 2(1) by (auto simp: ledger_read_def dest: parse_rows_map)
  with 2(2) have "rr_row (last vs) \<in> set ?sel"
    by (metis last_in_set last_map map_is_Nil_conv)
  then have "rr_row (last vs) \<in> set (tenant_rows tenant rows)" "ae_seq (rr_row (last vs)) > cursor"
    by (auto dest: select_rows_set)
  moreover have "c = ae_seq (rr_row (last vs))"
    using walk_batch_cursor 2 by (metis sum.inject(2))
  ultimately show ?case by (simp add: rows_left_less)
qed

declare verify_loop.simps [simp del]

definition verify_chain :: "(bytes \<Rightarrow> bytes) \<Rightarrow> string \<Rightarrow> nat \<Rightarrow> audit_row list \<Rightarrow> report res" where
  "verify_chain sha tenant batch rows =
     verify_loop sha tenant batch (ledger_count tenant rows) rows GENESIS_HASH 0 0"

end
