(* ===== verification/Util.thy ===== *)
theory Util
  imports Ledger
begin

text \<open>
  The small helpers of \<open>backend/app/util\<close>: identifiers (\<open>ids.py\<close>), the escaping of LIKE
  patterns (\<open>sql.py\<close>) with SQLite's LIKE operator, and the in-memory fallback of \<open>cache.py\<close>.
  The code runs with no Redis server in the model (\<open>get_redis\<close> returns None), which is the
  path the helpers themselves implement.
\<close>

section \<open>Calendar and rounding\<close>

text \<open>The civil year of a POSIX time stamp, as \<open>datetime.utcnow().year\<close> reads it off the clock.\<close>

definition year_of :: "time \<Rightarrow> int" where
  "year_of t =
     (let z = \<lfloor>t\<rfloor> div 86400 + 719468;
          era = z div 146097;
          doe = z mod 146097;
          yoe = (doe - doe div 1460 + doe div 36524 - doe div 146096) div 365;
          doy = doe - (365 * yoe + yoe div 4 - yoe div 100);
          mp = (5 * doy + 2) div 153
      in yoe + era * 400 + (if mp < 10 then 0 else 1))"

definition hour_of :: "time \<Rightarrow> int" where
  "hour_of t = (\<lfloor>t\<rfloor> div 3600) mod 24"

text \<open>Monday is 0; the epoch was a Thursday.\<close>

definition weekday_of :: "time \<Rightarrow> int" where
  "weekday_of t = (\<lfloor>t\<rfloor> div 86400 + 3) mod 7"

text \<open>\<open>round\<close> of Python: halves go to the even neighbour.\<close>

definition py_round :: "real \<Rightarrow> int" where
  "py_round x =
     (let f = \<lfloor>x\<rfloor>; d = x - of_int f
      in if d < 1 / 2 then f else if 1 / 2 < d then f + 1 else if even f then f else f + 1)"

definition py_round_to :: "nat \<Rightarrow> real \<Rightarrow> real" where
  "py_round_to n x = of_int (py_round (x * 10 ^ n)) / 10 ^ n"

section \<open>ids.py\<close>

text \<open>
  A regular expression without repetition is a list of character classes; \<open>$\<close> also matches
  before a final line feed.
\<close>

definition re_match :: "(char \<Rightarrow> bool) list \<Rightarrow> string \<Rightarrow> bool" where
  "re_match cls s \<longleftrightarrow> length s = length cls \<and> list_all (\<lambda>(p, c). p c) (zip cls s)"

definition re_match_dollar :: "(char \<Rightarrow> bool) list \<Rightarrow> string \<Rightarrow> bool" where
  "re_match_dollar cls s \<longleftrightarrow>
     re_match cls s \<or> (s \<noteq> [] \<and> last s = CHR 0x0A \<and> re_match cls (butlast s))"

definition is_upper :: "char \<Rightarrow> bool" where
  "is_upper c \<longleftrightarrow> 65 \<le> (of_char c :: nat) \<and> (of_char c :: nat) \<le> 90"

definition UPI_REGEX :: "(char \<Rightarrow> bool) list" where
  "UPI_REGEX = map (=) ''UG-'' @ replicate 3 is_upper @ [(=) CHR ''-''] @ replicate 6 is_digit
     @ [(=) CHR ''/''] @ replicate 4 is_digit"

definition NIN_REGEX :: "(char \<Rightarrow> bool) list" where
  "NIN_REGEX = map (=) ''CM'' @ replicate 12 (\<lambda>c. is_digit c \<or> is_upper c)"

definition validate_upi :: "string \<Rightarrow> bool" where
  "validate_upi upi = re_match_dollar UPI_REGEX upi"

definition validate_nin :: "string \<Rightarrow> bool" where
  "validate_nin nin = re_match_dollar NIN_REGEX nin"

definition DISTRICT_CODES :: "int \<Rightarrow> string option" where
  "DISTRICT_CODES = [1 \<mapsto> ''KCC'', 2 \<mapsto> ''WAK'', 3 \<mapsto> ''MIT'', 4 \<mapsto> ''GUL'']"

text \<open>\<open>year or datetime.utcnow().year\<close>: a missing year and the year 0 mean the current one.\<close>

definition year_or_now :: "int option \<Rightarrow> time \<Rightarrow> int" where
  "year_or_now year now = (case year of None \<Rightarrow> year_of now | Some y \<Rightarrow> if y = 0 then year_of now else y)"

definition make_upi :: "int \<Rightarrow> int \<Rightarrow> int option \<Rightarrow> time \<Rightarrow> string res" where
  "make_upi district_id parcel_number year now =
     (case DISTRICT_CODES district_id of
        None \<Rightarrow> Inl ValueError
      | Some code \<Rightarrow>
          if \<not> (0 < parcel_number \<and> parcel_number < 1000000) then Inl ValueError
          else Inr (''UG-'' @ code @ ''-'' @ zfill 6 (int_str parcel_number) @ ''/''
                    @ int_str (year_or_now year now)))"

definition make_title_no :: "int \<Rightarrow> int \<Rightarrow> int option \<Rightarrow> time \<Rightarrow> string" where
  "make_title_no district_id sequence year now =
     (let code = (case DISTRICT_CODES district_id of None \<Rightarrow> ''XXX'' | Some c \<Rightarrow> c)
      in ''UG-'' @ code @ ''-T'' @ zfill 5 (int_str sequence) @ ''/'' @ int_str (year_or_now year now))"

section \<open>sql.py\<close>

text \<open>\<open>out.replace(c, "\\" + c)\<close> for a one-character string.\<close>

definition replace_char :: "char \<Rightarrow> string \<Rightarrow> string \<Rightarrow> string" where
  "replace_char c r s = concat (map (\<lambda>x. if x = c then r else [x]) s)"

definition LIKE_SPECIAL :: string where
  "LIKE_SPECIAL = [BACKSLASH, CHR ''%'', CHR ''_'']"

definition escape_like_value :: "string \<Rightarrow> string" where
  "escape_like_value value = foldl (\<lambda>out c. replace_char c [BACKSLASH, c] out) value LIKE_SPECIAL"

text \<open>
  The operator \<open>text LIKE pattern ESCAPE '\'\<close> of SQLite: \<open>%\<close> matches any string, \<open>_\<close> any
  character, an escaped character itself, and ASCII letters match either case.
\<close>

definition same_ci :: "char \<Rightarrow> char \<Rightarrow> bool" where
  "same_ci a b \<longleftrightarrow> lower_char a = lower_char b"

fun sql_like :: "string \<Rightarrow> string \<Rightarrow> bool" where
  "sql_like [] t = (t = [])"
| "sql_like (c # p) t =
     (if c = BACKSLASH then
        (case p of
           [] \<Rightarrow> False
         | d # p' \<Rightarrow> (case t of [] \<Rightarrow> False | x # t' \<Rightarrow> same_ci d x \<and> sql_like p' t'))
      else if c = CHR ''%'' then
        (sql_like p t \<or> (case t of [] \<Rightarrow> False | x # t' \<Rightarrow> sql_like (c # p) t'))
      else
        (case t of
           [] \<Rightarrow> False
         | x # t' \<Rightarrow> (c = CHR ''_'' \<or> same_ci c x) \<and> sql_like p t'))"

section \<open>cache.py without Redis\<close>

type_synonym cache = "string \<Rightarrow> (time \<times> string) option"

definition cache_set :: "time \<Rightarrow> string \<Rightarrow> string \<Rightarrow> real \<Rightarrow> cache \<Rightarrow> cache" where
  "cache_set now key value ttl c = c(key \<mapsto> (now + ttl, value))"

definition cache_get :: "time \<Rightarrow> string \<Rightarrow> cache \<Rightarrow> string option \<times> cache" where
  "cache_get now key c =
     (case c key of
        None \<Rightarrow> (None, c)
      | Some (expires_at, value) \<Rightarrow> if now > expires_at then (None, c(key := None)) else (Some value, c))"

definition cache_setnx :: "time \<Rightarrow> string \<Rightarrow> string \<Rightarrow> real \<Rightarrow> cache \<Rightarrow> bool \<times> cache" where
  "cache_setnx now key value ttl c =
     (case c key of
        Some (expires_at, _) \<Rightarrow>
          if now \<le> expires_at then (False, c) else (True, c(key \<mapsto> (now + ttl, value)))
      | None \<Rightarrow> (True, c(key \<mapsto> (now + ttl, value))))"

definition cache_delete :: "string \<Rightarrow> cache \<Rightarrow> cache" where
  "cache_delete key c = c(key := None)"

section \<open>Lemmas\<close>

lemma re_match_Nil [simp]: "re_match [] s \<longleftrightarrow> s = []"
  by (auto simp: re_match_def)

lemma re_match_Cons [simp]: "re_match (p # ps) s \<longleftrightarrow> (\<exists>c t. s = c # t \<and> p c \<and> re_match ps t)"
  by (cases s) (auto simp: re_match_def)

lemma re_match_append: "re_match (ps @ qs) s \<longleftrightarrow> (\<exists>a b. s = a @ b \<and> re_match ps a \<and> re_match qs b)"
proof (induction ps arbitrary: s)
  case Nil
  then show ?case by simp
next
  case (Cons p ps)
  show ?case
  proof
    assume "re_match ((p # ps) @ qs) s"
    then obtain c a b where "s = c # a @ b" "p c" "re_match ps a" "re_match qs b" using Cons by auto
    then show "\<exists>a b. s = a @ b \<and> re_match (p # ps) a \<and> re_match qs b"
      by (intro exI [of _ "c # a"] exI [of _ b]) simp
  next
    assume "\<exists>a b. s = a @ b \<and> re_match (p # ps) a \<and> re_match qs b"
    then obtain c a b where "s = c # a @ b" "p c" "re_match ps a" "re_match qs b" by auto
    moreover from this have "re_match (ps @ qs) (a @ b)" using Cons by blast
    ultimately show "re_match ((p # ps) @ qs) s" by simp
  qed
qed

lemma re_match_replicate: "re_match (replicate n p) s \<longleftrightarrow> length s = n \<and> list_all p s"
  unfolding re_match_def list_all_length by auto

lemma re_match_literal: "re_match (map (=) w) s \<longleftrightarrow> s = w"
  unfolding re_match_def list_all_length by (auto intro: nth_equalityI)

text \<open>The shape the module documents.\<close>

definition upi_shape :: "string \<Rightarrow> bool" where
  "upi_shape s \<longleftrightarrow> (\<exists>d n y. s = ''UG-'' @ d @ ''-'' @ n @ ''/'' @ y
     \<and> length d = 3 \<and> list_all is_upper d \<and> length n = 6 \<and> list_all is_digit n
     \<and> length y = 4 \<and> list_all is_digit y)"

lemma upi_regex: "re_match UPI_REGEX s \<longleftrightarrow> upi_shape s"
proof
  assume "re_match UPI_REGEX s"
  then obtain d n y where "s = ''UG-'' @ d @ CHR ''-'' # n @ CHR ''/'' # y"
     "length d = 3" "list_all is_upper d" "length n = 6" "list_all is_digit n"
     "length y = 4" "list_all is_digit y"
    unfolding UPI_REGEX_def re_match_append re_match_literal re_match_replicate re_match_Cons append_Cons append_Nil
    by (elim exE conjE) simp
  then show "upi_shape s" unfolding upi_shape_def by (intro exI [of _ d] exI [of _ n] exI [of _ y]) simp
next
  have join: "re_match ps a \<Longrightarrow> re_match qs b \<Longrightarrow> re_match (ps @ qs) (a @ b)" for ps qs a b
    unfolding re_match_append by blast
  have one: "re_match [(=) c] [c]" for c by simp
  have lit: "re_match (map (=) w) w" for w by (simp add: re_match_literal)
  assume "upi_shape s"
  then obtain d n y where s: "s = ''UG-'' @ d @ ''-'' @ n @ ''/'' @ y"
     and "length d = 3" "list_all is_upper d" "length n = 6" "list_all is_digit n"
     "length y = 4" "list_all is_digit y" by (auto simp: upi_shape_def)
  then show "re_match UPI_REGEX s"
    unfolding UPI_REGEX_def s by (intro join lit one) (simp_all only: re_match_replicate simp_thms)
qed

lemma nin_regex: "re_match NIN_REGEX s \<longleftrightarrow>
    (\<exists>t. s = ''CM'' @ t \<and> length t = 12 \<and> list_all (\<lambda>c. is_digit c \<or> is_upper c) t)"
  unfolding NIN_REGEX_def re_match_append re_match_literal re_match_replicate by blast

lemma nat_str_length_le:
  "k > 0 \<Longrightarrow> n < 10 ^ k \<Longrightarrow> length (nat_str n) \<le> k"
proof (induction k arbitrary: n)
  case 0
  then show ?case by simp
next
  case (Suc k)
  show ?case
  proof (cases "n < 10")
    case True
    then show ?thesis by (simp add: nat_str.simps [of n])
  next
    case False
    then have "k \<noteq> 0" using Suc.prems by (cases k) auto
    moreover have "n div 10 < 10 ^ k" using Suc.prems by (simp add: less_mult_imp_div_less mult.commute)
    ultimately show ?thesis using False Suc.IH [of "n div 10"] by (simp add: nat_str.simps [of n])
  qed
qed

lemma nat_str_length_ge: "10 ^ k \<le> n \<Longrightarrow> k < length (nat_str n)"
proof (induction k arbitrary: n)
  case 0
  then show ?case by simp
next
  case (Suc k)
  then have "10 \<le> n" by (metis One_nat_def le_trans mult.right_neutral one_le_numeral one_le_power mult_le_mono2 power_Suc)
  moreover have "10 ^ k \<le> n div 10" using Suc.prems by (simp add: less_eq_div_iff_mult_less_eq mult.commute)
  ultimately show ?case using Suc.IH [of "n div 10"] by (simp add: nat_str.simps [of n])
qed

lemma zfill_nat_str:
  assumes "length (nat_str n) \<le> w"
  shows "length (zfill w (nat_str n)) = w \<and> list_all is_digit (zfill w (nat_str n))
    \<and> digits_val (zfill w (nat_str n)) = n"
proof -
  obtain c cs where c: "nat_str n = c # cs" "is_digit c" using nat_str_Cons by blast
  have sign: "c \<noteq> CHR ''+''" "c \<noteq> CHR ''-''" using c(2) by (auto simp: is_digit_def)
  have z: "zfill w (nat_str n) = replicate (w - length (nat_str n)) CHR ''0'' @ nat_str n"
    using c sign by (simp add: zfill_def Let_def)
  have "digits_val (replicate k CHR ''0'' @ s) = digits_val s" for k s
    by (induction k) (simp_all add: digits_val_def)
  moreover have "list_all is_digit (nat_str n)" using nat_str_digits by (auto simp: list_all_iff)
  moreover have "list_all is_digit (replicate k CHR ''0'')" for k by (simp add: list_all_iff is_digit_def)
  ultimately show ?thesis using assms z by (simp add: list_all_append)
qed

lemma escape_like_char:
  "escape_like_value s = concat (map (\<lambda>c. if c \<in> set LIKE_SPECIAL then [BACKSLASH, c] else [c]) s)"
  by (induction s) (auto simp: escape_like_value_def LIKE_SPECIAL_def replace_char_def)

lemma sql_like_escaped:
  "sql_like (escape_like_value v @ p) t \<longleftrightarrow> (\<exists>m r. t = m @ r \<and> lower_str m = lower_str v \<and> sql_like p r)"
proof (induction v arbitrary: t)
  case Nil
  then show ?case by (simp add: escape_like_char lower_str_def)
next
  case (Cons c v)
  let ?rest = "escape_like_value v @ p"
  have "sql_like (escape_like_value (c # v) @ p) t \<longleftrightarrow> (\<exists>x t'. t = x # t' \<and> same_ci c x \<and> sql_like ?rest t')"
    by (cases t) (auto simp: escape_like_char LIKE_SPECIAL_def)
  also have "\<dots> \<longleftrightarrow> (\<exists>x m r. t = x # m @ r \<and> same_ci c x \<and> lower_str m = lower_str v \<and> sql_like p r)"
    using Cons by blast
  also have "\<dots> \<longleftrightarrow> (\<exists>m r. t = m @ r \<and> lower_str m = lower_str (c # v) \<and> sql_like p r)"
  proof
    assume "\<exists>x m r. t = x # m @ r \<and> same_ci c x \<and> lower_str m = lower_str v \<and> sql_like p r"
    then obtain x m r where "t = x # m @ r" "same_ci c x" "lower_str m = lower_str v" "sql_like p r" by blast
    then show "\<exists>m r. t = m @ r \<and> lower_str m = lower_str (c # v) \<and> sql_like p r"
      by (intro exI [of _ "x # m"] exI [of _ r]) (simp add: same_ci_def)
  next
    assume "\<exists>m r. t = m @ r \<and> lower_str m = lower_str (c # v) \<and> sql_like p r"
    then obtain m r where m: "t = m @ r" "lower_str m = lower_str (c # v)" "sql_like p r" by blast
    then obtain x m' where "m = x # m'" "same_ci c x" "lower_str m' = lower_str v"
      by (cases m) (auto simp: same_ci_def)
    with m show "\<exists>x m r. t = x # m @ r \<and> same_ci c x \<and> lower_str m = lower_str v \<and> sql_like p r" by auto
  qed
  finally show ?case .
qed

lemma sql_like_percent: "sql_like (CHR ''%'' # p) t \<longleftrightarrow> (\<exists>a b. t = a @ b \<and> sql_like p b)"
proof (induction t)
  case Nil
  then show ?case by simp
next
  case (Cons x t)
  have "sql_like (CHR ''%'' # p) (x # t) \<longleftrightarrow> sql_like p (x # t) \<or> sql_like (CHR ''%'' # p) t" by simp
  also have "\<dots> \<longleftrightarrow> sql_like p (x # t) \<or> (\<exists>a b. t = a @ b \<and> sql_like p b)" using Cons by simp
  also have "\<dots> \<longleftrightarrow> (\<exists>a b. x # t = a @ b \<and> sql_like p b)" by (auto simp: Cons_eq_append_conv)
  finally show ?case .
qed


lemma district_code_shape: "DISTRICT_CODES d = Some c \<Longrightarrow> length c = 3 \<and> list_all is_upper c"
  by (auto simp: DISTRICT_CODES_def is_upper_def split: if_splits)

lemma district_code_inj: "DISTRICT_CODES d = Some c \<Longrightarrow> DISTRICT_CODES d' = Some c \<Longrightarrow> d = d'"
  by (auto simp: DISTRICT_CODES_def split: if_splits)

lemma make_upi_parts:
  assumes "make_upi d n y now = Inr u"
  obtains c z where "DISTRICT_CODES d = Some c" "0 < n" "n < 1000000"
    "u = ''UG-'' @ c @ ''-'' @ z @ ''/'' @ int_str (year_or_now y now)"
    "length z = 6" "list_all is_digit z" "digits_val z = nat n"
proof -
  from assms obtain c where c: "DISTRICT_CODES d = Some c" "0 < n" "n < 1000000"
    "u = ''UG-'' @ c @ ''-'' @ zfill 6 (int_str n) @ ''/'' @ int_str (year_or_now y now)"
    by (auto simp: make_upi_def split: option.splits if_splits)
  have "length (nat_str (nat n)) \<le> 6" by (rule nat_str_length_le) (use c(2,3) in auto)
  from zfill_nat_str [OF this] c show thesis by (intro that [OF c]) (auto simp: int_str_def)
qed

lemma year_digits:
  assumes "1000 \<le> y" "y \<le> (9999 :: int)"
  shows "length (int_str y) = 4 \<and> list_all is_digit (int_str y)"
proof -
  have "length (nat_str (nat y)) \<le> 4" by (rule nat_str_length_le) (use assms in auto)
  moreover have "3 < length (nat_str (nat y))" by (rule nat_str_length_ge) (use assms in auto)
  moreover have "list_all is_digit (nat_str (nat y))" using nat_str_digits by (auto simp: list_all_iff)
  ultimately show ?thesis using assms by (simp add: int_str_def)
qed

lemma validate_upi_shape: "upi_shape u \<Longrightarrow> validate_upi u"
  by (simp add: validate_upi_def re_match_dollar_def upi_regex)

section \<open>Properties\<close>

text \<open>
  \<open>validate_upi\<close> accepts exactly the documented shape \<open>UG-DDD-NNNNNN/YYYY\<close> and, because
  \<open>$\<close> also matches before a final line feed, that shape followed by one line feed.
\<close>

lemma validate_upi_exact:
  "validate_upi s \<longleftrightarrow> upi_shape s \<or> (\<exists>t. s = t @ [CHR 0x0A] \<and> upi_shape t)"
proof -
  have "s \<noteq> [] \<and> last s = CHR 0x0A \<and> upi_shape (butlast s) \<longleftrightarrow> (\<exists>t. s = t @ [CHR 0x0A] \<and> upi_shape t)"
    by (metis append_butlast_last_id last_snoc butlast_snoc snoc_eq_iff_butlast)
  then show ?thesis by (simp add: validate_upi_def re_match_dollar_def upi_regex)
qed

text \<open>
  A UPI that \<open>make_upi\<close> constructs for a four-digit year passes \<open>validate_upi\<close>, and names
  its district, its parcel number and its year: no other triple gives the same text.
\<close>

lemma make_upi_valid_and_unique:
  assumes "make_upi d n y now = Inr u" and "1000 \<le> year_or_now y now" and "year_or_now y now \<le> 9999"
  shows "validate_upi u
    \<and> (\<forall>d' n' y' now'. make_upi d' n' y' now' = Inr u \<and> 0 \<le> year_or_now y' now'
          \<longrightarrow> d' = d \<and> n' = n \<and> year_or_now y' now' = year_or_now y now)"
proof -
  obtain c z where p: "DISTRICT_CODES d = Some c" "0 < n" "n < 1000000"
    "u = ''UG-'' @ c @ ''-'' @ z @ ''/'' @ int_str (year_or_now y now)"
    "length z = 6" "list_all is_digit z" "digits_val z = nat n"
    by (rule make_upi_parts [OF assms(1)])
  have "upi_shape u"
    unfolding upi_shape_def
    by (rule exI [of _ c], rule exI [of _ z], rule exI [of _ "int_str (year_or_now y now)"])
      (use p year_digits [OF assms(2,3)] district_code_shape [OF p(1)] in simp)
  moreover have "d' = d \<and> n' = n \<and> year_or_now y' now' = year_or_now y now"
    if m: "make_upi d' n' y' now' = Inr u" and y0: "0 \<le> year_or_now y' now'" for d' n' y' now'
  proof -
    obtain c' z' where q: "DISTRICT_CODES d' = Some c'" "0 < n'" "n' < 1000000"
      "u = ''UG-'' @ c' @ ''-'' @ z' @ ''/'' @ int_str (year_or_now y' now')"
      "length z' = 6" "list_all is_digit z'" "digits_val z' = nat n'"
      by (rule make_upi_parts [OF m])
    have "c @ ''-'' @ z @ ''/'' @ int_str (year_or_now y now) = c' @ ''-'' @ z' @ ''/'' @ int_str (year_or_now y' now')"
      using p(4) q(4) by simp
    then have "c = c'" "z = z'" "int_str (year_or_now y now) = int_str (year_or_now y' now')"
      using district_code_shape [OF p(1)] district_code_shape [OF q(1)] p(5) q(5)
      by (simp_all add: append_eq_append_conv)
    then show ?thesis
      using p q district_code_inj by (metis eq_nat_nat_iff int_val_int_str less_imp_le)
  qed
  ultimately show ?thesis using validate_upi_shape by blast
qed

lemma make_upi_valid_and_unique_witness:
  "make_upi 3 24718 (Some 2026) 0 = Inr ''UG-MIT-024718/2026'' \<and> validate_upi ''UG-MIT-024718/2026''"
proof -
  have "make_upi 3 24718 (Some 2026) 0 = Inr ''UG-MIT-024718/2026''"
    by (simp add: make_upi_def DISTRICT_CODES_def int_str_def nat_str.simps zfill_def
        year_or_now_def Let_def)
  with make_upi_valid_and_unique [OF this] show ?thesis by (simp add: year_or_now_def)
qed

text \<open>
  A value escaped by \<open>escape_like_value\<close> and put between \<open>%\<close> signs matches exactly the
  texts that contain the value, up to the case of ASCII letters: no character of the value
  acts as a wildcard.
\<close>

lemma escape_like_value_literal:
  "sql_like (''%'' @ escape_like_value v @ ''%'') t
     \<longleftrightarrow> (\<exists>a m b. t = a @ m @ b \<and> lower_str m = lower_str v)"
  by (simp add: sql_like_percent sql_like_escaped del: sql_like.simps(2)) blast

text \<open>
  The leader lock: after a successful \<open>cache_setnx\<close> for a key, another one for the same key
  succeeds exactly when the time to live has run out.
\<close>

lemma cache_setnx_exclusive:
  assumes "cache_setnx t k v ttl c = (True, c')"
  shows "fst (cache_setnx t' k v' ttl' c') \<longleftrightarrow> t + ttl < t'"
  using assms by (auto simp: cache_setnx_def split: option.splits prod.splits if_splits)

lemma cache_setnx_exclusive_witness:
  "let (won, c) = cache_setnx 100 ''scheduler:leader'' ''1'' 270 Map.empty
   in won \<and> \<not> fst (cache_setnx 300 ''scheduler:leader'' ''1'' 270 c)
      \<and> fst (cache_setnx 400 ''scheduler:leader'' ''1'' 270 c)"
proof -
  obtain c where c: "cache_setnx 100 ''scheduler:leader'' ''1'' 270 Map.empty = (True, c)"
    by (simp add: cache_setnx_def)
  from cache_setnx_exclusive [OF this] show ?thesis by (simp add: c)
qed

end
