(* ===== verification/Resilience.thy ===== *)
theory Resilience
  imports Prelude
begin

text \<open>
  \<open>backend/app/resilience.py\<close>: the circuit breaker that guards the blockchain and the NIRA
  calls, and \<open>retry_with_backoff\<close>.  \<open>time.monotonic()\<close> is an argument of the operations that
  read it.  A guarded function is a function on the state it works on; its result may be an
  exception.
\<close>

datatype circuit_state = CLOSED | OPEN | HALF_OPEN

record breaker =
  cb_threshold :: int
  cb_initial :: time
  cb_current :: time
  cb_max :: time
  cb_state :: circuit_state
  cb_failures :: int
  cb_opened_at :: time

definition new_breaker :: "int \<Rightarrow> time \<Rightarrow> time \<Rightarrow> breaker" where
  "new_breaker failure_threshold reset_timeout max_timeout =
     \<lparr>cb_threshold = failure_threshold, cb_initial = reset_timeout, cb_current = reset_timeout,
      cb_max = max_timeout, cb_state = CLOSED, cb_failures = 0, cb_opened_at = 0\<rparr>"

definition maybe_half_open :: "time \<Rightarrow> breaker \<Rightarrow> breaker" where
  "maybe_half_open now b =
     (if cb_state b = OPEN \<and> now - cb_opened_at b \<ge> cb_current b then b\<lparr>cb_state := HALF_OPEN\<rparr> else b)"

text \<open>The \<open>state\<close> property: reading it may move the breaker to half open.\<close>

definition breaker_state :: "time \<Rightarrow> breaker \<Rightarrow> circuit_state \<times> breaker" where
  "breaker_state now b = (let b' = maybe_half_open now b in (cb_state b', b'))"

definition record_success :: "breaker \<Rightarrow> breaker" where
  "record_success b = b\<lparr>cb_state := CLOSED, cb_failures := 0, cb_current := cb_initial b\<rparr>"

definition record_failure :: "time \<Rightarrow> breaker \<Rightarrow> breaker" where
  "record_failure now b =
     (let b1 = b\<lparr>cb_failures := cb_failures b + 1\<rparr>
      in if cb_state b1 = HALF_OPEN then
           b1\<lparr>cb_state := OPEN, cb_opened_at := now, cb_current := min (cb_current b1 * 2) (cb_max b1)\<rparr>
         else if cb_failures b1 \<ge> cb_threshold b1 then b1\<lparr>cb_state := OPEN, cb_opened_at := now\<rparr>
         else b1)"

definition preflight :: "time \<Rightarrow> breaker \<Rightarrow> (unit, breaker) outcome" where
  "preflight now b =
     (let b' = maybe_half_open now b
      in if cb_state b' = OPEN then (Inl CircuitOpenError, b') else (Inr (), b'))"

text \<open>
  \<open>call\<close> and \<open>call_sync\<close>: \<open>t0\<close> is the clock at the check, \<open>t1\<close> the clock when a failure is
  recorded.
\<close>

definition breaker_call ::
  "time \<Rightarrow> time \<Rightarrow> ('s \<Rightarrow> ('a, 's) outcome) \<Rightarrow> breaker \<Rightarrow> 's \<Rightarrow> 'a res \<times> breaker \<times> 's" where
  "breaker_call t0 t1 f b s =
     (case preflight t0 b of
        (Inl e, b') \<Rightarrow> (Inl e, b', s)
      | (Inr _, b') \<Rightarrow>
          (case f s of
             (Inl e, s') \<Rightarrow> (Inl e, record_failure t1 b', s')
           | (Inr a, s') \<Rightarrow> (Inr a, record_success b', s')))"

definition force_open :: "time \<Rightarrow> breaker \<Rightarrow> breaker" where
  "force_open now b = b\<lparr>cb_state := OPEN, cb_opened_at := now, cb_failures := cb_threshold b\<rparr>"

definition force_close :: "breaker \<Rightarrow> breaker" where
  "force_close b = b\<lparr>cb_state := CLOSED, cb_failures := 0, cb_current := cb_initial b\<rparr>"

text \<open>
  \<open>retry_with_backoff\<close>: \<open>fn k\<close> is the k-th attempt, \<open>jit k\<close> the k-th draw of \<open>random.uniform\<close>.
  The second component lists the delays slept.  No attempt at all ends in the final assertion.
\<close>

definition backoff_delay :: "real \<Rightarrow> real \<Rightarrow> (nat \<Rightarrow> real) \<Rightarrow> nat \<Rightarrow> real" where
  "backoff_delay base_delay max_delay jit attempt = min (base_delay * 2 ^ (attempt - 1)) max_delay + jit attempt"

fun retry_loop ::
  "(nat \<Rightarrow> 's \<Rightarrow> ('a, 's) outcome) \<Rightarrow> (exc \<Rightarrow> bool) \<Rightarrow> nat \<Rightarrow> (nat \<Rightarrow> real) \<Rightarrow> nat list \<Rightarrow> exc option
   \<Rightarrow> real list \<Rightarrow> 's \<Rightarrow> ('a, 's) outcome \<times> real list" where
  "retry_loop fn retry_on attempts delay [] last_exc slept s =
     ((case last_exc of None \<Rightarrow> Inl AssertionError | Some e \<Rightarrow> Inl e, s), slept)"
| "retry_loop fn retry_on attempts delay (k # ks) last_exc slept s =
     (case fn k s of
        (Inr a, s') \<Rightarrow> ((Inr a, s'), slept)
      | (Inl e, s') \<Rightarrow>
          if \<not> retry_on e then ((Inl e, s'), slept)
          else if k \<ge> attempts then ((Inl e, s'), slept)
          else retry_loop fn retry_on attempts delay ks (Some e) (slept @ [delay k]) s')"

definition retry_with_backoff ::
  "(nat \<Rightarrow> 's \<Rightarrow> ('a, 's) outcome) \<Rightarrow> (exc \<Rightarrow> bool) \<Rightarrow> nat \<Rightarrow> real \<Rightarrow> real \<Rightarrow> (nat \<Rightarrow> real) \<Rightarrow> 's
   \<Rightarrow> ('a, 's) outcome \<times> real list" where
  "retry_with_backoff fn retry_on attempts base_delay max_delay jit s =
     retry_loop fn retry_on attempts (backoff_delay base_delay max_delay jit) [1..<Suc attempts] None [] s"

section \<open>The contract of a guarded call\<close>

text \<open>
  What the services behind a breaker rely on: a call either runs the function once and hands on
  its result, or it refuses with \<open>CircuitOpenError\<close> and touches nothing.
\<close>

locale guard =
  fixes guarded :: "('s \<Rightarrow> ('a, 's) outcome) \<Rightarrow> 'b \<Rightarrow> 's \<Rightarrow> 'a res \<times> 'b \<times> 's"
  assumes once: "guarded f b s = (r, b', s') \<Longrightarrow> (r = Inl CircuitOpenError \<and> s' = s) \<or> f s = (r, s')"
begin

lemma keeps:
  assumes "guarded f b s = (r, b', s')" and "I s" and "\<And>r t. f s = (r, t) \<Longrightarrow> I t"
  shows "I s'"
  using once [OF assms(1)] assms(2,3) by auto

lemma value_from_call: "guarded f b s = (Inr a, b', s') \<Longrightarrow> f s = (Inr a, s')"
  using once by fastforce

end

interpretation brk: guard "breaker_call t0 t1" for t0 t1
  by unfold_locales (auto simp: breaker_call_def preflight_def Let_def split: sum.splits prod.splits if_splits)

section \<open>The state machine\<close>

text \<open>
  Calls overlap: the check and the recording of the result are separate critical sections, so
  a step is one critical section.
\<close>

inductive breaker_step :: "breaker \<Rightarrow> breaker \<Rightarrow> bool" where
  check: "breaker_step b (snd (preflight now b))"
| look: "breaker_step b (snd (breaker_state now b))"
| success: "breaker_step b (record_success b)"
| failure: "breaker_step b (record_failure now b)"
| forced_open: "breaker_step b (force_open now b)"
| forced_closed: "breaker_step b (force_close b)"

inductive breaker_reach :: "breaker \<Rightarrow> breaker \<Rightarrow> bool" for b0 where
  start: "breaker_reach b0 b0"
| step: "breaker_reach b0 b \<Longrightarrow> breaker_step b b' \<Longrightarrow> breaker_reach b0 b'"

inductive_cases breaker_stepE: "breaker_step b b'"

definition breaker_inv :: "breaker \<Rightarrow> bool" where
  "breaker_inv b \<longleftrightarrow>
     cb_initial b \<le> cb_current b \<and> cb_current b \<le> cb_max b \<and> 0 \<le> cb_failures b
     \<and> (cb_state b = CLOSED \<longleftrightarrow> cb_failures b < cb_threshold b)
     \<and> (\<exists>k. cb_current b = min (cb_initial b * 2 ^ k) (cb_max b))"

definition breaker_config :: "breaker \<Rightarrow> int \<times> time \<times> time" where
  "breaker_config b = (cb_threshold b, cb_initial b, cb_max b)"

lemma maybe_half_open_simps [simp]:
  "cb_threshold (maybe_half_open now b) = cb_threshold b" "cb_initial (maybe_half_open now b) = cb_initial b"
  "cb_current (maybe_half_open now b) = cb_current b" "cb_max (maybe_half_open now b) = cb_max b"
  "cb_failures (maybe_half_open now b) = cb_failures b"
  by (simp_all add: maybe_half_open_def)

lemma half_open_inv: "breaker_inv b \<Longrightarrow> breaker_inv (maybe_half_open now b)"
  by (auto simp: breaker_inv_def maybe_half_open_def)

lemma doubled_timeout:
  assumes "c = min (i * 2 ^ k) m" and "0 < (i :: real)" and "i \<le> c" and "c \<le> m"
  shows "min (c * 2) m = min (i * 2 ^ Suc k) m"
proof (cases "i * 2 ^ k \<le> m")
  case True
  then show ?thesis using assms(1) by (simp add: min_def)
next
  case False
  then have "c = m" using assms(1) by simp
  moreover have "m \<le> m * 2" using assms(2-4) by simp
  moreover have "m \<le> i * 2 ^ Suc k" using False \<open>m \<le> m * 2\<close> by simp
  ultimately show ?thesis by (simp add: min_def)
qed

lemma breaker_step_inv:
  assumes "breaker_step b b'" and "breaker_inv b" and "0 < cb_initial b" and "0 < cb_threshold b"
  shows "breaker_inv b' \<and> breaker_config b' = breaker_config b"
  using assms(1)
proof cases
  case (failure now)
  show ?thesis
  proof (cases "cb_state b = HALF_OPEN")
    case True
    obtain k where k: "cb_current b = min (cb_initial b * 2 ^ k) (cb_max b)"
      using assms(2) by (auto simp: breaker_inv_def)
    have bounds: "cb_initial b \<le> cb_current b" "cb_current b \<le> cb_max b" using assms(2) by (simp_all add: breaker_inv_def)
    have "min (cb_current b * 2) (cb_max b) = min (cb_initial b * 2 ^ Suc k) (cb_max b)"
      by (rule doubled_timeout [OF k assms(3) bounds])
    moreover have "cb_initial b \<le> min (cb_current b * 2) (cb_max b)" using bounds assms(3) by simp
    moreover have "cb_threshold b \<le> cb_failures b" using assms(2) True by (auto simp: breaker_inv_def)
    moreover have "0 \<le> cb_failures b" using assms(2) by (simp add: breaker_inv_def)
    ultimately show ?thesis using failure True
      by (simp add: record_failure_def breaker_inv_def breaker_config_def) (rule exI [of _ "Suc k"], simp)
  next
    case False
    then show ?thesis using failure assms(2)
      by (auto simp: record_failure_def breaker_inv_def breaker_config_def Let_def; cases "cb_state b"; auto)
  qed
next
  case success
  then show ?thesis using assms
    by (auto simp: record_success_def breaker_inv_def breaker_config_def intro!: exI [of _ 0])
next
  case forced_closed
  then show ?thesis using assms
    by (auto simp: force_close_def breaker_inv_def breaker_config_def intro!: exI [of _ 0])
next
  case (forced_open now)
  then show ?thesis using assms by (auto simp: force_open_def breaker_inv_def breaker_config_def)
qed (use assms(2) half_open_inv in \<open>auto simp: preflight_def breaker_state_def Let_def breaker_config_def\<close>)

lemma breaker_reach_inv:
  assumes "breaker_reach (new_breaker thr reset mx) b" and "0 < thr" "0 < reset" "reset \<le> mx"
  shows "breaker_inv b \<and> breaker_config b = (thr, reset, mx)"
  using assms(1)
proof (induction rule: breaker_reach.induct)
  case start
  then show ?case using assms(2-)
    by (auto simp: breaker_inv_def new_breaker_def breaker_config_def intro!: exI [of _ 0])
next
  case (step b b')
  then show ?case using breaker_step_inv [OF step(2)] assms(2-) by (auto simp: breaker_config_def)
qed

text \<open>Consecutive failures of a closed breaker.\<close>

fun fail_times :: "time list \<Rightarrow> breaker \<Rightarrow> breaker" where
  "fail_times [] b = b"
| "fail_times (t # ts) b = fail_times ts (record_failure t b)"

lemma fail_times_closed:
  "cb_state b = CLOSED \<Longrightarrow> cb_failures b + int (length ts) < cb_threshold b \<Longrightarrow>
   fail_times ts b = b\<lparr>cb_failures := cb_failures b + int (length ts)\<rparr>"
  by (induction ts arbitrary: b) (auto simp: record_failure_def add.assoc)

lemma fail_times_snoc: "fail_times (ts @ [t]) b = record_failure t (fail_times ts b)"
  by (induction ts arbitrary: b) auto


section \<open>Retries\<close>

text \<open>The state before attempt \<open>k + 1\<close>.\<close>

primrec before_attempt :: "(nat \<Rightarrow> 's \<Rightarrow> ('a, 's) outcome) \<Rightarrow> 's \<Rightarrow> nat \<Rightarrow> 's" where
  "before_attempt fn s 0 = s"
| "before_attempt fn s (Suc k) = snd (fn (Suc k) (before_attempt fn s k))"

definition retryable :: "(nat \<Rightarrow> 's \<Rightarrow> ('a, 's) outcome) \<Rightarrow> (exc \<Rightarrow> bool) \<Rightarrow> 's \<Rightarrow> nat \<Rightarrow> bool" where
  "retryable fn retry_on s k \<longleftrightarrow>
     (case fst (fn k (before_attempt fn s (k - 1))) of Inl e \<Rightarrow> retry_on e | Inr _ \<Rightarrow> False)"

lemma retry_loop_outcome:
  assumes "1 \<le> j" "j \<le> n" "n \<le> attempts"
    and "\<And>k. j \<le> k \<Longrightarrow> k < n \<Longrightarrow> retryable fn retry_on s k"
    and "n = attempts \<or> \<not> retryable fn retry_on s n"
  shows "retry_loop fn retry_on attempts delay [j..<Suc attempts] prior slept (before_attempt fn s (j - 1))
    = (fn n (before_attempt fn s (n - 1)), slept @ map delay [j..<n])"
  using assms
proof (induction "n - j" arbitrary: j prior slept)
  case 0
  then have "j = n" by simp
  obtain r t where r: "fn n (before_attempt fn s (n - 1)) = (r, t)" by fastforce
  show ?case using 0 \<open>j = n\<close> r
    by (auto simp: upt_conv_Cons retryable_def simp del: upt_Suc split: sum.splits)
next
  case (Suc d)
  then have jn: "j < n" by simp
  have ret: "retryable fn retry_on s j" using Suc.prems(4) jn by simp
  then obtain e t where e: "fn j (before_attempt fn s (j - 1)) = (Inl e, t)" "retry_on e"
    by (cases "fn j (before_attempt fn s (j - 1))") (auto simp: retryable_def split: sum.splits)
  have t: "t = before_attempt fn s j" using e Suc.prems(1) by (cases j) auto
  have IH: "retry_loop fn retry_on attempts delay [Suc j..<Suc attempts] (Some e) (slept @ [delay j]) (before_attempt fn s (Suc j - 1))
      = (fn n (before_attempt fn s (n - 1)), (slept @ [delay j]) @ map delay [Suc j..<n])"
    by (rule Suc.hyps(1)) (use Suc.hyps(2) Suc.prems jn in auto)
  have "retry_loop fn retry_on attempts delay [j..<Suc attempts] prior slept (before_attempt fn s (j - 1))
      = retry_loop fn retry_on attempts delay [Suc j..<Suc attempts] (Some e) (slept @ [delay j]) t"
    using jn Suc.prems(3) e by (simp add: upt_conv_Cons del: upt_Suc)
  then show ?case using IH t jn by (simp add: upt_conv_Cons del: upt_Suc)
qed

section \<open>Properties\<close>

text \<open>
  C37. Whatever sequence of checks, results and operator commands a breaker goes through, its
  timeout is the initial one doubled some number of times and capped at the maximum, it lies
  between the two, and the breaker is closed exactly while the failure count is below the threshold.
\<close>

theorem breaker_invariant:
  assumes "breaker_reach (new_breaker thr reset mx) b" and "0 < thr" "0 < reset" "reset \<le> mx"
  shows "reset \<le> cb_current b \<and> cb_current b \<le> mx \<and> (\<exists>k. cb_current b = min (reset * 2 ^ k) mx)
    \<and> 0 \<le> cb_failures b \<and> (cb_state b = CLOSED \<longleftrightarrow> cb_failures b < thr)"
  using breaker_reach_inv [OF assms] by (auto simp: breaker_inv_def breaker_config_def)

theorem breaker_invariant_witness:
  "let b = record_failure 31 (snd (preflight 12 (fail_times [1, 1, 2] (new_breaker 3 10 300))))
   in cb_state b = OPEN \<and> cb_current b = 20 \<and> 10 \<le> cb_current b \<and> cb_current b \<le> (300 :: real)"
proof -
  let ?start = "new_breaker 3 10 300"
  let ?now = "record_failure 31 (snd (preflight 12 (fail_times [1, 1, 2] ?start)))"
  have "breaker_reach ?start ?now"
    by (simp only: fail_times.simps) (rule breaker_reach.step [OF _ breaker_step.failure],
        rule breaker_reach.step [OF _ breaker_step.check],
        (rule breaker_reach.step [OF _ breaker_step.failure])+, rule breaker_reach.start)
  from breaker_invariant [OF this] have "10 \<le> cb_current ?now" "cb_current ?now \<le> 300" by simp_all
  then show ?thesis
    by (simp add: new_breaker_def record_failure_def preflight_def maybe_half_open_def Let_def)
qed

text \<open>
  C38. The threshold-th consecutive failure opens the breaker, and until the reset timeout has
  passed every further call is refused with \<open>CircuitOpenError\<close> without running the function,
  whatever the function is.
\<close>

theorem breaker_opens_and_refuses:
  assumes "cb_state b = CLOSED" and "cb_failures b + int (length ts) + 1 = cb_threshold b"
    and "t0 - t < cb_current b"
  shows "let b' = fail_times (ts @ [t]) b
         in cb_state b' = OPEN \<and> breaker_call t0 t1 f b' s = (Inl CircuitOpenError, b', s)"
proof -
  have "fail_times ts b = b\<lparr>cb_failures := cb_failures b + int (length ts)\<rparr>"
    by (rule fail_times_closed) (use assms in auto)
  then show ?thesis using assms
    by (simp add: fail_times_snoc record_failure_def breaker_call_def preflight_def maybe_half_open_def Let_def)
qed

theorem breaker_opens_and_refuses_witness:
  "let b' = fail_times ([1, 2] @ [3]) (new_breaker 3 10 300)
   in cb_state b' = OPEN
      \<and> breaker_call 12 13 (\<lambda>n. (Inr True, n + (1 :: nat))) b' 0 = (Inl CircuitOpenError, b', 0)"
  using breaker_opens_and_refuses [of "new_breaker 3 10 300" "[1, 2]" 12 3]
  by (simp add: new_breaker_def)

text \<open>
  Half open is not one probe: the check of a half-open breaker always lets the caller
  through and leaves the breaker half open, so any number of overlapping calls pass.
\<close>

lemma half_open_admits_every_caller:
  "preflight now (b\<lparr>cb_state := HALF_OPEN\<rparr>) = (Inr (), b\<lparr>cb_state := HALF_OPEN\<rparr>)"
  by (simp add: preflight_def maybe_half_open_def Let_def)

text \<open>
  \<open>retry_with_backoff\<close>: if the attempts before the n-th fail with an error to retry on,
  and the n-th does not or is the last one allowed, then the outcome is that of the n-th
  attempt, no later attempt is made, and the delays slept are those of the n - 1 failures.
\<close>

lemma retry_outcome:
  assumes "1 \<le> n" "n \<le> attempts"
    and "\<And>k. 1 \<le> k \<Longrightarrow> k < n \<Longrightarrow> retryable fn retry_on s k"
    and "n = attempts \<or> \<not> retryable fn retry_on s n"
  shows "retry_with_backoff fn retry_on attempts base_delay max_delay jit s
    = (fn n (before_attempt fn s (n - 1)), map (backoff_delay base_delay max_delay jit) [1..<n])"
  using retry_loop_outcome [of 1 n attempts fn retry_on s _ None "[]"] assms
  by (simp add: retry_with_backoff_def del: upt_Suc)

lemma retry_outcome_witness:
  "retry_with_backoff (\<lambda>k n. (if k < 3 then Inl RpcError else Inr k, n + (1 :: nat))) (\<lambda>e. e = RpcError)
     5 (1 / 5) 5 (\<lambda>_. 0) 0 = ((Inr 3, 3), [1 / 5, 2 / 5])"
proof -
  let ?fn = "\<lambda>k n. (if k < 3 then Inl RpcError else Inr k, n + (1 :: nat)) :: (nat, nat) outcome"
  have "before_attempt ?fn 0 2 = 2" by (simp add: numeral_2_eq_2)
  then show ?thesis
    using retry_outcome [of 3 5 ?fn "\<lambda>e. e = RpcError" 0 "1 / 5" 5 "\<lambda>_. 0"]
    by (simp add: retryable_def backoff_delay_def upt_conv_Cons)
qed

end
