(* ===== verification/Store.thy ===== *)
theory Store
  imports Util Resilience Ledger_Chain
begin

text \<open>
  The tables of \<open>backend/app/db/migrations\<close> with the enumerations of \<open>backend/app/models\<close>, the
  inserts with their primary and foreign keys, and what a request takes from outside: the hash
  functions, the clock, \<open>uuid4\<close>, Shapely, the name matcher, the trained model and the cipher.

  \<open>PRAGMA foreign_keys=ON\<close> makes an insert with a dangling reference raise.  The connection is
  in autocommit mode, so every statement that succeeded stays when a later one raises.
\<close>

section \<open>Enumerations\<close>

datatype tenure_type = MAILO | FREEHOLD | LEASEHOLD | CUSTOMARY
datatype parcel_status = P_ACTIVE | P_DISPUTED | P_FROZEN | P_TRANSFERRED
datatype kyc_status = K_PENDING | K_VERIFIED | K_REJECTED | K_EXPIRED
datatype transfer_type = SALE | GIFT | INHERITANCE | COURT_ORDER | SUBDIVISION
datatype transfer_status = T_PENDING | T_APPROVED | T_REJECTED | T_COMPLETED | T_REVERSED
datatype dispute_type = OVERLAP | OWNERSHIP | BOUNDARY | FRAUD | ENCROACHMENT
datatype dispute_state = D_FILED | D_UNDER_REVIEW | D_MEDIATION | D_RESOLVED | D_DISMISSED | D_ESCALATED_COURT
datatype anchor_status = A_PENDING | A_SUBMITTED | A_CONFIRMED | A_FAILED | A_REVERTED
datatype fraud_action = NONE | FLAG | BLOCK
datatype review_state = R_PENDING_REVIEW | R_HUMAN_AFFIRMED | R_HUMAN_DISMISSED | R_AUTO_ESCALATED | R_EXPIRED
datatype appeal_state = AP_OPEN | AP_UNDER_REVIEW | AP_UPHELD | AP_DENIED | AP_WITHDRAWN
datatype job_state = J_PENDING | J_DONE | J_FAILED
datatype role = CITIZEN | SURVEYOR | LAND_OFFICER | REGISTRAR | AUDITOR | PUBLIC_VERIFIER | ADMIN

fun tenure_str :: "tenure_type \<Rightarrow> string" where
  "tenure_str MAILO = ''MAILO''"
| "tenure_str FREEHOLD = ''FREEHOLD''"
| "tenure_str LEASEHOLD = ''LEASEHOLD''"
| "tenure_str CUSTOMARY = ''CUSTOMARY''"

fun parcel_status_str :: "parcel_status \<Rightarrow> string" where
  "parcel_status_str P_ACTIVE = ''ACTIVE''"
| "parcel_status_str P_DISPUTED = ''DISPUTED''"
| "parcel_status_str P_FROZEN = ''FROZEN''"
| "parcel_status_str P_TRANSFERRED = ''TRANSFERRED''"

fun kyc_str :: "kyc_status \<Rightarrow> string" where
  "kyc_str K_PENDING = ''PENDING''"
| "kyc_str K_VERIFIED = ''VERIFIED''"
| "kyc_str K_REJECTED = ''REJECTED''"
| "kyc_str K_EXPIRED = ''EXPIRED''"

fun transfer_type_str :: "transfer_type \<Rightarrow> string" where
  "transfer_type_str SALE = ''SALE''"
| "transfer_type_str GIFT = ''GIFT''"
| "transfer_type_str INHERITANCE = ''INHERITANCE''"
| "transfer_type_str COURT_ORDER = ''COURT_ORDER''"
| "transfer_type_str SUBDIVISION = ''SUBDIVISION''"

fun dispute_type_str :: "dispute_type \<Rightarrow> string" where
  "dispute_type_str OVERLAP = ''OVERLAP''"
| "dispute_type_str OWNERSHIP = ''OWNERSHIP''"
| "dispute_type_str BOUNDARY = ''BOUNDARY''"
| "dispute_type_str FRAUD = ''FRAUD''"
| "dispute_type_str ENCROACHMENT = ''ENCROACHMENT''"

fun dispute_state_str :: "dispute_state \<Rightarrow> string" where
  "dispute_state_str D_FILED = ''FILED''"
| "dispute_state_str D_UNDER_REVIEW = ''UNDER_REVIEW''"
| "dispute_state_str D_MEDIATION = ''MEDIATION''"
| "dispute_state_str D_RESOLVED = ''RESOLVED''"
| "dispute_state_str D_DISMISSED = ''DISMISSED''"
| "dispute_state_str D_ESCALATED_COURT = ''ESCALATED_COURT''"

fun anchor_status_str :: "anchor_status \<Rightarrow> string" where
  "anchor_status_str A_PENDING = ''PENDING''"
| "anchor_status_str A_SUBMITTED = ''SUBMITTED''"
| "anchor_status_str A_CONFIRMED = ''CONFIRMED''"
| "anchor_status_str A_FAILED = ''FAILED''"
| "anchor_status_str A_REVERTED = ''REVERTED''"

fun action_str :: "fraud_action \<Rightarrow> string" where
  "action_str NONE = ''NONE''"
| "action_str FLAG = ''FLAG''"
| "action_str BLOCK = ''BLOCK''"

fun review_state_str :: "review_state \<Rightarrow> string" where
  "review_state_str R_PENDING_REVIEW = ''PENDING_REVIEW''"
| "review_state_str R_HUMAN_AFFIRMED = ''HUMAN_AFFIRMED''"
| "review_state_str R_HUMAN_DISMISSED = ''HUMAN_DISMISSED''"
| "review_state_str R_AUTO_ESCALATED = ''AUTO_ESCALATED''"
| "review_state_str R_EXPIRED = ''EXPIRED''"

fun appeal_state_str :: "appeal_state \<Rightarrow> string" where
  "appeal_state_str AP_OPEN = ''OPEN''"
| "appeal_state_str AP_UNDER_REVIEW = ''UNDER_REVIEW''"
| "appeal_state_str AP_UPHELD = ''UPHELD''"
| "appeal_state_str AP_DENIED = ''DENIED''"
| "appeal_state_str AP_WITHDRAWN = ''WITHDRAWN''"

fun role_str :: "role \<Rightarrow> string" where
  "role_str CITIZEN = ''CITIZEN''"
| "role_str SURVEYOR = ''SURVEYOR''"
| "role_str LAND_OFFICER = ''LAND_OFFICER''"
| "role_str REGISTRAR = ''REGISTRAR''"
| "role_str AUDITOR = ''AUDITOR''"
| "role_str PUBLIC_VERIFIER = ''PUBLIC_VERIFIER''"
| "role_str ADMIN = ''ADMIN''"

section \<open>Rows\<close>

record district =
  di_id :: int
  di_name :: string
  di_region :: string
  di_created :: time

record owner =
  o_id :: string
  o_nin_hash :: string
  o_nin_encrypted :: bytes
  o_name :: string
  o_dob :: "string option"
  o_phone :: "string option"
  o_kyc :: kyc_status
  o_kyc_at :: "time option"
  o_created :: time
  o_updated :: time

record parcel =
  p_id :: string
  p_tenure :: tenure_type
  p_district :: int
  p_sub_county :: string
  p_geometry :: string
  p_area :: real
  p_owner :: "string option"
  p_status :: parcel_status
  p_created :: time
  p_updated :: time

record title =
  ti_no :: string
  ti_parcel :: string
  ti_issued :: time
  ti_registrar :: string
  ti_district :: int
  ti_hash :: string
  ti_proof :: "string option"
  ti_revoked :: "time option"
  ti_reason :: "string option"

record transfer =
  t_id :: string
  t_parcel :: string
  t_from :: "string option"
  t_to :: string
  t_type :: transfer_type
  t_consideration :: "real option"
  t_status :: transfer_status
  t_signed :: string
  t_initiated :: time
  t_completed :: "time option"
  t_district :: int

record dispute =
  d_id :: string
  d_parcel :: string
  d_claimant :: string
  d_respondent :: "string option"
  d_type :: dispute_type
  d_state :: dispute_state
  d_evidence :: "string option"
  d_resolution :: "string option"
  d_district :: int
  d_filed :: time
  d_resolved :: "time option"

record anchor =
  an_batch :: string
  an_district :: int
  an_root :: string
  an_first :: int
  an_last :: int
  an_count :: nat
  an_tx :: "string option"
  an_block :: "int option"
  an_at :: time
  an_confirmed :: "time option"
  an_status :: anchor_status

record nira_row =
  nv_hash :: string
  nv_verified :: time
  nv_expires :: time
  nv_result :: string
  nv_source :: string

record staff =
  st_id :: string
  st_external :: string
  st_district :: "int option"
  st_role :: role
  st_email :: "string option"
  st_name :: "string option"
  st_created :: time
  st_seen :: time

record score_row =
  fs_id :: string
  fs_type :: string
  fs_subject :: string
  fs_risk :: int
  fs_signals :: string
  fs_action :: fraud_action
  fs_at :: time
  fs_version :: string

record watch_row =
  wl_id :: string
  wl_name :: string
  wl_reason :: string
  wl_by :: string
  wl_at :: time

record review =
  r_id :: string
  r_type :: string
  r_subject :: string
  r_district :: int
  r_risk :: int
  r_action :: fraud_action
  r_signals :: string
  r_version :: string
  r_state :: review_state
  r_created :: time
  r_reviewed_at :: "time option"
  r_reviewed_by :: "string option"
  r_notes :: "string option"
  r_escalated :: "time option"

record appeal =
  ap_id :: string
  ap_review :: "string option"
  ap_type :: string
  ap_subject :: string
  ap_appellant :: string
  ap_statement :: string
  ap_evidence :: "string option"
  ap_state :: appeal_state
  ap_filed :: time
  ap_resolved :: "time option"
  ap_note :: "string option"

record job =
  j_id :: string
  j_type :: string
  j_subject :: string
  j_state :: job_state
  j_attempts :: int
  j_created :: time
  j_next :: "time option"
  j_error :: "string option"

record db =
  districts :: "district list"
  owners :: "owner list"
  parcels :: "parcel list"
  titles :: "title list"
  transfers :: "transfer list"
  disputes :: "dispute list"
  anchors :: "anchor list"
  nira :: "nira_row list"
  staff_users :: "staff list"
  fraud_scores :: "score_row list"
  watchlist :: "watch_row list"
  reviews :: "review list"
  appeals :: "appeal list"
  jobs :: "job list"
  audit :: "audit_row list"

definition empty_db :: db where
  "empty_db = \<lparr>districts = [], owners = [], parcels = [], titles = [], transfers = [], disputes = [],
     anchors = [], nira = [], staff_users = [], fraud_scores = [], watchlist = [], reviews = [],
     appeals = [], jobs = [], audit = []\<rparr>"

section \<open>What a request takes from outside\<close>

record 'g env =
  e_sha :: "bytes \<Rightarrow> bytes"
  e_kec :: "bytes \<Rightarrow> bytes"
  e_now :: "nat \<Rightarrow> time"
  e_uuid :: "nat \<Rightarrow> string"
  e_repr :: "real \<Rightarrow> string"
  e_encrypt :: "string \<Rightarrow> bytes"
  e_exc :: "exc \<Rightarrow> string"
  e_shape :: "json \<Rightarrow> 'g option"
  e_valid :: "'g \<Rightarrow> bool"
  e_simple :: "'g \<Rightarrow> bool"
  e_area :: "'g \<Rightarrow> real"
  e_metric_area :: "'g \<Rightarrow> real option"
  e_centroid :: "'g \<Rightarrow> real \<times> real"
  e_intersects :: "'g \<Rightarrow> 'g \<Rightarrow> bool"
  e_common_area :: "'g \<Rightarrow> 'g \<Rightarrow> real"
  e_within :: "'g \<Rightarrow> 'g \<Rightarrow> bool"
  e_ratio :: "string \<Rightarrow> string \<Rightarrow> real"
  e_model :: "(real list \<Rightarrow> real option) option"

definition jreal :: "'g env \<Rightarrow> real \<Rightarrow> json" where
  "jreal E x = JFloat (e_repr E x)"

definition jopt :: "('a \<Rightarrow> json) \<Rightarrow> 'a option \<Rightarrow> json" where
  "jopt f x = (case x of None \<Rightarrow> JNull | Some a \<Rightarrow> f a)"

section \<open>Keyed lookups and inserts\<close>

definition find_district :: "int \<Rightarrow> db \<Rightarrow> district option" where
  "find_district i s = find (\<lambda>r. di_id r = i) (districts s)"

definition find_owner :: "string \<Rightarrow> db \<Rightarrow> owner option" where
  "find_owner i s = find (\<lambda>r. o_id r = i) (owners s)"

definition find_parcel :: "string \<Rightarrow> db \<Rightarrow> parcel option" where
  "find_parcel i s = find (\<lambda>r. p_id r = i) (parcels s)"

definition find_title :: "string \<Rightarrow> db \<Rightarrow> title option" where
  "find_title i s = find (\<lambda>r. ti_no r = i) (titles s)"

definition find_transfer :: "string \<Rightarrow> db \<Rightarrow> transfer option" where
  "find_transfer i s = find (\<lambda>r. t_id r = i) (transfers s)"

definition find_dispute :: "string \<Rightarrow> db \<Rightarrow> dispute option" where
  "find_dispute i s = find (\<lambda>r. d_id r = i) (disputes s)"

definition find_anchor :: "string \<Rightarrow> db \<Rightarrow> anchor option" where
  "find_anchor i s = find (\<lambda>r. an_batch r = i) (anchors s)"

definition find_review :: "string \<Rightarrow> db \<Rightarrow> review option" where
  "find_review i s = find (\<lambda>r. r_id r = i) (reviews s)"

definition find_appeal :: "string \<Rightarrow> db \<Rightarrow> appeal option" where
  "find_appeal i s = find (\<lambda>r. ap_id r = i) (appeals s)"

text \<open>A reference that may be null.\<close>

definition ref_ok :: "('a \<Rightarrow> bool) \<Rightarrow> 'a option \<Rightarrow> bool" where
  "ref_ok p x = (case x of None \<Rightarrow> True | Some a \<Rightarrow> p a)"

definition insert_district :: "district \<Rightarrow> db \<Rightarrow> (unit, db) outcome" where
  "insert_district r s =
     (if find_district (di_id r) s \<noteq> None then (Inl IntegrityError, s)
      else (Inr (), s\<lparr>districts := districts s @ [r]\<rparr>))"

definition insert_owner :: "owner \<Rightarrow> db \<Rightarrow> (unit, db) outcome" where
  "insert_owner r s =
     (if find_owner (o_id r) s \<noteq> None \<or> o_nin_hash r \<in> o_nin_hash ` set (owners s) then (Inl IntegrityError, s)
      else (Inr (), s\<lparr>owners := owners s @ [r]\<rparr>))"

definition insert_parcel :: "parcel \<Rightarrow> db \<Rightarrow> (unit, db) outcome" where
  "insert_parcel r s =
     (if find_parcel (p_id r) s \<noteq> None \<or> find_district (p_district r) s = None
         \<or> \<not> ref_ok (\<lambda>i. find_owner i s \<noteq> None) (p_owner r) then (Inl IntegrityError, s)
      else (Inr (), s\<lparr>parcels := parcels s @ [r]\<rparr>))"

definition insert_title :: "title \<Rightarrow> db \<Rightarrow> (unit, db) outcome" where
  "insert_title r s =
     (if find_title (ti_no r) s \<noteq> None \<or> find_parcel (ti_parcel r) s = None then (Inl IntegrityError, s)
      else (Inr (), s\<lparr>titles := titles s @ [r]\<rparr>))"

definition insert_transfer :: "transfer \<Rightarrow> db \<Rightarrow> (unit, db) outcome" where
  "insert_transfer r s =
     (if find_transfer (t_id r) s \<noteq> None \<or> find_parcel (t_parcel r) s = None
         \<or> \<not> ref_ok (\<lambda>i. find_owner i s \<noteq> None) (t_from r) \<or> find_owner (t_to r) s = None
      then (Inl IntegrityError, s)
      else (Inr (), s\<lparr>transfers := transfers s @ [r]\<rparr>))"

definition insert_dispute :: "dispute \<Rightarrow> db \<Rightarrow> (unit, db) outcome" where
  "insert_dispute r s =
     (if find_dispute (d_id r) s \<noteq> None \<or> find_parcel (d_parcel r) s = None
         \<or> find_owner (d_claimant r) s = None \<or> \<not> ref_ok (\<lambda>i. find_owner i s \<noteq> None) (d_respondent r)
      then (Inl IntegrityError, s)
      else (Inr (), s\<lparr>disputes := disputes s @ [r]\<rparr>))"

definition insert_anchor_row :: "anchor \<Rightarrow> db \<Rightarrow> (unit, db) outcome" where
  "insert_anchor_row r s =
     (if find_anchor (an_batch r) s \<noteq> None \<or> find_district (an_district r) s = None then (Inl IntegrityError, s)
      else (Inr (), s\<lparr>anchors := anchors s @ [r]\<rparr>))"

definition insert_staff :: "staff \<Rightarrow> db \<Rightarrow> (unit, db) outcome" where
  "insert_staff r s =
     (if st_id r \<in> st_id ` set (staff_users s)
         \<or> \<not> ref_ok (\<lambda>i. find_district i s \<noteq> None) (st_district r)
         \<or> (st_district r \<noteq> None \<and> (st_district r, st_external r) \<in> (\<lambda>x. (st_district x, st_external x)) ` set (staff_users s))
      then (Inl IntegrityError, s)
      else (Inr (), s\<lparr>staff_users := staff_users s @ [r]\<rparr>))"

definition insert_review :: "review \<Rightarrow> db \<Rightarrow> (unit, db) outcome" where
  "insert_review r s =
     (if find_review (r_id r) s \<noteq> None \<or> r_action r = NONE then (Inl IntegrityError, s)
      else (Inr (), s\<lparr>reviews := reviews s @ [r]\<rparr>))"

definition insert_appeal :: "appeal \<Rightarrow> db \<Rightarrow> (unit, db) outcome" where
  "insert_appeal r s =
     (if find_appeal (ap_id r) s \<noteq> None \<or> \<not> ref_ok (\<lambda>i. find_review i s \<noteq> None) (ap_review r)
      then (Inl IntegrityError, s)
      else (Inr (), s\<lparr>appeals := appeals s @ [r]\<rparr>))"

definition insert_job :: "job \<Rightarrow> db \<Rightarrow> (unit, db) outcome" where
  "insert_job r s =
     (if j_id r \<in> j_id ` set (jobs s) then (Inl IntegrityError, s)
      else (Inr (), s\<lparr>jobs := jobs s @ [r]\<rparr>))"

text \<open>\<open>audit_emit\<close> on the database: k is the number of the \<open>uuid4\<close> and clock readings it makes.\<close>

definition emit :: "'g env \<Rightarrow> nat \<Rightarrow> string \<Rightarrow> json \<Rightarrow> int \<Rightarrow> string \<Rightarrow> db \<Rightarrow> db" where
  "emit E k event_type payload district_id actor s =
     s\<lparr>audit := snd (audit_emit (e_sha E) (e_uuid E k) (e_now E k) event_type payload (int_str district_id) actor (audit s))\<rparr>"

text \<open>
  A number of clock and \<open>uuid4\<close> readings each: the i-th reading of a request.  A loop gives every
  iteration readings of its own by shifting the stream.
\<close>

definition shift_env :: "nat \<Rightarrow> 'g env \<Rightarrow> 'g env" where
  "shift_env n E = E\<lparr>e_now := (\<lambda>i. e_now E (n + i)), e_uuid := (\<lambda>i. e_uuid E (n + i))\<rparr>"

lemma emit_sel [simp]:
  "districts (emit E k t p d a s) = districts s" "owners (emit E k t p d a s) = owners s"
  "parcels (emit E k t p d a s) = parcels s" "titles (emit E k t p d a s) = titles s"
  "transfers (emit E k t p d a s) = transfers s" "disputes (emit E k t p d a s) = disputes s"
  "anchors (emit E k t p d a s) = anchors s" "nira (emit E k t p d a s) = nira s"
  "staff_users (emit E k t p d a s) = staff_users s" "fraud_scores (emit E k t p d a s) = fraud_scores s"
  "watchlist (emit E k t p d a s) = watchlist s" "reviews (emit E k t p d a s) = reviews s"
  "appeals (emit E k t p d a s) = appeals s" "jobs (emit E k t p d a s) = jobs s"
  by (simp_all add: emit_def)

lemmas find_row_defs = find_district_def find_owner_def find_parcel_def find_title_def find_transfer_def
  find_dispute_def find_anchor_def find_review_def find_appeal_def

lemmas insert_row_defs = insert_district_def insert_owner_def insert_parcel_def insert_title_def
  insert_transfer_def insert_dispute_def insert_anchor_row_def insert_staff_def insert_review_def
  insert_appeal_def insert_job_def

lemma find_row_emit [simp]:
  "find_district i (emit E k t p d a s) = find_district i s"
  "find_owner j (emit E k t p d a s) = find_owner j s"
  "find_parcel j (emit E k t p d a s) = find_parcel j s"
  "find_title j (emit E k t p d a s) = find_title j s"
  "find_transfer j (emit E k t p d a s) = find_transfer j s"
  "find_dispute j (emit E k t p d a s) = find_dispute j s"
  "find_anchor j (emit E k t p d a s) = find_anchor j s"
  "find_review j (emit E k t p d a s) = find_review j s"
  "find_appeal j (emit E k t p d a s) = find_appeal j s"
  by (simp_all add: find_row_defs)

lemma find_parcel_id: "find_parcel i s = Some r \<Longrightarrow> p_id r = i"
  and find_owner_id: "find_owner i s = Some b \<Longrightarrow> o_id b = i"
  and find_transfer_id: "find_transfer i s = Some t \<Longrightarrow> t_id t = i"
  and find_dispute_id: "find_dispute i s = Some d \<Longrightarrow> d_id d = i"
  and find_review_id: "find_review i s = Some q \<Longrightarrow> r_id q = i"
  and find_appeal_id: "find_appeal i s = Some a \<Longrightarrow> ap_id a = i"
  by (auto simp: find_row_defs dest: find_SomeD)

text \<open>A lookup depends on its own table only.\<close>

lemma find_row_cong:
  "owners s = owners s' \<Longrightarrow> find_owner i s = find_owner i s'"
  "parcels s = parcels s' \<Longrightarrow> find_parcel i s = find_parcel i s'"
  "transfers s = transfers s' \<Longrightarrow> find_transfer i s = find_transfer i s'"
  "disputes s = disputes s' \<Longrightarrow> find_dispute i s = find_dispute i s'"
  "titles s = titles s' \<Longrightarrow> find_title i s = find_title i s'"
  "reviews s = reviews s' \<Longrightarrow> find_review i s = find_review i s'"
  by (simp_all add: find_row_defs)

lemma emit_ledger_inv:
  "ledger_inv (e_sha E) (audit s) \<Longrightarrow> wf_json p \<Longrightarrow> ledger_inv (e_sha E) (audit (emit E k t p d a s))"
  by (simp add: emit_def audit_emit_inv)


text \<open>An environment for closed examples.\<close>

definition demo_env :: "unit env" where
  "demo_env =
     \<lparr>e_sha = pad32, e_kec = pad32, e_now = (\<lambda>i. 1000 + of_nat i), e_uuid = (\<lambda>i. ''id-'' @ nat_str i),
      e_repr = (\<lambda>x. int_str \<lfloor>x\<rfloor> @ ''.0''), e_encrypt = utf8, e_exc = (\<lambda>_. ''error''), e_shape = (\<lambda>_. Some ()), e_valid = (\<lambda>_. True),
      e_simple = (\<lambda>_. True), e_area = (\<lambda>_. 1), e_metric_area = (\<lambda>_. Some 14500), e_centroid = (\<lambda>_. (0, 0)),
      e_intersects = (\<lambda>_ _. False), e_common_area = (\<lambda>_ _. 0), e_within = (\<lambda>_ _. False),
      e_ratio = (\<lambda>a b. if a = b then 100 else 0), e_model = None\<rparr>"

definition demo_db :: db where
  "demo_db = empty_db\<lparr>districts := [\<lparr>di_id = 3, di_name = ''Mityana'', di_region = ''Central'', di_created = 0\<rparr>]\<rparr>"

end
