(* ===== verification/Auth.thy ===== *)
theory Auth
  imports Store
begin

text \<open>
  \<open>backend/app/auth\<close> and the parts of \<open>backend/app/config.py\<close> it reads: roles, the request context,
  the resolution of a request to a context (bearer token or the demo role header), \<open>require_user\<close>
  and \<open>require_role\<close>, the choice of the OIDC key, and \<open>assert_prod_safety\<close>.

  PyJWT is a parameter: \<open>decode key algorithm token\<close> returns the claims of a token whose signature,
  audience, issuer and expiry it accepts.
\<close>

section \<open>models.py\<close>

definition role_parse :: "string option \<Rightarrow> role option" where
  "role_parse raw =
     (case raw of
        None \<Rightarrow> None
      | Some r \<Rightarrow>
          if r = [] then None
          else find (\<lambda>x. role_str x = upper_str r)
                 [CITIZEN, SURVEYOR, LAND_OFFICER, REGISTRAR, AUDITOR, PUBLIC_VERIFIER, ADMIN])"

record auth_user =
  u_id :: string
  u_role :: role
  u_district :: "int option"
  u_name :: string
  u_email :: "string option"

record auth_context =
  cx_user :: auth_user
  cx_token :: string
  cx_claims :: "(string \<times> json) list"

definition cx_id :: "auth_context \<Rightarrow> string" where
  "cx_id ctx = u_id (cx_user ctx)"

definition cx_role :: "auth_context \<Rightarrow> role" where
  "cx_role ctx = u_role (cx_user ctx)"

definition cx_tenant :: "auth_context \<Rightarrow> string" where
  "cx_tenant ctx = (case u_district (cx_user ctx) of Some d \<Rightarrow> int_str d | None \<Rightarrow> ''_global'')"

text \<open>\<open>ctx.user.district_id or 0\<close>.\<close>

definition cx_district :: "auth_context \<Rightarrow> int" where
  "cx_district ctx = (case u_district (cx_user ctx) of Some d \<Rightarrow> d | None \<Rightarrow> 0)"

definition has_role :: "auth_context \<Rightarrow> role list \<Rightarrow> bool" where
  "has_role ctx allowed \<longleftrightarrow> cx_role ctx = ADMIN \<or> cx_role ctx \<in> set allowed"

section \<open>config.py\<close>

datatype app_env = Development | Staging | Production
datatype auth_mode = Dev | Oidc
datatype chain_provider = Chain_Mock | Chain_Anvil | Chain_Sepolia
datatype nira_provider = Nira_Mock | Nira_Live

record settings =
  app_env :: app_env
  demo_mode :: bool
  auth_mode :: auth_mode
  jwt_hs256_secret :: string
  oidc_jwks_url :: string
  blockchain_provider :: chain_provider
  anvil_rpc_url :: string
  anvil_chain_id :: int
  sepolia_rpc_url :: string
  sepolia_chain_id :: int
  registrar_private_key :: string
  anchor_flush_interval_seconds :: int
  anchor_flush_batch_size :: nat
  multisig_enabled :: bool
  nira_provider :: nira_provider
  nira_cache_ttl_seconds :: int
  pii_encryption_key :: string
  cors_allow_origins :: string

definition ANVIL_DEV_PRIVATE_KEY :: string where
  "ANVIL_DEV_PRIVATE_KEY = ''0xac0974bec39a17e36ba4a6b4d238ff944bacb478cbed5efcae784d7bf4f2ff80''"

definition contains :: "string \<Rightarrow> string \<Rightarrow> bool" where
  "contains w s \<longleftrightarrow> sublist w s"

text \<open>
  The field validators; \<open>base64.b64decode\<close> is the parameter \<open>b64\<close>, and so is its text.
\<close>

definition check_secret_strength :: "string \<Rightarrow> string res" where
  "check_secret_strength v = (if length v < 32 then Inl ValueError else Inr v)"

definition check_pii_key :: "(string \<Rightarrow> bytes option) \<Rightarrow> string \<Rightarrow> string res" where
  "check_pii_key b64 v =
     (case b64 v of
        None \<Rightarrow> Inl ValueError
      | Some decoded \<Rightarrow> if length decoded < 32 then Inl ValueError else Inr v)"

text \<open>\<open>pii_text\<close> is the decoded PII key read as UTF-8 with errors ignored.\<close>

definition prod_safety_problems :: "string \<Rightarrow> settings \<Rightarrow> string list" where
  "prod_safety_problems pii_text st =
     (if contains ''change-me'' (jwt_hs256_secret st) then [''JWT_HS256_SECRET''] else [])
     @ (if auth_mode st = Dev then [''AUTH_MODE=dev''] else [])
     @ (if demo_mode st then [''DEMO_MODE=true''] else [])
     @ (if blockchain_provider st = Chain_Mock then [''BLOCKCHAIN_PROVIDER=mock''] else [])
     @ (if contains ''development_only'' pii_text then [''PII_ENCRYPTION_KEY''] else [])
     @ (if lower_str (registrar_private_key st) = ANVIL_DEV_PRIVATE_KEY
        then [''REGISTRAR_PRIVATE_KEY (Anvil dev default)''] else [])
     @ (if \<not> multisig_enabled st then [''MULTISIG_ENABLED=false (production requires 3-of-5 custody)''] else [])"

definition assert_prod_safety :: "string \<Rightarrow> settings \<Rightarrow> unit res" where
  "assert_prod_safety pii_text st =
     (if app_env st \<noteq> Production then Inr ()
      else if prod_safety_problems pii_text st \<noteq> [] then Inl RuntimeError else Inr ())"

text \<open>\<open>str.strip\<close>: the white space of \<open>str.isspace\<close> among the code points 0 to 255.\<close>

definition str_space :: "char \<Rightarrow> bool" where
  "str_space c = (let n = (of_char c :: nat) in n \<in> {32, 133, 160} \<or> (9 \<le> n \<and> n \<le> 13) \<or> (28 \<le> n \<and> n \<le> 31))"

definition strip :: "string \<Rightarrow> string" where
  "strip s = rev (dropWhile str_space (rev (dropWhile str_space s)))"

text \<open>\<open>str.split(sep)\<close> for a one-character separator.\<close>

fun split_on :: "char \<Rightarrow> string \<Rightarrow> string list" where
  "split_on c [] = [[]]"
| "split_on c (x # xs) =
     (if x = c then [] # split_on c xs
      else case split_on c xs of [] \<Rightarrow> [[x]] | w # ws \<Rightarrow> (x # w) # ws)"

definition cors_origins_list :: "settings \<Rightarrow> string list" where
  "cors_origins_list st = map strip (filter (\<lambda>o'. strip o' \<noteq> []) (split_on CHR '','' (cors_allow_origins st)))"

definition rpc_url :: "settings \<Rightarrow> string" where
  "rpc_url st = (if blockchain_provider st = Chain_Sepolia then sepolia_rpc_url st else anvil_rpc_url st)"

definition chain_id :: "settings \<Rightarrow> int" where
  "chain_id st = (if blockchain_provider st = Chain_Sepolia then sepolia_chain_id st else anvil_chain_id st)"

section \<open>jwt_auth.py\<close>

definition json_get :: "string \<Rightarrow> (string \<times> json) list \<Rightarrow> json option" where
  "json_get k d = map_of d k"

datatype jwt_error = JWTAuthError

text \<open>\<open>_key_for\<close>: a key set is the list of its keys, each an object.\<close>

definition key_for :: "(string \<times> json) list list \<Rightarrow> json option \<Rightarrow> jwt_error + (string \<times> json) list" where
  "key_for keys kid =
     (if keys = [] then Inl JWTAuthError
      else case kid of
        None \<Rightarrow> if length keys = 1 then Inr (keys ! 0) else Inl JWTAuthError
      | Some k \<Rightarrow>
          (case find (\<lambda>jwk. json_get ''kid'' jwk = Some k) keys of
             Some jwk \<Rightarrow> Inr jwk
           | None \<Rightarrow> Inl JWTAuthError))"

datatype jwt_key = HS_Secret string | RSA_Key "(string \<times> json) list"
datatype jwt_alg = HS256 | RS256

text \<open>
  \<open>verify\<close>: \<open>decode\<close> and \<open>header\<close> are PyJWT's (None is any \<open>InvalidTokenError\<close>), \<open>jwks\<close> is the key
  set \<open>_get_jwks\<close> returns.
\<close>

definition jwt_verify ::
  "(jwt_key \<Rightarrow> jwt_alg \<Rightarrow> string \<Rightarrow> json option) \<Rightarrow> (string \<Rightarrow> (string \<times> json) list option)
   \<Rightarrow> (string \<times> json) list list \<Rightarrow> settings \<Rightarrow> string \<Rightarrow> jwt_error + (string \<times> json) list" where
  "jwt_verify decode header jwks st token =
     (let claims =
        (if auth_mode st = Oidc then
           (case header token of
              None \<Rightarrow> Inl JWTAuthError
            | Some h \<Rightarrow>
                if oidc_jwks_url st = [] then Inl JWTAuthError
                else (case key_for jwks (json_get ''kid'' h) of
                  Inl e \<Rightarrow> Inl e
                | Inr key \<Rightarrow> (case decode (RSA_Key key) RS256 token of None \<Rightarrow> Inl JWTAuthError | Some c \<Rightarrow> Inr c)))
         else (case decode (HS_Secret (jwt_hs256_secret st)) HS256 token of
                 None \<Rightarrow> Inl JWTAuthError | Some c \<Rightarrow> Inr c))
      in case claims of
           Inl e \<Rightarrow> Inl e
         | Inr (JObj c) \<Rightarrow> Inr c
         | Inr _ \<Rightarrow> Inl JWTAuthError)"

section \<open>dependencies.py\<close>

text \<open>\<open>authorization.split(" ", 1)\<close>, then the scheme is compared and the token stripped.\<close>

definition extract_bearer :: "string option \<Rightarrow> string option" where
  "extract_bearer authorization =
     (case authorization of
        None \<Rightarrow> None
      | Some a \<Rightarrow>
          (let scheme = takeWhile (\<lambda>c. c \<noteq> CHR '' '') a; rest = dropWhile (\<lambda>c. c \<noteq> CHR '' '') a
           in if a = [] \<or> rest = [] \<or> lower_str scheme \<noteq> ''bearer'' then None
              else if strip (tl rest) = [] then None else Some (strip (tl rest))))"

text \<open>
  Python's truth of a claim, and \<open>str\<close> of it (a list or an object among the claims read as text
  prints as JSON here).  A role or an e-mail that is not a string counts as absent.
\<close>

definition truthy :: "json \<Rightarrow> bool" where
  "truthy j \<longleftrightarrow> (case j of JNull \<Rightarrow> False | JBool b \<Rightarrow> b | JInt i \<Rightarrow> i \<noteq> 0 | JFloat t \<Rightarrow> t \<noteq> ''0.0'' \<and> t \<noteq> ''-0.0''
     | JStr s \<Rightarrow> s \<noteq> [] | JList xs \<Rightarrow> xs \<noteq> [] | JObj kvs \<Rightarrow> kvs \<noteq> [])"

fun py_str :: "json \<Rightarrow> string" where
  "py_str JNull = ''None''"
| "py_str (JBool b) = (if b then ''True'' else ''False'')"
| "py_str (JStr s) = s"
| "py_str j = dumps_plain j"

definition claim_str :: "string list \<Rightarrow> string \<Rightarrow> (string \<times> json) list \<Rightarrow> string" where
  "claim_str ks dflt claims =
     (case find (\<lambda>k. case json_get k claims of Some j \<Rightarrow> truthy j | None \<Rightarrow> False) ks of
        None \<Rightarrow> dflt
      | Some k \<Rightarrow> (case json_get k claims of Some j \<Rightarrow> py_str j | None \<Rightarrow> dflt))"

definition claim_opt_str :: "string \<Rightarrow> (string \<times> json) list \<Rightarrow> string option" where
  "claim_opt_str k claims = (case json_get k claims of Some (JStr s) \<Rightarrow> Some s | _ \<Rightarrow> None)"

definition claim_opt_int :: "string \<Rightarrow> (string \<times> json) list \<Rightarrow> int option" where
  "claim_opt_int k claims = (case json_get k claims of Some (JInt i) \<Rightarrow> Some i | _ \<Rightarrow> None)"

definition role_or_citizen :: "string option \<Rightarrow> role" where
  "role_or_citizen raw = (case role_parse raw of Some r \<Rightarrow> r | None \<Rightarrow> CITIZEN)"

text \<open>\<open>str.title\<close> on the role names: the first letter of every run of letters stays upper case.\<close>

fun title_from :: "bool \<Rightarrow> string \<Rightarrow> string" where
  "title_from after_letter [] = []"
| "title_from after_letter (c # cs) =
     (let letter = is_upper (upper_char c)
      in (if letter \<and> after_letter then lower_char c else upper_char c) # title_from letter cs)"

definition demo_context :: "role \<Rightarrow> int option \<Rightarrow> auth_context" where
  "demo_context r district =
     \<lparr>cx_user = \<lparr>u_id = ''demo-'' @ lower_str (role_str r), u_role = r, u_district = district,
                 u_name = ''Demo '' @ title_from False (role_str r), u_email = None\<rparr>,
      cx_token = [],
      cx_claims = [(''demo'', JBool True), (''role'', JStr (role_str r)), (''district_id'', jopt JInt district)]\<rparr>"

definition optional_user ::
  "(string \<Rightarrow> jwt_error + (string \<times> json) list) \<Rightarrow> settings \<Rightarrow> string option \<Rightarrow> string option \<Rightarrow> int option
   \<Rightarrow> auth_context option" where
  "optional_user verify st authorization x_demo_role x_demo_district =
     (let token = extract_bearer authorization
      in if app_env st \<noteq> Production \<and> x_demo_role \<noteq> None \<and> x_demo_role \<noteq> Some [] \<and> token = None
         then Some (demo_context (role_or_citizen x_demo_role) x_demo_district)
         else case token of
           None \<Rightarrow> None
         | Some t \<Rightarrow>
             (case verify t of
                Inl _ \<Rightarrow> None
              | Inr claims \<Rightarrow>
                  Some \<lparr>cx_user =
                          \<lparr>u_id = claim_str [''sub'', ''user_id''] [] claims,
                           u_role = role_or_citizen (claim_opt_str ''role'' claims),
                           u_district = claim_opt_int ''district_id'' claims,
                           u_name = claim_str [''full_name'', ''name''] ''Anonymous'' claims,
                           u_email = claim_opt_str ''email'' claims\<rparr>,
                        cx_token = t, cx_claims = claims\<rparr>))"

definition require_user :: "auth_context option \<Rightarrow> auth_context res" where
  "require_user ctx = (case ctx of None \<Rightarrow> Inl (HTTPException 401) | Some c \<Rightarrow> Inr c)"

definition require_role :: "role list \<Rightarrow> auth_context option \<Rightarrow> auth_context res" where
  "require_role allowed ctx =
     res_bind (require_user ctx) (\<lambda>c. if has_role c allowed then Inr c else Inl (HTTPException 403))"

definition ALL_ROLES :: "role list" where
  "ALL_ROLES = [CITIZEN, SURVEYOR, LAND_OFFICER, REGISTRAR, AUDITOR, PUBLIC_VERIFIER, ADMIN]"

text \<open>A route with a role dependency: the handler runs only with a context the dependency returned.\<close>

definition guarded_by ::
  "role list \<Rightarrow> auth_context option \<Rightarrow> (auth_context \<Rightarrow> 's \<Rightarrow> ('a, 's) outcome) \<Rightarrow> 's \<Rightarrow> ('a, 's) outcome" where
  "guarded_by allowed ctx handler s =
     (case require_role allowed ctx of Inl e \<Rightarrow> (Inl e, s) | Inr c \<Rightarrow> handler c s)"

definition guarded_user ::
  "auth_context option \<Rightarrow> (auth_context \<Rightarrow> 's \<Rightarrow> ('a, 's) outcome) \<Rightarrow> 's \<Rightarrow> ('a, 's) outcome" where
  "guarded_user ctx handler s =
     (case require_user ctx of Inl e \<Rightarrow> (Inl e, s) | Inr c \<Rightarrow> handler c s)"


section \<open>The contract of a protected route\<close>

text \<open>
  What every route behind \<open>require_role\<close> promises: without a context it answers 401, with a role
  that is not allowed 403, and in both cases the state is what it was.
\<close>

locale role_route =
  fixes allowed :: "role list"
    and run :: "auth_context option \<Rightarrow> 's \<Rightarrow> ('a, 's) outcome"
  assumes anonymous: "run None s = (Inl (HTTPException 401), s)"
    and forbidden: "\<not> has_role c allowed \<Longrightarrow> run (Some c) s = (Inl (HTTPException 403), s)"
begin

lemma success_has_role: "run ctx s = (Inr a, s') \<Longrightarrow> \<exists>c. ctx = Some c \<and> has_role c allowed"
  by (cases ctx) (use anonymous forbidden in force)+

lemma denied: "(case ctx of None \<Rightarrow> True | Some c \<Rightarrow> \<not> has_role c allowed) \<Longrightarrow> snd (run ctx s) = s"
  by (cases ctx) (simp_all add: anonymous forbidden)

lemma change_has_role: "snd (run ctx s) \<noteq> s \<Longrightarrow> \<exists>c. ctx = Some c \<and> has_role c allowed"
  using denied [of ctx s] by (cases ctx) auto

end

lemma guarded_by_simps [simp]:
  "guarded_by allowed None h s = (Inl (HTTPException 401), s)"
  "\<not> has_role c allowed \<Longrightarrow> guarded_by allowed (Some c) h s = (Inl (HTTPException 403), s)"
  "has_role c allowed \<Longrightarrow> guarded_by allowed (Some c) h s = h c s"
  by (simp_all add: guarded_by_def require_role_def require_user_def)

lemma guarded_by_cases:
  obtains e where "guarded_by allowed ctx h s = (Inl (HTTPException e), s)"
  | c where "ctx = Some c" "has_role c allowed" "guarded_by allowed ctx h s = h c s"
  by (cases ctx; cases "has_role (the ctx) allowed") auto

interpretation guarded: role_route allowed "\<lambda>ctx. guarded_by allowed ctx h" for allowed h
  by unfold_locales simp_all

lemma guarded_user_simps [simp]:
  "guarded_user None h s = (Inl (HTTPException 401), s)"
  "guarded_user (Some c) h s = h c s"
  by (simp_all add: guarded_user_def require_user_def)

text \<open>Every role passes a route open to all of them.\<close>

lemma has_role_all [simp]: "has_role c ALL_ROLES"
  by (cases "cx_role c") (simp_all add: has_role_def ALL_ROLES_def)

section \<open>Properties\<close>

text \<open>
  In production the demo headers give nobody a context: whoever is resolved presented a
  bearer token that the verifier accepted, and the context carries the role in its claims.
\<close>

lemma production_needs_token:
  assumes "app_env st = Production"
    and "optional_user verify st authorization demo_role demo_district = Some c"
  shows "\<exists>t claims. extract_bearer authorization = Some t \<and> verify t = Inr claims
    \<and> cx_claims c = claims \<and> cx_role c = role_or_citizen (claim_opt_str ''role'' claims)"
  using assms by (auto simp: optional_user_def Let_def cx_role_def split: option.splits sum.splits)

definition demo_ctx :: "role \<Rightarrow> auth_context" where
  "demo_ctx r = demo_context r (Some 3)"

text \<open>A production configuration that passes the start-up check, for closed examples.\<close>

definition prod_settings :: settings where
  "prod_settings =
     \<lparr>app_env = Production, demo_mode = False, auth_mode = Oidc, jwt_hs256_secret = replicate 32 CHR ''k'',
      oidc_jwks_url = ''https://idp/jwks'', blockchain_provider = Chain_Sepolia, anvil_rpc_url = [],
      anvil_chain_id = 31337, sepolia_rpc_url = ''https://rpc'', sepolia_chain_id = 11155111,
      registrar_private_key = ''0x01'', anchor_flush_interval_seconds = 300, anchor_flush_batch_size = 100,
      multisig_enabled = True, nira_provider = Nira_Live, nira_cache_ttl_seconds = 86400,
      pii_encryption_key = [], cors_allow_origins = []\<rparr>"

lemma production_needs_token_witness:
  "\<exists>c. optional_user (\<lambda>t. Inr [(''sub'', JStr t), (''role'', JStr ''registrar'')]) prod_settings
         (Some ''Bearer u1'') (Some ''ADMIN'') None = Some c \<and> cx_role c = REGISTRAR"
proof -
  let ?v = "\<lambda>t. Inr [(''sub'', JStr t), (''role'', JStr ''registrar'')]"
  have token: "extract_bearer (Some ''Bearer u1'') = Some ''u1''" by code_simp
  obtain c where c: "optional_user ?v prod_settings (Some ''Bearer u1'') (Some ''ADMIN'') None = Some c"
    by (simp add: optional_user_def prod_settings_def token Let_def)
  have "role_or_citizen (Some ''registrar'') = REGISTRAR" by code_simp
  with production_needs_token [OF _ c] c show ?thesis
    by (auto simp: prod_settings_def claim_opt_str_def json_get_def)
qed

text \<open>
  The start-up check of a production configuration passes exactly when none of the
  development defaults is left: tokens are not signed with the sample secret nor in dev mode, demo
  mode is off, the chain is not the mock, the keys are not the published ones and the 3-of-5
  custody is on.
\<close>

lemma prod_safety_exact:
  "assert_prod_safety pii_text st = Inr () \<and> app_env st = Production \<longleftrightarrow>
     app_env st = Production \<and> \<not> contains ''change-me'' (jwt_hs256_secret st) \<and> auth_mode st = Oidc
     \<and> \<not> demo_mode st \<and> blockchain_provider st \<noteq> Chain_Mock \<and> \<not> contains ''development_only'' pii_text
     \<and> lower_str (registrar_private_key st) \<noteq> ANVIL_DEV_PRIVATE_KEY \<and> multisig_enabled st"
  by (cases "auth_mode st") (auto simp: assert_prod_safety_def prod_safety_problems_def)

text \<open>
  The key for an OIDC token is one of the published keys: the one whose \<open>kid\<close> is the token's,
  and with no \<open>kid\<close> the only one there is; in every other case the token is refused.
\<close>

lemma key_for_published:
  "key_for keys kid = Inr k \<longleftrightarrow>
     (case kid of None \<Rightarrow> keys = [k]
      | Some i \<Rightarrow> find (\<lambda>jwk. json_get ''kid'' jwk = Some i) keys = Some k)"
  by (cases kid; cases keys) (auto simp: key_for_def length_Suc_conv split: option.splits if_splits)

end
