(* ===== verification/Parcels.thy ===== *)
theory Parcels
  imports Auth
begin

text \<open>
  Parcels: \<open>backend/app/util/geo.py\<close>, the request models of \<open>backend/app/models/parcels.py\<close> and the
  router \<open>backend/app/routers/parcels.py\<close>.  Shapely and pyproj are the geometry functions of the
  environment: \<open>e_shape\<close> returns a polygon or fails, \<open>e_metric_area\<close> the projected area if the
  projection succeeds.
\<close>

section \<open>geo.py\<close>

datatype geo_reason = Parse_error | Polygon_not_valid | Polygon_not_simple | Area_out_of_range real

record geo_check =
  gv_valid :: bool
  gv_area :: real
  gv_lon :: real
  gv_lat :: real
  gv_reason :: "geo_reason option"

definition parse_geojson :: "'g env \<Rightarrow> json \<Rightarrow> 'g res" where
  "parse_geojson E geometry =
     res_bind (case geometry of JStr s \<Rightarrow> json_loads s | _ \<Rightarrow> Inr geometry) (\<lambda>g.
     case g of
       JObj kvs \<Rightarrow>
         if json_get ''type'' kvs \<noteq> Some (JStr ''Polygon'') then Inl ValueError
         else (case e_shape E (JObj kvs) of None \<Rightarrow> Inl ValueError | Some p \<Rightarrow> Inr p)
     | _ \<Rightarrow> Inl ValueError)"

definition geo_invalid :: "real \<Rightarrow> geo_reason \<Rightarrow> geo_check" where
  "geo_invalid area r = \<lparr>gv_valid = False, gv_area = area, gv_lon = 0, gv_lat = 0, gv_reason = Some r\<rparr>"

definition validate_geometry :: "'g env \<Rightarrow> real \<Rightarrow> real \<Rightarrow> json \<Rightarrow> geo_check" where
  "validate_geometry E min_hectares max_hectares geometry =
     (case parse_geojson E geometry of
        Inl _ \<Rightarrow> geo_invalid 0 Parse_error
      | Inr poly \<Rightarrow>
          if \<not> e_valid E poly then geo_invalid 0 Polygon_not_valid
          else if \<not> e_simple E poly then geo_invalid 0 Polygon_not_simple
          else
            (let area_ha = (case e_metric_area E poly of
                              Some a \<Rightarrow> a / 10000
                            | None \<Rightarrow> e_area E poly * 111000 ^ 2 / 10000)
             in if \<not> (min_hectares \<le> area_ha \<and> area_ha \<le> max_hectares)
                then geo_invalid area_ha (Area_out_of_range area_ha)
                else \<lparr>gv_valid = True, gv_area = py_round_to 4 area_ha, gv_lon = fst (e_centroid E poly),
                      gv_lat = snd (e_centroid E poly), gv_reason = None\<rparr>))"

definition overlap_fraction :: "'g env \<Rightarrow> 'g \<Rightarrow> 'g \<Rightarrow> real" where
  "overlap_fraction E a b =
     (if \<not> e_intersects E a b then 0
      else if e_area E a = 0 then 0
      else e_common_area E a b / e_area E a)"

section \<open>Requests and views\<close>

record parcel_request =
  pq_id :: string
  pq_tenure :: tenure_type
  pq_district :: int
  pq_sub_county :: string
  pq_geometry :: "(string \<times> json) list"
  pq_owner :: "string option"

text \<open>\<open>ParcelCreateRequest\<close>: field bounds and the two validators.\<close>

definition geometry_shape_ok :: "(string \<times> json) list \<Rightarrow> bool" where
  "geometry_shape_ok v \<longleftrightarrow>
     json_get ''type'' v = Some (JStr ''Polygon'')
     \<and> (case json_get ''coordinates'' v of Some (JList _) \<Rightarrow> True | _ \<Rightarrow> False)"

definition parcel_request_ok :: "parcel_request \<Rightarrow> bool" where
  "parcel_request_ok q \<longleftrightarrow>
     11 \<le> length (pq_id q) \<and> length (pq_id q) \<le> 32 \<and> 1 \<le> pq_district q
     \<and> 1 \<le> length (pq_sub_county q) \<and> length (pq_sub_county q) \<le> 128
     \<and> validate_upi (pq_id q) \<and> geometry_shape_ok (pq_geometry q)"

record parcel_view =
  pv_row :: parcel
  pv_geometry :: json

definition row_to_parcel :: "parcel \<Rightarrow> parcel_view res" where
  "row_to_parcel r = res_bind (json_loads (p_geometry r)) (\<lambda>g. Inr \<lparr>pv_row = r, pv_geometry = g\<rparr>)"

text \<open>\<open>ORDER BY k DESC\<close>, and \<open>LIMIT l OFFSET o\<close>.\<close>

definition order_desc :: "('a \<Rightarrow> real) \<Rightarrow> 'a list \<Rightarrow> 'a list" where
  "order_desc k xs = sort_key (\<lambda>x. - k x) xs"

definition page :: "nat \<Rightarrow> nat \<Rightarrow> 'a list \<Rightarrow> 'a list" where
  "page limit offset xs = take limit (drop offset xs)"

text \<open>A filter parameter that is absent, or a text that may be empty, selects everything.\<close>

definition opt_eq :: "'a option \<Rightarrow> 'a \<Rightarrow> bool" where
  "opt_eq x a \<longleftrightarrow> (case x of None \<Rightarrow> True | Some b \<Rightarrow> a = b)"

definition text_eq :: "string option \<Rightarrow> string option \<Rightarrow> bool" where
  "text_eq x a \<longleftrightarrow> x = None \<or> x = Some [] \<or> a = x"

section \<open>The router\<close>

definition new_parcel :: "'g env \<Rightarrow> parcel_request \<Rightarrow> real \<Rightarrow> parcel" where
  "new_parcel E q area =
     \<lparr>p_id = pq_id q, p_tenure = pq_tenure q, p_district = pq_district q, p_sub_county = pq_sub_county q,
      p_geometry = dumps_plain (JObj (pq_geometry q)), p_area = area, p_owner = pq_owner q,
      p_status = P_ACTIVE, p_created = e_now E 0, p_updated = e_now E 0\<rparr>"

definition create_parcel_handler ::
  "'g env \<Rightarrow> parcel_request \<Rightarrow> auth_context \<Rightarrow> db \<Rightarrow> (parcel_view, db) outcome" where
  "create_parcel_handler E q ctx s =
     (if \<not> parcel_request_ok q then (Inl (HTTPException 422), s)
      else
        (let geom_check = validate_geometry E (1 / 10000) 10000 (JObj (pq_geometry q))
         in if \<not> gv_valid geom_check then (Inl (HTTPException 422), s)
            else if find_parcel (pq_id q) s \<noteq> None then (Inl (HTTPException 409), s)
            else
              and_then (insert_parcel (new_parcel E q (gv_area geom_check)) s) (\<lambda>_ s1.
                let s2 = emit E 1 ''PARCEL_REGISTERED''
                      (JObj [(''parcel_id'', JStr (pq_id q)), (''tenure_type'', JStr (tenure_str (pq_tenure q))),
                             (''area_hectares'', jreal E (gv_area geom_check)),
                             (''sub_county'', JStr (pq_sub_county q))])
                      (pq_district q) (cx_id ctx) s1
                in case find_parcel (pq_id q) s1 of
                     None \<Rightarrow> (Inl RuntimeError, s2)
                   | Some row \<Rightarrow> (row_to_parcel row, s2))))"

definition create_parcel ::
  "'g env \<Rightarrow> parcel_request \<Rightarrow> auth_context option \<Rightarrow> db \<Rightarrow> (parcel_view, db) outcome" where
  "create_parcel E q ctx = guarded_by [SURVEYOR, REGISTRAR] ctx (create_parcel_handler E q)"

definition get_parcel :: "string \<Rightarrow> auth_context option \<Rightarrow> db \<Rightarrow> (parcel_view, db) outcome" where
  "get_parcel parcel_id ctx = guarded_by ALL_ROLES ctx (\<lambda>_ s.
     case find_parcel parcel_id s of
       None \<Rightarrow> (Inl (HTTPException 404), s)
     | Some row \<Rightarrow> (row_to_parcel row, s))"

definition list_parcels ::
  "int option \<Rightarrow> string option \<Rightarrow> string option \<Rightarrow> nat \<Rightarrow> nat \<Rightarrow> auth_context option \<Rightarrow> db
   \<Rightarrow> (parcel_view list, db) outcome" where
  "list_parcels district_id status owner_id limit offset ctx = guarded_by ALL_ROLES ctx (\<lambda>_ s.
     if \<not> (1 \<le> limit \<and> limit \<le> 500) then (Inl (HTTPException 422), s)
     else
       (map_res row_to_parcel
          (page limit offset (order_desc p_created
            (filter (\<lambda>p. opt_eq district_id (p_district p)
                         \<and> text_eq status (Some (parcel_status_str (p_status p)))
                         \<and> text_eq owner_id (p_owner p)) (parcels s)))), s))"

datatype geo_mode = Intersects | Within

text \<open>
  The scan of \<open>geo_search\<close>: rows whose geometry does not parse are skipped, and the scan stops as
  soon as the result has reached the limit.
\<close>

fun geo_scan :: "'g env \<Rightarrow> 'g \<Rightarrow> geo_mode \<Rightarrow> nat \<Rightarrow> parcel list \<Rightarrow> parcel_view list \<Rightarrow> parcel_view list res" where
  "geo_scan E candidate mode limit [] acc = Inr acc"
| "geo_scan E candidate mode limit (row # rows) acc =
     (case parse_geojson E (JStr (p_geometry row)) of
        Inl _ \<Rightarrow> geo_scan E candidate mode limit rows acc
      | Inr other \<Rightarrow>
          (let hit = (case mode of
                        Within \<Rightarrow> e_within E other candidate
                      | Intersects \<Rightarrow> overlap_fraction E candidate other > 0)
           in res_bind (if hit then res_bind (row_to_parcel row) (\<lambda>v. Inr (acc @ [v])) else Inr acc) (\<lambda>acc'.
              if length acc' \<ge> limit then Inr acc' else geo_scan E candidate mode limit rows acc')))"

definition geo_search ::
  "'g env \<Rightarrow> (string \<times> json) list \<Rightarrow> geo_mode \<Rightarrow> int option \<Rightarrow> nat \<Rightarrow> auth_context option \<Rightarrow> db
   \<Rightarrow> (parcel_view list, db) outcome" where
  "geo_search E geometry mode district_id limit ctx = guarded_by ALL_ROLES ctx (\<lambda>_ s.
     if \<not> (1 \<le> limit \<and> limit \<le> 500) then (Inl (HTTPException 422), s)
     else if \<not> gv_valid (validate_geometry E (1 / 100000) 10000 (JObj geometry)) then (Inl (HTTPException 422), s)
     else case parse_geojson E (JObj geometry) of
       Inl e \<Rightarrow> (Inl e, s)
     | Inr candidate \<Rightarrow>
         (geo_scan E candidate mode limit
            (filter (\<lambda>p. opt_eq district_id (p_district p)) (parcels s)) [], s))"

interpretation create_parcel: role_route "[SURVEYOR, REGISTRAR]" "create_parcel E q" for E q
  by unfold_locales (simp_all add: create_parcel_def)

section \<open>Lemmas\<close>

lemma validate_geometry_valid:
  "gv_valid (validate_geometry E lo hi g) \<longleftrightarrow>
     (\<exists>poly. parse_geojson E g = Inr poly \<and> e_valid E poly \<and> e_simple E poly
       \<and> lo \<le> (case e_metric_area E poly of Some a \<Rightarrow> a / 10000 | None \<Rightarrow> e_area E poly * 111000 ^ 2 / 10000)
       \<and> (case e_metric_area E poly of Some a \<Rightarrow> a / 10000 | None \<Rightarrow> e_area E poly * 111000 ^ 2 / 10000) \<le> hi)"
  by (cases "parse_geojson E g") (auto simp: validate_geometry_def geo_invalid_def Let_def)

lemma geo_scan_length:
  "geo_scan E c m limit rows acc = Inr out \<Longrightarrow> length acc \<le> limit \<Longrightarrow> 0 < limit \<Longrightarrow> length acc < limit \<or> rows = []
   \<Longrightarrow> length out \<le> limit"
proof (induction rows arbitrary: acc)
  case Nil
  then show ?case by simp
next
  case (Cons r rows)
  show ?case
  proof (cases "parse_geojson E (JStr (p_geometry r))")
    case (Inl e)
    then show ?thesis using Cons by auto
  next
    case (Inr other)
    then show ?thesis using Cons.prems Cons.IH
      by (auto simp: Let_def res_simps not_le split: if_splits geo_mode.splits)
  qed
qed

lemma insert_parcel_Inr:
  "insert_parcel r s = (Inr (), s') \<longleftrightarrow> s' = s\<lparr>parcels := parcels s @ [r]\<rparr> \<and> find_parcel (p_id r) s = None
     \<and> find_district (p_district r) s \<noteq> None \<and> ref_ok (\<lambda>i. find_owner i s \<noteq> None) (p_owner r)"
  by (auto simp: insert_parcel_def)

text \<open>
  C33. Registering a parcel: it succeeds only for a surveyor, a registrar or an administrator,
  with a valid request whose geometry is a valid simple polygon of 0.0001 to 10000 hectares, a
  parcel id not yet taken, an existing district and an existing owner if one is named; then
  exactly one row is added, active and with the measured area, and that row is returned.
\<close>

theorem create_parcel_success:
  assumes "create_parcel E q ctx s = (Inr v, s')"
  shows "\<exists>c. ctx = Some c \<and> has_role c [SURVEYOR, REGISTRAR] \<and> parcel_request_ok q
    \<and> gv_valid (validate_geometry E (1 / 10000) 10000 (JObj (pq_geometry q)))
    \<and> find_parcel (pq_id q) s = None \<and> find_district (pq_district q) s \<noteq> None
    \<and> ref_ok (\<lambda>i. find_owner i s \<noteq> None) (pq_owner q)
    \<and> parcels s' = parcels s @ [new_parcel E q (gv_area (validate_geometry E (1 / 10000) 10000 (JObj (pq_geometry q))))]
    \<and> pv_row v = new_parcel E q (gv_area (validate_geometry E (1 / 10000) 10000 (JObj (pq_geometry q))))"
proof -
  obtain c where c: "ctx = Some c" "has_role c [SURVEYOR, REGISTRAR]"
    using create_parcel.success_has_role [OF assms] by blast
  let ?p = "new_parcel E q (gv_area (validate_geometry E (1 / 10000) 10000 (JObj (pq_geometry q))))"
  have id: "p_id ?p = pq_id q" "p_district ?p = pq_district q" "p_owner ?p = pq_owner q"
    by (simp_all add: new_parcel_def)
  from assms c have h: "create_parcel_handler E q c s = (Inr v, s')" by (simp add: create_parcel_def)
  then obtain s1 where s1: "insert_parcel ?p s = (Inr (), s1)" and ok: "parcel_request_ok q"
    "gv_valid (validate_geometry E (1 / 10000) 10000 (JObj (pq_geometry q)))" "find_parcel (pq_id q) s = None"
    by (auto simp: create_parcel_handler_def Let_def res_simps split: if_splits)
  have find: "find_parcel (pq_id q) s1 = Some ?p"
    using s1 ok(3) id by (simp add: insert_parcel_Inr find_parcel_def find_append)
  have "parcels s' = parcels s1 \<and> row_to_parcel ?p = Inr v"
    using h s1 ok find by (auto simp: create_parcel_handler_def Let_def)
  then show ?thesis using c ok s1 id by (auto simp: insert_parcel_Inr row_to_parcel_def res_simps)
qed


definition demo_parcel_request :: parcel_request where
  "demo_parcel_request =
     \<lparr>pq_id = ''UG-MIT-024718/2026'', pq_tenure = MAILO, pq_district = 3, pq_sub_county = ''Mityana TC'',
      pq_geometry = [(''type'', JStr ''Polygon''), (''coordinates'', JList [])], pq_owner = None\<rparr>"

theorem create_parcel_success_witness:
  "let s' = snd (create_parcel demo_env demo_parcel_request (Some (demo_ctx REGISTRAR)) demo_db)
   in map p_id (parcels s') = [''UG-MIT-024718/2026''] \<and> map p_status (parcels s') = [P_ACTIVE]"
proof -
  have ok: "is_ok (fst (create_parcel demo_env demo_parcel_request (Some (demo_ctx REGISTRAR)) demo_db))"
    by code_simp
  obtain v where "create_parcel demo_env demo_parcel_request (Some (demo_ctx REGISTRAR)) demo_db
      = (Inr v, snd (create_parcel demo_env demo_parcel_request (Some (demo_ctx REGISTRAR)) demo_db))"
    using ok by (rule is_okE)
  from create_parcel_success [OF this] show ?thesis
    by (auto simp: new_parcel_def demo_parcel_request_def demo_db_def empty_db_def)
qed

end
