(* ===== verification/Fraud_Rules.thy ===== *)
theory Fraud_Rules
  imports Parcels
begin

text \<open>
  The rule signals of \<open>backend/app/fraud/rules.py\<close>: seven queries on the tables, each giving a
  score and a text.  Every rule catches the exceptions of its queries: \<open>guard_rule\<close>.

  The locale \<open>fraud_rule\<close> is the contract the combiner relies on: the weight is fixed and the score
  lies between 0 and 1.  Each of the seven rules is an interpretation.
\<close>

section \<open>Texts of numbers\<close>

text \<open>\<open>f"{x:.nf}"\<close>.\<close>

definition fmt_fixed :: "nat \<Rightarrow> real \<Rightarrow> string" where
  "fmt_fixed n x =
     (let k = nat (py_round (\<bar>x\<bar> * 10 ^ n))
      in (if x < 0 then ''-'' else []) @ nat_str (k div 10 ^ n)
         @ (if n = 0 then [] else CHR ''.'' # zfill n (nat_str (k mod 10 ^ n))))"

text \<open>\<open>f"{x:,.0f}"\<close>: a comma after every three digits from the right.\<close>

fun comma_groups :: "string \<Rightarrow> string" where
  "comma_groups (a # b # c # d # rest) = a # b # c # CHR '','' # comma_groups (d # rest)"
| "comma_groups s = s"

definition fmt_grouped :: "real \<Rightarrow> string" where
  "fmt_grouped x = (if x < 0 then ''-'' else []) @ rev (comma_groups (rev (nat_str (nat (py_round \<bar>x\<bar>)))))"

section \<open>Subjects and signals\<close>

text \<open>The dictionary that \<open>_build_transfer_context\<close> fills; it has no key \<open>owner_id\<close>.\<close>

record fraud_context =
  sc_transfer :: string
  sc_parcel :: string
  sc_from :: "string option"
  sc_to :: string
  sc_consideration :: "real option"
  sc_type :: transfer_type
  sc_district :: int
  sc_area :: real
  sc_name :: "string option"
  sc_signed :: string

record rule_signal =
  sg_name :: string
  sg_weight :: int
  sg_score :: real
  sg_text :: string

definition fired :: "rule_signal \<Rightarrow> bool" where
  "fired g \<longleftrightarrow> sg_score g > 0"

definition signal_dict :: "'g env \<Rightarrow> rule_signal \<Rightarrow> json" where
  "signal_dict E g = JObj
     [(''name'', JStr (sg_name g)), (''weight'', JInt (sg_weight g)), (''score'', jreal E (sg_score g)),
      (''explanation'', JStr (sg_text g))]"

definition zero_signal :: "string \<Rightarrow> int \<Rightarrow> string \<Rightarrow> rule_signal" where
  "zero_signal name weight reason = \<lparr>sg_name = name, sg_weight = weight, sg_score = 0, sg_text = reason\<rparr>"

definition guard_rule :: "string \<Rightarrow> int \<Rightarrow> rule_signal res \<Rightarrow> rule_signal" where
  "guard_rule name weight r = (case r of Inl _ \<Rightarrow> zero_signal name weight ''internal error'' | Inr g \<Rightarrow> g)"

section \<open>Statistics\<close>

definition mean :: "real list \<Rightarrow> real" where
  "mean xs = sum_list xs / of_nat (length xs)"

definition pstdev :: "real list \<Rightarrow> real" where
  "pstdev xs = sqrt (sum_list (map (\<lambda>x. (x - mean xs) ^ 2) xs) / of_nat (length xs))"

definition median :: "real list \<Rightarrow> real" where
  "median xs =
     (let ys = sort xs; n = length xs
      in if odd n then ys ! (n div 2) else (ys ! (n div 2 - 1) + ys ! (n div 2)) / 2)"

section \<open>The rules\<close>

text \<open>The scan for the largest overlap with another active parcel of the district.\<close>

fun worst_overlap :: "'g env \<Rightarrow> 'g \<Rightarrow> parcel list \<Rightarrow> real \<Rightarrow> string option \<Rightarrow> (real \<times> string option) res" where
  "worst_overlap E candidate [] worst worst_id = Inr (worst, worst_id)"
| "worst_overlap E candidate (p # ps) worst worst_id =
     res_bind (parse_geojson E (JStr (p_geometry p))) (\<lambda>other.
       let frac = overlap_fraction E candidate other
       in if frac > worst then worst_overlap E candidate ps frac (Some (p_id p))
          else worst_overlap E candidate ps worst worst_id)"

definition none_str :: "string option \<Rightarrow> string" where
  "none_str x = (case x of None \<Rightarrow> ''None'' | Some s \<Rightarrow> s)"

definition rule_geometry_overlap :: "'g env \<Rightarrow> fraud_context \<Rightarrow> db \<Rightarrow> rule_signal" where
  "rule_geometry_overlap E x s =
     (let name = ''geometry_overlap''; weight = 30
      in if sc_parcel x = [] then zero_signal name weight ''no parcel_id''
         else guard_rule name weight
           (case find_parcel (sc_parcel x) s of
              None \<Rightarrow> Inr (zero_signal name weight ''parcel not found'')
            | Some row \<Rightarrow>
                res_bind (parse_geojson E (JStr (p_geometry row))) (\<lambda>candidate.
                res_bind (worst_overlap E candidate
                    (filter (\<lambda>p. p_district p = p_district row \<and> p_id p \<noteq> sc_parcel x \<and> p_status p = P_ACTIVE) (parcels s))
                    0 None) (\<lambda>(worst, worst_id).
                  if worst \<le> 5 / 100 then Inr (zero_signal name weight ''no significant overlap'')
                  else Inr \<lparr>sg_name = name, sg_weight = weight, sg_score = min 1 (worst / (5 / 10)),
                            sg_text = ''Parcel polygon overlaps '' @ fmt_fixed 1 (worst * 100)
                              @ ''% with active parcel '' @ none_str worst_id @ ''.''\<rparr>))))"

text \<open>\<open>strftime('%s','now')\<close>: whole seconds of the clock of the database.\<close>

definition db_seconds :: "time \<Rightarrow> real" where
  "db_seconds now = of_int \<lfloor>now\<rfloor>"

definition rule_rapid_retransfer :: "'g env \<Rightarrow> fraud_context \<Rightarrow> db \<Rightarrow> rule_signal" where
  "rule_rapid_retransfer E x s =
     (let name = ''rapid_retransfer''; weight = 20
      in if sc_parcel x = [] then zero_signal name weight ''no parcel_id''
         else
           let n = length (filter (\<lambda>t. t_parcel t = sc_parcel x
                     \<and> (case t_completed t of None \<Rightarrow> False | Some c \<Rightarrow> c > db_seconds (e_now E 0) - 90 * 86400)) (transfers s))
           in if n \<le> 2 then zero_signal name weight (nat_str n @ '' completed transfers in 90d'')
              else \<lparr>sg_name = name, sg_weight = weight, sg_score = min 1 ((of_nat n - 2) / 4),
                    sg_text = nat_str n @ '' completed transfers in 90 days (threshold: 2).''\<rparr>)"

definition rule_nin_reuse :: "'g env \<Rightarrow> fraud_context \<Rightarrow> db \<Rightarrow> rule_signal" where
  "rule_nin_reuse E x s =
     (let name = ''nin_reuse''; weight = 15
      in if sc_to x = [] then zero_signal name weight ''no owner''
         else
           let n = length (remdups (map t_parcel
                     (filter (\<lambda>t. t_to t = sc_to x \<and> t_initiated t > db_seconds (e_now E 1) - 30 * 86400) (transfers s))))
           in if n \<le> 3 then zero_signal name weight (nat_str n @ '' parcels claimed in 30d'')
              else \<lparr>sg_name = name, sg_weight = weight, sg_score = min 1 ((of_nat n - 3) / 6),
                    sg_text = ''NIN appears on '' @ nat_str n @ '' distinct parcels in trailing 30 days.''\<rparr>)"

definition rule_size_anomaly :: "'g env \<Rightarrow> fraud_context \<Rightarrow> db \<Rightarrow> rule_signal" where
  "rule_size_anomaly E x s =
     (let name = ''size_anomaly''; weight = 10
      in if sc_parcel x = [] then zero_signal name weight ''no parcel_id''
         else case find_parcel (sc_parcel x) s of
           None \<Rightarrow> zero_signal name weight ''parcel not found''
         | Some row \<Rightarrow>
             (let area = p_area row;
                  others = map p_area (filter (\<lambda>p. p_district p = p_district row \<and> p_id p \<noteq> sc_parcel x) (parcels s))
              in if length others < 5 then zero_signal name weight ''insufficient district norm''
                 else
                   let m = mean others;
                       stdev = (if pstdev others = 0 then 1 / 1000000 else pstdev others);
                       z = \<bar>area - m\<bar> / stdev
                   in if z < 3 then zero_signal name weight (''z='' @ fmt_fixed 2 z)
                      else \<lparr>sg_name = name, sg_weight = weight, sg_score = min 1 ((z - 3) / 5),
                            sg_text = ''Parcel size '' @ fmt_fixed 2 area @ ''ha is z='' @ fmt_fixed 1 z
                              @ '' from district mean '' @ fmt_fixed 2 m @ ''ha.''\<rparr>))"

text \<open>The best match on the watch list; the reason is that of the first row with the best ratio.\<close>

fun worst_match :: "'g env \<Rightarrow> string \<Rightarrow> watch_row list \<Rightarrow> real \<Rightarrow> string option \<Rightarrow> real \<times> string option" where
  "worst_match E name [] worst reason = (worst, reason)"
| "worst_match E name (w # ws) worst reason =
     (let ratio = e_ratio E name (wl_name w)
      in if ratio > worst then worst_match E name ws ratio (Some (wl_reason w))
         else worst_match E name ws worst reason)"

text \<open>The initial \<open>worst\<close> is the integer 0 and prints as such.\<close>

definition ratio_text :: "'g env \<Rightarrow> real \<Rightarrow> string" where
  "ratio_text E worst = (if worst = 0 then ''0'' else e_repr E worst)"

definition rule_watchlist_name :: "'g env \<Rightarrow> fraud_context \<Rightarrow> db \<Rightarrow> rule_signal" where
  "rule_watchlist_name E x s =
     (let rule = ''watchlist_name''; weight = 20;
          name = strip (case sc_name x of None \<Rightarrow> [] | Some n \<Rightarrow> n)
      in if name = [] then zero_signal rule weight ''no owner name''
         else
           let (worst, reason) = worst_match E name (watchlist s) 0 None
           in if worst \<le> 85 then zero_signal rule weight (''max ratio '' @ ratio_text E worst)
              else \<lparr>sg_name = rule, sg_weight = weight, sg_score = min 1 ((worst - 85) / 15),
                    sg_text = ''Name matches watchlist at '' @ ratio_text E worst @ ''% (reason: '' @ none_str reason @ '').''\<rparr>)"

text \<open>The considerations per hectare of the transfers on parcels of a district.\<close>

definition district_prices :: "int \<Rightarrow> bool \<Rightarrow> db \<Rightarrow> real list" where
  "district_prices district_id area_positive s =
     concat (map (\<lambda>t. case t_consideration t of
         None \<Rightarrow> []
       | Some c \<Rightarrow>
           if c > 0 then
             map (\<lambda>p. c / max (p_area p) (1 / 1000000))
               (filter (\<lambda>p. p_id p = t_parcel t \<and> p_district p = district_id \<and> (area_positive \<longrightarrow> p_area p > 0)) (parcels s))
           else []) (transfers s))"

definition rule_consideration_anomaly :: "'g env \<Rightarrow> fraud_context \<Rightarrow> db \<Rightarrow> rule_signal" where
  "rule_consideration_anomaly E x s =
     (let name = ''consideration_anomaly''; weight = 15
      in if sc_consideration x = None \<or> sc_parcel x = [] then zero_signal name weight ''missing inputs''
         else case find_parcel (sc_parcel x) s of
           None \<Rightarrow> zero_signal name weight ''parcel not found''
         | Some row \<Rightarrow>
             (let area = p_area row;
                  others = district_prices (p_district row) False s
              in if length others < 5 \<or> area \<le> 0 then zero_signal name weight ''insufficient district norm''
                 else
                   let med = median others;
                       ratio = the (sc_consideration x) / area
                   in if med \<le> 0 then zero_signal name weight ''zero median''
                      else
                        let deviation = \<bar>ratio - med\<bar> / med
                        in if deviation < 2 then zero_signal name weight (''deviation='' @ fmt_fixed 2 deviation)
                           else \<lparr>sg_name = name, sg_weight = weight, sg_score = min 1 ((deviation - 2) / 5),
                                 sg_text = ''UGX/ha '' @ fmt_grouped ratio @ '' deviates '' @ fmt_fixed 0 (deviation * 100)
                                   @ ''% from district median '' @ fmt_grouped med @ '' UGX/ha.''\<rparr>))"

fun kyc_risk :: "kyc_status \<Rightarrow> real" where
  "kyc_risk K_PENDING = 6 / 10"
| "kyc_risk K_EXPIRED = 8 / 10"
| "kyc_risk K_REJECTED = 1"
| "kyc_risk K_VERIFIED = 5 / 10"

definition rule_nira_kyc :: "'g env \<Rightarrow> fraud_context \<Rightarrow> db \<Rightarrow> rule_signal" where
  "rule_nira_kyc E x s =
     (let name = ''nira_kyc''; weight = 25
      in if sc_to x = [] then zero_signal name weight ''no owner''
         else case find_owner (sc_to x) s of
           None \<Rightarrow> zero_signal name weight ''owner not found''
         | Some r \<Rightarrow>
             if o_kyc r = K_VERIFIED then zero_signal name weight ''KYC verified''
             else \<lparr>sg_name = name, sg_weight = weight, sg_score = kyc_risk (o_kyc r),
                   sg_text = ''Receiving owner KYC status is '' @ kyc_str (o_kyc r) @ ''.''\<rparr>)"

definition RULES :: "('g env \<Rightarrow> fraud_context \<Rightarrow> db \<Rightarrow> rule_signal) list" where
  "RULES = [rule_geometry_overlap, rule_rapid_retransfer, rule_nin_reuse, rule_size_anomaly, rule_watchlist_name,
            rule_consideration_anomaly, rule_nira_kyc]"

definition run_all_rules :: "'g env \<Rightarrow> fraud_context \<Rightarrow> db \<Rightarrow> rule_signal list" where
  "run_all_rules E x s = map (\<lambda>rule. rule E x s) RULES"

section \<open>The contract of a rule\<close>

locale fraud_rule =
  fixes rule :: "'g env \<Rightarrow> fraud_context \<Rightarrow> db \<Rightarrow> rule_signal" and weight :: int
  assumes weight_fixed: "sg_weight (rule E x s) = weight"
    and weight_pos: "0 \<le> weight"
    and score_nonneg: "0 \<le> sg_score (rule E x s)"
    and score_le_one: "sg_score (rule E x s) \<le> 1"
begin

definition points :: "'g env \<Rightarrow> fraud_context \<Rightarrow> db \<Rightarrow> real" where
  "points E x s = of_int (sg_weight (rule E x s)) * sg_score (rule E x s)"

lemma points_bounds: "0 \<le> points E x s \<and> points E x s \<le> of_int weight"
proof -
  have w: "(0 :: real) \<le> of_int weight" using weight_pos by simp
  then have "of_int weight * sg_score (rule E x s) \<le> of_int weight * 1"
    using score_le_one by (intro mult_left_mono)
  then show ?thesis using w score_nonneg by (simp add: points_def weight_fixed)
qed

lemma silent: "\<not> fired (rule E x s) \<Longrightarrow> points E x s = 0"
  using score_nonneg [of E x s] by (simp add: points_def fired_def)

end

lemmas signal_simps = zero_signal_def guard_rule_def Let_def

lemma worst_overlap_ge: "worst_overlap E c ps w i = Inr (w', i') \<Longrightarrow> w \<le> w'"
  by (induction ps arbitrary: w i) (force simp: res_simps Let_def split: if_splits)+

lemma worst_match_ge: "worst_match E n ws w r = (w', r') \<Longrightarrow> w \<le> w'"
  by (induction ws arbitrary: w r) (force simp: Let_def split: if_splits)+

definition signal_ok :: "int \<Rightarrow> rule_signal \<Rightarrow> bool" where
  "signal_ok w g \<longleftrightarrow> sg_weight g = w \<and> 0 \<le> sg_score g \<and> sg_score g \<le> 1"

lemma signal_ok_zero [simp]: "signal_ok w (zero_signal n w t)"
  by (simp add: signal_ok_def zero_signal_def)

lemma signal_ok_guard: "(\<And>g. r = Inr g \<Longrightarrow> signal_ok w g) \<Longrightarrow> signal_ok w (guard_rule n w r)"
  by (cases r) (simp_all add: guard_rule_def)

lemma overlap_ok: "signal_ok 30 (rule_geometry_overlap E x s)"
  unfolding rule_geometry_overlap_def Let_def
  by (rule if_split [THEN iffD2], safe, simp, rule signal_ok_guard)
    (auto simp: res_simps signal_ok_def zero_signal_def split: if_splits option.splits)

interpretation overlap_rule: fraud_rule rule_geometry_overlap 30
  by unfold_locales (use overlap_ok in \<open>auto simp: signal_ok_def\<close>)

interpretation retransfer_rule: fraud_rule rule_rapid_retransfer 20
  by unfold_locales (auto simp: rule_rapid_retransfer_def signal_simps)

interpretation nin_rule: fraud_rule rule_nin_reuse 15
  by unfold_locales (auto simp: rule_nin_reuse_def signal_simps)

interpretation size_rule: fraud_rule rule_size_anomaly 10
  by unfold_locales (auto simp: rule_size_anomaly_def signal_simps not_less split: option.splits)

interpretation watch_rule: fraud_rule rule_watchlist_name 20
  by unfold_locales (auto simp: rule_watchlist_name_def signal_simps split: prod.splits)

interpretation price_rule: fraud_rule rule_consideration_anomaly 15
  by unfold_locales (auto simp: rule_consideration_anomaly_def signal_simps not_less split: option.splits)

lemma kyc_risk_bounds: "0 < kyc_risk k \<and> kyc_risk k \<le> 1"
  by (cases k) simp_all

interpretation kyc_rule: fraud_rule rule_nira_kyc 25
  by unfold_locales (use kyc_risk_bounds in \<open>auto simp: rule_nira_kyc_def signal_simps less_imp_le split: option.splits\<close>)

text \<open>What the signals add up to.\<close>

definition rules_score :: "rule_signal list \<Rightarrow> real" where
  "rules_score signals = sum_list (map (\<lambda>g. of_int (sg_weight g) * sg_score g) signals)"

lemma rules_score_points:
  "rules_score (run_all_rules E x s) = overlap_rule.points E x s + retransfer_rule.points E x s + nin_rule.points E x s
     + size_rule.points E x s + watch_rule.points E x s + price_rule.points E x s + kyc_rule.points E x s"
  by (simp add: rules_score_def run_all_rules_def RULES_def overlap_rule.points_def retransfer_rule.points_def
      nin_rule.points_def size_rule.points_def watch_rule.points_def price_rule.points_def kyc_rule.points_def)

lemma rules_score_bounds: "0 \<le> rules_score (run_all_rules E x s) \<and> rules_score (run_all_rules E x s) \<le> 135"
  using overlap_rule.points_bounds [of E x s] retransfer_rule.points_bounds [of E x s] nin_rule.points_bounds [of E x s]
    size_rule.points_bounds [of E x s] watch_rule.points_bounds [of E x s] price_rule.points_bounds [of E x s]
    kyc_rule.points_bounds [of E x s]
  unfolding rules_score_points by linarith

end
