(* ===== verification/Fraud_Score.thy ===== *)
theory Fraud_Score
  imports Fraud_Rules
begin

text \<open>
  The feature vector of \<open>backend/app/fraud/features.py\<close> and the combiner of
  \<open>backend/app/fraud/scorer.py\<close>.  The trained IsolationForest is the environment's \<open>e_model\<close>: None
  when the file is missing, otherwise a function that gives a raw score or raises.
\<close>

section \<open>features.py\<close>

definition safe_float :: "real option \<Rightarrow> real" where
  "safe_float v = (case v of None \<Rightarrow> 0 | Some x \<Rightarrow> x)"

definition district_norm_z :: "int \<Rightarrow> real \<Rightarrow> real \<Rightarrow> db \<Rightarrow> real" where
  "district_norm_z district_id consideration area_ha s =
     (if consideration \<le> 0 \<or> area_ha \<le> 0 then 0
      else
        let others = district_prices district_id True s
        in if length others < 5 then 0
           else
             let stdev = pstdev others
             in if stdev \<le> 0 then 0
                else max (-10) (min 10 ((consideration / area_ha - mean others) / stdev)))"

definition log1p :: "real \<Rightarrow> real res" where
  "log1p x = (if x \<le> -1 then Inl ValueError else Inr (ln (1 + x)))"

text \<open>The clock readings are 2 for the last transfer, 3 for the age of the owner, 4 for the hour.\<close>

definition hours_since_last :: "'g env \<Rightarrow> string \<Rightarrow> db \<Rightarrow> real" where
  "hours_since_last E parcel_id s =
     (case latest_by id (map t_initiated (filter (\<lambda>t. t_parcel t = parcel_id) (transfers s))) of
        None \<Rightarrow> 9999
      | Some t \<Rightarrow> if t = 0 then 9999 else max 0 ((e_now E 2 - t) / 3600))"

definition owner_age_days :: "'g env \<Rightarrow> string \<Rightarrow> db \<Rightarrow> real" where
  "owner_age_days E owner_id s =
     (case find_owner owner_id s of
        None \<Rightarrow> 0
      | Some r \<Rightarrow> if o_created r = 0 then 0 else max 0 ((e_now E 3 - o_created r) / 86400))"

definition assemble_features :: "'g env \<Rightarrow> fraud_context \<Rightarrow> db \<Rightarrow> real list res" where
  "assemble_features E x s =
     (let consideration = safe_float (sc_consideration x);
          area_ha = sc_area x;
          norm_z = district_norm_z (sc_district x) consideration area_ha s;
          hours = (if sc_parcel x = [] then 9999 else hours_since_last E (sc_parcel x) s);
          prior_disputes = (if sc_parcel x = [] then 0 else length (filter (\<lambda>d. d_parcel d = sc_parcel x) (disputes s)));
          prior_parcels = (if sc_to x = [] then 0 else length (filter (\<lambda>t. t_to t = sc_to x) (transfers s)));
          age = (if sc_to x = [] then 0 else owner_age_days E (sc_to x) s)
      in res_bind (log1p consideration) (\<lambda>lc.
         res_bind (log1p area_ha) (\<lambda>la.
           Inr [hours, lc, la, age, of_nat prior_parcels, of_nat prior_disputes, norm_z,
                of_int (hour_of (e_now E 4)), of_int (weekday_of (e_now E 4))])))"

section \<open>scorer.py\<close>

definition SCORER_VERSION :: string where
  "SCORER_VERSION = ''isoforest-rules-v2-20260530''"

record fraud_score =
  sr_risk :: int
  sr_action :: fraud_action
  sr_signals :: "rule_signal list"
  sr_ml :: "real option"
  sr_version :: string

definition normalise :: "real \<Rightarrow> real" where
  "normalise raw = max 0 (min 1 ((- raw - 4 / 10) / (3 / 10)))"

text \<open>No model, or an exception in the features or the model: no score.\<close>

definition ml_score :: "'g env \<Rightarrow> fraud_context \<Rightarrow> db \<Rightarrow> real option" where
  "ml_score E x s =
     (case e_model E of
        None \<Rightarrow> None
      | Some score_samples \<Rightarrow>
          (case assemble_features E x s of
             Inl _ \<Rightarrow> None
           | Inr v \<Rightarrow> map_option normalise (score_samples v)))"

definition action_of :: "int \<Rightarrow> fraud_action" where
  "action_of risk = (if risk \<ge> 75 then BLOCK else if risk \<ge> 40 then FLAG else NONE)"

definition score_subject :: "'g env \<Rightarrow> fraud_context \<Rightarrow> db \<Rightarrow> fraud_score" where
  "score_subject E x s =
     (let signals = run_all_rules E x s;
          ml = ml_score E x s;
          ml_component = 60 * safe_float ml;
          risk = py_round (min 100 (ml_component + rules_score signals))
      in \<lparr>sr_risk = risk, sr_action = action_of risk, sr_signals = filter fired signals, sr_ml = ml,
          sr_version = SCORER_VERSION\<rparr>)"

definition score_dict :: "'g env \<Rightarrow> fraud_score \<Rightarrow> (string \<times> json) list" where
  "score_dict E r =
     [(''risk_score'', JInt (sr_risk r)), (''recommended_action'', JStr (action_str (sr_action r))),
      (''signals'', JList (map (signal_dict E) (sr_signals r))), (''ml_score'', jopt (jreal E) (sr_ml r)),
      (''scorer_version'', JStr (sr_version r))]"

definition valid_subject_type :: "string \<Rightarrow> bool" where
  "valid_subject_type t \<longleftrightarrow> t \<in> {''TRANSFER'', ''TITLE'', ''OWNER'', ''PARCEL''}"

text \<open>
  \<open>INSERT OR REPLACE\<close>: rows with the same id, or for the same subject and version, go first; the
  \<open>CHECK\<close> constraints of the table make the statement raise.
\<close>

definition persist_score :: "'g env \<Rightarrow> nat \<Rightarrow> string \<Rightarrow> string \<Rightarrow> fraud_score \<Rightarrow> db \<Rightarrow> (unit, db) outcome" where
  "persist_score E k subject_type subject_id r s =
     (if \<not> valid_subject_type subject_type \<or> \<not> (0 \<le> sr_risk r \<and> sr_risk r \<le> 100) then (Inl IntegrityError, s)
      else
        (Inr (), s\<lparr>fraud_scores :=
           filter (\<lambda>f. \<not> (fs_id f = e_uuid E k
                        \<or> (fs_type f = subject_type \<and> fs_subject f = subject_id \<and> fs_version f = sr_version r)))
             (fraud_scores s)
           @ [\<lparr>fs_id = e_uuid E k, fs_type = subject_type, fs_subject = subject_id, fs_risk = sr_risk r,
               fs_signals = dumps_plain (JList (map (signal_dict E) (sr_signals r))), fs_action = sr_action r,
               fs_at = e_now E k, fs_version = sr_version r\<rparr>]\<rparr>))"

record score_view =
  sv_risk :: int
  sv_signals :: json
  sv_action :: fraud_action
  sv_at :: time
  sv_version :: string

definition latest_score :: "string \<Rightarrow> string \<Rightarrow> db \<Rightarrow> score_view option res" where
  "latest_score subject_type subject_id s =
     (case latest_by fs_at (filter (\<lambda>f. fs_type f = subject_type \<and> fs_subject f = subject_id) (fraud_scores s)) of
        None \<Rightarrow> Inr None
      | Some f \<Rightarrow>
          res_bind (json_loads (fs_signals f)) (\<lambda>j.
            Inr (Some \<lparr>sv_risk = fs_risk f, sv_signals = j, sv_action = fs_action f, sv_at = fs_at f,
                       sv_version = fs_version f\<rparr>)))"

section \<open>The order of the actions\<close>

text \<open>An action is the graver the more it asks of the officers; a higher risk never gets a milder one.\<close>

primrec severity :: "fraud_action \<Rightarrow> nat" where
  "severity NONE = 0"
| "severity FLAG = 1"
| "severity BLOCK = 2"

lemma severity_inject: "severity a = severity b \<longleftrightarrow> a = b"
  by (cases a; cases b) simp_all

instantiation fraud_action :: linorder
begin

definition less_eq_fraud_action :: "fraud_action \<Rightarrow> fraud_action \<Rightarrow> bool" where
  "a \<le> b \<longleftrightarrow> severity a \<le> severity b"

definition less_fraud_action :: "fraud_action \<Rightarrow> fraud_action \<Rightarrow> bool" where
  "a < b \<longleftrightarrow> severity a < severity b"

instance
  by standard (auto simp: less_eq_fraud_action_def less_fraud_action_def severity_inject)

end

lemma action_of_mono: "mono action_of"
  by (auto simp: mono_def action_of_def less_eq_fraud_action_def)

lemma reviewed_action: "FLAG \<le> a \<longleftrightarrow> a = FLAG \<or> a = BLOCK"
  by (cases a) (simp_all add: less_eq_fraud_action_def)

section \<open>Lemmas\<close>

lemma py_round_mono_bounds:
  assumes "0 \<le> x" "x \<le> of_int n"
  shows "0 \<le> py_round x \<and> py_round x \<le> n"
proof (cases "\<lfloor>x\<rfloor> = n")
  case True
  then have "x = of_int n" using assms(2) of_int_floor_le [of x] by simp
  then show ?thesis using assms by (simp add: py_round_def Let_def)
next
  case False
  have f: "0 \<le> \<lfloor>x\<rfloor>" "\<lfloor>x\<rfloor> \<le> n" using assms by (simp_all add: floor_le_iff)
  then have "\<lfloor>x\<rfloor> + 1 \<le> n" using False by simp
  then show ?thesis using f by (simp add: py_round_def Let_def)
qed

lemma normalise_bounds: "0 \<le> normalise r \<and> normalise r \<le> 1"
  by (simp add: normalise_def)

lemma ml_bounds: "0 \<le> safe_float (ml_score E x s) \<and> safe_float (ml_score E x s) \<le> 1"
  using normalise_bounds by (auto simp: ml_score_def safe_float_def split: option.splits sum.splits)

lemma score_subject_risk:
  "sr_risk (score_subject E x s) = py_round (min 100 (60 * safe_float (ml_score E x s) + rules_score (run_all_rules E x s)))"
  "sr_action (score_subject E x s) = action_of (sr_risk (score_subject E x s))"
  "sr_version (score_subject E x s) = SCORER_VERSION"
  "sr_signals (score_subject E x s) = filter fired (run_all_rules E x s)"
  by (simp_all add: score_subject_def Let_def)

lemma score_subject_bounds: "0 \<le> sr_risk (score_subject E x s) \<and> sr_risk (score_subject E x s) \<le> 100"
proof -
  have "0 \<le> min 100 (60 * safe_float (ml_score E x s) + rules_score (run_all_rules E x s))"
    using ml_bounds [of E x s] rules_score_bounds [of E x s] by simp
  then show ?thesis unfolding score_subject_risk by (intro py_round_mono_bounds) simp_all
qed

section \<open>Properties\<close>

text \<open>
  C28. The score of a subject, for any tables, any model and any failure of model or features:
  the risk is an integer from 0 to 100, the action is NONE below 40, FLAG from 40 and BLOCK from
  75, the signals are those rules that fired with their fixed weights, and without a model the
  risk comes from the rules alone.
\<close>

theorem score_subject_spec:
  "let r = score_subject E x s in
     0 \<le> sr_risk r \<and> sr_risk r \<le> 100
     \<and> sr_action r = (if sr_risk r < 40 then NONE else if sr_risk r < 75 then FLAG else BLOCK)
     \<and> sr_version r = SCORER_VERSION
     \<and> (\<forall>g\<in>set (sr_signals r). 0 < sg_score g \<and> sg_score g \<le> 1
          \<and> (sg_name g, sg_weight g) \<in> {(''geometry_overlap'', 30), (''rapid_retransfer'', 20), (''nin_reuse'', 15),
               (''size_anomaly'', 10), (''watchlist_name'', 20), (''consideration_anomaly'', 15), (''nira_kyc'', 25)})
     \<and> (e_model E = None \<longrightarrow> sr_ml r = None \<and> sr_risk r = py_round (min 100 (rules_score (run_all_rules E x s))))"
proof -
  have names: "sg_name (rule_geometry_overlap E x s) = ''geometry_overlap''"
    "sg_name (rule_rapid_retransfer E x s) = ''rapid_retransfer''" "sg_name (rule_nin_reuse E x s) = ''nin_reuse''"
    "sg_name (rule_size_anomaly E x s) = ''size_anomaly''" "sg_name (rule_watchlist_name E x s) = ''watchlist_name''"
    "sg_name (rule_consideration_anomaly E x s) = ''consideration_anomaly''" "sg_name (rule_nira_kyc E x s) = ''nira_kyc''"
  proof -
    show "sg_name (rule_geometry_overlap E x s) = ''geometry_overlap''"
      by (auto simp: rule_geometry_overlap_def signal_simps res_bind_def split: if_splits option.splits sum.splits prod.splits)
  qed (auto simp: rule_rapid_retransfer_def rule_nin_reuse_def rule_size_anomaly_def rule_watchlist_name_def
      rule_consideration_anomaly_def rule_nira_kyc_def signal_simps split: option.splits prod.splits)
  have sig: "0 < sg_score g \<and> sg_score g \<le> 1
          \<and> (sg_name g, sg_weight g) \<in> {(''geometry_overlap'', 30), (''rapid_retransfer'', 20), (''nin_reuse'', 15),
               (''size_anomaly'', 10), (''watchlist_name'', 20), (''consideration_anomaly'', 15), (''nira_kyc'', 25)}"
    if "g \<in> set (sr_signals (score_subject E x s))" for g
  proof -
    have g: "0 < sg_score g" "g \<in> set (run_all_rules E x s)"
      using that by (simp_all add: score_subject_risk fired_def)
    then consider "g = rule_geometry_overlap E x s" | "g = rule_rapid_retransfer E x s" | "g = rule_nin_reuse E x s"
      | "g = rule_size_anomaly E x s" | "g = rule_watchlist_name E x s" | "g = rule_consideration_anomaly E x s"
      | "g = rule_nira_kyc E x s"
      unfolding run_all_rules_def RULES_def by auto
    then show ?thesis
      by cases (use g(1) in \<open>simp_all add: names overlap_rule.weight_fixed overlap_rule.score_le_one
        retransfer_rule.weight_fixed retransfer_rule.score_le_one nin_rule.weight_fixed nin_rule.score_le_one
        size_rule.weight_fixed size_rule.score_le_one watch_rule.weight_fixed watch_rule.score_le_one
        price_rule.weight_fixed price_rule.score_le_one kyc_rule.weight_fixed kyc_rule.score_le_one\<close>)
  qed
  have "e_model E = None \<longrightarrow> sr_ml (score_subject E x s) = None
      \<and> sr_risk (score_subject E x s) = py_round (min 100 (rules_score (run_all_rules E x s)))"
    by (simp add: score_subject_def ml_score_def safe_float_def Let_def)
  then show ?thesis
    using score_subject_bounds [of E x s] score_subject_risk(2,3) [of E x s] sig
    by (simp add: Let_def action_of_def)
qed

end
