(* ===== verification/Outbox.thy ===== *)
theory Outbox
  imports Auth Store
begin

text \<open>
  Publishing work for the fraud scorer: \<open>stream_publish\<close> of \<open>backend/app/util/cache.py\<close> and
  \<open>enqueue_score\<close> of \<open>backend/app/fraud/worker.py\<close>.  The Redis stream is an external service: it
  is the argument \<open>redis\<close>, None when it is not reachable; adding an entry may raise.
\<close>

type_synonym stream = "string \<Rightarrow> (string \<times> string) list \<Rightarrow> string res"

definition stream_publish :: "stream option \<Rightarrow> string \<Rightarrow> (string \<times> json) list \<Rightarrow> string option res" where
  "stream_publish redis name kvs =
     (case redis of
        None \<Rightarrow> Inr None
      | Some xadd \<Rightarrow> res_bind (xadd name (map (\<lambda>(k, v). (k, py_str v)) kvs)) (\<lambda>i. Inr (Some i)))"

definition STREAM_NAME :: string where
  "STREAM_NAME = ''stream:fraud:scoring''"

definition enqueue_score :: "'g env \<Rightarrow> nat \<Rightarrow> stream option \<Rightarrow> string \<Rightarrow> string \<Rightarrow> string option res" where
  "enqueue_score E k redis subject_type subject_id =
     stream_publish redis STREAM_NAME
       [(''subject_type'', JStr subject_type), (''subject_id'', JStr subject_id),
        (''enqueued_at'', jreal E (e_now E k))]"

end
