(* ===== verification/Fraud_Worker.thy ===== *)
theory Fraud_Worker
  imports Fraud_Score Outbox
begin

text \<open>
  The fraud worker \<open>backend/app/fraud/worker.py\<close>: the context of a transfer, the review queue, the
  policy on a score, scoring one message of the stream, scoring on demand, the durable outbox
  \<open>fraud_scoring_jobs\<close> and one turn of the consumer loop.

  The Redis stream is outside: a turn gets what \<open>xreadgroup\<close> returned, or None when Redis is down.
  The lock is the argument \<open>setnx\<close> with its own state, \<open>cache_setnx\<close> being one.
\<close>

definition CONSUMER_GROUP :: string where
  "CONSUMER_GROUP = ''landguard-scorers''"

definition SWEEP_INTERVAL_SECONDS :: real where
  "SWEEP_INTERVAL_SECONDS = 15"

definition OUTBOX_MAX_ATTEMPTS :: int where
  "OUTBOX_MAX_ATTEMPTS = 5"

section \<open>Context, queue and policy\<close>

definition build_transfer_context :: "string \<Rightarrow> db \<Rightarrow> fraud_context option" where
  "build_transfer_context transfer_id s =
     (case find_transfer transfer_id s of
        None \<Rightarrow> None
      | Some t \<Rightarrow>
          (case find_parcel (t_parcel t) s of
             None \<Rightarrow> None
           | Some p \<Rightarrow>
               Some \<lparr>sc_transfer = t_id t, sc_parcel = t_parcel t, sc_from = t_from t, sc_to = t_to t,
                     sc_consideration = t_consideration t, sc_type = t_type t, sc_district = t_district t,
                     sc_area = p_area p, sc_name = map_option o_name (find_owner (t_to t) s), sc_signed = t_signed t\<rparr>))"

definition pending_review :: "string \<Rightarrow> string \<Rightarrow> string \<Rightarrow> review \<Rightarrow> bool" where
  "pending_review subject_type subject_id version q \<longleftrightarrow>
     r_type q = subject_type \<and> r_subject q = subject_id \<and> r_version q = version \<and> r_state q = R_PENDING_REVIEW"

definition enqueue_for_review ::
  "'g env \<Rightarrow> nat \<Rightarrow> string \<Rightarrow> string \<Rightarrow> int \<Rightarrow> fraud_score \<Rightarrow> db \<Rightarrow> (string, db) outcome" where
  "enqueue_for_review E k subject_type subject_id district_id score s =
     (let review_id = e_uuid E k
      in case find (pending_review subject_type subject_id (sr_version score)) (reviews s) of
           Some q \<Rightarrow> (Inr (r_id q), s)
         | None \<Rightarrow>
             and_then
               (insert_review
                  \<lparr>r_id = review_id, r_type = subject_type, r_subject = subject_id, r_district = district_id,
                   r_risk = sr_risk score, r_action = sr_action score,
                   r_signals = dumps_plain (JList (map (signal_dict E) (sr_signals score))), r_version = sr_version score,
                   r_state = R_PENDING_REVIEW, r_created = e_now E k, r_reviewed_at = None, r_reviewed_by = None,
                   r_notes = None, r_escalated = None\<rparr> s)
               (\<lambda>_ s1. (Inr review_id, s1)))"

definition policy_note :: string where
  "policy_note = ''ML decision queued for human review. No parcel state change without affirmative action by a LAND_OFFICER or REGISTRAR. Escalation deadline: 24 hours.''"

definition review_queued_event :: "'g env \<Rightarrow> string \<Rightarrow> string \<Rightarrow> string \<Rightarrow> string \<Rightarrow> fraud_score \<Rightarrow> json" where
  "review_queued_event E review_id subject_type subject_id parcel_id score = JObj
     [(''review_id'', JStr review_id), (''subject_type'', JStr subject_type), (''subject_id'', JStr subject_id),
      (''parcel_id'', JStr parcel_id), (''risk_score'', JInt (sr_risk score)),
      (''recommended_action'', JStr (action_str (sr_action score))), (''scorer_version'', JStr (sr_version score)),
      (''signals'', JList (map (signal_dict E) (sr_signals score))), (''policy_note'', JStr policy_note)]"

definition act_on_score :: "'g env \<Rightarrow> nat \<Rightarrow> string \<Rightarrow> string \<Rightarrow> fraud_score \<Rightarrow> db \<Rightarrow> (unit, db) outcome" where
  "act_on_score E k subject_type subject_id score s =
     (if sr_action score = NONE \<or> subject_type \<noteq> ''TRANSFER'' then (Inr (), s)
      else case find_transfer subject_id s of
        None \<Rightarrow> (Inr (), s)
      | Some t \<Rightarrow>
          and_then (enqueue_for_review E k subject_type subject_id (t_district t) score s) (\<lambda>review_id s1.
            (Inr (), emit E (k + 1) ''FRAUD_REVIEW_QUEUED''
               (review_queued_event E review_id subject_type subject_id (t_parcel t) score)
               (t_district t) ''system:fraud_scorer'' s1)))"

text \<open>
  The tail that \<open>_score_once\<close> and \<open>score_now\<close> share: score, persist, act.  The readings 0 to 4 are
  the scorer's, 5 is the stored row's, 6 the queue's and 7 the event's.
\<close>

definition score_and_act :: "'g env \<Rightarrow> string \<Rightarrow> string \<Rightarrow> fraud_context \<Rightarrow> db \<Rightarrow> (unit, db) outcome" where
  "score_and_act E subject_type subject_id context s =
     (let score = score_subject E context s
      in and_then (persist_score E 5 subject_type subject_id score s) (\<lambda>_ s1.
           act_on_score E 6 subject_type subject_id score s1))"

definition subject_context :: "string \<Rightarrow> string \<Rightarrow> db \<Rightarrow> fraud_context option" where
  "subject_context subject_type subject_id s =
     (if subject_type = ''TRANSFER'' then build_transfer_context subject_id s else None)"

definition current_score :: "score_view option \<Rightarrow> bool" where
  "current_score prior \<longleftrightarrow> (case prior of None \<Rightarrow> False | Some v \<Rightarrow> sv_version v = SCORER_VERSION)"

section \<open>Scoring\<close>

definition score_now :: "'g env \<Rightarrow> string \<Rightarrow> string \<Rightarrow> db \<Rightarrow> (score_view option, db) outcome" where
  "score_now E subject_type subject_id s =
     (case latest_score subject_type subject_id s of
        Inl e \<Rightarrow> (Inl e, s)
      | Inr prior \<Rightarrow>
          if current_score prior then (Inr prior, s)
          else case subject_context subject_type subject_id s of
            None \<Rightarrow> (Inr prior, s)
          | Some context \<Rightarrow>
              and_then (score_and_act E subject_type subject_id context s) (\<lambda>_ s1.
                (latest_score subject_type subject_id s1, s1)))"

type_synonym 'c setnx = "string \<Rightarrow> string \<Rightarrow> real \<Rightarrow> 'c \<Rightarrow> bool \<times> 'c"

definition score_once ::
  "'g env \<Rightarrow> 'c setnx \<Rightarrow> (string \<times> string) list \<Rightarrow> 'c \<times> db \<Rightarrow> (unit, 'c \<times> db) outcome" where
  "score_once E setnx message st =
     (let subject_type = (case map_of message ''subject_type'' of Some t \<Rightarrow> t | None \<Rightarrow> ''TRANSFER'');
          (c, s) = st
      in case map_of message ''subject_id'' of
           None \<Rightarrow> (Inr (), st)
         | Some subject_id \<Rightarrow>
             if subject_id = [] then (Inr (), st)
             else
               let (locked, c1) = setnx (''fraud:scoring:lock:'' @ subject_type @ '':'' @ subject_id) ''1'' 300 c
               in if \<not> locked then (Inr (), c1, s)
                  else case latest_score subject_type subject_id s of
                    Inl e \<Rightarrow> (Inl e, c1, s)
                  | Inr prior \<Rightarrow>
                      if current_score prior then (Inr (), c1, s)
                      else case subject_context subject_type subject_id s of
                        None \<Rightarrow> (Inr (), c1, s)
                      | Some context \<Rightarrow>
                          (let (r, s1) = score_and_act E subject_type subject_id context s in (r, c1, s1)))"

section \<open>The outbox\<close>

definition finish_job :: "string \<Rightarrow> job_state \<Rightarrow> int \<Rightarrow> string option \<Rightarrow> time option \<Rightarrow> db \<Rightarrow> db" where
  "finish_job job_id state attempts err next_attempt_at s =
     s\<lparr>jobs := update_where (\<lambda>j. j_id j = job_id)
        (\<lambda>j. j\<lparr>j_state := state, j_attempts := attempts, j_error := err, j_next := next_attempt_at\<rparr>) (jobs s)\<rparr>"

definition due_job :: "time \<Rightarrow> job \<Rightarrow> bool" where
  "due_job now j \<longleftrightarrow> j_state j = J_PENDING \<and> (case j_next j of None \<Rightarrow> True | Some t \<Rightarrow> t \<le> now)"

definition due_jobs :: "time \<Rightarrow> nat \<Rightarrow> db \<Rightarrow> job list" where
  "due_jobs now limit s = take limit (sort_key j_created (filter (due_job now) (jobs s)))"

text \<open>One row: readings 0 to 7 are \<open>score_now\<close>'s, 8 is the clock of the next attempt.\<close>

definition sweep_job :: "'g env \<Rightarrow> job \<Rightarrow> db \<Rightarrow> nat \<times> db" where
  "sweep_job E j s =
     (case score_now E (j_type j) (j_subject j) s of
        (Inr _, s1) \<Rightarrow> (1, finish_job (j_id j) J_DONE (j_attempts j) None None s1)
      | (Inl e, s1) \<Rightarrow>
          (let attempts = j_attempts j + 1
           in if attempts \<ge> OUTBOX_MAX_ATTEMPTS
              then (0, finish_job (j_id j) J_FAILED attempts (Some (take 500 (e_exc E e))) None s1)
              else
                let backoff = min 300 (power_int 2 attempts)
                in (0, finish_job (j_id j) J_PENDING attempts (Some (take 500 (e_exc E e))) (Some (e_now E 8 + backoff)) s1)))"

fun sweep_jobs :: "'g env \<Rightarrow> job list \<Rightarrow> db \<Rightarrow> nat \<times> db" where
  "sweep_jobs E [] s = (0, s)"
| "sweep_jobs E (j # js) s =
     (let (n, s1) = sweep_job E j s; (m, s2) = sweep_jobs (shift_env 9 E) js s1 in (n + m, s2))"

definition sweep_scoring_outbox :: "'g env \<Rightarrow> nat \<Rightarrow> db \<Rightarrow> nat \<times> db" where
  "sweep_scoring_outbox E limit s = sweep_jobs (shift_env 1 E) (due_jobs (e_now E 0) limit s) s"

text \<open>\<open>_last_sweep\<close> is the first component; reading 0 is the throttle's clock.\<close>

definition maybe_sweep_outbox :: "'g env \<Rightarrow> time \<times> db \<Rightarrow> time \<times> db" where
  "maybe_sweep_outbox E st =
     (let (last_sweep, s) = st; now = e_now E 0
      in if now - last_sweep < SWEEP_INTERVAL_SECONDS then (last_sweep, s)
         else (now, snd (sweep_scoring_outbox (shift_env 1 E) 20 s)))"

section \<open>The consumer loop\<close>

record 'c worker =
  wk_last :: time
  wk_lock :: 'c
  wk_db :: db

type_synonym entry = "string \<times> (string \<times> string) list"

text \<open>
  The entries of one read, each acknowledged whether or not scoring raised.  The readings of an
  entry are a block of nine of the second environment.
\<close>

fun consume_entries :: "'g env \<Rightarrow> 'c setnx \<Rightarrow> entry list \<Rightarrow> 'c \<times> db \<Rightarrow> string list \<times> 'c \<times> db" where
  "consume_entries E setnx [] st = ([], st)"
| "consume_entries E setnx ((entry_id, message) # es) st =
     (let (_, st1) = score_once E setnx message st;
          (acked, st2) = consume_entries (shift_env 9 E) setnx es st1
      in (entry_id # acked, st2))"

text \<open>
  One turn: None is Redis down, \<open>Some (Inl e)\<close> a read that raised.  E1 gives the readings of the
  sweep, E2 those of the entries; the result is the list of acknowledged entries.
\<close>

definition consumer_turn ::
  "'g env \<Rightarrow> 'g env \<Rightarrow> 'c setnx \<Rightarrow> entry list res option \<Rightarrow> 'c worker \<Rightarrow> string list \<times> 'c worker" where
  "consumer_turn E1 E2 setnx read w =
     (case read of
        None \<Rightarrow> (let (l, s) = maybe_sweep_outbox E1 (wk_last w, wk_db w) in ([], w\<lparr>wk_last := l, wk_db := s\<rparr>))
      | Some (Inl _) \<Rightarrow> ([], w)
      | Some (Inr entries) \<Rightarrow>
          (let (l, s) = maybe_sweep_outbox E1 (wk_last w, wk_db w);
               (acked, c, s1) = consume_entries E2 setnx entries (wk_lock w, s)
           in (acked, w\<lparr>wk_last := l, wk_lock := c, wk_db := s1\<rparr>)))"

section \<open>Lemmas\<close>

text \<open>What the worker has to leave alone.\<close>

definition registry ::
  "db \<Rightarrow> owner list \<times> parcel list \<times> title list \<times> transfer list \<times> dispute list \<times> appeal list" where
  "registry s = (owners s, parcels s, titles s, transfers s, disputes s, appeals s)"

lemma registry_simps [simp]:
  "registry (emit E k t p d a s) = registry s"
  "registry (s\<lparr>fraud_scores := x\<rparr>) = registry s"
  "registry (s\<lparr>reviews := y\<rparr>) = registry s"
  "registry (s\<lparr>jobs := z\<rparr>) = registry s"
  by (simp_all add: registry_def)

lemma registry_persist [simp]: "registry (snd (persist_score E k t i r s)) = registry s"
  by (simp add: persist_score_def)

lemma registry_enqueue [simp]: "registry (snd (enqueue_for_review E k t i d r s)) = registry s"
  by (simp add: enqueue_for_review_def insert_review_def Let_def split: option.splits)

lemma snd_and_then:
  "snd (and_then r k) = (case fst r of Inl _ \<Rightarrow> snd r | Inr a \<Rightarrow> snd (k a (snd r)))"
  by (cases r; cases "fst r") auto

lemma fst_and_then:
  "fst (and_then r k) = (case fst r of Inl e \<Rightarrow> Inl e | Inr a \<Rightarrow> fst (k a (snd r)))"
  by (cases r; cases "fst r") auto

lemma registry_act [simp]: "registry (snd (act_on_score E k t i r s)) = registry s"
  by (simp add: act_on_score_def snd_and_then split: option.splits sum.splits)

lemma registry_score_and_act [simp]: "registry (snd (score_and_act E t i x s)) = registry s"
  by (simp add: score_and_act_def Let_def snd_and_then split: sum.splits)

lemma registry_score_now [simp]: "registry (snd (score_now E t i s)) = registry s"
  by (simp add: score_now_def snd_and_then split: option.splits sum.splits)

lemma registry_finish [simp]: "registry (finish_job i st n err nx s) = registry s"
  by (simp add: finish_job_def)

lemma sweep_job_registry [simp]: "registry (snd (sweep_job E j s)) = registry s"
proof -
  have "registry (snd (score_now E (j_type j) (j_subject j) s)) = registry s" by simp
  then show ?thesis
    by (cases "score_now E (j_type j) (j_subject j) s") (auto simp: sweep_job_def Let_def split: sum.splits)
qed

lemma sweep_jobs_Cons:
  "snd (sweep_jobs E (j # js) s) = snd (sweep_jobs (shift_env 9 E) js (snd (sweep_job E j s)))"
  by (simp add: Let_def case_prod_beta)

lemma sweep_jobs_registry [simp]: "registry (snd (sweep_jobs E js s)) = registry s"
  by (induction js arbitrary: E s) (simp_all add: sweep_jobs_Cons del: sweep_jobs.simps(2))

lemma maybe_sweep_registry [simp]: "registry (snd (maybe_sweep_outbox E st)) = registry (snd st)"
  by (cases st) (simp add: maybe_sweep_outbox_def sweep_scoring_outbox_def Let_def)

lemma score_once_db:
  obtains "snd (snd (score_once E setnx m (c, s))) = s"
  | t i x where "snd (snd (score_once E setnx m (c, s))) = snd (score_and_act E t i x s)"
proof (cases "snd (snd (score_once E setnx m (c, s))) = s")
  case False
  let ?t = "case map_of m ''subject_type'' of Some t \<Rightarrow> t | None \<Rightarrow> ''TRANSFER''"
  obtain i where i: "map_of m ''subject_id'' = Some i" "i \<noteq> []"
    using False by (simp add: score_once_def Let_def split: option.splits if_splits)
  obtain l c1 where l: "setnx (''fraud:scoring:lock:'' @ ?t @ '':'' @ i) ''1'' 300 c = (l, c1)" by force
  have "l" using False i l by (cases l) (simp_all add: score_once_def Let_def)
  then obtain p where p: "latest_score ?t i s = Inr p" "\<not> current_score p"
    using False i l by (cases "latest_score ?t i s") (auto simp: score_once_def Let_def split: if_splits)
  then obtain x where x: "subject_context ?t i s = Some x"
    using False i l \<open>l\<close> by (cases "subject_context ?t i s") (auto simp: score_once_def Let_def)
  have "snd (snd (score_once E setnx m (c, s))) = snd (score_and_act E ?t i x s)"
    using i l \<open>l\<close> p x by (simp add: score_once_def Let_def case_prod_beta)
  then show thesis by (rule that(2))
qed (rule that(1))

lemma score_once_registry [simp]: "registry (snd (snd (score_once E setnx m st))) = registry (snd st)"
proof -
  obtain c s where st: "st = (c, s)" by (cases st)
  show ?thesis unfolding st by (rule score_once_db [of E setnx m c s]) simp_all
qed

lemma consume_Cons:
  "snd (consume_entries E setnx (e # es) st)
     = snd (consume_entries (shift_env 9 E) setnx es (snd (score_once E setnx (snd e) st)))"
  by (cases e) (simp add: Let_def case_prod_beta)

lemma consume_registry [simp]: "registry (snd (snd (consume_entries E setnx es st))) = registry (snd st)"
  by (induction es arbitrary: E st) (simp_all add: consume_Cons del: consume_entries.simps(2))

end
