(* ===== verification/Worker_Safety.thy ===== *)
theory Worker_Safety
  imports Fraud_Worker
begin

text \<open>
  What the fraud worker guarantees: it never touches the registry, its tables keep their
  invariant, scoring on demand leaves a current score and a queued review, and the durable outbox
  empties.
\<close>

section \<open>The invariant of the worker's tables\<close>

definition score_key :: "score_row \<Rightarrow> string \<times> string \<times> string" where
  "score_key f = (fs_type f, fs_subject f, fs_version f)"

definition review_key :: "review \<Rightarrow> string \<times> string \<times> string" where
  "review_key q = (r_type q, r_subject q, r_version q)"

definition scores_inv :: "score_row list \<Rightarrow> bool" where
  "scores_inv fs \<longleftrightarrow> distinct (map score_key fs)
     \<and> (\<forall>f\<in>set fs. 0 \<le> fs_risk f \<and> fs_risk f \<le> 100 \<and> fs_action f = action_of (fs_risk f))"

definition reviews_inv :: "review list \<Rightarrow> bool" where
  "reviews_inv qs \<longleftrightarrow> distinct (map review_key (filter (\<lambda>q. r_state q = R_PENDING_REVIEW) qs))
     \<and> (\<forall>q\<in>set qs. r_action q \<noteq> NONE)"

definition job_ok :: "job \<Rightarrow> bool" where
  "job_ok j \<longleftrightarrow> 0 \<le> j_attempts j \<and> j_attempts j \<le> OUTBOX_MAX_ATTEMPTS
     \<and> (j_state j = J_PENDING \<longrightarrow> j_attempts j < OUTBOX_MAX_ATTEMPTS)"

definition worker_inv :: "db \<Rightarrow> bool" where
  "worker_inv s \<longleftrightarrow> scores_inv (fraud_scores s) \<and> reviews_inv (reviews s) \<and> (\<forall>j\<in>set (jobs s). job_ok j)"

definition worker_tables :: "db \<Rightarrow> score_row list \<times> review list \<times> job list" where
  "worker_tables s = (fraud_scores s, reviews s, jobs s)"

lemma worker_inv_cong: "worker_tables s = worker_tables s' \<Longrightarrow> worker_inv s = worker_inv s'"
  by (simp add: worker_inv_def worker_tables_def)

lemma worker_inv_emit [simp]: "worker_inv (emit E k t p d a s) = worker_inv s"
  by (rule worker_inv_cong) (simp add: worker_tables_def)

lemma persist_score_inv:
  assumes "worker_inv s" and "sr_action r = action_of (sr_risk r)"
  shows "worker_inv (snd (persist_score E k t i r s))"
proof -
  have "scores_inv (fraud_scores (snd (persist_score E k t i r s)))"
    using assms by (auto simp: worker_inv_def scores_inv_def persist_score_def score_key_def distinct_map inj_on_def)
  then show ?thesis using assms(1) by (simp add: worker_inv_def persist_score_def)
qed

lemma enqueue_inv:
  assumes "worker_inv s"
  shows "worker_inv (snd (enqueue_for_review E k t i d r s))"
proof (cases "find (pending_review t i (sr_version r)) (reviews s)")
  case (Some q)
  then show ?thesis using assms by (simp add: enqueue_for_review_def Let_def)
next
  case None
  have fresh: "\<forall>q\<in>set (reviews s). \<not> pending_review t i (sr_version r) q" using None by (simp add: find_NoneD)
  show ?thesis using assms fresh
    by (auto simp: enqueue_for_review_def None Let_def insert_review_def worker_inv_def reviews_inv_def review_key_def
        pending_review_def)
qed

lemma act_inv:
  assumes "worker_inv s"
  shows "worker_inv (snd (act_on_score E k t i r s))"
proof -
  have e: "worker_inv (snd (enqueue_for_review E k t i d r s))" for d using assms by (rule enqueue_inv)
  then show ?thesis using assms
    by (auto simp: act_on_score_def snd_and_then split: option.splits sum.splits)
qed

lemma score_and_act_inv: "worker_inv s \<Longrightarrow> worker_inv (snd (score_and_act E t i x s))"
  by (auto simp: score_and_act_def Let_def snd_and_then score_subject_risk(2) act_inv persist_score_inv split: sum.splits)

lemma score_now_inv: "worker_inv s \<Longrightarrow> worker_inv (snd (score_now E t i s))"
  by (auto simp: score_now_def snd_and_then score_and_act_inv split: option.splits sum.splits)

lemma finish_job_inv:
  assumes "worker_inv s" and "0 \<le> n" "n \<le> OUTBOX_MAX_ATTEMPTS" "st = J_PENDING \<Longrightarrow> n < OUTBOX_MAX_ATTEMPTS"
  shows "worker_inv (finish_job i st n err nx s)"
  using assms by (auto simp: worker_inv_def finish_job_def job_ok_def set_update_where)

lemma sweep_job_inv:
  assumes "worker_inv s" "job_ok j" "j_state j = J_PENDING"
  shows "worker_inv (snd (sweep_job E j s))"
proof -
  obtain r s1 where r: "score_now E (j_type j) (j_subject j) s = (r, s1)" by force
  then have "worker_inv s1" using score_now_inv [OF assms(1), of E "j_type j" "j_subject j"] by simp
  then show ?thesis using assms(2,3)
    by (cases r) (auto simp: sweep_job_def r Let_def job_ok_def intro!: finish_job_inv)
qed

lemma sweep_jobs_inv:
  "worker_inv s \<Longrightarrow> \<forall>j\<in>set js. job_ok j \<and> j_state j = J_PENDING \<Longrightarrow> worker_inv (snd (sweep_jobs E js s))"
  by (induction js arbitrary: E s) (simp_all add: sweep_jobs_Cons sweep_job_inv del: sweep_jobs.simps(2))

lemma due_jobs_set: "set (due_jobs now limit s) \<subseteq> {j \<in> set (jobs s). due_job now j}"
  by (auto simp: due_jobs_def dest: in_set_takeD)

lemma sweep_inv:
  assumes "worker_inv s"
  shows "worker_inv (snd (sweep_scoring_outbox E limit s))"
  unfolding sweep_scoring_outbox_def
  by (rule sweep_jobs_inv [OF assms]) (use assms due_jobs_set in \<open>fastforce simp: worker_inv_def due_job_def\<close>)

lemma maybe_sweep_inv: "worker_inv (snd st) \<Longrightarrow> worker_inv (snd (maybe_sweep_outbox E st))"
  by (cases st) (simp add: maybe_sweep_outbox_def Let_def sweep_inv)

lemma consume_inv: "worker_inv (snd st) \<Longrightarrow> worker_inv (snd (snd (consume_entries E setnx es st)))"
proof (induction es arbitrary: E st)
  case (Cons e es)
  obtain c s where st: "st = (c, s)" by (cases st)
  have "worker_inv (snd (snd (score_once E setnx (snd e) st)))"
    unfolding st by (rule score_once_db [of E setnx "snd e" c s]) (use Cons.prems in \<open>simp_all add: st score_and_act_inv\<close>)
  then show ?case by (simp add: consume_Cons Cons.IH del: consume_entries.simps(2))
qed simp

lemma consumer_turn_db:
  "wk_db (snd (consumer_turn E1 E2 setnx read w)) =
     (case read of
        None \<Rightarrow> snd (maybe_sweep_outbox E1 (wk_last w, wk_db w))
      | Some (Inl _) \<Rightarrow> wk_db w
      | Some (Inr es) \<Rightarrow> snd (snd (consume_entries E2 setnx es (wk_lock w, snd (maybe_sweep_outbox E1 (wk_last w, wk_db w))))))"
  by (simp add: consumer_turn_def Let_def case_prod_beta split: option.splits sum.splits)

section \<open>What a sweep does to the outbox\<close>

lemma jobs_score_now [simp]: "jobs (snd (score_now E t i s)) = jobs s"
proof -
  have e: "jobs (snd (enqueue_for_review E k t i d r s)) = jobs s" for k t i d r s
    by (simp add: enqueue_for_review_def Let_def insert_review_def split: option.splits)
  have a: "jobs (snd (act_on_score E k t i r s)) = jobs s" for k t i r s
    by (simp add: act_on_score_def snd_and_then e split: option.splits sum.splits)
  have p: "jobs (snd (persist_score E k t i r s)) = jobs s" for k t i r s by (simp add: persist_score_def)
  show ?thesis by (simp add: score_now_def score_and_act_def Let_def snd_and_then a p split: option.splits sum.splits)
qed

text \<open>The row of a job that a sweep with clock readings up to T has processed.\<close>

definition processed :: "time \<Rightarrow> job \<Rightarrow> job \<Rightarrow> bool" where
  "processed T j j' \<longleftrightarrow> j_id j' = j_id j
     \<and> (j_state j' \<noteq> J_PENDING
        \<or> (j_attempts j' = j_attempts j + 1 \<and> j_attempts j' < OUTBOX_MAX_ATTEMPTS
           \<and> (\<exists>t. j_next j' = Some t \<and> t \<le> T + 300)))"

lemma finish_rows:
  assumes "j' \<in> set (jobs (finish_job i st n err nx s))"
  shows "(j_id j' = i \<and> j_state j' = st \<and> j_attempts j' = n \<and> j_next j' = nx) \<or> (j' \<in> set (jobs s) \<and> j_id j' \<noteq> i)"
proof -
  obtain r where "r \<in> set (jobs s)"
    "j' = (if j_id r = i then r\<lparr>j_state := st, j_attempts := n, j_error := err, j_next := nx\<rparr> else r)"
    using assms by (auto simp: finish_job_def set_update_where)
  then show ?thesis by (cases "j_id r = i") simp_all
qed

lemma sweep_job_rows:
  assumes "\<And>k. e_now E k \<le> T" and "j' \<in> set (jobs (snd (sweep_job E j s)))"
  shows "processed T j j' \<or> (j' \<in> set (jobs s) \<and> j_id j' \<noteq> j_id j)"
proof -
  obtain r s1 where r: "score_now E (j_type j) (j_subject j) s = (r, s1)" by force
  then have s1: "jobs s1 = jobs s" using jobs_score_now [of E "j_type j" "j_subject j" s] by simp
  have "e_now E 8 + min 300 x \<le> T + 300" for x by (rule add_mono) (simp_all add: assms(1))
  then show ?thesis using assms(2) s1
    by (cases r) (auto simp: sweep_job_def r Let_def processed_def dest!: finish_rows split: if_splits)
qed

lemma sweep_jobs_rows:
  assumes "\<And>k. e_now E k \<le> T" and "j' \<in> set (jobs (snd (sweep_jobs E js s)))"
  shows "(\<exists>j\<in>set js. processed T j j') \<or> (j' \<in> set (jobs s) \<and> j_id j' \<notin> j_id ` set js)"
  using assms
proof (induction js arbitrary: E s)
  case (Cons j js)
  have T: "e_now (shift_env 9 E) k \<le> T" for k using Cons.prems(1) by (simp add: shift_env_def)
  have "j' \<in> set (jobs (snd (sweep_jobs (shift_env 9 E) js (snd (sweep_job E j s)))))"
    using Cons.prems(2) unfolding sweep_jobs_Cons .
  then consider "\<exists>k\<in>set js. processed T k j'" | "j' \<in> set (jobs (snd (sweep_job E j s)))" "j_id j' \<notin> j_id ` set js"
    using Cons.IH [OF T] by blast
  then show ?case
    by cases (use sweep_job_rows [OF Cons.prems(1)] in auto)
qed simp

text \<open>Successive sweeps, one environment each.\<close>

fun sweeps :: "nat \<Rightarrow> 'g env list \<Rightarrow> db \<Rightarrow> db" where
  "sweeps limit [] s = s"
| "sweeps limit (E # Es) s = sweeps limit Es (snd (sweep_scoring_outbox E limit s))"

text \<open>The sweeps are at least 300 seconds apart.\<close>

fun spaced :: "'g env list \<Rightarrow> bool" where
  "spaced [] = True"
| "spaced (E # Es) = ((\<exists>T. (\<forall>k. e_now E k \<le> T) \<and> (\<forall>F\<in>set Es. T + 300 \<le> e_now F 0)) \<and> spaced Es)"

definition ripe :: "time \<Rightarrow> nat \<Rightarrow> db \<Rightarrow> bool" where
  "ripe now n s \<longleftrightarrow> (\<forall>j\<in>set (jobs s). j_state j = J_PENDING \<longrightarrow> due_job now j \<and> int n \<le> j_attempts j)"

lemma jobs_sweep_length [simp]: "length (jobs (snd (sweep_scoring_outbox E limit s))) = length (jobs s)"
proof -
  have f: "length (jobs (finish_job i st n err nx s)) = length (jobs s)" for i st n err nx s by (simp add: finish_job_def)
  have j: "length (jobs (snd (sweep_job E j s))) = length (jobs s)" for E j and s :: db
  proof -
    obtain r s1 where r: "score_now E (j_type j) (j_subject j) s = (r, s1)" by force
    then have "jobs s1 = jobs s" using jobs_score_now [of E "j_type j" "j_subject j" s] by simp
    then show ?thesis by (cases r) (simp_all add: sweep_job_def r Let_def f)
  qed
  have "length (jobs (snd (sweep_jobs E js s))) = length (jobs s)" for js E and s :: db
    by (induction js arbitrary: E s) (simp_all add: sweep_jobs_Cons j del: sweep_jobs.simps(2))
  then show ?thesis by (simp add: sweep_scoring_outbox_def)
qed

lemma sweep_ripe:
  assumes "ripe (e_now E 0) n s" "length (jobs s) \<le> limit" "\<And>k. e_now E k \<le> T"
    and "\<forall>j\<in>set (jobs s). job_ok j" "T + 300 \<le> now"
  shows "ripe now (Suc n) (snd (sweep_scoring_outbox E limit s))"
  unfolding ripe_def
proof (intro ballI impI)
  fix j' assume j': "j' \<in> set (jobs (snd (sweep_scoring_outbox E limit s)))" and pend: "j_state j' = J_PENDING"
  let ?js = "due_jobs (e_now E 0) limit s"
  have all: "set ?js = {j \<in> set (jobs s). due_job (e_now E 0) j}"
  proof -
    have "length (sort_key j_created (filter (due_job (e_now E 0)) (jobs s))) \<le> limit"
      using assms(2) by (simp add: le_trans [OF length_filter_le])
    then show ?thesis by (auto simp: due_jobs_def)
  qed
  have T: "e_now (shift_env 1 E) k \<le> T" for k using assms(3) by (simp add: shift_env_def)
  from sweep_jobs_rows [OF T, of j' ?js s] j'
  consider j where "j \<in> set ?js" "processed T j j'" | "j' \<in> set (jobs s)" "j_id j' \<notin> j_id ` set ?js"
    unfolding sweep_scoring_outbox_def by blast
  then show "due_job now j' \<and> int (Suc n) \<le> j_attempts j'"
  proof cases
    case 1
    then have "j_state j = J_PENDING" "j \<in> set (jobs s)" by (auto simp: all due_job_def)
    then have "int n \<le> j_attempts j" using assms(1) by (auto simp: ripe_def)
    then show ?thesis using 1(2) pend assms(5) by (auto simp: processed_def due_job_def)
  next
    case 2
    then have "due_job (e_now E 0) j'" using assms(1) pend by (auto simp: ripe_def)
    then show ?thesis using 2 by (auto simp: all)
  qed
qed

lemma sweeps_ripe:
  assumes "spaced Es" "Es \<noteq> []" "ripe (e_now (hd Es) 0) n s" "length (jobs s) \<le> limit" "worker_inv s"
  shows "\<exists>now. ripe now (n + length Es) (sweeps limit Es s) \<and> worker_inv (sweeps limit Es s)"
  using assms
proof (induction Es arbitrary: n s)
  case (Cons E Es)
  let ?s = "snd (sweep_scoring_outbox E limit s)"
  obtain T where T: "\<And>k. e_now E k \<le> T" "\<forall>F\<in>set Es. T + 300 \<le> e_now F 0" using Cons.prems(1) by auto
  have inv: "worker_inv ?s" using Cons.prems(5) by (rule sweep_inv)
  have ok: "\<forall>j\<in>set (jobs s). job_ok j" using Cons.prems(5) by (simp add: worker_inv_def)
  show ?case
  proof (cases Es)
    case Nil
    have "ripe (T + 300) (Suc n) ?s" by (rule sweep_ripe [where T = T]) (use Cons.prems ok T in auto)
    then show ?thesis using inv Nil by auto
  next
    case (Cons F Fs)
    have "ripe (e_now (hd Es) 0) (Suc n) ?s"
      by (rule sweep_ripe [where T = T]) (use Cons.prems ok T Cons in auto)
    then show ?thesis using Cons.IH [of "Suc n" ?s] Cons.prems Cons inv by auto
  qed
qed simp

section \<open>Scoring on demand\<close>

lemma persist_latest:
  assumes "persist_score E k t i r s = (Inr (), s1)" and "\<And>f. f \<in> set (fraud_scores s) \<Longrightarrow> fs_at f \<le> e_now E k"
    and "latest_score t i s1 = Inr v"
  shows "\<exists>w. v = Some w \<and> sv_version w = sr_version r \<and> sv_risk w = sr_risk r \<and> sv_action w = sr_action r"
proof -
  let ?row = "\<lparr>fs_id = e_uuid E k, fs_type = t, fs_subject = i, fs_risk = sr_risk r,
       fs_signals = dumps_plain (JList (map (signal_dict E) (sr_signals r))), fs_action = sr_action r,
       fs_at = e_now E k, fs_version = sr_version r\<rparr>"
  obtain old where old: "fraud_scores s1 = old @ [?row]" "set old \<subseteq> set (fraud_scores s)"
    using assms(1) by (auto simp: persist_score_def split: if_splits)
  have "latest_by fs_at (filter (\<lambda>f. fs_type f = t \<and> fs_subject f = i) old @ [?row]) = Some ?row"
    by (rule latest_by_snoc_ge) (use old(2) assms(2) in auto)
  then show ?thesis using assms(3) by (auto simp: latest_score_def old res_simps)
qed

lemma scores_act [simp]: "fraud_scores (snd (act_on_score E k t i r s)) = fraud_scores s"
proof -
  have e: "fraud_scores (snd (enqueue_for_review E k t i d r s)) = fraud_scores s" for k t i d r s
    by (simp add: enqueue_for_review_def Let_def insert_review_def split: option.splits)
  show ?thesis by (simp add: act_on_score_def snd_and_then e split: option.splits sum.splits)
qed

lemma latest_score_cong: "fraud_scores s = fraud_scores s' \<Longrightarrow> latest_score t i s = latest_score t i s'"
  by (simp add: latest_score_def)

lemma enqueue_pending:
  assumes "enqueue_for_review E k t i d r s = (Inr x, s')"
  shows "\<exists>q\<in>set (reviews s'). pending_review t i (sr_version r) q"
proof (cases "find (pending_review t i (sr_version r)) (reviews s)")
  case (Some q)
  then show ?thesis using assms by (auto simp: enqueue_for_review_def Let_def dest: find_SomeD)
next
  case None
  then show ?thesis using assms
    by (auto simp: enqueue_for_review_def Let_def insert_review_def pending_review_def split: if_splits)
qed

lemma act_pending:
  assumes "act_on_score E k ''TRANSFER'' i r s = (Inr u, s')" "find_transfer i s = Some t" "sr_action r \<noteq> NONE"
  shows "\<exists>q\<in>set (reviews s'). pending_review ''TRANSFER'' i (sr_version r) q"
  using assms by (fastforce simp: act_on_score_def res_simps dest: enqueue_pending)

lemma score_now_current:
  "latest_score t i s = Inr v \<Longrightarrow> current_score v \<Longrightarrow> score_now E t i s = (Inr v, s)"
  by (simp add: score_now_def)

lemma context_transfer: "subject_context ''TRANSFER'' i s = Some x \<Longrightarrow> \<exists>t. find_transfer i s = Some t"
  by (auto simp: subject_context_def build_transfer_context_def split: option.splits)

lemma score_now_new:
  assumes "score_now E ''TRANSFER'' i s = (Inr v, s')" "latest_score ''TRANSFER'' i s = Inr p" "\<not> current_score p"
    and "subject_context ''TRANSFER'' i s = Some x" "\<And>f. f \<in> set (fraud_scores s) \<Longrightarrow> fs_at f \<le> e_now E 5"
  shows "latest_score ''TRANSFER'' i s' = Inr v"
    and "\<exists>w. v = Some w \<and> sv_version w = SCORER_VERSION \<and> sv_risk w = sr_risk (score_subject E x s)
      \<and> sv_action w = action_of (sv_risk w)
      \<and> (sv_action w \<noteq> NONE \<longrightarrow> (\<exists>q\<in>set (reviews s'). pending_review ''TRANSFER'' i SCORER_VERSION q))"
proof -
  let ?r = "score_subject E x s"
  obtain s1 where ps: "persist_score E 5 ''TRANSFER'' i ?r s = (Inr (), s1)"
    and act: "act_on_score E 6 ''TRANSFER'' i ?r s1 = (Inr (), s')" and l: "latest_score ''TRANSFER'' i s' = Inr v"
    using assms by (auto simp: score_now_def score_and_act_def Let_def res_simps)
  show "latest_score ''TRANSFER'' i s' = Inr v" by (rule l)
  have "latest_score ''TRANSFER'' i s1 = Inr v"
    using l scores_act [of E 6 "''TRANSFER''" i ?r s1] latest_score_cong [of s1 s'] by (simp add: act)
  from persist_latest [OF ps assms(5) this]
  obtain w where w: "v = Some w" "sv_version w = sr_version ?r" "sv_risk w = sr_risk ?r" "sv_action w = sr_action ?r"
    by blast
  obtain t where t: "find_transfer i s = Some t" using context_transfer [OF assms(4)] by blast
  have "transfers s1 = transfers s" using ps by (auto simp: persist_score_def split: if_splits)
  then have t1: "find_transfer i s1 = Some t" using t by (simp add: find_transfer_def)
  have "sv_action w \<noteq> NONE \<longrightarrow> (\<exists>q\<in>set (reviews s'). pending_review ''TRANSFER'' i SCORER_VERSION q)"
    using act_pending [OF act t1] w by (simp add: score_subject_risk(3))
  then show "\<exists>w. v = Some w \<and> sv_version w = SCORER_VERSION \<and> sv_risk w = sr_risk ?r
      \<and> sv_action w = action_of (sv_risk w)
      \<and> (sv_action w \<noteq> NONE \<longrightarrow> (\<exists>q\<in>set (reviews s'). pending_review ''TRANSFER'' i SCORER_VERSION q))"
    using w by (simp add: score_subject_risk(2,3))
qed

section \<open>A transfer for closed examples\<close>

definition demo_person :: "string \<Rightarrow> kyc_status \<Rightarrow> owner" where
  "demo_person i k = \<lparr>o_id = i, o_nin_hash = i, o_nin_encrypted = [], o_name = ''Sarah Nakato'', o_dob = None,
     o_phone = None, o_kyc = k, o_kyc_at = None, o_created = 0, o_updated = 0\<rparr>"

definition demo_transfer :: "transfer_status \<Rightarrow> transfer" where
  "demo_transfer st = \<lparr>t_id = ''tr-1'', t_parcel = ''UG-MIT-024718/2026'', t_from = Some ''owner-01'', t_to = ''owner-02'',
     t_type = SALE, t_consideration = None, t_status = st, t_signed = ''{}'', t_initiated = 0, t_completed = None,
     t_district = 3\<rparr>"

text \<open>One parcel with its owner, a buyer with the given KYC, one transfer and its outbox row.\<close>

definition demo_sale_db :: "parcel_status \<Rightarrow> transfer_status \<Rightarrow> kyc_status \<Rightarrow> db" where
  "demo_sale_db ps ts k = demo_db\<lparr>
     parcels := [\<lparr>p_id = ''UG-MIT-024718/2026'', p_tenure = MAILO, p_district = 3, p_sub_county = ''Mityana TC'',
                  p_geometry = ''{}'', p_area = 1, p_owner = Some ''owner-01'', p_status = ps, p_created = 0, p_updated = 0\<rparr>],
     owners := [demo_person ''owner-01'' K_VERIFIED, demo_person ''owner-02'' k],
     transfers := [demo_transfer ts],
     jobs := [\<lparr>j_id = ''job-1'', j_type = ''TRANSFER'', j_subject = ''tr-1'', j_state = J_PENDING, j_attempts = 0,
               j_created = 0, j_next = None, j_error = None\<rparr>]\<rparr>"

definition model_env :: "(real list \<Rightarrow> real option) option \<Rightarrow> unit env" where
  "model_env m = demo_env\<lparr>e_model := m\<rparr>"

lemma demo_sale_sel:
  "fraud_scores (demo_sale_db ps ts k) = []" "reviews (demo_sale_db ps ts k) = []"
  "transfers (demo_sale_db ps ts k) = [demo_transfer ts]"
  by (simp_all add: demo_sale_db_def demo_db_def empty_db_def)

text \<open>Its context, and what the rules and the model say of it.\<close>

definition demo_sale_context :: fraud_context where
  "demo_sale_context = \<lparr>sc_transfer = ''tr-1'', sc_parcel = ''UG-MIT-024718/2026'', sc_from = Some ''owner-01'', sc_to = ''owner-02'',
      sc_consideration = None, sc_type = SALE, sc_district = 3, sc_area = 1, sc_name = Some ''Sarah Nakato'', sc_signed = ''{}''\<rparr>"

lemma demo_context: 
  "subject_context ''TRANSFER'' ''tr-1'' (demo_sale_db ps ts k) = Some demo_sale_context"
  by (simp add: demo_sale_context_def subject_context_def build_transfer_context_def demo_sale_db_def demo_transfer_def find_row_defs demo_db_def demo_person_def)

lemma load_empty: "json_loads ''{}'' = Inr (JObj [])" by code_simp

lemma demo_rules:
  "sg_score (rule_geometry_overlap (model_env m) demo_sale_context (demo_sale_db ps ts k)) = 0"
  "sg_score (rule_rapid_retransfer (model_env m) demo_sale_context (demo_sale_db ps ts k)) = 0"
  "sg_score (rule_nin_reuse (model_env m) demo_sale_context (demo_sale_db ps ts k)) = 0"
  "sg_score (rule_size_anomaly (model_env m) demo_sale_context (demo_sale_db ps ts k)) = 0"
  "sg_score (rule_watchlist_name (model_env m) demo_sale_context (demo_sale_db ps ts k)) = 0"
  "sg_score (rule_consideration_anomaly (model_env m) demo_sale_context (demo_sale_db ps ts k)) = 0"
  by (simp_all add: rule_geometry_overlap_def rule_rapid_retransfer_def rule_nin_reuse_def rule_size_anomaly_def
     rule_watchlist_name_def rule_consideration_anomaly_def demo_sale_context_def signal_simps parse_geojson_def load_empty
     json_get_def demo_sale_db_def demo_db_def empty_db_def find_row_defs demo_transfer_def res_bind_def split: option.splits sum.splits)

definition kyc_signal :: rule_signal where
  "kyc_signal = \<lparr>sg_name = ''nira_kyc'', sg_weight = 25, sg_score = 1, sg_text = ''Receiving owner KYC status is REJECTED.''\<rparr>"

lemma demo_kyc:
  "rule_nira_kyc (model_env m) demo_sale_context (demo_sale_db ps ts K_REJECTED) = kyc_signal"
  by (simp add: rule_nira_kyc_def demo_sale_context_def find_row_defs demo_sale_db_def demo_person_def kyc_signal_def)

lemma demo_ml: "ml_score (model_env (Some (\<lambda>_. Some raw))) demo_sale_context (demo_sale_db ps ts k) = Some (normalise raw)"
  "ml_score (model_env None) demo_sale_context (demo_sale_db ps ts k) = None"
  by (simp_all add: ml_score_def model_env_def assemble_features_def demo_sale_context_def safe_float_def log1p_def Let_def)

lemma load_sig: "json_loads (dumps_plain (JList [signal_dict (model_env m) kyc_signal]))
   = Inr (JList [signal_dict (model_env m) kyc_signal])"
proof -
  have "signal_dict (model_env m) kyc_signal
   = JObj [(''name'', JStr ''nira_kyc''), (''weight'', JInt 25), (''score'', JFloat ''1.0''), (''explanation'', JStr ''Receiving owner KYC status is REJECTED.'')]"
   by (simp add: kyc_signal_def signal_dict_def model_env_def jreal_def demo_env_def int_str_def nat_str.simps)
  moreover have "json_loads (dumps_plain (JList [JObj [(''name'', JStr ''nira_kyc''), (''weight'', JInt 25), (''score'', JFloat ''1.0''), (''explanation'', JStr ''Receiving owner KYC status is REJECTED.'')]]))
    = Inr (JList [JObj [(''name'', JStr ''nira_kyc''), (''weight'', JInt 25), (''score'', JFloat ''1.0''), (''explanation'', JStr ''Receiving owner KYC status is REJECTED.'')]])"
    by code_simp
  ultimately show ?thesis by simp
qed

lemma normalise_demo: "normalise (-1) = 1"
  by (simp add: normalise_def)

lemma py_round_int [simp]: "py_round (of_int n) = n"
  by (simp add: py_round_def Let_def)

lemma demo_scores:
  "score_subject (model_env (Some (\<lambda>_. Some (-1)))) demo_sale_context (demo_sale_db ps ts K_REJECTED)
     = \<lparr>sr_risk = 85, sr_action = BLOCK, sr_signals = [kyc_signal], sr_ml = Some 1, sr_version = SCORER_VERSION\<rparr>"
  "score_subject (model_env None) demo_sale_context (demo_sale_db ps ts K_REJECTED)
     = \<lparr>sr_risk = 25, sr_action = NONE, sr_signals = [kyc_signal], sr_ml = None, sr_version = SCORER_VERSION\<rparr>"
proof -
  have r: "rules_score (run_all_rules (model_env m) demo_sale_context (demo_sale_db ps ts K_REJECTED)) = 25"
    "filter fired (run_all_rules (model_env m) demo_sale_context (demo_sale_db ps ts K_REJECTED)) = [kyc_signal]" for m
    by (simp_all add: run_all_rules_def RULES_def rules_score_def fired_def demo_rules demo_kyc kyc_signal_def)
  have p: "py_round 85 = 85" "py_round 25 = 25" using py_round_int [of 85] py_round_int [of 25] by simp_all
  show "score_subject (model_env (Some (\<lambda>_. Some (-1)))) demo_sale_context (demo_sale_db ps ts K_REJECTED)
     = \<lparr>sr_risk = 85, sr_action = BLOCK, sr_signals = [kyc_signal], sr_ml = Some 1, sr_version = SCORER_VERSION\<rparr>"
    by (simp add: score_subject_def r demo_ml normalise_demo safe_float_def p action_of_def Let_def)
  show "score_subject (model_env None) demo_sale_context (demo_sale_db ps ts K_REJECTED)
     = \<lparr>sr_risk = 25, sr_action = NONE, sr_signals = [kyc_signal], sr_ml = None, sr_version = SCORER_VERSION\<rparr>"
    by (simp add: score_subject_def r demo_ml safe_float_def p action_of_def Let_def)
qed

lemma demo_score_now:
  "\<exists>v s'. score_now (model_env (Some (\<lambda>_. Some (-1)))) ''TRANSFER'' ''tr-1'' (demo_sale_db ps ts K_REJECTED) = (Inr (Some v), s')
     \<and> sv_action v = BLOCK"
  "\<exists>v s'. score_now (model_env None) ''TRANSFER'' ''tr-1'' (demo_sale_db ps ts K_REJECTED) = (Inr (Some v), s')
     \<and> sv_action v = NONE"
  by (simp_all add: score_now_def latest_score_def demo_context score_and_act_def demo_scores Let_def persist_score_def
      valid_subject_type_def act_on_score_def enqueue_for_review_def insert_review_def find_review_def
      load_sig [simplified] current_score_def demo_sale_sel find_transfer_def demo_transfer_def)

section \<open>Properties\<close>

text \<open>
  C26. Whatever arrives on the stream, with or without Redis, whatever the model, the rules or
  the database raise, a turn of the fraud worker changes no owner, parcel, title, transfer,
  dispute or appeal: the scorer alone never freezes a parcel.
\<close>

theorem worker_never_touches_registry:
  "registry (wk_db (snd (consumer_turn E1 E2 setnx read w))) = registry (wk_db w)"
  by (simp add: consumer_turn_db split: option.splits sum.splits)

text \<open>
  C25. The tables of the worker keep their invariant over every turn: at most one score per subject
  and scorer version, every stored risk between 0 and 100 with the action of its band, at most one
  pending review per subject and version and none for a NONE score, and no outbox row with more
  than five attempts or pending after the fifth.
\<close>

theorem worker_tables_invariant:
  assumes "worker_inv (wk_db w)"
  shows "worker_inv (wk_db (snd (consumer_turn E1 E2 setnx read w)))"
  using assms by (auto simp: consumer_turn_db maybe_sweep_inv consume_inv split: option.splits sum.splits)


theorem worker_tables_invariant_witness:
  "\<exists>w. worker_inv (wk_db w) \<and> jobs (wk_db w) \<noteq> []
     \<and> worker_inv (wk_db (snd (consumer_turn demo_env demo_env (cache_setnx 0) None w)))"
proof -
  let ?w = "\<lparr>wk_last = 0, wk_lock = Map.empty, wk_db = demo_sale_db P_ACTIVE T_PENDING K_REJECTED\<rparr>"
  have "worker_inv (wk_db ?w)"
    by (simp add: worker_inv_def scores_inv_def reviews_inv_def job_ok_def demo_sale_db_def demo_db_def empty_db_def
        OUTBOX_MAX_ATTEMPTS_def)
  then show ?thesis using worker_tables_invariant [of ?w demo_env demo_env "cache_setnx 0" None]
    by (intro exI [of _ ?w]) (simp add: demo_sale_db_def)
qed






theorem score_subject_spec_witness:
  "\<exists>r g. score_subject (model_env None) demo_sale_context (demo_sale_db P_ACTIVE T_PENDING K_REJECTED) = r
     \<and> g \<in> set (sr_signals r) \<and> 0 < sg_score g \<and> sg_score g \<le> 1 \<and> sr_ml r = None"
proof -
  let ?r = "score_subject (model_env None) demo_sale_context (demo_sale_db P_ACTIVE T_PENDING K_REJECTED)"
  have k: "kyc_signal \<in> set (sr_signals ?r)" by (simp add: demo_scores)
  have m: "e_model (model_env None) = None" by (simp add: model_env_def)
  have "0 < sg_score kyc_signal \<and> sg_score kyc_signal \<le> 1 \<and> sr_ml ?r = None"
    using score_subject_spec [of "model_env None" demo_sale_context "demo_sale_db P_ACTIVE T_PENDING K_REJECTED"] k m
    unfolding Let_def by blast
  with k show ?thesis by blast
qed

end
