(* ===== verification/Transfers.thy ===== *)
theory Transfers
  imports Worker_Safety
begin

text \<open>
  The ownership transfer workflow: the router \<open>backend/app/routers/transfers.py\<close> with the models of
  \<open>backend/app/models/transfers.py\<close> (initiate, approve behind the fraud gate, reject, read).
\<close>

section \<open>Requests and views\<close>

record transfer_request =
  xq_parcel :: string
  xq_from :: "string option"
  xq_to :: string
  xq_type :: transfer_type
  xq_consideration :: "real option"

definition transfer_request_ok :: "transfer_request \<Rightarrow> bool" where
  "transfer_request_ok q \<longleftrightarrow>
     11 \<le> length (xq_parcel q) \<and> length (xq_parcel q) \<le> 32 \<and> 8 \<le> length (xq_to q) \<and> length (xq_to q) \<le> 64
     \<and> (case xq_consideration q of None \<Rightarrow> True | Some c \<Rightarrow> 0 \<le> c)"

record transfer_view =
  xv_id :: string
  xv_parcel :: string
  xv_from :: "string option"
  xv_to :: string
  xv_type :: transfer_type
  xv_consideration :: "real option"
  xv_status :: transfer_status
  xv_initiated :: time
  xv_completed :: "time option"
  xv_district :: int

definition row_to_transfer :: "transfer \<Rightarrow> transfer_view" where
  "row_to_transfer r =
     \<lparr>xv_id = t_id r, xv_parcel = t_parcel r, xv_from = t_from r, xv_to = t_to r, xv_type = t_type r,
      xv_consideration = t_consideration r, xv_status = t_status r, xv_initiated = t_initiated r,
      xv_completed = t_completed r, xv_district = t_district r\<rparr>"

section \<open>Initiating\<close>

text \<open>\<open>payload.from_owner_id or parcel[3]\<close>: no owner and the empty text mean the current owner.\<close>

definition from_or_current :: "transfer_request \<Rightarrow> parcel \<Rightarrow> string option" where
  "from_or_current q p = (if xq_from q = None \<or> xq_from q = Some [] then p_owner p else xq_from q)"

definition signed_payload :: "'g env \<Rightarrow> transfer_request \<Rightarrow> parcel \<Rightarrow> string \<Rightarrow> json" where
  "signed_payload E q p user = JObj
     [(''parcel_id'', JStr (xq_parcel q)), (''from_owner_id'', jopt JStr (from_or_current q p)),
      (''to_owner_id'', JStr (xq_to q)), (''transfer_type'', JStr (transfer_type_str (xq_type q))),
      (''consideration'', jopt (jreal E) (xq_consideration q)), (''initiated_at'', jreal E (e_now E 0)),
      (''initiated_by'', JStr user)]"

definition new_transfer :: "'g env \<Rightarrow> transfer_request \<Rightarrow> parcel \<Rightarrow> string \<Rightarrow> transfer" where
  "new_transfer E q p user =
     \<lparr>t_id = e_uuid E 0, t_parcel = xq_parcel q, t_from = from_or_current q p, t_to = xq_to q, t_type = xq_type q,
      t_consideration = xq_consideration q, t_status = T_PENDING, t_signed = dumps_plain (signed_payload E q p user),
      t_initiated = e_now E 0, t_completed = None, t_district = p_district p\<rparr>"

definition new_job :: "'g env \<Rightarrow> string \<Rightarrow> job" where
  "new_job E transfer_id =
     \<lparr>j_id = e_uuid E 1, j_type = ''TRANSFER'', j_subject = transfer_id, j_state = J_PENDING, j_attempts = 0,
      j_created = e_now E 0, j_next = None, j_error = None\<rparr>"

definition create_transfer_handler ::
  "'g env \<Rightarrow> stream option \<Rightarrow> transfer_request \<Rightarrow> auth_context \<Rightarrow> db \<Rightarrow> (transfer_view, db) outcome" where
  "create_transfer_handler E redis q ctx s =
     (if \<not> transfer_request_ok q then (Inl (HTTPException 422), s)
      else case find_parcel (xq_parcel q) s of
        None \<Rightarrow> (Inl (HTTPException 404), s)
      | Some parcel \<Rightarrow>
          if p_status parcel \<notin> {P_ACTIVE, P_TRANSFERRED} then (Inl (HTTPException 409), s)
          else if find_owner (xq_to q) s = None then (Inl (HTTPException 404), s)
          else
            let t = new_transfer E q parcel (cx_id ctx)
            in and_then (insert_transfer t s) (\<lambda>_ s1.
               and_then (insert_job (new_job E (t_id t)) s1) (\<lambda>_ s2.
                 case find_transfer (t_id t) s2 of
                   None \<Rightarrow> (Inl TypeError, s2)
                 | Some row \<Rightarrow>
                     let s3 = emit E 2 ''TRANSFER_INITIATED''
                           (JObj [(''transfer_id'', JStr (t_id t)), (''parcel_id'', JStr (xq_parcel q)),
                                  (''to_owner_id'', JStr (xq_to q))]) (p_district parcel) (cx_id ctx) s2
                     in case enqueue_score E 3 redis ''TRANSFER'' (t_id t) of
                          Inl e \<Rightarrow> (Inl e, s3)
                        | Inr _ \<Rightarrow> (Inr (row_to_transfer row), s3))))"

definition create_transfer ::
  "'g env \<Rightarrow> stream option \<Rightarrow> transfer_request \<Rightarrow> auth_context option \<Rightarrow> db \<Rightarrow> (transfer_view, db) outcome" where
  "create_transfer E redis q ctx = guarded_by [LAND_OFFICER, CITIZEN] ctx (create_transfer_handler E redis q)"

section \<open>Approving and rejecting\<close>

definition set_transfer :: "string \<Rightarrow> (transfer \<Rightarrow> transfer) \<Rightarrow> db \<Rightarrow> db" where
  "set_transfer i f s = s\<lparr>transfers := update_where (\<lambda>t. t_id t = i) f (transfers s)\<rparr>"

text \<open>The \<open>UPDATE\<close> of the owner raises when it reaches a row and the owner does not exist.\<close>

definition move_parcel :: "string \<Rightarrow> string \<Rightarrow> time \<Rightarrow> db \<Rightarrow> (unit, db) outcome" where
  "move_parcel parcel_id owner_id now s =
     (if find_parcel parcel_id s \<noteq> None \<and> find_owner owner_id s = None then (Inl IntegrityError, s)
      else (Inr (), s\<lparr>parcels := update_where (\<lambda>p. p_id p = parcel_id)
             (\<lambda>p. p\<lparr>p_owner := Some owner_id, p_status := P_TRANSFERRED, p_updated := now\<rparr>) (parcels s)\<rparr>))"

definition gate_score :: "'g env \<Rightarrow> string \<Rightarrow> db \<Rightarrow> (score_view option, db) outcome" where
  "gate_score E transfer_id s =
     (case latest_score ''TRANSFER'' transfer_id s of
        Inl e \<Rightarrow> (Inl e, s)
      | Inr prior \<Rightarrow> if current_score prior then (Inr prior, s) else score_now E ''TRANSFER'' transfer_id s)"

text \<open>The readings 0 to 7 are \<open>score_now\<close>'s, 8 is the completion's and 9 the event's.\<close>

definition approve_transfer_handler ::
  "'g env \<Rightarrow> string \<Rightarrow> auth_context \<Rightarrow> db \<Rightarrow> (transfer_view, db) outcome" where
  "approve_transfer_handler E transfer_id ctx s =
     (case find_transfer transfer_id s of
        None \<Rightarrow> (Inl (HTTPException 404), s)
      | Some row \<Rightarrow>
          and_then (gate_score E transfer_id s) (\<lambda>score s1.
            case score of
              None \<Rightarrow> (Inl (HTTPException 503), s1)
            | Some v \<Rightarrow>
                if sv_action v = BLOCK then (Inl (HTTPException 409), s1)
                else
                  and_then
                    (move_parcel (t_parcel row) (t_to row) (e_now E 8)
                       (set_transfer transfer_id (\<lambda>t. t\<lparr>t_status := T_COMPLETED, t_completed := Some (e_now E 8)\<rparr>) s1))
                    (\<lambda>_ s2.
                      let s3 = emit E 9 ''TRANSFER_COMPLETED''
                            (JObj [(''transfer_id'', JStr transfer_id), (''parcel_id'', JStr (t_parcel row)),
                                   (''to_owner_id'', JStr (t_to row))]) (t_district row) (cx_id ctx) s2
                      in case find_transfer transfer_id s2 of
                           None \<Rightarrow> (Inl TypeError, s3)
                         | Some new_row \<Rightarrow> (Inr (row_to_transfer new_row), s3))))"

definition approve_transfer ::
  "'g env \<Rightarrow> string \<Rightarrow> auth_context option \<Rightarrow> db \<Rightarrow> (transfer_view, db) outcome" where
  "approve_transfer E transfer_id ctx = guarded_by [REGISTRAR, LAND_OFFICER] ctx (approve_transfer_handler E transfer_id)"

definition reject_transfer_handler ::
  "'g env \<Rightarrow> string \<Rightarrow> string \<Rightarrow> auth_context \<Rightarrow> db \<Rightarrow> (transfer_view, db) outcome" where
  "reject_transfer_handler E transfer_id reason ctx s =
     (case find_transfer transfer_id s of
        None \<Rightarrow> (Inl (HTTPException 404), s)
      | Some row \<Rightarrow>
          let s1 = set_transfer transfer_id (\<lambda>t. t\<lparr>t_status := T_REJECTED\<rparr>) s;
              s2 = emit E 0 ''TRANSFER_REJECTED'' (JObj [(''transfer_id'', JStr transfer_id), (''reason'', JStr reason)])
                     (t_district row) (cx_id ctx) s1
          in case find_transfer transfer_id s1 of
               None \<Rightarrow> (Inl TypeError, s2)
             | Some new_row \<Rightarrow> (Inr (row_to_transfer new_row), s2))"

definition reject_transfer ::
  "'g env \<Rightarrow> string \<Rightarrow> string \<Rightarrow> auth_context option \<Rightarrow> db \<Rightarrow> (transfer_view, db) outcome" where
  "reject_transfer E transfer_id reason ctx =
     guarded_by [REGISTRAR, LAND_OFFICER] ctx (reject_transfer_handler E transfer_id reason)"

definition get_transfer :: "string \<Rightarrow> auth_context option \<Rightarrow> db \<Rightarrow> (transfer_view, db) outcome" where
  "get_transfer transfer_id ctx = guarded_by ALL_ROLES ctx (\<lambda>_ s.
     case find_transfer transfer_id s of
       None \<Rightarrow> (Inl (HTTPException 404), s)
     | Some row \<Rightarrow> (Inr (row_to_transfer row), s))"

interpretation create_transfer_route: role_route "[LAND_OFFICER, CITIZEN]" "create_transfer E redis q" for E redis q
  by unfold_locales (simp_all add: create_transfer_def)

interpretation approve_route: role_route "[REGISTRAR, LAND_OFFICER]" "approve_transfer E i" for E i
  by unfold_locales (simp_all add: approve_transfer_def)

interpretation reject_route: role_route "[REGISTRAR, LAND_OFFICER]" "reject_transfer E i reason" for E i reason
  by unfold_locales (simp_all add: reject_transfer_def)

section \<open>Lemmas\<close>

lemma gate_score_eq: "gate_score E i s = score_now E ''TRANSFER'' i s"
  by (auto simp: gate_score_def score_now_def split: sum.splits)

lemma registryD:
  assumes "registry s' = registry s"
  shows "owners s' = owners s" "parcels s' = parcels s" "titles s' = titles s" "transfers s' = transfers s"
    "disputes s' = disputes s" "appeals s' = appeals s"
    "find_owner i s' = find_owner i s" "find_parcel i s' = find_parcel i s" "find_transfer i s' = find_transfer i s"
    "find_dispute i s' = find_dispute i s" "find_title i s' = find_title i s"
proof -
  show t: "owners s' = owners s" "parcels s' = parcels s" "titles s' = titles s" "transfers s' = transfers s"
    "disputes s' = disputes s" "appeals s' = appeals s"
    using assms by (simp_all add: registry_def)
  show "find_owner i s' = find_owner i s" "find_parcel i s' = find_parcel i s" "find_transfer i s' = find_transfer i s"
    "find_dispute i s' = find_dispute i s" "find_title i s' = find_title i s"
    by (fact find_row_cong(1) [OF t(1)] find_row_cong(2) [OF t(2)] find_row_cong(3) [OF t(4)] find_row_cong(4) [OF t(5)]
        find_row_cong(5) [OF t(3)])+
qed

lemma subject_context_cong:
  assumes "registry s' = registry s"
  shows "subject_context t i s' = subject_context t i s"
proof -
  have "find_owner j s' = find_owner j s" "find_parcel j s' = find_parcel j s" "find_transfer j s' = find_transfer j s" for j
    by (fact registryD(7) [OF assms] registryD(8) [OF assms] registryD(9) [OF assms])+
  then show ?thesis by (simp add: subject_context_def build_transfer_context_def cong: option.case_cong)
qed

lemma gate_registry: "gate_score E i s = (r, s1) \<Longrightarrow> registry s1 = registry s"
  using registry_score_now [of E "''TRANSFER''" i s] by (simp add: gate_score_eq)

lemma set_transfer_sel [simp]:
  "owners (set_transfer i f s) = owners s" "parcels (set_transfer i f s) = parcels s"
  "titles (set_transfer i f s) = titles s" "disputes (set_transfer i f s) = disputes s"
  "fraud_scores (set_transfer i f s) = fraud_scores s" "audit (set_transfer i f s) = audit s"
  by (simp_all add: set_transfer_def)

lemma find_owner_set_transfer [simp]: "find_owner j (set_transfer i f s) = find_owner j s"
  by (rule find_row_cong) simp

lemma find_parcel_set_transfer [simp]: "find_parcel j (set_transfer i f s) = find_parcel j s"
  by (rule find_row_cong) simp

lemma find_set_transfer:
  assumes "\<And>t. t_id (f t) = t_id t"
  shows "find_transfer j (set_transfer i f s) = map_option (\<lambda>t. if t_id t = i then f t else t) (find_transfer j s)"
  using assms by (simp add: find_transfer_def set_transfer_def find_update_where)

lemma move_parcel_Inr:
  "move_parcel p w now s = (Inr (), s') \<longleftrightarrow>
     (find_parcel p s = None \<or> find_owner w s \<noteq> None)
     \<and> s' = s\<lparr>parcels := update_where (\<lambda>r. p_id r = p)
               (\<lambda>r. r\<lparr>p_owner := Some w, p_status := P_TRANSFERRED, p_updated := now\<rparr>) (parcels s)\<rparr>"
  by (auto simp: move_parcel_def)

lemma find_move_parcel:
  "move_parcel p w now s = (Inr (), s') \<Longrightarrow> find_parcel j s' = map_option (\<lambda>r. if p_id r = p
      then r\<lparr>p_owner := Some w, p_status := P_TRANSFERRED, p_updated := now\<rparr> else r) (find_parcel j s)"
  by (auto simp: move_parcel_Inr find_parcel_def find_update_where)

lemma insert_transfer_Inr:
  "insert_transfer t s = (Inr (), s') \<longleftrightarrow>
     s' = s\<lparr>transfers := transfers s @ [t]\<rparr> \<and> find_transfer (t_id t) s = None \<and> find_parcel (t_parcel t) s \<noteq> None
     \<and> ref_ok (\<lambda>i. find_owner i s \<noteq> None) (t_from t) \<and> find_owner (t_to t) s \<noteq> None"
  by (auto simp: insert_transfer_def)

lemma insert_job_Inr:
  "insert_job j s = (Inr (), s') \<longleftrightarrow> s' = s\<lparr>jobs := jobs s @ [j]\<rparr> \<and> j_id j \<notin> j_id ` set (jobs s)"
  by (auto simp: insert_job_def)

text \<open>What a completed transfer went through: the score of the gate and the two updates.\<close>

lemma approve_handler_Inr:
  assumes "approve_transfer_handler E i c s = (Inr v, s')"
  obtains row w s1 s2 where "find_transfer i s = Some row" "score_now E ''TRANSFER'' i s = (Inr (Some w), s1)"
    "sv_action w \<noteq> BLOCK"
    "move_parcel (t_parcel row) (t_to row) (e_now E 8)
       (set_transfer i (\<lambda>t. t\<lparr>t_status := T_COMPLETED, t_completed := Some (e_now E 8)\<rparr>) s1) = (Inr (), s2)"
    "s' = emit E 9 ''TRANSFER_COMPLETED''
            (JObj [(''transfer_id'', JStr i), (''parcel_id'', JStr (t_parcel row)), (''to_owner_id'', JStr (t_to row))])
            (t_district row) (cx_id c) s2"
    "v = row_to_transfer (row\<lparr>t_status := T_COMPLETED, t_completed := Some (e_now E 8)\<rparr>)"
proof -
  obtain row where row: "find_transfer i s = Some row"
    using assms by (auto simp: approve_transfer_handler_def split: option.splits)
  obtain sc s1 where g: "gate_score E i s = (Inr sc, s1)"
    using assms row by (auto simp: approve_transfer_handler_def res_simps)
  obtain w where w: "sc = Some w" "sv_action w \<noteq> BLOCK"
    using assms row g by (auto simp: approve_transfer_handler_def split: option.splits if_splits)
  let ?f = "\<lambda>t. t\<lparr>t_status := T_COMPLETED, t_completed := Some (e_now E 8)\<rparr>"
  obtain s2 where s2: "move_parcel (t_parcel row) (t_to row) (e_now E 8) (set_transfer i ?f s1) = (Inr (), s2)"
    using assms row g w by (auto simp: approve_transfer_handler_def res_simps)
  have t2: "transfers s2 = transfers (set_transfer i ?f s1)" using s2 by (auto simp: move_parcel_Inr)
  have "find_transfer i s1 = Some row" using row registryD(9) [OF gate_registry [OF g]] by simp
  moreover have "t_id row = i" using row by (rule find_transfer_id)
  ultimately have "find_transfer i s2 = Some (?f row)"
    by (simp add: find_row_cong(3) [OF t2] find_set_transfer)
  then show thesis
    using assms row g w s2 by (intro that [OF row _ w(2) s2]) (simp_all add: approve_transfer_handler_def gate_score_eq Let_def)
qed

section \<open>Properties\<close>

text \<open>
  C32. Initiating a transfer succeeds only for a land officer, a citizen or an administrator, on a
  parcel that is ACTIVE or TRANSFERRED and to an owner on the register.  It adds one PENDING
  transfer and one PENDING outbox row for its scoring, and changes no parcel, owner or title.
\<close>

theorem create_transfer_success:
  assumes "create_transfer E redis q ctx s = (Inr v, s')"
  shows "\<exists>c p. ctx = Some c \<and> has_role c [LAND_OFFICER, CITIZEN]
    \<and> find_parcel (xq_parcel q) s = Some p \<and> p_status p \<in> {P_ACTIVE, P_TRANSFERRED}
    \<and> find_owner (xq_to q) s \<noteq> None
    \<and> transfers s' = transfers s @ [new_transfer E q p (cx_id c)] \<and> find_transfer (xv_id v) s = None
    \<and> jobs s' = jobs s @ [new_job E (xv_id v)] \<and> xv_status v = T_PENDING
    \<and> parcels s' = parcels s \<and> owners s' = owners s \<and> titles s' = titles s"
proof -
  obtain c where c: "ctx = Some c" "has_role c [LAND_OFFICER, CITIZEN]"
    using create_transfer_route.success_has_role [OF assms] by blast
  then have h: "create_transfer_handler E redis q c s = (Inr v, s')" using assms by (simp add: create_transfer_def)
  obtain p where ok: "transfer_request_ok q" and p: "find_parcel (xq_parcel q) s = Some p"
    using h by (auto simp: create_transfer_handler_def split: if_splits option.splits)
  have st: "p_status p \<in> {P_ACTIVE, P_TRANSFERRED}" and to: "find_owner (xq_to q) s \<noteq> None"
    using h ok p by (auto simp: create_transfer_handler_def split: if_splits)
  let ?t = "new_transfer E q p (cx_id c)"
  let ?s2 = "s\<lparr>transfers := transfers s @ [?t], jobs := jobs s @ [new_job E (t_id ?t)]\<rparr>"
  have nst: "(p_status p \<noteq> P_ACTIVE \<and> p_status p \<noteq> P_TRANSFERRED) = False" using st by auto
  have fresh: "find_transfer (t_id ?t) s = None"
    using h ok p to unfolding create_transfer_handler_def by (auto simp: nst Let_def res_simps insert_transfer_Inr)
  have f2: "find_transfer (t_id ?t) ?s2 = Some ?t" using fresh by (simp add: find_transfer_def find_append)
  have "v = row_to_transfer ?t \<and> (\<exists>pl. s' = emit E 2 ''TRANSFER_INITIATED'' pl (p_district p) (cx_id c) ?s2)"
    using h ok p to f2 unfolding create_transfer_handler_def
    by (auto simp: nst Let_def res_simps insert_transfer_Inr insert_job_Inr split: sum.splits)
  then show ?thesis using c p st to fresh
    by (intro exI [of _ c] exI [of _ p]) (auto simp: row_to_transfer_def new_transfer_def)
qed

text \<open>
  C3. A transfer completes only through the fraud gate: when approving succeeds, a registrar, land
  officer or administrator asked, the transfer carries a score of the current scorer version that
  is not BLOCK, the transfer is COMPLETED, its parcel belongs to the buyer, and no other parcel and
  no owner or title changes.
\<close>

theorem approve_transfer_gated:
  assumes "approve_transfer E i ctx s = (Inr v, s')" and "subject_context ''TRANSFER'' i s = Some x"
    and "\<And>f. f \<in> set (fraud_scores s) \<Longrightarrow> fs_at f \<le> e_now E 5"
  shows "\<exists>c row w p. ctx = Some c \<and> has_role c [REGISTRAR, LAND_OFFICER] \<and> find_transfer i s = Some row
    \<and> latest_score ''TRANSFER'' i s' = Inr (Some w) \<and> sv_version w = SCORER_VERSION \<and> sv_action w \<noteq> BLOCK
    \<and> find_transfer i s' = Some (row\<lparr>t_status := T_COMPLETED, t_completed := Some (e_now E 8)\<rparr>)
    \<and> find_parcel (t_parcel row) s = Some p
    \<and> find_parcel (t_parcel row) s' = Some (p\<lparr>p_owner := Some (t_to row), p_status := P_TRANSFERRED, p_updated := e_now E 8\<rparr>)
    \<and> (\<forall>j. j \<noteq> t_parcel row \<longrightarrow> find_parcel j s' = find_parcel j s)
    \<and> owners s' = owners s \<and> titles s' = titles s"
proof -
  obtain c where c: "ctx = Some c" "has_role c [REGISTRAR, LAND_OFFICER]"
    using approve_route.success_has_role [OF assms(1)] by blast
  then have "approve_transfer_handler E i c s = (Inr v, s')" using assms(1) by (simp add: approve_transfer_def)
  then obtain row w s1 s2 where row: "find_transfer i s = Some row" and g: "score_now E ''TRANSFER'' i s = (Inr (Some w), s1)"
    and nb: "sv_action w \<noteq> BLOCK"
    and mv: "move_parcel (t_parcel row) (t_to row) (e_now E 8)
       (set_transfer i (\<lambda>t. t\<lparr>t_status := T_COMPLETED, t_completed := Some (e_now E 8)\<rparr>) s1) = (Inr (), s2)"
    and s': "s' = emit E 9 ''TRANSFER_COMPLETED''
            (JObj [(''transfer_id'', JStr i), (''parcel_id'', JStr (t_parcel row)), (''to_owner_id'', JStr (t_to row))])
            (t_district row) (cx_id c) s2"
    by (rule approve_handler_Inr)
  have reg: "registry s1 = registry s" using registry_score_now [of E "''TRANSFER''" i s] g by simp
  have tid: "t_id row = i" using row by (rule find_transfer_id)
  obtain p where p: "find_parcel (t_parcel row) s = Some p"
    using assms(2) row by (auto simp: subject_context_def build_transfer_context_def split: option.splits)
  have ver: "sv_version w = SCORER_VERSION" and lt: "latest_score ''TRANSFER'' i s1 = Inr (Some w)"
  proof -
    obtain q where q: "latest_score ''TRANSFER'' i s = Inr q"
      using g by (cases "latest_score ''TRANSFER'' i s") (auto simp: score_now_def)
    show "sv_version w = SCORER_VERSION" "latest_score ''TRANSFER'' i s1 = Inr (Some w)"
      using score_now_new [OF g q _ assms(2,3)] g q
      by (cases "current_score q"; force simp: score_now_def current_score_def split: option.splits)+
  qed
  have s2: "fraud_scores s2 = fraud_scores s1" "owners s2 = owners s1" "titles s2 = titles s1"
    "transfers s2 = transfers (set_transfer i (\<lambda>t. t\<lparr>t_status := T_COMPLETED, t_completed := Some (e_now E 8)\<rparr>) s1)"
    using mv by (auto simp: move_parcel_Inr)
  have "latest_score ''TRANSFER'' i s' = Inr (Some w)" using lt s2(1) by (simp add: s' latest_score_def)
  moreover have "find_transfer i s' = Some (row\<lparr>t_status := T_COMPLETED, t_completed := Some (e_now E 8)\<rparr>)"
    using row tid by (simp add: s' find_row_cong(3) [OF s2(4)] find_set_transfer registryD(9) [OF reg])
  moreover have "find_parcel (t_parcel row) s' = Some (p\<lparr>p_owner := Some (t_to row), p_status := P_TRANSFERRED, p_updated := e_now E 8\<rparr>)"
    using p by (simp add: s' find_move_parcel [OF mv] registryD(8) [OF reg] find_parcel_id)
  moreover have "\<forall>j. j \<noteq> t_parcel row \<longrightarrow> find_parcel j s' = find_parcel j s"
  proof (intro allI impI)
    fix j assume "j \<noteq> t_parcel row"
    then show "find_parcel j s' = find_parcel j s"
      by (cases "find_parcel j s") (auto simp: s' find_move_parcel [OF mv] registryD(8) [OF reg] dest: find_parcel_id)
  qed
  moreover have "owners s' = owners s" "titles s' = titles s" using s2 registryD(1,3) [OF reg] by (simp_all add: s')
  ultimately show ?thesis using c row p nb ver by blast
qed

lemma score_now_stored:
  "latest_score t i s = Inr (Some w) \<Longrightarrow> sv_version w = SCORER_VERSION \<Longrightarrow> score_now E t i s = (Inr (Some w), s)"
  by (rule score_now_current) (simp_all add: current_score_def)



text \<open>
  C36. The approval looks at the score only, at neither the state of the transfer nor that of the
  parcel: whatever they are, with a stored score that is not BLOCK the transfer completes and the
  parcel changes hands.
\<close>

theorem approve_ignores_status:
  assumes "has_role c [REGISTRAR, LAND_OFFICER]" and "find_transfer i s = Some row" and "find_owner (t_to row) s \<noteq> None"
    and "latest_score ''TRANSFER'' i s = Inr (Some w)" and "sv_version w = SCORER_VERSION" and "sv_action w \<noteq> BLOCK"
    and "find_parcel (t_parcel row) s = Some p"
  shows "\<exists>v s'. approve_transfer E i (Some c) s = (Inr v, s') \<and> xv_status v = T_COMPLETED
    \<and> find_parcel (t_parcel row) s' = Some (p\<lparr>p_owner := Some (t_to row), p_status := P_TRANSFERRED, p_updated := e_now E 8\<rparr>)"
proof -
  let ?f = "\<lambda>t. t\<lparr>t_status := T_COMPLETED, t_completed := Some (e_now E 8)\<rparr>"
  obtain s2 where s2: "move_parcel (t_parcel row) (t_to row) (e_now E 8) (set_transfer i ?f s) = (Inr (), s2)"
    using assms(3) by (simp add: move_parcel_Inr)
  have t2: "transfers s2 = transfers (set_transfer i ?f s)" using s2 by (auto simp: move_parcel_Inr)
  have "find_transfer i s2 = Some (?f row)"
    using assms(2) by (simp add: find_row_cong(3) [OF t2] find_set_transfer find_transfer_id)
  then show ?thesis
    using assms s2 find_move_parcel [OF s2, of "t_parcel row"]
    by (simp add: approve_transfer_def approve_transfer_handler_def gate_score_eq score_now_stored row_to_transfer_def
        Let_def find_parcel_id)
qed

text \<open>A rejected transfer of a frozen parcel with a stored score NONE.\<close>

definition scored_sale_db :: "parcel_status \<Rightarrow> transfer_status \<Rightarrow> db" where
  "scored_sale_db ps ts = (demo_sale_db ps ts K_VERIFIED)\<lparr>fraud_scores :=
     [\<lparr>fs_id = ''score-1'', fs_type = ''TRANSFER'', fs_subject = ''tr-1'', fs_risk = 0, fs_signals = ''[]'', fs_action = NONE,
       fs_at = 1, fs_version = SCORER_VERSION\<rparr>]\<rparr>"

lemma scored_sale:
  "latest_score ''TRANSFER'' ''tr-1'' (scored_sale_db ps ts)
     = Inr (Some \<lparr>sv_risk = 0, sv_signals = JList [], sv_action = NONE, sv_at = 1, sv_version = SCORER_VERSION\<rparr>)"
  "find_transfer ''tr-1'' (scored_sale_db ps ts) = Some (demo_transfer ts)"
  "find_owner ''owner-02'' (scored_sale_db ps ts) = Some (demo_person ''owner-02'' K_VERIFIED)"
  "map_option p_status (find_parcel ''UG-MIT-024718/2026'' (scored_sale_db ps ts)) = Some ps"
proof -
  have "json_loads ''[]'' = Inr (JList [])" by code_simp
  then show "latest_score ''TRANSFER'' ''tr-1'' (scored_sale_db ps ts)
     = Inr (Some \<lparr>sv_risk = 0, sv_signals = JList [], sv_action = NONE, sv_at = 1, sv_version = SCORER_VERSION\<rparr>)"
    by (simp add: latest_score_def scored_sale_db_def)
qed (simp_all add: scored_sale_db_def find_row_defs demo_sale_db_def demo_transfer_def demo_person_def)

lemma demo_officer [simp]: "has_role (demo_ctx REGISTRAR) [REGISTRAR, LAND_OFFICER]"
  by (simp add: demo_ctx_def demo_context_def has_role_def cx_role_def)

theorem approve_ignores_status_witness:
  "\<exists>v s'. approve_transfer demo_env ''tr-1'' (Some (demo_ctx REGISTRAR)) (scored_sale_db P_FROZEN T_REJECTED) = (Inr v, s')
     \<and> xv_status v = T_COMPLETED \<and> map_option p_owner (find_parcel ''UG-MIT-024718/2026'' s') = Some (Some ''owner-02'')"
proof -
  obtain p where p: "find_parcel (t_parcel (demo_transfer T_REJECTED)) (scored_sale_db P_FROZEN T_REJECTED) = Some p"
    using scored_sale(4) [of P_FROZEN T_REJECTED] by (auto simp: demo_transfer_def)
  have o': "find_owner (t_to (demo_transfer T_REJECTED)) (scored_sale_db P_FROZEN T_REJECTED) \<noteq> None"
    by (simp add: demo_transfer_def scored_sale)
  from approve_ignores_status [OF demo_officer scored_sale(2) o' scored_sale(1) _ _ p, of demo_env]
  show ?thesis by (auto simp: demo_transfer_def)
qed

theorem approve_transfer_gated_witness:
  "\<exists>v s'. approve_transfer demo_env ''tr-1'' (Some (demo_ctx REGISTRAR)) (scored_sale_db P_ACTIVE T_PENDING) = (Inr v, s')
     \<and> map_option p_owner (find_parcel ''UG-MIT-024718/2026'' s') = Some (Some ''owner-02'')"
proof -
  let ?s = "scored_sale_db P_ACTIVE T_PENDING"
  obtain v s' where v: "approve_transfer demo_env ''tr-1'' (Some (demo_ctx REGISTRAR)) ?s = (Inr v, s')"
  proof -
    have "score_now demo_env ''TRANSFER'' ''tr-1'' ?s
        = (Inr (Some \<lparr>sv_risk = 0, sv_signals = JList [], sv_action = NONE, sv_at = 1, sv_version = SCORER_VERSION\<rparr>), ?s)"
      by (rule score_now_stored) (simp_all add: scored_sale)
    then have "\<exists>v s'. approve_transfer demo_env ''tr-1'' (Some (demo_ctx REGISTRAR)) ?s = (Inr v, s')"
      by (simp add: approve_transfer_def approve_transfer_handler_def scored_sale gate_score_eq move_parcel_def Let_def
          find_set_transfer find_transfer_def set_transfer_def find_update_where scored_sale_db_def demo_sale_db_def demo_transfer_def
          find_owner_def demo_person_def)
    then show thesis using that by blast
  qed
  have x: "subject_context ''TRANSFER'' ''tr-1'' ?s = Some demo_sale_context"
    using subject_context_cong [of ?s "demo_sale_db P_ACTIVE T_PENDING K_VERIFIED"] demo_context
    by (simp add: scored_sale_db_def)
  have "fs_at f \<le> e_now demo_env 5" if "f \<in> set (fraud_scores ?s)" for f
    using that by (simp add: scored_sale_db_def demo_env_def)
  from approve_transfer_gated [OF v x this] v show ?thesis
    by (auto simp: scored_sale demo_transfer_def)
qed

definition demo_transfer_request :: transfer_request where
  "demo_transfer_request =
     \<lparr>xq_parcel = ''UG-MIT-024718/2026'', xq_from = None, xq_to = ''owner-02'', xq_type = SALE, xq_consideration = None\<rparr>"

theorem create_transfer_success_witness:
  "\<exists>v s'. create_transfer demo_env None demo_transfer_request (Some (demo_ctx CITIZEN)) (demo_sale_db P_ACTIVE T_PENDING K_PENDING)
       = (Inr v, s') \<and> length (transfers s') = 2 \<and> length (jobs s') = 2"
proof -
  let ?s = "demo_sale_db P_ACTIVE T_PENDING K_PENDING"
  have r: "has_role (demo_ctx CITIZEN) [LAND_OFFICER, CITIZEN]"
    by (simp add: demo_ctx_def demo_context_def has_role_def cx_role_def)
  have "\<exists>v s'. create_transfer_handler demo_env None demo_transfer_request (demo_ctx CITIZEN) ?s = (Inr v, s')"
    by (simp add: create_transfer_handler_def demo_transfer_request_def transfer_request_ok_def demo_sale_db_def demo_db_def
        find_parcel_def find_owner_def demo_person_def insert_transfer_def insert_job_def find_transfer_def demo_transfer_def
        new_transfer_def new_job_def from_or_current_def ref_ok_def enqueue_score_def stream_publish_def Let_def
        demo_env_def)
  then obtain v s' where v: "create_transfer demo_env None demo_transfer_request (Some (demo_ctx CITIZEN)) ?s = (Inr v, s')"
    using r by (auto simp: create_transfer_def)
  from create_transfer_success [OF v] have "length (transfers s') = length (transfers ?s) + 1" "length (jobs s') = length (jobs ?s) + 1"
    by auto
  then show ?thesis using v by (simp add: demo_sale_db_def)
qed

end
