(* ===== verification/Disputes.thy ===== *)
theory Disputes
  imports Transfers
begin

text \<open>
  The dispute workflow: the router \<open>backend/app/routers/disputes.py\<close> with the models of
  \<open>backend/app/models/disputes.py\<close> (file, list, review, resolve), and the update of a parcel's status
  that the fraud reviews share.
\<close>

section \<open>Requests and views\<close>

record dispute_request =
  dq_parcel :: string
  dq_respondent :: "string option"
  dq_type :: dispute_type
  dq_evidence :: "(string \<times> json) list option"

definition dispute_request_ok :: "dispute_request \<Rightarrow> bool" where
  "dispute_request_ok q \<longleftrightarrow> 11 \<le> length (dq_parcel q) \<and> length (dq_parcel q) \<le> 32"

record resolve_request =
  rq_resolution :: string
  rq_state :: dispute_state

definition resolve_request_ok :: "resolve_request \<Rightarrow> bool" where
  "resolve_request_ok q \<longleftrightarrow>
     8 \<le> length (rq_resolution q) \<and> length (rq_resolution q) \<le> 2048
     \<and> rq_state q \<in> {D_RESOLVED, D_DISMISSED, D_ESCALATED_COURT}"

record dispute_view =
  dv_row :: dispute
  dv_evidence :: "(string \<times> json) list option"

text \<open>The stored text has to read as an object or null; no text and the empty one mean none.\<close>

definition stored_object :: "string option \<Rightarrow> (string \<times> json) list option res" where
  "stored_object t =
     (if t = None \<or> t = Some [] then Inr None
      else res_bind (json_loads (the t)) (\<lambda>j.
        case j of JObj kvs \<Rightarrow> Inr (Some kvs) | JNull \<Rightarrow> Inr None | _ \<Rightarrow> Inl ValueError))"

text \<open>\<open>json.dumps(x) if x else None\<close>.\<close>

definition object_text :: "(string \<times> json) list option \<Rightarrow> string option" where
  "object_text x = (case x of None \<Rightarrow> None | Some kvs \<Rightarrow> if kvs = [] then None else Some (dumps_plain (JObj kvs)))"

definition row_to_dispute :: "dispute \<Rightarrow> dispute_view res" where
  "row_to_dispute r = res_bind (stored_object (d_evidence r)) (\<lambda>e. Inr \<lparr>dv_row = r, dv_evidence = e\<rparr>)"

section \<open>Updates\<close>

text \<open>\<open>UPDATE parcels SET status = st, updated_at = now WHERE parcel_id = i AND status IN from\<close>.\<close>

definition mark_parcel :: "string \<Rightarrow> parcel_status set \<Rightarrow> parcel_status \<Rightarrow> time \<Rightarrow> db \<Rightarrow> db" where
  "mark_parcel i from st now s =
     s\<lparr>parcels := update_where (\<lambda>p. p_id p = i \<and> p_status p \<in> from) (\<lambda>p. p\<lparr>p_status := st, p_updated := now\<rparr>) (parcels s)\<rparr>"

definition set_dispute :: "string \<Rightarrow> (dispute \<Rightarrow> dispute) \<Rightarrow> db \<Rightarrow> db" where
  "set_dispute i f s = s\<lparr>disputes := update_where (\<lambda>d. d_id d = i) f (disputes s)\<rparr>"

section \<open>The router\<close>

definition new_dispute :: "'g env \<Rightarrow> dispute_request \<Rightarrow> int \<Rightarrow> string \<Rightarrow> dispute" where
  "new_dispute E q district_id claimant =
     \<lparr>d_id = e_uuid E 0, d_parcel = dq_parcel q, d_claimant = claimant, d_respondent = dq_respondent q, d_type = dq_type q,
      d_state = D_FILED, d_evidence = object_text (dq_evidence q), d_resolution = None, d_district = district_id,
      d_filed = e_now E 0, d_resolved = None\<rparr>"

definition file_dispute_handler ::
  "'g env \<Rightarrow> dispute_request \<Rightarrow> auth_context \<Rightarrow> db \<Rightarrow> (dispute_view, db) outcome" where
  "file_dispute_handler E q ctx s =
     (if \<not> dispute_request_ok q then (Inl (HTTPException 422), s)
      else case find_parcel (dq_parcel q) s of
        None \<Rightarrow> (Inl (HTTPException 404), s)
      | Some parcel \<Rightarrow>
          let d = new_dispute E q (p_district parcel) (cx_id ctx)
          in and_then (insert_dispute d s) (\<lambda>_ s1.
               let s2 = (if dq_type q \<in> {FRAUD, OVERLAP, OWNERSHIP}
                         then mark_parcel (dq_parcel q) UNIV P_DISPUTED (e_now E 1) s1 else s1);
                   s3 = emit E 2 ''DISPUTE_FILED''
                     (JObj [(''dispute_id'', JStr (d_id d)), (''parcel_id'', JStr (dq_parcel q)),
                            (''dispute_type'', JStr (dispute_type_str (dq_type q))), (''claimant_id'', JStr (cx_id ctx))])
                     (p_district parcel) (cx_id ctx) s2
               in case find_dispute (d_id d) s2 of
                    None \<Rightarrow> (Inl TypeError, s3)
                  | Some row \<Rightarrow> (row_to_dispute row, s3)))"

definition file_dispute ::
  "'g env \<Rightarrow> dispute_request \<Rightarrow> auth_context option \<Rightarrow> db \<Rightarrow> (dispute_view, db) outcome" where
  "file_dispute E q ctx = guarded_user ctx (file_dispute_handler E q)"

text \<open>Citizens see only their own disputes.\<close>

definition list_disputes ::
  "int option \<Rightarrow> string option \<Rightarrow> nat \<Rightarrow> auth_context option \<Rightarrow> db \<Rightarrow> (dispute_view list, db) outcome" where
  "list_disputes district_id state limit ctx = guarded_user ctx (\<lambda>c s.
     if \<not> (1 \<le> limit \<and> limit \<le> 500) then (Inl (HTTPException 422), s)
     else
       (map_res row_to_dispute
          (page limit 0 (order_desc d_filed
            (filter (\<lambda>d. opt_eq district_id (d_district d) \<and> text_eq state (Some (dispute_state_str (d_state d)))
                       \<and> (cx_role c = CITIZEN \<longrightarrow> d_claimant d = cx_id c)) (disputes s)))), s))"

definition review_dispute_handler ::
  "'g env \<Rightarrow> string \<Rightarrow> auth_context \<Rightarrow> db \<Rightarrow> (dispute_view, db) outcome" where
  "review_dispute_handler E dispute_id ctx s =
     (let s1 = set_dispute dispute_id (\<lambda>d. d\<lparr>d_state := D_UNDER_REVIEW\<rparr>) s
      in case find_dispute dispute_id s1 of
           None \<Rightarrow> (Inl (HTTPException 404), s1)
         | Some row \<Rightarrow>
             (row_to_dispute row,
              emit E 0 ''DISPUTE_REVIEWED'' (JObj [(''dispute_id'', JStr dispute_id)]) (d_district row) (cx_id ctx) s1))"

definition review_dispute ::
  "'g env \<Rightarrow> string \<Rightarrow> auth_context option \<Rightarrow> db \<Rightarrow> (dispute_view, db) outcome" where
  "review_dispute E dispute_id ctx = guarded_by [LAND_OFFICER, REGISTRAR] ctx (review_dispute_handler E dispute_id)"

definition resolve_dispute_handler ::
  "'g env \<Rightarrow> string \<Rightarrow> resolve_request \<Rightarrow> auth_context \<Rightarrow> db \<Rightarrow> (dispute_view, db) outcome" where
  "resolve_dispute_handler E dispute_id q ctx s =
     (if \<not> resolve_request_ok q then (Inl (HTTPException 422), s)
      else case find_dispute dispute_id s of
        None \<Rightarrow> (Inl (HTTPException 404), s)
      | Some row \<Rightarrow>
          let now = e_now E 0;
              s1 = set_dispute dispute_id
                     (\<lambda>d. d\<lparr>d_state := rq_state q, d_resolution := Some (rq_resolution q), d_resolved := Some now\<rparr>) s;
              s2 = (if rq_state q \<in> {D_RESOLVED, D_DISMISSED}
                    then mark_parcel (d_parcel row) {P_DISPUTED, P_FROZEN} P_ACTIVE now s1 else s1);
              s3 = emit E 1 ''DISPUTE_RESOLVED''
                     (JObj [(''dispute_id'', JStr dispute_id), (''state'', JStr (dispute_state_str (rq_state q))),
                            (''resolution'', JStr (rq_resolution q))]) (d_district row) (cx_id ctx) s2
          in case find_dispute dispute_id s2 of
               None \<Rightarrow> (Inl TypeError, s3)
             | Some full_row \<Rightarrow> (row_to_dispute full_row, s3))"

definition resolve_dispute ::
  "'g env \<Rightarrow> string \<Rightarrow> resolve_request \<Rightarrow> auth_context option \<Rightarrow> db \<Rightarrow> (dispute_view, db) outcome" where
  "resolve_dispute E dispute_id q ctx = guarded_by [REGISTRAR] ctx (resolve_dispute_handler E dispute_id q)"

interpretation review_dispute_route: role_route "[LAND_OFFICER, REGISTRAR]" "review_dispute E i" for E i
  by unfold_locales (simp_all add: review_dispute_def)

interpretation resolve_dispute_route: role_route "[REGISTRAR]" "resolve_dispute E i q" for E i q
  by unfold_locales (simp_all add: resolve_dispute_def)

section \<open>Lemmas\<close>

lemma mark_parcel_sel [simp]:
  "owners (mark_parcel i f st t s) = owners s" "titles (mark_parcel i f st t s) = titles s"
  "transfers (mark_parcel i f st t s) = transfers s" "disputes (mark_parcel i f st t s) = disputes s"
  "reviews (mark_parcel i f st t s) = reviews s" "audit (mark_parcel i f st t s) = audit s"
  "appeals (mark_parcel i f st t s) = appeals s"
  by (simp_all add: mark_parcel_def)

lemma set_dispute_sel [simp]:
  "owners (set_dispute i g s) = owners s" "titles (set_dispute i g s) = titles s"
  "transfers (set_dispute i g s) = transfers s" "parcels (set_dispute i g s) = parcels s"
  "reviews (set_dispute i g s) = reviews s" "audit (set_dispute i g s) = audit s"
  by (simp_all add: set_dispute_def)

lemma find_parcel_set_dispute [simp]: "find_parcel j (set_dispute i g s) = find_parcel j s"
  by (rule find_row_cong) simp

lemma find_dispute_mark [simp]: "find_dispute j (mark_parcel i f st t s) = find_dispute j s"
  by (rule find_row_cong) simp

lemma find_mark_parcel:
  "find_parcel j (mark_parcel i from st now s) = map_option
     (\<lambda>p. if p_id p = i \<and> p_status p \<in> from then p\<lparr>p_status := st, p_updated := now\<rparr> else p) (find_parcel j s)"
  by (simp add: find_parcel_def mark_parcel_def find_update_where)

lemma find_set_dispute:
  assumes "\<And>d. d_id (f d) = d_id d"
  shows "find_dispute j (set_dispute i f s) = map_option (\<lambda>d. if d_id d = i then f d else d) (find_dispute j s)"
  using assms by (simp add: find_dispute_def set_dispute_def find_update_where)

end
