(* ===== verification/Reviews.thy ===== *)
theory Reviews
  imports Disputes
begin

text \<open>
  The human side of the fraud workflow: the router \<open>backend/app/routers/fraud.py\<close> (scores, alerts, the
  review queue with affirm and dismiss, appeals) and the models of \<open>backend/app/models/fraud.py\<close>.
\<close>

section \<open>Signals\<close>

text \<open>Python's \<open>float(text)\<close> and \<open>int(text)\<close>; None is the \<open>ValueError\<close>.\<close>

record py_text =
  pt_float :: "string \<Rightarrow> real option"
  pt_int :: "string \<Rightarrow> int option"

record signal_view =
  sn_name :: string
  sn_weight :: int
  sn_score :: real
  sn_text :: string

text \<open>\<open>s.get(a) or s.get(b) or d\<close>, as text.\<close>

definition first_truthy :: "string list \<Rightarrow> string \<Rightarrow> (string \<times> json) list \<Rightarrow> string" where
  "first_truthy ks d kvs =
     (case find (\<lambda>k. case json_get k kvs of Some j \<Rightarrow> truthy j | None \<Rightarrow> False) ks of
        None \<Rightarrow> d
      | Some k \<Rightarrow> (case json_get k kvs of Some j \<Rightarrow> py_str j | None \<Rightarrow> d))"

text \<open>\<open>int(x)\<close> of a JSON value: a float is cut towards 0, a list, an object or null raises.\<close>

definition json_int :: "py_text \<Rightarrow> json \<Rightarrow> int res" where
  "json_int P j =
     (case j of
        JInt i \<Rightarrow> Inr i
      | JBool b \<Rightarrow> Inr (if b then 1 else 0)
      | JFloat t \<Rightarrow> (case pt_float P t of None \<Rightarrow> Inl ValueError | Some x \<Rightarrow> Inr (if x < 0 then \<lceil>x\<rceil> else \<lfloor>x\<rfloor>))
      | JStr t \<Rightarrow> (case pt_int P t of None \<Rightarrow> Inl ValueError | Some i \<Rightarrow> Inr i)
      | _ \<Rightarrow> Inl TypeError)"

text \<open>\<open>float(x)\<close> of a JSON value inside the \<open>try\<close>: what cannot be read is 0.\<close>

definition json_float_or_zero :: "py_text \<Rightarrow> json \<Rightarrow> real" where
  "json_float_or_zero P j =
     (case j of
        JInt i \<Rightarrow> of_int i
      | JBool b \<Rightarrow> (if b then 1 else 0)
      | JFloat t \<Rightarrow> (case pt_float P t of None \<Rightarrow> 0 | Some x \<Rightarrow> x)
      | JStr t \<Rightarrow> (case pt_float P t of None \<Rightarrow> 0 | Some x \<Rightarrow> x)
      | _ \<Rightarrow> 0)"

definition coerce_signal :: "py_text \<Rightarrow> json \<Rightarrow> signal_view res" where
  "coerce_signal P j =
     (case j of
        JObj s \<Rightarrow>
          res_bind (case json_get ''weight'' s of None \<Rightarrow> Inr 10 | Some w \<Rightarrow> json_int P w) (\<lambda>weight.
            let raw = (case json_get ''score'' s of None \<Rightarrow> 0 | Some x \<Rightarrow> json_float_or_zero P x);
                score = (if raw > 1 then raw / 100 else raw)
            in Inr \<lparr>sn_name = first_truthy [''name'', ''rule''] ''unknown'' s, sn_weight = weight, sn_score = score,
                    sn_text = first_truthy [''explanation'', ''evidence''] [] s\<rparr>)
      | _ \<Rightarrow> Inl AttributeError)"

text \<open>Iterating over a decoded JSON value: the elements, the keys or the characters.\<close>

definition json_items :: "json \<Rightarrow> json list res" where
  "json_items j =
     (case j of
        JList xs \<Rightarrow> Inr xs
      | JObj kvs \<Rightarrow> Inr (map (\<lambda>kv. JStr (fst kv)) kvs)
      | JStr s \<Rightarrow> Inr (map (\<lambda>c. JStr [c]) s)
      | _ \<Rightarrow> Inl TypeError)"

definition coerce_signals :: "py_text \<Rightarrow> json \<Rightarrow> signal_view list res" where
  "coerce_signals P j = res_bind (json_items j) (map_res (coerce_signal P))"

section \<open>Scores and alerts\<close>

record score_response =
  se_type :: string
  se_subject :: string
  se_risk :: int
  se_action :: fraud_action
  se_signals :: "signal_view list"
  se_at :: time
  se_version :: string

definition get_score :: "py_text \<Rightarrow> string \<Rightarrow> string \<Rightarrow> auth_context option \<Rightarrow> db \<Rightarrow> (score_response, db) outcome" where
  "get_score P subject_type subject_id ctx = guarded_by [LAND_OFFICER, REGISTRAR, AUDITOR] ctx (\<lambda>_ s.
     (res_bind (latest_score subject_type subject_id s) (\<lambda>score.
        case score of
          None \<Rightarrow> Inl (HTTPException 404)
        | Some v \<Rightarrow>
            res_bind (coerce_signals P (sv_signals v)) (\<lambda>signals.
              if \<not> valid_subject_type subject_type then Inl ValueError
              else Inr \<lparr>se_type = subject_type, se_subject = subject_id, se_risk = sv_risk v, se_action = sv_action v,
                        se_signals = signals, se_at = sv_at v, se_version = sv_version v\<rparr>)), s))"

definition rescore ::
  "'g env \<Rightarrow> stream option \<Rightarrow> string \<Rightarrow> string \<Rightarrow> auth_context option \<Rightarrow> db \<Rightarrow> (string \<times> string, db) outcome" where
  "rescore E redis subject_type subject_id ctx = guarded_by [REGISTRAR, LAND_OFFICER] ctx (\<lambda>_ s.
     (res_bind (enqueue_score E 0 redis subject_type subject_id) (\<lambda>_. Inr (subject_type, subject_id)), s))"

text \<open>\<open>json.loads(t) if t else []\<close>.\<close>

definition stored_signals :: "py_text \<Rightarrow> string \<Rightarrow> signal_view list res" where
  "stored_signals P t = (if t = [] then Inr [] else res_bind (json_loads t) (coerce_signals P))"

definition row_to_alert :: "py_text \<Rightarrow> score_row \<Rightarrow> score_response res" where
  "row_to_alert P f =
     res_bind (stored_signals P (fs_signals f)) (\<lambda>signals.
       Inr \<lparr>se_type = fs_type f, se_subject = fs_subject f, se_risk = fs_risk f, se_action = fs_action f,
            se_signals = signals, se_at = fs_at f, se_version = fs_version f\<rparr>)"

text \<open>The left joins: a transfer or a title of the subject in the district.\<close>

definition subject_in_district :: "int \<Rightarrow> db \<Rightarrow> score_row \<Rightarrow> bool" where
  "subject_in_district d s f \<longleftrightarrow>
     (fs_type f = ''TRANSFER'' \<and> (\<exists>t\<in>set (transfers s). t_id t = fs_subject f \<and> t_district t = d))
     \<or> (fs_type f = ''TITLE'' \<and> (\<exists>t\<in>set (titles s). ti_no t = fs_subject f \<and> ti_district t = d))"

definition list_alerts ::
  "py_text \<Rightarrow> int option \<Rightarrow> string option \<Rightarrow> nat \<Rightarrow> auth_context option \<Rightarrow> db \<Rightarrow> (score_response list, db) outcome" where
  "list_alerts P district_id action limit ctx = guarded_by [LAND_OFFICER, REGISTRAR] ctx (\<lambda>_ s.
     if \<not> (1 \<le> limit \<and> limit \<le> 500) then (Inl (HTTPException 422), s)
     else
       (map_res (row_to_alert P)
          (page limit 0 (order_desc fs_at
            (filter (\<lambda>f. fs_action f \<noteq> NONE
                       \<and> (action = Some ''ALL'' \<or> text_eq action (Some (action_str (fs_action f))))
                       \<and> (case district_id of None \<Rightarrow> True | Some d \<Rightarrow> subject_in_district d s f)) (fraud_scores s)))), s))"

section \<open>The review queue\<close>

record review_view =
  rw_row :: review
  rw_signals :: "signal_view list"

definition decision_ok :: "string \<Rightarrow> bool" where
  "decision_ok notes \<longleftrightarrow> 4 \<le> length notes \<and> length notes \<le> 2048"

definition row_to_review :: "py_text \<Rightarrow> review \<Rightarrow> review_view res" where
  "row_to_review P q =
     res_bind (stored_signals P (r_signals q)) (\<lambda>signals.
       Inr \<lparr>rw_row = q, rw_signals = signals\<rparr>)"

definition list_reviews ::
  "py_text \<Rightarrow> int option \<Rightarrow> string \<Rightarrow> nat \<Rightarrow> auth_context option \<Rightarrow> db \<Rightarrow> (review_view list, db) outcome" where
  "list_reviews P district_id state limit ctx = guarded_by [LAND_OFFICER, REGISTRAR, AUDITOR] ctx (\<lambda>_ s.
     if \<not> (1 \<le> limit \<and> limit \<le> 500) then (Inl (HTTPException 422), s)
     else
       (map_res (row_to_review P)
          (page limit 0 (order_desc r_created
            (filter (\<lambda>q. review_state_str (r_state q) = state \<and> opt_eq district_id (r_district q)) (reviews s)))), s))"

definition decide_review :: "string \<Rightarrow> review_state \<Rightarrow> time \<Rightarrow> string \<Rightarrow> string \<Rightarrow> db \<Rightarrow> db" where
  "decide_review review_id st now by_user notes s =
     s\<lparr>reviews := update_where (\<lambda>q. r_id q = review_id)
        (\<lambda>q. q\<lparr>r_state := st, r_reviewed_at := Some now, r_reviewed_by := Some by_user, r_notes := Some notes\<rparr>) (reviews s)\<rparr>"

definition open_fraud_dispute :: "string \<Rightarrow> dispute \<Rightarrow> bool" where
  "open_fraud_dispute parcel_id d \<longleftrightarrow>
     d_parcel d = parcel_id \<and> d_type d = FRAUD \<and> d_state d \<notin> {D_RESOLVED, D_DISMISSED}"

definition affirmed_dispute :: "'g env \<Rightarrow> review \<Rightarrow> string \<Rightarrow> string \<Rightarrow> string \<Rightarrow> dispute" where
  "affirmed_dispute E row parcel_id user notes =
     \<lparr>d_id = e_uuid E 0, d_parcel = parcel_id, d_claimant = user, d_respondent = None, d_type = FRAUD,
      d_state = D_UNDER_REVIEW,
      d_evidence = Some (dumps_plain (JObj [(''source'', JStr ''fraud_review_affirmed''), (''review_id'', JStr (r_id row)),
        (''reviewer'', JStr user), (''notes'', JStr notes)])),
      d_resolution = None, d_district = r_district row, d_filed = e_now E 0, d_resolved = None\<rparr>"

text \<open>
  The freeze of an affirmed BLOCK on a transfer, with its FRAUD dispute; the value is the frozen parcel.
\<close>

definition freeze_subject :: "'g env \<Rightarrow> review \<Rightarrow> string \<Rightarrow> string \<Rightarrow> db \<Rightarrow> (string option, db) outcome" where
  "freeze_subject E row user notes s =
     (if r_action row = BLOCK \<and> r_type row = ''TRANSFER'' then
        (case find_transfer (r_subject row) s of
           None \<Rightarrow> (Inr None, s)
         | Some t \<Rightarrow>
             let s1 = mark_parcel (t_parcel t) UNIV P_FROZEN (e_now E 0) s
             in if find (open_fraud_dispute (t_parcel t)) (disputes s1) \<noteq> None then (Inr (Some (t_parcel t)), s1)
                else and_then (insert_dispute (affirmed_dispute E row (t_parcel t) user notes) s1)
                       (\<lambda>_ s2. (Inr (Some (t_parcel t)), s2)))
      else (Inr None, s))"

definition affirm_handler ::
  "'g env \<Rightarrow> py_text \<Rightarrow> string \<Rightarrow> string \<Rightarrow> auth_context \<Rightarrow> db \<Rightarrow> (review_view, db) outcome" where
  "affirm_handler E P review_id notes ctx s =
     (if \<not> decision_ok notes then (Inl (HTTPException 422), s)
      else case find_review review_id s of
        None \<Rightarrow> (Inl (HTTPException 404), s)
      | Some row \<Rightarrow>
          if r_state row \<noteq> R_PENDING_REVIEW then (Inl (HTTPException 409), s)
          else
            and_then (freeze_subject E row (cx_id ctx) notes
                        (decide_review review_id R_HUMAN_AFFIRMED (e_now E 0) (cx_id ctx) notes s))
              (\<lambda>frozen s1.
                let s2 = emit E 1 ''FRAUD_HUMAN_AFFIRMED''
                      (JObj [(''review_id'', JStr review_id), (''subject_type'', JStr (r_type row)),
                             (''subject_id'', JStr (r_subject row)), (''reviewer'', JStr (cx_id ctx)), (''notes'', JStr notes),
                             (''applied_action'', JStr (action_str (r_action row))), (''parcel_frozen'', jopt JStr frozen)])
                      (r_district row) (cx_id ctx) s1
                in case find_review review_id s1 of
                     None \<Rightarrow> (Inl TypeError, s2)
                   | Some updated \<Rightarrow> (row_to_review P updated, s2)))"

definition affirm_review ::
  "'g env \<Rightarrow> py_text \<Rightarrow> string \<Rightarrow> string \<Rightarrow> auth_context option \<Rightarrow> db \<Rightarrow> (review_view, db) outcome" where
  "affirm_review E P review_id notes ctx = guarded_by [LAND_OFFICER, REGISTRAR] ctx (affirm_handler E P review_id notes)"

definition dismiss_handler ::
  "'g env \<Rightarrow> py_text \<Rightarrow> string \<Rightarrow> string \<Rightarrow> auth_context \<Rightarrow> db \<Rightarrow> (review_view, db) outcome" where
  "dismiss_handler E P review_id notes ctx s =
     (if \<not> decision_ok notes then (Inl (HTTPException 422), s)
      else case find_review review_id s of
        None \<Rightarrow> (Inl (HTTPException 404), s)
      | Some row \<Rightarrow>
          if r_state row \<noteq> R_PENDING_REVIEW then (Inl (HTTPException 409), s)
          else
            let s1 = decide_review review_id R_HUMAN_DISMISSED (e_now E 0) (cx_id ctx) notes s;
                s2 = emit E 1 ''FRAUD_HUMAN_DISMISSED''
                      (JObj [(''review_id'', JStr review_id), (''subject_type'', JStr (r_type row)),
                             (''subject_id'', JStr (r_subject row)), (''reviewer'', JStr (cx_id ctx)), (''notes'', JStr notes)])
                      (r_district row) (cx_id ctx) s1
            in case find_review review_id s1 of
                 None \<Rightarrow> (Inl TypeError, s2)
               | Some updated \<Rightarrow> (row_to_review P updated, s2))"

definition dismiss_review ::
  "'g env \<Rightarrow> py_text \<Rightarrow> string \<Rightarrow> string \<Rightarrow> auth_context option \<Rightarrow> db \<Rightarrow> (review_view, db) outcome" where
  "dismiss_review E P review_id notes ctx = guarded_by [LAND_OFFICER, REGISTRAR] ctx (dismiss_handler E P review_id notes)"

section \<open>Appeals\<close>

record appeal_request =
  aq_type :: string
  aq_subject :: string
  aq_review :: "string option"
  aq_statement :: string
  aq_evidence :: "(string \<times> json) list option"

definition appeal_request_ok :: "appeal_request \<Rightarrow> bool" where
  "appeal_request_ok q \<longleftrightarrow>
     valid_subject_type (aq_type q) \<and> 20 \<le> length (aq_statement q) \<and> length (aq_statement q) \<le> 4096"

datatype appeal_outcome = UPHELD | DENIED

fun outcome_str :: "appeal_outcome \<Rightarrow> string" where
  "outcome_str UPHELD = ''UPHELD''"
| "outcome_str DENIED = ''DENIED''"

record appeal_view =
  av_row :: appeal
  av_evidence :: "(string \<times> json) list option"

definition row_to_appeal :: "appeal \<Rightarrow> appeal_view res" where
  "row_to_appeal r = res_bind (stored_object (ap_evidence r)) (\<lambda>e. Inr \<lparr>av_row = r, av_evidence = e\<rparr>)"

definition new_appeal :: "'g env \<Rightarrow> appeal_request \<Rightarrow> string \<Rightarrow> appeal" where
  "new_appeal E q user =
     \<lparr>ap_id = e_uuid E 0, ap_review = aq_review q, ap_type = aq_type q, ap_subject = aq_subject q, ap_appellant = user,
      ap_statement = aq_statement q, ap_evidence = object_text (aq_evidence q), ap_state = AP_OPEN, ap_filed = e_now E 0,
      ap_resolved = None, ap_note = None\<rparr>"

definition file_appeal_handler :: "'g env \<Rightarrow> appeal_request \<Rightarrow> auth_context \<Rightarrow> db \<Rightarrow> (appeal_view, db) outcome" where
  "file_appeal_handler E q ctx s =
     (if \<not> appeal_request_ok q then (Inl (HTTPException 422), s)
      else
        let a = new_appeal E q (cx_id ctx)
        in and_then (insert_appeal a s) (\<lambda>_ s1.
             let s2 = emit E 1 ''FRAUD_APPEAL_FILED''
                   (JObj [(''appeal_id'', JStr (ap_id a)), (''subject_type'', JStr (aq_type q)),
                          (''subject_id'', JStr (aq_subject q)), (''review_id'', jopt JStr (aq_review q))])
                   (cx_district ctx) (cx_id ctx) s1
             in case find_appeal (ap_id a) s1 of
                  None \<Rightarrow> (Inl TypeError, s2)
                | Some row \<Rightarrow> (row_to_appeal row, s2)))"

definition file_appeal :: "'g env \<Rightarrow> appeal_request \<Rightarrow> auth_context option \<Rightarrow> db \<Rightarrow> (appeal_view, db) outcome" where
  "file_appeal E q ctx = guarded_user ctx (file_appeal_handler E q)"

definition list_appeals :: "string \<Rightarrow> nat \<Rightarrow> auth_context option \<Rightarrow> db \<Rightarrow> (appeal_view list, db) outcome" where
  "list_appeals state limit ctx = guarded_user ctx (\<lambda>c s.
     if \<not> (1 \<le> limit \<and> limit \<le> 500) then (Inl (HTTPException 422), s)
     else
       (map_res row_to_appeal
          (page limit 0 (order_desc ap_filed
            (filter (\<lambda>a. appeal_state_str (ap_state a) = state \<and> (cx_role c = CITIZEN \<longrightarrow> ap_appellant a = cx_id c))
              (appeals s)))), s))"

definition set_appeal :: "string \<Rightarrow> (appeal \<Rightarrow> appeal) \<Rightarrow> db \<Rightarrow> db" where
  "set_appeal i f s = s\<lparr>appeals := update_where (\<lambda>a. ap_id a = i) f (appeals s)\<rparr>"

text \<open>An upheld appeal on a transfer unfreezes the parcel of the transfer.\<close>

definition unfreeze_subject :: "'g env \<Rightarrow> appeal \<Rightarrow> appeal_outcome \<Rightarrow> db \<Rightarrow> db" where
  "unfreeze_subject E a oc s =
     (if oc = UPHELD \<and> ap_type a = ''TRANSFER'' then
        (case find_transfer (ap_subject a) s of
           None \<Rightarrow> s
         | Some t \<Rightarrow> mark_parcel (t_parcel t) {P_FROZEN, P_DISPUTED} P_ACTIVE (e_now E 0) s)
      else s)"

definition resolve_appeal_handler ::
  "'g env \<Rightarrow> string \<Rightarrow> appeal_outcome \<Rightarrow> string \<Rightarrow> auth_context \<Rightarrow> db \<Rightarrow> (appeal_view, db) outcome" where
  "resolve_appeal_handler E appeal_id oc note ctx s =
     (if \<not> (20 \<le> length note \<and> length note \<le> 4096) then (Inl (HTTPException 422), s)
      else case find_appeal appeal_id s of
        None \<Rightarrow> (Inl (HTTPException 404), s)
      | Some existing \<Rightarrow>
          if ap_state existing \<noteq> AP_OPEN then (Inl (HTTPException 409), s)
          else
            let new_state = (if oc = UPHELD then AP_UPHELD else AP_DENIED);
                s1 = set_appeal appeal_id
                       (\<lambda>a. a\<lparr>ap_state := new_state, ap_resolved := Some (e_now E 0), ap_note := Some note\<rparr>) s;
                s2 = unfreeze_subject E existing oc s1;
                s3 = emit E 1 ''FRAUD_APPEAL_RESOLVED''
                       (JObj [(''appeal_id'', JStr appeal_id), (''outcome'', JStr (outcome_str oc)),
                              (''resolver'', JStr (cx_id ctx)), (''note'', JStr note)]) (cx_district ctx) (cx_id ctx) s2
            in case find_appeal appeal_id s2 of
                 None \<Rightarrow> (Inl TypeError, s3)
               | Some row \<Rightarrow> (row_to_appeal row, s3))"

definition resolve_appeal ::
  "'g env \<Rightarrow> string \<Rightarrow> appeal_outcome \<Rightarrow> string \<Rightarrow> auth_context option \<Rightarrow> db \<Rightarrow> (appeal_view, db) outcome" where
  "resolve_appeal E appeal_id oc note ctx =
     guarded_by [AUDITOR, REGISTRAR] ctx (resolve_appeal_handler E appeal_id oc note)"

interpretation affirm_route: role_route "[LAND_OFFICER, REGISTRAR]" "affirm_review E P i n" for E P i n
  by unfold_locales (simp_all add: affirm_review_def)

interpretation dismiss_route: role_route "[LAND_OFFICER, REGISTRAR]" "dismiss_review E P i n" for E P i n
  by unfold_locales (simp_all add: dismiss_review_def)

interpretation resolve_appeal_route: role_route "[AUDITOR, REGISTRAR]" "resolve_appeal E i oc n" for E i oc n
  by unfold_locales (simp_all add: resolve_appeal_def)

section \<open>Lemmas\<close>

lemma decide_review_sel [simp]:
  "owners (decide_review i st t u n s) = owners s" "parcels (decide_review i st t u n s) = parcels s"
  "titles (decide_review i st t u n s) = titles s" "transfers (decide_review i st t u n s) = transfers s"
  "disputes (decide_review i st t u n s) = disputes s" "audit (decide_review i st t u n s) = audit s"
  "appeals (decide_review i st t u n s) = appeals s"
  by (simp_all add: decide_review_def)

lemma find_decide_review:
  "find_review j (decide_review i st t u n s) = map_option
     (\<lambda>q. if r_id q = i then q\<lparr>r_state := st, r_reviewed_at := Some t, r_reviewed_by := Some u, r_notes := Some n\<rparr> else q)
     (find_review j s)"
  by (simp add: find_review_def decide_review_def find_update_where)

lemma freeze_reviews [simp]: "reviews (snd (freeze_subject E row u n s)) = reviews s"
  by (simp add: freeze_subject_def Let_def snd_and_then insert_dispute_def split: option.splits)

lemma find_freeze [simp]: "find_review j (snd (freeze_subject E row u n s)) = find_review j s"
  by (rule find_row_cong) simp

text \<open>A review that is no longer pending cannot be decided.\<close>

lemma decided_refused:
  assumes "find_review i s = Some row" "r_state row \<noteq> R_PENDING_REVIEW" "decision_ok notes" "has_role c [LAND_OFFICER, REGISTRAR]"
  shows "affirm_review E P i notes (Some c) s = (Inl (HTTPException 409), s)"
    and "dismiss_review E P i notes (Some c) s = (Inl (HTTPException 409), s)"
  using assms by (simp_all add: affirm_review_def affirm_handler_def dismiss_review_def dismiss_handler_def)

lemma affirm_handler_review:
  assumes "affirm_handler E P i notes c s = (Inr v, s')"
  shows "\<exists>row. find_review i s = Some row \<and> r_state row = R_PENDING_REVIEW \<and> decision_ok notes
    \<and> find_review i s' = Some (row\<lparr>r_state := R_HUMAN_AFFIRMED, r_reviewed_at := Some (e_now E 0),
         r_reviewed_by := Some (cx_id c), r_notes := Some notes\<rparr>)"
proof -
  obtain row where row: "find_review i s = Some row" and ok: "decision_ok notes" and st: "r_state row = R_PENDING_REVIEW"
    using assms by (auto simp: affirm_handler_def split: if_splits option.splits)
  let ?d = "decide_review i R_HUMAN_AFFIRMED (e_now E 0) (cx_id c) notes s"
  obtain fz s1 where f: "freeze_subject E row (cx_id c) notes ?d = (Inr fz, s1)"
    using assms row ok st by (auto simp: affirm_handler_def res_simps)
  have "find_review i s1 = find_review i ?d" using find_freeze [of i E row "cx_id c" "notes" ?d] by (simp add: f)
  then have "find_review i s1 = Some (row\<lparr>r_state := R_HUMAN_AFFIRMED, r_reviewed_at := Some (e_now E 0),
         r_reviewed_by := Some (cx_id c), r_notes := Some notes\<rparr>)"
    using find_review_id [OF row] row by (simp add: find_decide_review)
  then show ?thesis using assms row ok st f by (auto simp: affirm_handler_def Let_def)
qed

lemma dismiss_handler_review:
  assumes "dismiss_handler E P i notes c s = (Inr v, s')"
  shows "\<exists>row. find_review i s = Some row \<and> r_state row = R_PENDING_REVIEW \<and> decision_ok notes
    \<and> find_review i s' = Some (row\<lparr>r_state := R_HUMAN_DISMISSED, r_reviewed_at := Some (e_now E 0),
         r_reviewed_by := Some (cx_id c), r_notes := Some notes\<rparr>)
    \<and> registry s' = registry s"
proof -
  obtain row where row: "find_review i s = Some row" and ok: "decision_ok notes" and st: "r_state row = R_PENDING_REVIEW"
    using assms by (auto simp: dismiss_handler_def split: if_splits option.splits)
  then show ?thesis using assms find_review_id [OF row]
    by (auto simp: dismiss_handler_def Let_def find_decide_review registry_def)
qed

lemma freeze_parcels:
  "parcels (snd (freeze_subject E row u n s)) =
     (case (if r_action row = BLOCK \<and> r_type row = ''TRANSFER'' then find_transfer (r_subject row) s else None) of
        None \<Rightarrow> parcels s
      | Some t \<Rightarrow> parcels (mark_parcel (t_parcel t) UNIV P_FROZEN (e_now E 0) s))"
  by (simp add: freeze_subject_def Let_def snd_and_then insert_dispute_def split: option.splits)

text \<open>What affirming does to the parcels, whether it returns or raises.\<close>

lemma affirm_parcels:
  "parcels (snd (affirm_handler E P i notes c s)) = parcels s
   \<or> (\<exists>row t. find_review i s = Some row \<and> r_state row = R_PENDING_REVIEW \<and> r_action row = BLOCK
        \<and> r_type row = ''TRANSFER'' \<and> find_transfer (r_subject row) s = Some t
        \<and> parcels (snd (affirm_handler E P i notes c s)) = parcels (mark_parcel (t_parcel t) UNIV P_FROZEN (e_now E 0) s))"
proof (cases "find_review i s")
  case None
  then show ?thesis by (simp add: affirm_handler_def)
next
  case (Some row)
  let ?d = "decide_review i R_HUMAN_AFFIRMED (e_now E 0) (cx_id c) notes s"
  let ?f = "freeze_subject E row (cx_id c) notes ?d"
  show ?thesis
  proof (cases "decision_ok notes \<and> r_state row = R_PENDING_REVIEW")
    case False
    then show ?thesis using Some by (auto simp: affirm_handler_def)
  next
    case True
    then have p: "parcels (snd (affirm_handler E P i notes c s)) = parcels (snd ?f)"
      by (simp add: affirm_handler_def Some snd_and_then Let_def split: sum.splits option.splits)
    have t: "find_transfer k ?d = find_transfer k s" for k by (rule find_row_cong) simp
    have m: "parcels (mark_parcel k UNIV P_FROZEN z ?d) = parcels (mark_parcel k UNIV P_FROZEN z s)" for k z
      by (simp add: mark_parcel_def)
    show ?thesis using True Some
      by (auto simp: p freeze_parcels t m split: option.splits)
  qed
qed

section \<open>Properties\<close>

text \<open>
  C30. A review is decided once: after an affirmation or a dismissal that succeeded, which takes a
  pending review and a land officer, a registrar or an administrator, any further attempt to
  affirm or dismiss it answers 409 and changes nothing.
\<close>

theorem review_decided_once:
  assumes "affirm_review E P i n ctx s = (Inr v, s') \<or> dismiss_review E P i n ctx s = (Inr v, s')"
  shows "\<exists>c row. ctx = Some c \<and> has_role c [LAND_OFFICER, REGISTRAR]
    \<and> find_review i s = Some row \<and> r_state row = R_PENDING_REVIEW
    \<and> (\<forall>F c' m. has_role c' [LAND_OFFICER, REGISTRAR] \<and> decision_ok m \<longrightarrow>
          affirm_review F P i m (Some c') s' = (Inl (HTTPException 409), s')
          \<and> dismiss_review F P i m (Some c') s' = (Inl (HTTPException 409), s'))"
proof -
  obtain c where c: "ctx = Some c" "has_role c [LAND_OFFICER, REGISTRAR]"
    using assms affirm_route.success_has_role [of E P i n ctx s v s'] dismiss_route.success_has_role [of E P i n ctx s v s']
    by blast
  then have "affirm_handler E P i n c s = (Inr v, s') \<or> dismiss_handler E P i n c s = (Inr v, s')"
    using assms by (simp add: affirm_review_def dismiss_review_def)
  then obtain row row' where row: "find_review i s = Some row" "r_state row = R_PENDING_REVIEW"
    "find_review i s' = Some row'" "r_state row' \<noteq> R_PENDING_REVIEW"
    using affirm_handler_review [of E P i n c s v s'] dismiss_handler_review [of E P i n c s v s'] by auto
  show ?thesis
    by (intro exI [of _ c] exI [of _ row]) (use c row decided_refused [OF row(3,4)] in blast)
qed

definition demo_review :: review where
  "demo_review = \<lparr>r_id = ''rev-1'', r_type = ''TRANSFER'', r_subject = ''tr-1'', r_district = 3, r_risk = 85, r_action = BLOCK,
     r_signals = ''[]'', r_version = SCORER_VERSION, r_state = R_PENDING_REVIEW, r_created = 10, r_reviewed_at = None,
     r_reviewed_by = None, r_notes = None, r_escalated = None\<rparr>"

definition review_db :: db where
  "review_db = (demo_sale_db P_ACTIVE T_PENDING K_REJECTED)\<lparr>reviews := [demo_review]\<rparr>"

definition demo_text :: py_text where
  "demo_text = \<lparr>pt_float = (\<lambda>_. None), pt_int = (\<lambda>_. None)\<rparr>"

lemma review_db_finds:
  "find_review ''rev-1'' review_db = Some demo_review" "find_transfer ''tr-1'' review_db = Some (demo_transfer T_PENDING)"
  "disputes review_db = []" "reviews review_db = [demo_review]"
  by (simp_all add: review_db_def find_row_defs demo_review_def demo_sale_sel demo_transfer_def demo_sale_db_def demo_db_def empty_db_def)

lemma demo_reviewer [simp]: "has_role (demo_ctx REGISTRAR) [LAND_OFFICER, REGISTRAR]"
  by (simp add: demo_ctx_def demo_context_def has_role_def cx_role_def)

theorem review_decided_once_witness:
  "\<exists>v s'. dismiss_review demo_env demo_text ''rev-1'' ''false positive'' (Some (demo_ctx REGISTRAR)) review_db = (Inr v, s')
     \<and> affirm_review demo_env demo_text ''rev-1'' ''second thoughts'' (Some (demo_ctx REGISTRAR)) s' = (Inl (HTTPException 409), s')"
proof -
  have "json_loads ''[]'' = Inr (JList [])" by code_simp
  then have "\<exists>v s'. dismiss_review demo_env demo_text ''rev-1'' ''false positive'' (Some (demo_ctx REGISTRAR)) review_db = (Inr v, s')"
    by (simp add: dismiss_review_def dismiss_handler_def decision_ok_def review_db_finds demo_review_def Let_def
        find_decide_review row_to_review_def stored_signals_def coerce_signals_def json_items_def)
  then obtain v s' where v: "dismiss_review demo_env demo_text ''rev-1'' ''false positive'' (Some (demo_ctx REGISTRAR)) review_db = (Inr v, s')"
    by blast
  have "decision_ok ''second thoughts''" by (simp add: decision_ok_def)
  with review_decided_once [of demo_env demo_text "''rev-1''" "''false positive''" "Some (demo_ctx REGISTRAR)" review_db v s'] v
  show ?thesis by (metis demo_reviewer)
qed

text \<open>
  C35. An officer's own identifier is not on the owners' register, yet affirming a BLOCK files the
  dispute in the officer's name: the request then fails on the foreign key after the parcel is
  frozen and the review is closed, with no dispute filed and no event in the ledger.
\<close>

theorem affirm_block_fails_halfway:
  assumes "has_role c [LAND_OFFICER, REGISTRAR]" "decision_ok n" "find_review i s = Some row"
    and "r_state row = R_PENDING_REVIEW" "r_action row = BLOCK" "r_type row = ''TRANSFER''"
    and "find_transfer (r_subject row) s = Some t" "find_parcel (t_parcel t) s = Some p"
    and "find_owner (cx_id c) s = None" "\<forall>d\<in>set (disputes s). \<not> open_fraud_dispute (t_parcel t) d"
  shows "\<exists>s'. affirm_review E P i n (Some c) s = (Inl IntegrityError, s')
    \<and> find_parcel (t_parcel t) s' = Some (p\<lparr>p_status := P_FROZEN, p_updated := e_now E 0\<rparr>)
    \<and> map_option r_state (find_review i s') = Some R_HUMAN_AFFIRMED
    \<and> disputes s' = disputes s \<and> audit s' = audit s"
proof -
  let ?d = "decide_review i R_HUMAN_AFFIRMED (e_now E 0) (cx_id c) n s"
  let ?m = "mark_parcel (t_parcel t) UNIV P_FROZEN (e_now E 0) ?d"
  have td: "find_transfer k ?d = find_transfer k s" for k by (rule find_row_cong) simp
  have pd: "find_parcel k ?d = find_parcel k s" for k by (rule find_row_cong) simp
  have od: "find_owner k ?m = find_owner k s" for k by (rule find_row_cong) simp
  have ds: "find (open_fraud_dispute (t_parcel t)) (disputes s) = None" using assms(10) by (simp add: find_NoneD)
  have "freeze_subject E row (cx_id c) n ?d = (Inl IntegrityError, ?m)"
    using assms(5-7,9) by (simp add: freeze_subject_def td ds Let_def insert_dispute_def affirmed_dispute_def od)
  then have "affirm_review E P i n (Some c) s = (Inl IntegrityError, ?m)"
    using assms by (simp add: affirm_review_def affirm_handler_def)
  moreover have "find_review i ?m = find_review i ?d" by (rule find_row_cong) simp
  ultimately show ?thesis using assms(3,8)
    by (intro exI [of _ ?m]) (simp add: find_mark_parcel pd find_parcel_id find_decide_review find_review_id)
qed

theorem affirm_block_fails_halfway_witness:
  "\<exists>s'. affirm_review demo_env demo_text ''rev-1'' ''clear fraud'' (Some (demo_ctx REGISTRAR)) review_db = (Inl IntegrityError, s')
     \<and> map_option p_status (find_parcel ''UG-MIT-024718/2026'' s') = Some P_FROZEN \<and> audit s' = []"
proof -
  obtain p where p: "find_parcel (t_parcel (demo_transfer T_PENDING)) review_db = Some p"
    by (simp add: find_parcel_def review_db_def demo_sale_db_def demo_transfer_def)
  have o': "find_owner (cx_id (demo_ctx REGISTRAR)) review_db = None"
    by (simp add: find_owner_def review_db_def demo_sale_db_def demo_person_def demo_ctx_def demo_context_def cx_id_def lower_str_def
        lower_char_def)
  have a: "audit review_db = []" by (simp add: review_db_def demo_sale_db_def demo_db_def empty_db_def)
  from affirm_block_fails_halfway [OF demo_reviewer, of "''clear fraud''" "''rev-1''" review_db demo_review "demo_transfer T_PENDING" p demo_env demo_text]
  show ?thesis using p o' a
    by (auto simp: decision_ok_def review_db_finds demo_review_def demo_transfer_def)
qed

end
