(* ===== verification/Jobs.thy ===== *)
theory Jobs
  imports Reviews
begin

text \<open>
  The governance jobs: \<open>backend/app/jobs/escalation.py\<close>, \<open>backend/app/jobs/parity.py\<close> and the tick of
  \<open>backend/app/jobs/scheduler.py\<close>.

  The note of the escalation event has a character beyond the 8-bit strings of the model (a dash) and
  is the argument \<open>note\<close>.
\<close>

section \<open>escalation.py\<close>

definition ESCALATION_THRESHOLD_SECONDS :: real where
  "ESCALATION_THRESHOLD_SECONDS = 24 * 3600"

definition overdue :: "time \<Rightarrow> review \<Rightarrow> bool" where
  "overdue now q \<longleftrightarrow>
     r_state q = R_PENDING_REVIEW \<and> r_created q < now - ESCALATION_THRESHOLD_SECONDS \<and> r_escalated q = None"

definition stamp_escalated :: "string \<Rightarrow> time \<Rightarrow> db \<Rightarrow> db" where
  "stamp_escalated review_id now s =
     s\<lparr>reviews := update_where (\<lambda>q. r_id q = review_id) (\<lambda>q. q\<lparr>r_escalated := Some now\<rparr>) (reviews s)\<rparr>"

text \<open>The age is positive for an overdue review, so that \<open>int\<close> rounds down.\<close>

definition escalation_event :: "string \<Rightarrow> time \<Rightarrow> review \<Rightarrow> json" where
  "escalation_event note now q = JObj
     [(''review_id'', JStr (r_id q)), (''subject_type'', JStr (r_type q)), (''subject_id'', JStr (r_subject q)),
      (''risk_score'', JInt (r_risk q)), (''recommended_action'', JStr (action_str (r_action q))),
      (''scorer_version'', JStr (r_version q)), (''age_hours'', JInt \<lfloor>(now - r_created q) / 3600\<rfloor>),
      (''escalated_to'', JStr ''supervising_officer''), (''policy_note'', JStr note)]"

text \<open>The event of the i-th row takes the readings of index k + i.\<close>

fun escalate_rows :: "'g env \<Rightarrow> string \<Rightarrow> time \<Rightarrow> nat \<Rightarrow> review list \<Rightarrow> db \<Rightarrow> db" where
  "escalate_rows E note now k [] s = s"
| "escalate_rows E note now k (q # qs) s =
     escalate_rows E note now (Suc k) qs
       (emit E k ''FRAUD_REVIEW_ESCALATED'' (escalation_event note now q) (r_district q) ''system:escalation_job''
         (stamp_escalated (r_id q) now s))"

definition escalate_pending :: "'g env \<Rightarrow> string \<Rightarrow> time option \<Rightarrow> db \<Rightarrow> nat \<times> db" where
  "escalate_pending E note now s =
     (let now = (case now of None \<Rightarrow> e_now E 0 | Some t \<Rightarrow> t);
          rows = filter (overdue now) (reviews s)
      in if rows = [] then (0, s) else (length rows, escalate_rows E note now 1 rows s))"

section \<open>parity.py\<close>

definition transfer_scores :: "transfer \<Rightarrow> db \<Rightarrow> score_row list" where
  "transfer_scores t s = filter (\<lambda>f. fs_subject f = t_id t \<and> fs_type f = ''TRANSFER'') (fraud_scores s)"

text \<open>\<open>transfers LEFT JOIN fraud_scores\<close>: a transfer with several scores appears with each of them.\<close>

definition scored_transfers :: "db \<Rightarrow> (transfer \<times> score_row option) list" where
  "scored_transfers s =
     concat (map (\<lambda>t. if transfer_scores t s = [] then [(t, None)] else map (\<lambda>f. (t, Some f)) (transfer_scores t s)) (transfers s))"

definition alerted :: "score_row option \<Rightarrow> bool" where
  "alerted f \<longleftrightarrow> (case f of None \<Rightarrow> False | Some r \<Rightarrow> fs_action r \<in> {FLAG, BLOCK})"

type_synonym group_row = "json \<times> nat \<times> nat"

definition district_rows :: "db \<Rightarrow> group_row list" where
  "district_rows s =
     map (\<lambda>d. let rows = filter (\<lambda>(t, _). t_district t = d) (scored_transfers s)
              in (JInt d, length rows, length (filter (\<lambda>(_, f). alerted f) rows)))
       (sort (remdups (map t_district (transfers s))))"

text \<open>The inner join with the parcels: the tenure of the parcel of every row.\<close>

definition tenure_of :: "transfer \<Rightarrow> db \<Rightarrow> string list" where
  "tenure_of t s = map (\<lambda>p. tenure_str (p_tenure p)) (filter (\<lambda>p. p_id p = t_parcel t) (parcels s))"

definition tenure_rows :: "db \<Rightarrow> group_row list" where
  "tenure_rows s =
     (let joined = concat (map (\<lambda>(t, f). map (\<lambda>k. (k, f)) (tenure_of t s)) (scored_transfers s))
      in map (\<lambda>k. let rows = filter (\<lambda>(k', _). k' = k) joined
                  in (JStr k, length rows, length (filter (\<lambda>(_, f). alerted f) rows)))
           (sort (remdups (map fst joined))))"

text \<open>An aggregate without \<open>GROUP BY\<close> has one row, also over no transfers.\<close>

definition gender_rows :: "db \<Rightarrow> group_row list" where
  "gender_rows s =
     [(JStr ''unknown'', length (scored_transfers s), length (filter (\<lambda>(_, f). alerted f) (scored_transfers s)))]"

definition appeal_counts :: "db \<Rightarrow> (string \<times> json) list" where
  "appeal_counts s =
     map (\<lambda>st. (st, JInt (int (length (filter (\<lambda>a. appeal_state_str (ap_state a) = st) (appeals s))))))
       (sort (remdups (map (\<lambda>a. appeal_state_str (ap_state a)) (appeals s))))"

definition rate :: "nat \<Rightarrow> nat \<Rightarrow> real" where
  "rate total_rows flagged = (if total_rows = 0 then 0 else of_nat flagged / of_nat total_rows)"

record parity_slice =
  ps_key :: json
  ps_total :: nat
  ps_flagged :: nat
  ps_rate :: real
  ps_ratio :: real
  ps_exceeds :: bool

definition slice_of :: "real \<Rightarrow> group_row \<Rightarrow> parity_slice" where
  "slice_of global_mean row =
     (let (key, n, flagged) = row;
          rt = rate n flagged;
          ratio_to_mean = (if global_mean = 0 then 1 else rt / global_mean)
      in \<lparr>ps_key = key, ps_total = n, ps_flagged = flagged, ps_rate = py_round_to 4 rt, ps_ratio = py_round_to 3 ratio_to_mean,
          ps_exceeds = ratio_to_mean > 15 / 10\<rparr>)"

record parity_result =
  pr_generated :: time
  pr_mean :: real
  pr_districts :: "parity_slice list"
  pr_tenures :: "parity_slice list"
  pr_genders :: "parity_slice list"
  pr_appeals :: "(string \<times> json) list"
  pr_breaches :: "(string \<times> parity_slice) list"

definition slice_fields :: "'g env \<Rightarrow> parity_slice \<Rightarrow> (string \<times> json) list" where
  "slice_fields E x =
     [(''key'', ps_key x), (''total'', JInt (int (ps_total x))), (''flagged'', JInt (int (ps_flagged x))),
      (''flag_rate'', jreal E (ps_rate x)), (''ratio_to_mean'', jreal E (ps_ratio x)),
      (''exceeds_threshold'', JBool (ps_exceeds x))]"

definition parity_json :: "'g env \<Rightarrow> parity_result \<Rightarrow> json" where
  "parity_json E r = JObj
     [(''scorer_version'', JStr SCORER_VERSION), (''generated_at'', jreal E (pr_generated r)),
      (''global_flag_rate_mean'', jreal E (pr_mean r)),
      (''districts'', JList (map (\<lambda>x. JObj (slice_fields E x)) (pr_districts r))),
      (''tenures'', JList (map (\<lambda>x. JObj (slice_fields E x)) (pr_tenures r))),
      (''genders'', JList (map (\<lambda>x. JObj (slice_fields E x)) (pr_genders r))),
      (''appeals'', JObj (pr_appeals r))]"

definition district_mean :: "db \<Rightarrow> real" where
  "district_mean s =
     (let district_rates = map (\<lambda>(_, n, flagged). rate n flagged) (district_rows s)
      in if district_rates = [] then 0 else mean district_rates)"

definition parity_report :: "'g env \<Rightarrow> db \<Rightarrow> parity_result \<times> db" where
  "parity_report E s =
     (let global_mean = district_mean s;
          report = \<lparr>pr_generated = e_now E 0, pr_mean = py_round_to 4 global_mean,
                    pr_districts = map (slice_of global_mean) (district_rows s),
                    pr_tenures = map (slice_of global_mean) (tenure_rows s),
                    pr_genders = map (slice_of global_mean) (gender_rows s),
                    pr_appeals = appeal_counts s, pr_breaches = []\<rparr>
      in (report, emit E 1 ''FRAUD_PARITY_AUDIT'' (parity_json E report) 0 ''system:parity_auditor'' s))"

text \<open>The sign after 1.5 is U+00D7, the one before 5 is U+00A7.\<close>

definition parity_note :: string where
  "parity_note = ''One or more groups exceed 1.5'' @ [CHR 0xD7] @ '' the mean flag rate. Per AI Ethics Charter '' @ [CHR 0xA7]
     @ ''5 the steering committee reviews and may zero the implicated rule's weight pending root-cause analysis. This is a governance decision, not automated.''"

definition breaches_of :: "parity_result \<Rightarrow> (string \<times> parity_slice) list" where
  "breaches_of r =
     map (\<lambda>x. (''districts'', x)) (filter ps_exceeds (pr_districts r))
     @ map (\<lambda>x. (''tenures'', x)) (filter ps_exceeds (pr_tenures r))
     @ map (\<lambda>x. (''genders'', x)) (filter ps_exceeds (pr_genders r))"

definition breach_event :: "'g env \<Rightarrow> parity_result \<Rightarrow> json" where
  "breach_event E r = JObj
     [(''breaches'', JList (map (\<lambda>(g, x). JObj ((''group'', JStr g) # slice_fields E x)) (pr_breaches r))),
      (''global_flag_rate_mean'', jreal E (pr_mean r)), (''policy_note'', JStr parity_note)]"

definition run_parity_audit :: "'g env \<Rightarrow> db \<Rightarrow> parity_result \<times> db" where
  "run_parity_audit E s =
     (let (report, s1) = parity_report E s;
          breaches = breaches_of report;
          report = report\<lparr>pr_breaches := breaches\<rparr>
      in if breaches = [] then (report, s1)
         else (report,
               emit E 2 ''FRAUD_PARITY_BREACH'' (breach_event E report) 0 ''system:parity_auditor'' s1))"

section \<open>scheduler.py\<close>

definition TICK_SECONDS :: real where
  "TICK_SECONDS = 300"

definition LEADER_LOCK_KEY :: string where
  "LEADER_LOCK_KEY = ''scheduler:leader''"

definition PARITY_INTERVAL_SECONDS :: real where
  "PARITY_INTERVAL_SECONDS = 30 * 86400"

text \<open>The lock is held for \<open>int(TICK_SECONDS) - 30\<close> seconds.\<close>

definition is_leader :: "'c setnx \<Rightarrow> 'c \<Rightarrow> bool \<times> 'c" where
  "is_leader setnx c = setnx LEADER_LOCK_KEY ''1'' (TICK_SECONDS - 30) c"

text \<open>
  The state of a replica is its \<open>_last_parity\<close>.  E1 gives the readings of the escalation, E2 those of
  the parity audit, its reading 0 the clock before it.
\<close>

definition run_tick :: "'g env \<Rightarrow> 'g env \<Rightarrow> string \<Rightarrow> time \<times> db \<Rightarrow> time \<times> db" where
  "run_tick E1 E2 note st =
     (let (last_parity, s) = st;
          s1 = snd (escalate_pending E1 note None s);
          now = e_now E2 0
      in if now - last_parity \<ge> PARITY_INTERVAL_SECONDS
         then (now, snd (run_parity_audit (shift_env 1 E2) s1))
         else (last_parity, s1))"

definition scheduler_turn ::
  "'g env \<Rightarrow> 'g env \<Rightarrow> string \<Rightarrow> 'c setnx \<Rightarrow> 'c \<times> time \<times> db \<Rightarrow> 'c \<times> time \<times> db" where
  "scheduler_turn E1 E2 note setnx st =
     (let (c, rep) = st; (leader, c1) = is_leader setnx c
      in if leader then (c1, run_tick E1 E2 note rep) else (c1, rep))"

section \<open>The contract of the locks\<close>

text \<open>
  What \<open>cache_setnx\<close> promises its callers: once it has answered True for a key it answers False for
  the same key, and keeps its state, until the time to live has run out.
\<close>

locale exclusive_lock =
  fixes acquire :: "time \<Rightarrow> 'c setnx"
  assumes held: "acquire t k v ttl c = (True, c') \<Longrightarrow> t' \<le> t + ttl \<Longrightarrow> acquire t' k v' ttl' c' = (False, c')"
begin

lemma second_replica_idle:
  assumes "is_leader (acquire t) c = (True, c')" "t' \<le> t + (TICK_SECONDS - 30)"
  shows "scheduler_turn E1 E2 note (acquire t') (c', rep) = (c', rep)"
  using held [OF assms(1) [unfolded is_leader_def] assms(2)] by (simp add: scheduler_turn_def is_leader_def)

lemma duplicate_ignored:
  assumes "acquire t (''fraud:scoring:lock:'' @ k) ''1'' 300 c = (True, c')" "t' \<le> t + 300"
    and "map_of m ''subject_type'' = Some ty" "map_of m ''subject_id'' = Some i" "k = ty @ '':'' @ i"
  shows "score_once E (acquire t') m (c', s) = (Inr (), c', s)"
  using held [OF assms(1,2)] assms(3-5) by (simp add: score_once_def Let_def)

end

interpretation cache_lock: exclusive_lock cache_setnx
  by unfold_locales (auto simp: cache_setnx_def split: option.splits prod.splits if_splits)

section \<open>Lemmas\<close>

lemma registry_stamp [simp]: "registry (stamp_escalated i now s) = registry s"
  by (simp add: stamp_escalated_def)

lemma escalate_rows_registry [simp]: "registry (escalate_rows E note now k qs s) = registry s"
  by (induction E "note" now k qs s rule: escalate_rows.induct) simp_all

lemma escalate_rows_reviews:
  "reviews (escalate_rows E note now k qs s)
     = update_where (\<lambda>q. r_id q \<in> r_id ` set qs) (\<lambda>q. q\<lparr>r_escalated := Some now\<rparr>) (reviews s)"
proof (induction E "note" now k qs s rule: escalate_rows.induct)
  case (1 E nt now k s)
  then show ?case by (simp add: update_where_none)
next
  case (2 E nt now k q qs s)
  then show ?case by (auto simp: stamp_escalated_def update_where_def)
qed

lemma escalate_pending_reviews:
  "reviews (snd (escalate_pending E note (Some now) s))
     = update_where (\<lambda>q. r_id q \<in> r_id ` set (filter (overdue now) (reviews s))) (\<lambda>q. q\<lparr>r_escalated := Some now\<rparr>) (reviews s)"
  by (simp add: escalate_pending_def Let_def escalate_rows_reviews update_where_none del: set_filter)

lemma escalate_again: "filter (overdue now) (reviews (snd (escalate_pending E note (Some now) s))) = []"
proof -
  have "\<not> overdue now q" if q: "q \<in> set (reviews (snd (escalate_pending E note (Some now) s)))" for q
  proof -
    obtain p where p: "p \<in> set (reviews s)"
      "q = (if r_id p \<in> r_id ` set (filter (overdue now) (reviews s)) then p\<lparr>r_escalated := Some now\<rparr> else p)"
      using q unfolding escalate_pending_reviews set_update_where by blast
    then show ?thesis by (auto simp: overdue_def split: if_splits)
  qed
  then show ?thesis by (simp add: filter_empty_conv)
qed

text \<open>The rows whose alert rate exceeds one and a half times the mean of the districts.\<close>

definition disparate :: "db \<Rightarrow> group_row \<Rightarrow> bool" where
  "disparate s row \<longleftrightarrow> (let (_, n, flagged) = row
     in district_mean s \<noteq> 0 \<and> rate n flagged / district_mean s > 15 / 10)"

lemma slice_exceeds: "ps_exceeds (slice_of (district_mean s) row) = disparate s row"
  by (cases row) (simp add: slice_of_def disparate_def Let_def)

lemma breaches_none:
  "breaches_of (fst (parity_report E s)) = [] \<longleftrightarrow>
     filter (disparate s) (district_rows s @ tenure_rows s @ gender_rows s) = []"
  by (simp add: breaches_of_def parity_report_def Let_def filter_map comp_def slice_exceeds)

section \<open>Properties\<close>

text \<open>
  The escalation job stamps exactly the reviews that have waited for more than 24 hours, reports
  their number, changes nothing else of any review, no owner, parcel, title, transfer, dispute or
  appeal, and a second run at the same time finds nothing to do.
\<close>

lemma escalation_only_stamps:
  "let (n, s') = escalate_pending E note (Some now) s
   in n = length (filter (overdue now) (reviews s)) \<and> registry s' = registry s
      \<and> reviews s' = update_where (\<lambda>q. r_id q \<in> r_id ` set (filter (overdue now) (reviews s)))
                       (\<lambda>q. q\<lparr>r_escalated := Some now\<rparr>) (reviews s)
      \<and> escalate_pending F note' (Some now) s' = (0, s')"
proof -
  obtain n s' where e: "escalate_pending E note (Some now) s = (n, s')" by force
  have r: "reviews s' = update_where (\<lambda>q. r_id q \<in> r_id ` set (filter (overdue now) (reviews s)))
                       (\<lambda>q. q\<lparr>r_escalated := Some now\<rparr>) (reviews s)"
    using escalate_pending_reviews [of E "note" now s] by (simp add: e)
  have "filter (overdue now) (reviews s') = []" using escalate_again [of now E "note" s] by (simp add: e)
  then have "escalate_pending F note' (Some now) s' = (0, s')" by (simp add: escalate_pending_def Let_def)
  moreover have "n = length (filter (overdue now) (reviews s)) \<and> registry s' = registry s"
    using e by (auto simp: escalate_pending_def Let_def split: if_splits)
  ultimately show ?thesis using r by (simp add: e)
qed

text \<open>
  The parity audit changes no record it reports on.  It writes its report to the ledger, and a
  second, alerting event exactly when some district, tenure or gender group has an alert rate
  above one and a half times the mean of the districts.
\<close>

lemma parity_audit_alerts:
  "let (r, s') = run_parity_audit E s
   in registry s' = registry s \<and> fraud_scores s' = fraud_scores s
      \<and> (pr_breaches r = [] \<longleftrightarrow> filter (disparate s) (district_rows s @ tenure_rows s @ gender_rows s) = [])
      \<and> (let s1 = emit E 1 ''FRAUD_PARITY_AUDIT'' (parity_json E r) 0 ''system:parity_auditor'' s
         in s' = (if pr_breaches r = [] then s1
                  else emit E 2 ''FRAUD_PARITY_BREACH'' (breach_event E r) 0 ''system:parity_auditor'' s1))"
proof -
  obtain r s1 where r: "parity_report E s = (r, s1)" by force
  have b: "breaches_of r = [] \<longleftrightarrow> filter (disparate s) (district_rows s @ tenure_rows s @ gender_rows s) = []"
    using breaches_none [of E s] by (simp add: r)
  have "s1 = emit E 1 ''FRAUD_PARITY_AUDIT'' (parity_json E r) 0 ''system:parity_auditor'' s"
    using r by (auto simp: parity_report_def Let_def)
  moreover have "parity_json E (r\<lparr>pr_breaches := x\<rparr>) = parity_json E r" for x by (simp add: parity_json_def)
  ultimately show ?thesis using b by (simp add: run_parity_audit_def r Let_def)
qed

text \<open>
  Of two replicas that share the lock, the one that comes within the 270 seconds of the other's
  leadership runs no job: neither the tables nor its own clock of the parity audit change.
\<close>

lemma scheduler_single_leader:
  assumes "is_leader (cache_setnx t) c = (True, c')" and "t' \<le> t + 270"
  shows "scheduler_turn E1 E2 note (cache_setnx t') (c', rep) = (c', rep)"
  using assms by (intro cache_lock.second_replica_idle [OF assms(1)]) (simp add: TICK_SECONDS_def)

lemma scheduler_single_leader_witness:
  "\<exists>c'. is_leader (cache_setnx 1000) Map.empty = (True, c')
     \<and> scheduler_turn demo_env demo_env ''note'' (cache_setnx 1200) (c', 0, demo_db) = (c', 0, demo_db)"
proof -
  obtain c' where c: "is_leader (cache_setnx 1000) Map.empty = (True, c')"
    by (simp add: is_leader_def cache_setnx_def)
  from scheduler_single_leader [OF this, of 1200] c show ?thesis by auto
qed

end
