(* ===== verification/Nira.thy ===== *)
theory Nira
  imports Auth
begin

text \<open>
  Identity checks against NIRA: the result classes and the client protocol of
  \<open>backend/app/nira/client.py\<close>, the deterministic client of \<open>mock_client.py\<close>, the two-level cache
  behind a breaker of \<open>cache.py\<close>, and the route of \<open>backend/app/routers/nira.py\<close>.

  The client is a parameter of the cache (the live one is HTTP); it returns a result or raises.
\<close>

section \<open>client.py\<close>

record demographics =
  dm_name :: string
  dm_dob :: string
  dm_gender :: string
  dm_district :: "string option"
  dm_nationality :: string

record nira_result =
  nr_valid :: bool
  nr_matched :: bool
  nr_demographics :: "demographics option"
  nr_reason :: "string option"
  nr_source :: string

record biometric_match =
  bm_matched :: bool
  bm_confidence :: real
  bm_template_hash :: string

definition demographics_dict :: "demographics \<Rightarrow> json" where
  "demographics_dict d =
     JObj [(''full_name'', JStr (dm_name d)), (''dob'', JStr (dm_dob d)), (''gender'', JStr (dm_gender d)),
           (''district_of_birth'', jopt JStr (dm_district d)), (''nationality'', JStr (dm_nationality d))]"

definition nira_dict :: "nira_result \<Rightarrow> (string \<times> json) list" where
  "nira_dict r =
     [(''nin_valid'', JBool (nr_valid r)), (''matched'', JBool (nr_matched r)),
      (''demographics'', jopt demographics_dict (nr_demographics r)),
      (''reason'', jopt JStr (nr_reason r)), (''source'', JStr (nr_source r))]"

type_synonym nira_client = "string \<Rightarrow> nira_result res"

section \<open>mock_client.py\<close>

definition person :: "string \<Rightarrow> string \<Rightarrow> string \<Rightarrow> string \<Rightarrow> demographics" where
  "person n d g b =
     \<lparr>dm_name = n, dm_dob = d, dm_gender = g, dm_district = Some b, dm_nationality = ''UG''\<rparr>"

definition SEEDED :: "string \<Rightarrow> demographics option option" where
  "SEEDED nin = map_of
     [(''CM82010110A4P0'', Some (person ''Sarah Nakato'' ''1982-01-01'' ''F'' ''Mityana'')),
      (''CM85030212B7Q1'', Some (person ''Joseph Okello'' ''1985-03-02'' ''M'' ''Gulu'')),
      (''CM91070514C9R2'', Some (person ''Aisha Namatovu'' ''1991-07-05'' ''F'' ''Wakiso'')),
      (''CM88110316D2S3'', Some (person ''Esther Auma'' ''1988-11-03'' ''F'' ''Kampala'')),
      (''CM82010110A4P9'', None)] nin"

definition hash_prefix :: "(bytes \<Rightarrow> bytes) \<Rightarrow> string \<Rightarrow> string" where
  "hash_prefix sha nin = take 8 (sha256_hex sha nin)"

text \<open>\<open>int(text, 16)\<close> of a hexadecimal digest.\<close>

definition hex_int :: "string \<Rightarrow> nat" where
  "hex_int s = foldl (\<lambda>a c. 16 * a + (case hexval c of Some v \<Rightarrow> v | None \<Rightarrow> 0)) 0 s"

definition nira_answer :: "bool \<Rightarrow> demographics option \<Rightarrow> string option \<Rightarrow> nira_result" where
  "nira_answer valid demo reason =
     \<lparr>nr_valid = valid, nr_matched = (demo \<noteq> None), nr_demographics = demo, nr_reason = reason, nr_source = ''MOCK''\<rparr>"

definition mock_verify_nin :: "(bytes \<Rightarrow> bytes) \<Rightarrow> nira_client" where
  "mock_verify_nin sha nin =
     (if \<not> validate_nin nin then Inr (nira_answer False None (Some ''format_invalid''))
      else case SEEDED nin of
        Some None \<Rightarrow> Inr (nira_answer True None (Some ''nin_not_in_register''))
      | Some (Some demo) \<Rightarrow> Inr (nira_answer True (Some demo) None)
      | None \<Rightarrow>
          (let digest = hash_prefix sha nin
           in if prefix ''0'' digest \<or> prefix ''1'' digest
              then Inr (nira_answer True None (Some ''nin_not_in_register''))
              else
                (let gender = (if hex_int (take 1 digest) mod 2 = 0 then ''F'' else ''M'');
                     year = 1970 + hex_int (take 2 (drop 1 digest)) mod 40
                 in Inr (nira_answer True
                      (Some \<lparr>dm_name = ''Demo Citizen '' @ upper_str digest,
                             dm_dob = nat_str year @ ''-06-15'', dm_gender = gender,
                             dm_district = Some ''Wakiso'', dm_nationality = ''UG''\<rparr>) None))))"

definition mock_fetch_demographics :: "(bytes \<Rightarrow> bytes) \<Rightarrow> string \<Rightarrow> demographics option res" where
  "mock_fetch_demographics sha nin = res_bind (mock_verify_nin sha nin) (\<lambda>r. Inr (nr_demographics r))"

definition mock_biometric_match :: "(bytes \<Rightarrow> bytes) \<Rightarrow> string \<Rightarrow> bytes \<Rightarrow> biometric_match" where
  "mock_biometric_match sha nin template =
     (if template = [] then \<lparr>bm_matched = False, bm_confidence = 0, bm_template_hash = []\<rparr>
      else
        (let nin_digest = hash_prefix sha nin; tpl_digest = take 8 (hex_str (sha template));
             m = (take 4 nin_digest = take 4 tpl_digest)
         in \<lparr>bm_matched = m, bm_confidence = (if m then 92 / 100 else 31 / 100),
             bm_template_hash = hex_str (sha template)\<rparr>))"

section \<open>cache.py\<close>

record nira_state =
  n_db :: db
  n_breaker :: breaker
  n_cache :: cache

definition NIRA_BREAKER :: breaker where
  "NIRA_BREAKER = new_breaker 3 20 600"

definition nira_redis_key :: "string \<Rightarrow> string" where
  "nira_redis_key nin_hash = ''nira:nin:'' @ nin_hash"

definition as_dict :: "json \<Rightarrow> (string \<times> json) list res" where
  "as_dict j = (case j of JObj kvs \<Rightarrow> Inr kvs | _ \<Rightarrow> Inl TypeError)"

definition read_warm :: "'g env \<Rightarrow> time \<Rightarrow> string \<Rightarrow> db \<Rightarrow> ((string \<times> json) list option \<times> bool) res" where
  "read_warm E now nin_hash s =
     (case find (\<lambda>r. nv_hash r = nin_hash) (nira s) of
        None \<Rightarrow> Inr (None, False)
      | Some r \<Rightarrow>
          res_bind (json_loads (nv_result r)) (\<lambda>j.
          res_bind (as_dict j) (\<lambda>payload.
            Inr (Some (dict_put ''_verified_at'' (jreal E (nv_verified r))
                        (dict_put ''_source_cache'' (JStr (nv_source r)) payload)),
                 now > nv_expires r))))"

text \<open>\<open>INSERT OR REPLACE\<close>: an old row with the key is removed first.\<close>

definition write_warm :: "time \<Rightarrow> string \<Rightarrow> nira_result \<Rightarrow> int \<Rightarrow> db \<Rightarrow> db" where
  "write_warm now nin_hash r ttl s =
     s\<lparr>nira := filter (\<lambda>x. nv_hash x \<noteq> nin_hash) (nira s)
        @ [\<lparr>nv_hash = nin_hash, nv_verified = now, nv_expires = now + of_int ttl,
            nv_result = dumps_plain (JObj (nira_dict r)), nv_source = nr_source r\<rparr>]\<rparr>"

text \<open>\<open>{**d, k: v, ...}\<close>.\<close>

definition dict_with :: "(string \<times> json) list \<Rightarrow> (string \<times> json) list \<Rightarrow> (string \<times> json) list" where
  "dict_with d kvs = foldl (\<lambda>a (k, v). dict_put k v a) d kvs"

text \<open>The answer when the live call failed; \<open>err\<close> is the exception, None for an open breaker.\<close>

definition warm_fallback ::
  "'g env \<Rightarrow> string \<Rightarrow> exc option \<Rightarrow> db \<Rightarrow> (string \<times> json) list res" where
  "warm_fallback E nin_hash err s =
     res_bind (read_warm E (e_now E 3) nin_hash s) (\<lambda>(warm, _).
       case (err, warm) of
         (None, Some w) \<Rightarrow> Inr (dict_with w [(''stale'', JBool True), (''cache'', JStr ''warm-breaker-open'')])
       | (None, None) \<Rightarrow>
           Inr [(''nin_valid'', JBool False), (''matched'', JBool False), (''demographics'', JNull),
                (''reason'', JStr ''nira_unavailable''), (''stale'', JBool True), (''cache'', JStr ''miss-breaker-open'')]
       | (Some e, Some w) \<Rightarrow>
           Inr (dict_with w [(''stale'', JBool True), (''cache'', JStr ''warm-error''), (''error'', JStr (e_exc E e))])
       | (Some e, None) \<Rightarrow> Inl e)"

definition verify_nin_cached ::
  "'g env \<Rightarrow> settings \<Rightarrow> nira_client \<Rightarrow> string \<Rightarrow> nira_state \<Rightarrow> ((string \<times> json) list, nira_state) outcome" where
  "verify_nin_cached E st client nin s =
     (let nin_hash = sha256_hex (e_sha E) nin;
          (hit, c1) = cache_get (e_now E 0) (nira_redis_key nin_hash) (n_cache s);
          s1 = s\<lparr>n_cache := c1\<rparr>
      in if hit \<noteq> None \<and> hit \<noteq> Some [] then
           (res_bind (json_loads (the hit)) (\<lambda>j. res_bind (as_dict j) (\<lambda>d.
              Inr (dict_with d [(''stale'', JBool False), (''cache'', JStr ''hot'')]))), s1)
         else
           (case breaker_call (e_now E 1) (e_now E 2) (\<lambda>u. (client nin, u)) (n_breaker s1) () of
              (Inl e, b, _) \<Rightarrow>
                (warm_fallback E nin_hash (if e = CircuitOpenError then None else Some e) (n_db s1), s1\<lparr>n_breaker := b\<rparr>)
            | (Inr r, b, _) \<Rightarrow>
                (let payload = nira_dict r
                 in (Inr (dict_with payload [(''stale'', JBool False), (''cache'', JStr ''miss'')]),
                     s1\<lparr>n_breaker := b,
                        n_db := write_warm (e_now E 4) nin_hash r (nira_cache_ttl_seconds st) (n_db s1),
                        n_cache := cache_set (e_now E 5) (nira_redis_key nin_hash) (dumps_plain (JObj payload))
                                     (of_int (nira_cache_ttl_seconds st)) c1\<rparr>))))"

text \<open>\<open>result.get(k)\<close> read as a truth value.\<close>

definition dict_truth :: "string \<Rightarrow> (string \<times> json) list \<Rightarrow> bool" where
  "dict_truth k d = (case json_get k d of Some j \<Rightarrow> truthy j | None \<Rightarrow> False)"

definition n_emit :: "'g env \<Rightarrow> nat \<Rightarrow> string \<Rightarrow> json \<Rightarrow> int \<Rightarrow> string \<Rightarrow> nira_state \<Rightarrow> nira_state" where
  "n_emit E k event_type payload district_id actor s =
     s\<lparr>n_db := emit E k event_type payload district_id actor (n_db s)\<rparr>"

section \<open>The route\<close>

definition verify_nin_endpoint ::
  "'g env \<Rightarrow> settings \<Rightarrow> nira_client \<Rightarrow> string \<Rightarrow> auth_context option \<Rightarrow> nira_state
   \<Rightarrow> ((string \<times> json) list, nira_state) outcome" where
  "verify_nin_endpoint E st client nin ctx = guarded_by [LAND_OFFICER, REGISTRAR] ctx (\<lambda>c s.
     if \<not> (length nin = 14 \<and> validate_nin nin) then (Inl (HTTPException 422), s)
     else and_then (verify_nin_cached E st client nin s) (\<lambda>result s1.
       (Inr result,
        n_emit E 6 ''NIRA_VERIFY''
          (JObj [(''nin_hash'', JStr (sha256_hex (e_sha E) nin)),
                 (''matched'', JBool (dict_truth ''matched'' result)),
                 (''stale'', JBool (dict_truth ''stale'' result))])
          (cx_district c) (cx_id c) s1)))"

interpretation nira_route: role_route "[LAND_OFFICER, REGISTRAR]" "verify_nin_endpoint E st client nin" for E st client nin
  by unfold_locales (simp_all add: verify_nin_endpoint_def)

section \<open>Lemmas\<close>

lemma dict_put_get [simp]: "json_get k (dict_put k' v d) = (if k = k' then Some v else json_get k d)"
  by (induction d) (auto simp: json_get_def)

lemma dict_with_get:
  "json_get k (dict_with d kvs) = (case map_of (rev kvs) k of Some v \<Rightarrow> Some v | None \<Rightarrow> json_get k d)"
proof (induction kvs rule: rev_induct)
  case Nil
  then show ?case by (simp add: dict_with_def)
next
  case (snoc p kvs)
  then show ?case by (cases p) (simp add: dict_with_def)
qed

lemma nira_dict_get [simp]:
  "json_get ''matched'' (nira_dict r) = Some (JBool (nr_matched r))"
  "json_get ''nin_valid'' (nira_dict r) = Some (JBool (nr_valid r))"
  by (simp_all add: nira_dict_def json_get_def)

lemma dict_truth_matched [simp]:
  "dict_truth ''matched'' (dict_with (nira_dict r) [(''stale'', b), (''cache'', c)]) = nr_matched r"
  by (simp add: dict_truth_def dict_with_get truthy_def)

text \<open>Only the breaker, the cache and the table of NIRA answers change.\<close>

lemma verify_nin_cached_db:
  assumes "verify_nin_cached E st client nin s = (r, s')"
  shows "\<exists>x. n_db s' = (n_db s)\<lparr>nira := x\<rparr>"
proof -
  have same: "\<exists>x. d = d\<lparr>nira := x\<rparr>" for d :: db by (rule exI [of _ "nira d"]) simp
  have "n_db s' = n_db s \<or> (\<exists>b. n_db s' = write_warm (e_now E 4) (sha256_hex (e_sha E) nin) b
      (nira_cache_ttl_seconds st) (n_db s))"
    using assms by (auto simp: verify_nin_cached_def Let_def split: prod.splits if_splits sum.splits)
  then show ?thesis by (auto simp: write_warm_def intro: same)
qed

end
