(* ===== verification/Owners.thy ===== *)
theory Owners
  imports Nira
begin

text \<open>
  Citizens: the request models of \<open>backend/app/models/owners.py\<close> and the router
  \<open>backend/app/routers/owners.py\<close> (registration, KYC, lookup).  The redacted NIN contains the
  bullet U+2022, so it is a list of code points.
\<close>

section \<open>Requests and views\<close>

record owner_request =
  oq_nin :: string
  oq_name :: string
  oq_dob :: "string option"
  oq_phone :: "string option"

text \<open>The patterns of pydantic match the whole text.\<close>

definition dob_ok :: "string \<Rightarrow> bool" where
  "dob_ok s = re_match (replicate 4 is_digit @ [(=) CHR ''-''] @ replicate 2 is_digit @ [(=) CHR ''-''] @ replicate 2 is_digit) s"

definition nin_ok :: "string \<Rightarrow> bool" where
  "nin_ok nin \<longleftrightarrow> length nin = 14 \<and> validate_nin nin"

definition owner_request_ok :: "owner_request \<Rightarrow> bool" where
  "owner_request_ok q \<longleftrightarrow>
     nin_ok (oq_nin q) \<and> 2 \<le> length (oq_name q) \<and> length (oq_name q) \<le> 128
     \<and> ref_ok dob_ok (oq_dob q) \<and> ref_ok (\<lambda>p. 9 \<le> length p \<and> length p \<le> 16) (oq_phone q)"

type_synonym code_points = "nat list"

definition code_points :: "string \<Rightarrow> code_points" where
  "code_points s = map of_char s"

text \<open>\<open>s[-4:]\<close>.\<close>

definition last4 :: "string \<Rightarrow> string" where
  "last4 s = drop (length s - 4) s"

definition redact :: "string \<Rightarrow> code_points" where
  "redact nin = replicate 10 8226 @ code_points (last4 nin)"

text \<open>\<open>f"\<bullet>\<bullet>\<bullet>\<bullet> \<bullet>\<bullet>\<bullet>\<bullet>  {row[1][-4:]}"\<close>.\<close>

definition redact_hash :: "string \<Rightarrow> code_points" where
  "redact_hash h = replicate 4 8226 @ [32] @ replicate 4 8226 @ [32, 32] @ code_points (last4 h)"

record owner_view =
  ov_id :: string
  ov_redacted :: code_points
  ov_name :: string
  ov_dob :: "string option"
  ov_phone :: "string option"
  ov_kyc :: kyc_status
  ov_kyc_at :: "time option"
  ov_created :: time
  ov_updated :: time

definition owner_view_of :: "owner \<Rightarrow> owner_view" where
  "owner_view_of r =
     \<lparr>ov_id = o_id r, ov_redacted = redact_hash (o_nin_hash r), ov_name = o_name r, ov_dob = o_dob r,
      ov_phone = o_phone r, ov_kyc = o_kyc r, ov_kyc_at = o_kyc_at r, ov_created = o_created r,
      ov_updated = o_updated r\<rparr>"

section \<open>The router\<close>

definition new_owner :: "'g env \<Rightarrow> owner_request \<Rightarrow> owner" where
  "new_owner E q =
     \<lparr>o_id = e_uuid E 0, o_nin_hash = sha256_hex (e_sha E) (oq_nin q), o_nin_encrypted = e_encrypt E (oq_nin q),
      o_name = oq_name q, o_dob = oq_dob q, o_phone = oq_phone q, o_kyc = K_PENDING, o_kyc_at = None,
      o_created = e_now E 0, o_updated = e_now E 0\<rparr>"

definition create_owner_handler :: "'g env \<Rightarrow> owner_request \<Rightarrow> auth_context \<Rightarrow> db \<Rightarrow> (owner_view, db) outcome" where
  "create_owner_handler E q ctx s =
     (if \<not> owner_request_ok q then (Inl (HTTPException 422), s)
      else
        (let nin_hash = sha256_hex (e_sha E) (oq_nin q)
         in if find (\<lambda>r. o_nin_hash r = nin_hash) (owners s) \<noteq> None then (Inl (HTTPException 409), s)
            else and_then (insert_owner (new_owner E q) s) (\<lambda>_ s1.
              (Inr \<lparr>ov_id = e_uuid E 0, ov_redacted = redact (oq_nin q), ov_name = oq_name q, ov_dob = oq_dob q,
                    ov_phone = oq_phone q, ov_kyc = K_PENDING, ov_kyc_at = None, ov_created = e_now E 0,
                    ov_updated = e_now E 0\<rparr>,
               emit E 1 ''OWNER_REGISTERED''
                 (JObj [(''owner_id'', JStr (e_uuid E 0)), (''nin_hash'', JStr nin_hash), (''full_name'', JStr (oq_name q))])
                 (cx_district ctx) (cx_id ctx) s1))))"

definition create_owner ::
  "'g env \<Rightarrow> owner_request \<Rightarrow> auth_context option \<Rightarrow> db \<Rightarrow> (owner_view, db) outcome" where
  "create_owner E q ctx = guarded_by [LAND_OFFICER, REGISTRAR] ctx (create_owner_handler E q)"

definition get_owner :: "string \<Rightarrow> auth_context option \<Rightarrow> db \<Rightarrow> (owner_view, db) outcome" where
  "get_owner owner_id ctx = guarded_by ALL_ROLES ctx (\<lambda>_ s.
     case find_owner owner_id s of
       None \<Rightarrow> (Inl (HTTPException 404), s)
     | Some r \<Rightarrow> (Inr (owner_view_of r), s))"

definition get_owner_by_hash :: "string \<Rightarrow> auth_context option \<Rightarrow> db \<Rightarrow> (owner_view, db) outcome" where
  "get_owner_by_hash nin_hash ctx = guarded_by [LAND_OFFICER, REGISTRAR] ctx (\<lambda>_ s.
     case find (\<lambda>r. o_nin_hash r = nin_hash) (owners s) of
       None \<Rightarrow> (Inl (HTTPException 404), s)
     | Some r \<Rightarrow> (Inr (owner_view_of r), s))"

text \<open>
  \<open>kyc_verify\<close>.  The clock readings 0 to 5 are those of \<open>verify_nin_cached\<close>, 6 is the one of the
  handler and 7 the one of the audit event.
\<close>

definition set_kyc :: "string \<Rightarrow> kyc_status \<Rightarrow> time \<Rightarrow> db \<Rightarrow> db" where
  "set_kyc owner_id status now s =
     s\<lparr>owners := update_where (\<lambda>r. o_id r = owner_id)
        (\<lambda>r. r\<lparr>o_kyc := status, o_kyc_at := (if status = K_VERIFIED then Some now else None), o_updated := now\<rparr>)
        (owners s)\<rparr>"

record kyc_answer =
  ka_owner :: string
  ka_status :: kyc_status
  ka_result :: "(string \<times> json) list"

definition kyc_verify_handler ::
  "'g env \<Rightarrow> settings \<Rightarrow> nira_client \<Rightarrow> string \<Rightarrow> string \<Rightarrow> auth_context \<Rightarrow> nira_state
   \<Rightarrow> (kyc_answer, nira_state) outcome" where
  "kyc_verify_handler E st client owner_id nin ctx s =
     (if \<not> nin_ok nin then (Inl (HTTPException 422), s)
      else if find_owner owner_id (n_db s) = None then (Inl (HTTPException 404), s)
      else and_then (verify_nin_cached E st client nin s) (\<lambda>result s1.
        let new_status = (if dict_truth ''matched'' result then K_VERIFIED else K_REJECTED);
            s2 = s1\<lparr>n_db := set_kyc owner_id new_status (e_now E 6) (n_db s1)\<rparr>;
            s3 = n_emit E 7 (''KYC_'' @ kyc_str new_status)
                   (JObj [(''owner_id'', JStr owner_id), (''matched'', JBool (dict_truth ''matched'' result)),
                          (''source'', case json_get ''source'' result of Some j \<Rightarrow> j | None \<Rightarrow> JStr ''MOCK''),
                          (''stale'', JBool (dict_truth ''stale'' result)),
                          (''reason'', case json_get ''reason'' result of Some j \<Rightarrow> j | None \<Rightarrow> JNull)])
                   (cx_district ctx) (cx_id ctx) s2
        in (Inr \<lparr>ka_owner = owner_id, ka_status = new_status, ka_result = result\<rparr>, s3)))"

definition kyc_verify ::
  "'g env \<Rightarrow> settings \<Rightarrow> nira_client \<Rightarrow> string \<Rightarrow> string \<Rightarrow> auth_context option \<Rightarrow> nira_state
   \<Rightarrow> (kyc_answer, nira_state) outcome" where
  "kyc_verify E st client owner_id nin ctx =
     guarded_by [LAND_OFFICER, REGISTRAR] ctx (kyc_verify_handler E st client owner_id nin)"

interpretation create_owner: role_route "[LAND_OFFICER, REGISTRAR]" "create_owner E q" for E q
  by unfold_locales (simp_all add: create_owner_def)

interpretation kyc_route: role_route "[LAND_OFFICER, REGISTRAR]" "kyc_verify E st client owner_id nin"
  for E st client owner_id nin
  by unfold_locales (simp_all add: kyc_verify_def)

section \<open>Lemmas\<close>

lemma set_kyc_sel [simp]:
  "districts (set_kyc i k t s) = districts s" "parcels (set_kyc i k t s) = parcels s"
  "titles (set_kyc i k t s) = titles s" "transfers (set_kyc i k t s) = transfers s"
  "audit (set_kyc i k t s) = audit s"
  by (simp_all add: set_kyc_def)

lemma find_owner_set_kyc:
  "find_owner j (set_kyc i k t s) = map_option (\<lambda>r. if o_id r = i
     then r\<lparr>o_kyc := k, o_kyc_at := (if k = K_VERIFIED then Some t else None), o_updated := t\<rparr> else r) (find_owner j s)"
  by (simp add: find_owner_def set_kyc_def find_update_where)

lemma find_owner_set_kyc_other: "j \<noteq> i \<Longrightarrow> find_owner j (set_kyc i k t s) = find_owner j s"
  by (cases "find_owner j s") (auto simp: find_owner_set_kyc dest: find_owner_id)

section \<open>Properties\<close>



definition demo_owner :: "string \<Rightarrow> string \<Rightarrow> kyc_status \<Rightarrow> owner" where
  "demo_owner i h k =
     \<lparr>o_id = i, o_nin_hash = h, o_nin_encrypted = [], o_name = ''Name'', o_dob = None, o_phone = None,
      o_kyc = k, o_kyc_at = None, o_created = 0, o_updated = 0\<rparr>"

definition demo_nira_state :: "owner list \<Rightarrow> nira_state" where
  "demo_nira_state os = \<lparr>n_db = demo_db\<lparr>owners := os\<rparr>, n_breaker = NIRA_BREAKER, n_cache = Map.empty\<rparr>"

lemma verify_nin_cached_live:
  assumes "n_cache s = Map.empty" "cb_state (n_breaker s) = CLOSED" "client nin = Inr r"
  shows "\<exists>s1. verify_nin_cached E st client nin s
      = (Inr (dict_with (nira_dict r) [(''stale'', JBool False), (''cache'', JStr ''miss'')]), s1)"
  using assms
  by (simp add: verify_nin_cached_def cache_get_def breaker_call_def preflight_def maybe_half_open_def Let_def)

lemma kyc_verify_runs:
  assumes "has_role c [LAND_OFFICER, REGISTRAR]" "nin_ok nin" "find_owner owner_id (n_db s) \<noteq> None"
    and "verify_nin_cached E st client nin s = (Inr result, s1)"
  shows "\<exists>a s'. kyc_verify E st client owner_id nin (Some c) s = (Inr a, s') \<and> ka_result a = result"
  using assms by (simp add: kyc_verify_def kyc_verify_handler_def Let_def)

text \<open>
  The check is not tied to the owner: whatever NIN hash the owner was registered with, a
  NIN that NIRA knows, of anybody, makes that owner VERIFIED.
\<close>

lemma kyc_accepts_any_known_nin:
  assumes "has_role c [LAND_OFFICER, REGISTRAR]" "nin_ok nin" "find_owner owner_id (n_db s) = Some r"
    and "n_cache s = Map.empty" "cb_state (n_breaker s) = CLOSED"
    and "client nin = Inr res" "nr_matched res"
  shows "\<exists>a s' r'. kyc_verify E st client owner_id nin (Some c) s = (Inr a, s')
    \<and> find_owner owner_id (n_db s') = Some r' \<and> o_kyc r' = K_VERIFIED \<and> o_nin_hash r' = o_nin_hash r"
proof -
  obtain s1 where v: "verify_nin_cached E st client nin s
      = (Inr (dict_with (nira_dict res) [(''stale'', JBool False), (''cache'', JStr ''miss'')]), s1)"
    using verify_nin_cached_live [of s client nin res E st] assms by blast
  then obtain x where x: "n_db s1 = (n_db s)\<lparr>nira := x\<rparr>" using verify_nin_cached_db by blast
  have "find_owner owner_id (n_db s1) = Some r" using assms(3) by (simp add: x find_owner_def)
  moreover have "o_id r = owner_id" using assms(3) by (rule find_owner_id)
  ultimately show ?thesis
    using assms v by (simp add: kyc_verify_def kyc_verify_handler_def n_emit_def find_owner_set_kyc Let_def)
qed

lemma kyc_accepts_any_known_nin_witness:
  "\<exists>a s' r'. kyc_verify demo_env prod_settings (mock_verify_nin pad32) ''forger'' ''CM82010110A4P0''
      (Some (demo_ctx LAND_OFFICER)) (demo_nira_state [demo_owner ''forger'' ''hash of another NIN'' K_PENDING]) = (Inr a, s')
    \<and> find_owner ''forger'' (n_db s') = Some r' \<and> o_kyc r' = K_VERIFIED \<and> o_nin_hash r' = ''hash of another NIN''"
proof -
  let ?nin = "''CM82010110A4P0''"
  have ok: "nin_ok ?nin" by code_simp
  have "mock_verify_nin pad32 ?nin = Inr (nira_answer True (Some (person ''Sarah Nakato'' ''1982-01-01'' ''F'' ''Mityana'')) None)"
    using ok by (simp add: mock_verify_nin_def nin_ok_def SEEDED_def)
  then show ?thesis
    using ok kyc_accepts_any_known_nin [where c = "demo_ctx LAND_OFFICER" and nin = ?nin and owner_id = "''forger''"
      and s = "demo_nira_state [demo_owner ''forger'' ''hash of another NIN'' K_PENDING]"
      and client = "mock_verify_nin pad32" and E = demo_env and st = prod_settings
      and r = "demo_owner ''forger'' ''hash of another NIN'' K_PENDING"]
    by (simp add: has_role_def demo_ctx_def demo_context_def cx_role_def demo_nira_state_def find_owner_def
        demo_owner_def NIRA_BREAKER_def new_breaker_def nira_answer_def)
qed


end
