(* ===== verification/Chain.thy ===== *)
theory Chain
  imports Auth Store
begin

text \<open>
  The interface to a chain (a commit takes the readings of the clock it makes): the dataclasses of \<open>backend/app/blockchain/models.py\<close>, the protocol
  \<open>BlockchainClient\<close> of \<open>client.py\<close> as a record of operations on a state of the client's own, and
  the in-memory client of \<open>mock_client.py\<close>.  The clients that speak to a node are in \<open>Chain_Evm\<close>.

  The locale \<open>chain_contract\<close> is what the anchor service relies on: a batch whose receipt says
  CONFIRMED is verified against the root that was committed, and committing another batch does
  not change that.  The mock client provides it.
\<close>

section \<open>Receipts and proofs\<close>

record anchor_receipt =
  rc_batch :: string
  rc_district :: int
  rc_root :: string
  rc_tx :: string
  rc_block :: "int option"
  rc_chain :: int
  rc_submitted :: time
  rc_confirmed :: "time option"
  rc_status :: anchor_status

definition receipt_dict :: "(time \<Rightarrow> json) \<Rightarrow> anchor_receipt \<Rightarrow> (string \<times> json) list" where
  "receipt_dict num r =
     [(''batch_id'', JStr (rc_batch r)), (''district_id'', JInt (rc_district r)), (''merkle_root'', JStr (rc_root r)),
      (''tx_hash'', JStr (rc_tx r)), (''block_number'', jopt JInt (rc_block r)), (''chain_id'', JInt (rc_chain r)),
      (''submitted_at'', num (rc_submitted r)), (''confirmed_at'', jopt num (rc_confirmed r)),
      (''status'', JStr (anchor_status_str (rc_status r)))]"

record inclusion_proof =
  mp_batch :: string
  mp_leaf :: string
  mp_siblings :: "string list"
  mp_root :: string

definition proof_dict :: "inclusion_proof \<Rightarrow> (string \<times> json) list" where
  "proof_dict p =
     [(''batch_id'', JStr (mp_batch p)), (''leaf'', JStr (mp_leaf p)),
      (''siblings'', JList (map JStr (mp_siblings p))), (''root'', JStr (mp_root p))]"

section \<open>The protocol\<close>

record 'c chain_client =
  cl_chain_id :: int
  cl_commit :: "(nat \<Rightarrow> time) \<Rightarrow> string \<Rightarrow> int \<Rightarrow> string \<Rightarrow> 'c \<Rightarrow> (anchor_receipt, 'c) outcome"
  cl_verify :: "string \<Rightarrow> string \<Rightarrow> string list \<Rightarrow> 'c \<Rightarrow> bool res"
  cl_health :: "'c \<Rightarrow> (string \<times> json) list"

text \<open>
  \<open>kec\<close> is the hash of the contract; \<open>fresh\<close> says that a batch id is not committed yet, \<open>ok\<close> which
  texts the chain takes for digests: those of the hash, at least.
\<close>

locale chain_contract =
  fixes client :: "'c chain_client" and kec :: "bytes \<Rightarrow> bytes" and fresh :: "string \<Rightarrow> 'c \<Rightarrow> bool" and ok :: "string \<Rightarrow> bool"
  assumes committed: "cl_commit client clk b d rt c = (Inr r, c') \<Longrightarrow> rc_status r = A_CONFIRMED
      \<Longrightarrow> ok rt \<Longrightarrow> ok leaf \<Longrightarrow> list_all ok sibs
      \<Longrightarrow> cl_verify client b leaf sibs c' = verify_merkle_proof_evm kec leaf sibs rt"
    and stays: "cl_commit client clk b d rt c = (x, c') \<Longrightarrow> b' \<noteq> b \<Longrightarrow> \<not> fresh b' c \<Longrightarrow> \<not> fresh b' c'"
    and kept: "cl_commit client clk b d rt c = (x, c') \<Longrightarrow> b' \<noteq> b \<Longrightarrow> \<not> fresh b' c
      \<Longrightarrow> ok leaf \<Longrightarrow> list_all ok sibs \<Longrightarrow> cl_verify client b' leaf sibs c' = cl_verify client b' leaf sibs c"
    and known: "cl_commit client clk b d rt c = (Inr r, c') \<Longrightarrow> rc_status r = A_CONFIRMED \<Longrightarrow> \<not> fresh b c'"
    and ok_digest: "ok (hex0x (kec bs))"
begin

text \<open>What is known of a batch: verification gives the verdict of the mirror for one root.\<close>

definition attests :: "string \<Rightarrow> string \<Rightarrow> 'c \<Rightarrow> bool" where
  "attests b rt c \<longleftrightarrow> \<not> fresh b c \<and> (\<forall>leaf sibs. ok rt \<and> ok leaf \<and> list_all ok sibs
     \<longrightarrow> cl_verify client b leaf sibs c = verify_merkle_proof_evm kec leaf sibs rt)"

lemma commit_attests:
  "cl_commit client clk b d rt c = (Inr r, c') \<Longrightarrow> rc_status r = A_CONFIRMED \<Longrightarrow> attests b rt c'"
  using committed known by (auto simp: attests_def)

lemma attests_kept:
  "attests b rt c \<Longrightarrow> cl_commit client clk b' d rt' c = (r, c') \<Longrightarrow> b' \<noteq> b \<Longrightarrow> attests b rt c'"
  using stays [of clk b' d rt' c _ c' b] kept [of clk b' d rt' c _ c' b] by (auto simp: attests_def)

lemma ok_hexed: "hexed kec h \<Longrightarrow> ok h"
  using ok_digest by (auto simp: hexed_def)

lemma attests_verdict:
  "attests b rt c \<Longrightarrow> hexed kec rt \<Longrightarrow> hexed kec leaf \<Longrightarrow> list_all (hexed kec) sibs
   \<Longrightarrow> cl_verify client b leaf sibs c = verify_merkle_proof_evm kec leaf sibs rt"
  using list.pred_mono_strong [of "hexed kec" sibs ok] by (simp add: attests_def ok_hexed)

end

section \<open>MockBlockchainClient\<close>

record mock_anchor =
  ma_root :: string
  ma_district :: int
  ma_tx :: string
  ma_block :: int
  ma_at :: time

record mock_chain =
  mc_anchors :: "string \<Rightarrow> mock_anchor option"
  mc_block :: int

definition new_mock_chain :: mock_chain where
  "new_mock_chain = \<lparr>mc_anchors = Map.empty, mc_block = 1000000\<rparr>"

definition mock_commit ::
  "(bytes \<Rightarrow> bytes) \<Rightarrow> (nat \<Rightarrow> time) \<Rightarrow> string \<Rightarrow> int \<Rightarrow> string \<Rightarrow> mock_chain \<Rightarrow> (anchor_receipt, mock_chain) outcome" where
  "mock_commit sha clk batch_id district_id root_hex c =
     (let now = clk 0; tx_hash = ''0x'' @ sha256_hex sha (batch_id @ ''|'' @ int_str district_id @ ''|'' @ root_hex);
          block_no = mc_block c + 1
      in (Inr \<lparr>rc_batch = batch_id, rc_district = district_id, rc_root = root_hex, rc_tx = tx_hash,
               rc_block = Some block_no, rc_chain = 0, rc_submitted = now, rc_confirmed = Some now,
               rc_status = A_CONFIRMED\<rparr>,
          \<lparr>mc_anchors = (mc_anchors c)(batch_id \<mapsto>
              \<lparr>ma_root = root_hex, ma_district = district_id, ma_tx = tx_hash, ma_block = block_no, ma_at = now\<rparr>),
           mc_block = block_no\<rparr>))"

definition mock_verify :: "(bytes \<Rightarrow> bytes) \<Rightarrow> string \<Rightarrow> string \<Rightarrow> string list \<Rightarrow> mock_chain \<Rightarrow> bool res" where
  "mock_verify kec batch_id leaf_hex proof_hex c =
     (case mc_anchors c batch_id of
        None \<Rightarrow> Inr False
      | Some a \<Rightarrow> verify_merkle_proof_evm kec leaf_hex proof_hex (ma_root a))"

definition mock_health :: "mock_chain \<Rightarrow> (string \<times> json) list" where
  "mock_health c = [(''provider'', JStr ''mock''), (''ok'', JBool True), (''block'', JInt (mc_block c))]"

definition mock_client :: "(bytes \<Rightarrow> bytes) \<Rightarrow> (bytes \<Rightarrow> bytes) \<Rightarrow> mock_chain chain_client" where
  "mock_client sha kec =
     \<lparr>cl_chain_id = 0, cl_commit = mock_commit sha, cl_verify = mock_verify kec, cl_health = mock_health\<rparr>"

interpretation mock: chain_contract "mock_client sha kec" kec "\<lambda>b c. mc_anchors c b = None" "\<lambda>_. True" for sha kec
  by unfold_locales (auto simp: mock_client_def mock_commit_def mock_verify_def Let_def)

end
