(* ===== verification/Ledger_Verify.thy ===== *)
theory Ledger_Verify
  imports Ledger_Chain
begin

text \<open>
  \<open>verify_chain\<close> against the invariant of the ledger: it accepts every table the ledger
  produces, whatever the batch size; what it accepts is a hash chain over the canonical payloads,
  so two accepted tables with the same last row hash carry the same payloads; and the columns
  outside the hashes may change without it noticing.
\<close>

section \<open>Acceptance of what the ledger wrote\<close>

lemma select_rows_chain:
  assumes c: "chain_from sha GENESIS_HASH 0 (tenant_rows t rows)" and split: "tenant_rows t rows = pre @ todo"
  shows "select_rows t (int (length pre)) b [] rows = take b todo"
proof -
  have "filter (\<lambda>r. ae_seq r > int (length pre)) pre = []"
    using c split chain_from_seq_bounds [of sha GENESIS_HASH 0 pre] by (fastforce simp: filter_empty_conv)
  moreover have "filter (\<lambda>r. ae_seq r > int (length pre)) todo = todo"
    using c split chain_from_seq_bounds [of sha _ "int (length pre)" todo] by (auto simp: filter_id_conv)
  moreover have "sort_key ae_seq todo = todo"
    by (rule sort_key_sorted) (use c split chain_from_sorted in auto)
  ultimately show ?thesis by (simp add: select_rows_def split)
qed

definition text_matches :: "read_row \<Rightarrow> bool" where
  "text_matches v \<longleftrightarrow> json_dumps (rr_payload v) = ae_payload (rr_row v)"

lemma text_matches_simp [simp]:
  "text_matches \<lparr>rr_row = r, rr_payload = j\<rparr> \<longleftrightarrow> json_dumps j = ae_payload r"
  by (simp add: text_matches_def)

lemma parse_rows_readable:
  "list_all readable rs \<Longrightarrow> \<exists>vs. parse_rows rs = Inr vs \<and> map rr_row vs = rs \<and> list_all text_matches vs"
proof (induction rs)
  case Nil
  then show ?case by simp
next
  case (Cons r rs)
  then obtain j vs where "wf_json j" "ae_payload r = json_dumps j"
    "parse_rows rs = Inr vs" "map rr_row vs = rs" "list_all text_matches vs" by (auto simp: readable_def)
  then show ?case by (simp add: json_loads_dumps json_dumps_canon)
qed

lemma walk_batch_chain:
  "chain_from sha prev n (map rr_row vs) \<Longrightarrow> list_all text_matches vs \<Longrightarrow>
   walk_batch sha vs prev seen cursor =
     Inr (head_hash prev (map rr_row vs), seen + length vs, if vs = [] then cursor else n + int (length vs))"
  by (induction vs arbitrary: prev n seen cursor) (auto simp: text_matches_def)

lemma verify_loop_accepts:
  assumes "ledger_inv sha rows" and "batch > 0" and "tenant_rows t rows = pre @ todo"
  shows "verify_loop sha t batch cnt rows (head_hash GENESIS_HASH pre) (length pre) (int (length pre))
    = Inr \<lparr>vr_tenant = t, vr_total = length (pre @ todo), vr_verified = True, vr_corrupt = None, vr_reason = None\<rparr>"
  using assms(3)
proof (induction "length todo" arbitrary: pre todo rule: less_induct)
  case less
  have c: "chain_from sha GENESIS_HASH 0 (tenant_rows t rows)" using assms(1) by (simp add: ledger_inv_def)
  have "list_all readable (take batch todo)"
  proof -
    have "set (take batch todo) \<subseteq> set (tenant_rows t rows)" using less.prems by (auto dest: in_set_takeD)
    then show ?thesis using assms(1) by (auto simp: ledger_inv_def list_all_iff tenant_rows_def)
  qed
  then obtain vs where vs: "parse_rows (take batch todo) = Inr vs" "map rr_row vs = take batch todo"
      "list_all text_matches vs" using parse_rows_readable by blast
  have read: "ledger_read t (int (length pre)) batch [] rows = Inr vs"
    using vs select_rows_chain [OF c less.prems] by (simp add: ledger_read_def)
  show ?case
  proof (cases "todo = []")
    case True
    with vs have "vs = []" by simp
    with True read show ?thesis by (simp add: verify_loop.simps)
  next
    case False
    let ?a = "take batch todo" and ?b = "drop batch todo"
    have ne: "vs \<noteq> []" using vs(2) False assms(2) by auto
    have len: "length vs = length ?a" using vs(2) by (metis length_map)
    have "chain_from sha (head_hash GENESIS_HASH pre) (int (length pre)) (map rr_row vs)"
      using c less.prems vs(2) chain_from_append [of sha _ _ ?a ?b] by simp
    from walk_batch_chain [OF this vs(3)] ne len vs(2)
    have "walk_batch sha vs (head_hash GENESIS_HASH pre) (length pre) (int (length pre))
        = Inr (head_hash GENESIS_HASH (pre @ ?a), length (pre @ ?a), int (length (pre @ ?a)))"
      using False assms(2) by (simp add: head_hash_def)
    moreover have "verify_loop sha t batch cnt rows (head_hash GENESIS_HASH (pre @ ?a)) (length (pre @ ?a))
          (int (length (pre @ ?a)))
        = Inr \<lparr>vr_tenant = t, vr_total = length ((pre @ ?a) @ ?b), vr_verified = True,
               vr_corrupt = None, vr_reason = None\<rparr>"
      by (rule less.hyps) (use False assms(2) less.prems in \<open>simp_all\<close>)
    ultimately show ?thesis using read ne by (subst verify_loop.simps) simp
  qed
qed

lemma verify_chain_inv:
  "ledger_inv sha rows \<Longrightarrow> batch > 0 \<Longrightarrow>
   verify_chain sha t batch rows =
     Inr \<lparr>vr_tenant = t, vr_total = ledger_count t rows, vr_verified = True, vr_corrupt = None, vr_reason = None\<rparr>"
  using verify_loop_accepts [of sha rows batch t "[]" "tenant_rows t rows"]
  by (simp add: verify_chain_def ledger_count_def)

section \<open>What acceptance means\<close>

definition canon_text :: "audit_row \<Rightarrow> string" where
  "canon_text r = (case json_loads (ae_payload r) of Inr j \<Rightarrow> json_dumps j | Inl _ \<Rightarrow> [])"

fun linked :: "(bytes \<Rightarrow> bytes) \<Rightarrow> string \<Rightarrow> audit_row list \<Rightarrow> bool" where
  "linked sha prev [] = True"
| "linked sha prev (r # rs) =
     (ae_payload_hash r = sha256_hex sha (canon_text r)
      \<and> ae_row_hash r = sha256_hex sha (prev @ ae_payload_hash r)
      \<and> linked sha (ae_row_hash r) rs)"

lemma linked_append [simp]:
  "linked sha prev (xs @ ys) \<longleftrightarrow> linked sha prev xs \<and> linked sha (head_hash prev xs) ys"
  by (induction xs arbitrary: prev) auto

lemma walk_batch_linked:
  "walk_batch sha vs prev seen cursor = Inr (p, n, c) \<Longrightarrow> parse_rows (map rr_row vs) = Inr vs \<Longrightarrow>
   linked sha prev (map rr_row vs) \<and> p = head_hash prev (map rr_row vs) \<and> n = seen + length vs"
proof (induction vs arbitrary: prev seen cursor)
  case Nil
  then show ?case by simp
next
  case (Cons v vs)
  obtain j where v: "json_loads (ae_payload (rr_row v)) = Inr j" "v = \<lparr>rr_row = rr_row v, rr_payload = j\<rparr>"
    and rest: "parse_rows (map rr_row vs) = Inr vs"
    using Cons.prems(2) by (auto simp: res_simps)
  from v have "canon_text (rr_row v) = json_dumps (rr_payload v)"
    by (metis canon_text_def read_row.select_convs(2) sum.case(2))
  with Cons.prems(1) show ?case by (auto split: if_splits dest!: Cons.IH [OF _ rest])
qed

definition ordered :: "string \<Rightarrow> audit_row list \<Rightarrow> audit_row list" where
  "ordered t rows = sort_key ae_seq (tenant_rows t rows)"

lemma strict_filter_append:
  assumes "sorted (map k (xs @ ys))" and "distinct (map k (xs @ ys))" and "xs \<noteq> []"
  shows "filter (\<lambda>r. k r > k (last xs)) (xs @ ys) = ys"
proof -
  have le: "k x \<le> k (last xs)" if "x \<in> set xs" for x
  proof -
    have "sorted (map k xs)" using assms(1) by (simp add: sorted_append)
    then show ?thesis using that assms(3)
      by (cases xs rule: rev_cases) (auto simp: sorted_append)
  qed
  have gt: "k y > k (last xs)" if "y \<in> set ys" for y
  proof -
    have "k (last xs) \<le> k y" using assms(1,3) that by (auto simp: sorted_append)
    moreover have "k (last xs) \<noteq> k y" using assms(2) last_in_set [OF assms(3)] that by (auto simp: disjoint_iff)
    ultimately show ?thesis by simp
  qed
  have "filter (\<lambda>r. k r > k (last xs)) xs = []" using le by (auto simp: filter_empty_conv not_less)
  moreover have "filter (\<lambda>r. k r > k (last xs)) ys = ys" using gt by (auto simp: filter_id_conv)
  ultimately show ?thesis by simp
qed

text \<open>After a page, the rows beyond its last sequence number are the rest.\<close>

lemma after_page:
  fixes cursor :: int
  assumes "distinct (map ae_seq (tenant_rows t rows))"
  defines "todo \<equiv> filter (\<lambda>r. ae_seq r > cursor) (ordered t rows)"
  assumes ne: "take batch todo \<noteq> []"
  shows "filter (\<lambda>r. ae_seq r > ae_seq (last (take batch todo))) (ordered t rows) = drop batch todo"
proof -
  let ?c = "ae_seq (last (take batch todo))"
  have "last (take batch todo) \<in> set todo" by (rule in_set_takeD [OF last_in_set [OF ne]])
  then have "?c > cursor" by (simp only: todo_def set_filter mem_Collect_eq)
  then have "filter (\<lambda>r. ae_seq r > ?c) (ordered t rows) = filter (\<lambda>r. ae_seq r > ?c) todo"
    unfolding todo_def by (auto intro!: filter_cong)
  also have "\<dots> = filter (\<lambda>r. ae_seq r > ?c) (take batch todo @ drop batch todo)" by simp
  also have "\<dots> = drop batch todo"
  proof (rule strict_filter_append)
    show "sorted (map ae_seq (take batch todo @ drop batch todo))"
      by (simp add: todo_def ordered_def filter_sort)
    show "distinct (map ae_seq (take batch todo @ drop batch todo))"
      using assms(1) by (simp add: todo_def ordered_def distinct_map_filter distinct_map inj_on_def)
  qed (rule ne)
  finally show ?thesis .
qed

lemma verify_loop_sound:
  assumes "verify_loop sha t batch cnt rows prev seen cursor = Inr rep" and "vr_verified rep"
    and "batch > 0" and "distinct (map ae_seq (tenant_rows t rows))"
  shows "linked sha prev (filter (\<lambda>r. ae_seq r > cursor) (ordered t rows))
    \<and> vr_total rep = seen + length (filter (\<lambda>r. ae_seq r > cursor) (ordered t rows))"
  using assms
proof (induction sha t batch cnt rows prev seen cursor rule: verify_loop.induct)
  case (1 sha t batch cnt rows prev seen cursor)
  let ?todo = "filter (\<lambda>r. ae_seq r > cursor) (ordered t rows)"
  have sel: "select_rows t cursor batch [] rows = take batch ?todo"
    by (simp add: select_rows_def ordered_def filter_sort)
  from 1(2) obtain vs where vs: "ledger_read t cursor batch [] rows = Inr vs"
    by (subst (asm) verify_loop.simps) (auto split: sum.splits)
  then have p: "parse_rows (take batch ?todo) = Inr vs" and m: "map rr_row vs = take batch ?todo"
    using sel parse_rows_map by (auto simp: ledger_read_def)
  show ?case
  proof (cases "vs = []")
    case True
    with m have "?todo = []" using 1(4) by (simp only: list.map take_eq_Nil) auto
    moreover have "vr_total rep = seen"
      using 1(2) vs True by (subst (asm) verify_loop.simps) auto
    ultimately show ?thesis by (simp only:) simp
  next
    case False
    obtain q n c where w: "walk_batch sha vs prev seen cursor = Inr (q, n, c)"
      and rest: "verify_loop sha t batch cnt rows q n c = Inr rep"
      using 1(2,3) vs False by (subst (asm) verify_loop.simps) (auto split: sum.splits)
    have l: "linked sha prev (take batch ?todo)" "q = head_hash prev (take batch ?todo)"
      "n = seen + length (take batch ?todo)"
      using walk_batch_linked [OF w] p m by (metis, metis, metis length_map)
    have ne: "take batch ?todo \<noteq> []" using m False by (metis map_is_Nil_conv)
    have c: "c = ae_seq (last (take batch ?todo))"
      using walk_batch_cursor [OF w] False m by (metis last_map)
    have todo: "filter (\<lambda>r. ae_seq r > c) (ordered t rows) = drop batch ?todo"
      unfolding c by (rule after_page [OF 1(5) ne])
    have "linked sha q (drop batch ?todo) \<and> vr_total rep = n + length (drop batch ?todo)"
      using 1(1) [OF vs False w refl refl rest 1(3,4,5)] todo by simp
    then have "linked sha prev (take batch ?todo @ drop batch ?todo)
        \<and> vr_total rep = seen + length (take batch ?todo @ drop batch ?todo)"
      using l by (simp only: linked_append length_append) simp
    then show ?thesis by (simp only: append_take_drop_id)
  qed
qed

definition seqs_ok :: "string \<Rightarrow> audit_row list \<Rightarrow> bool" where
  "seqs_ok t rows \<longleftrightarrow> distinct (map ae_seq (tenant_rows t rows)) \<and> (\<forall>r\<in>set (tenant_rows t rows). ae_seq r > 0)"

lemma verify_chain_sound:
  assumes "verify_chain sha t batch rows = Inr rep" "vr_verified rep" "batch > 0" "seqs_ok t rows"
  shows "linked sha GENESIS_HASH (ordered t rows)" "vr_total rep = ledger_count t rows"
proof -
  have "filter (\<lambda>r. ae_seq r > 0) (ordered t rows) = ordered t rows"
    using assms(4) by (auto simp: filter_id_conv ordered_def seqs_ok_def)
  then show "linked sha GENESIS_HASH (ordered t rows)" "vr_total rep = ledger_count t rows"
    using verify_loop_sound [of sha t batch _ rows GENESIS_HASH 0 0 rep] assms
    by (auto simp: verify_chain_def seqs_ok_def ledger_count_def ordered_def)
qed

text \<open>Every string the verifier hashes while it accepts a table.\<close>

fun hashed_strings :: "string \<Rightarrow> audit_row list \<Rightarrow> string list" where
  "hashed_strings prev [] = []"
| "hashed_strings prev (r # rs) =
     canon_text r # (prev @ ae_payload_hash r) # hashed_strings (ae_row_hash r) rs"

lemma hashed_strings_append [simp]:
  "hashed_strings prev (xs @ ys) = hashed_strings prev xs @ hashed_strings (head_hash prev xs) ys"
  by (induction xs arbitrary: prev) auto

lemma linked_binding:
  assumes "digest32 sha" and "length xs = length ys"
    and "linked sha prev xs" "linked sha prev ys" "head_hash prev xs = head_hash prev ys"
    and "inj_on (sha256_hex sha) (set (hashed_strings prev xs) \<union> set (hashed_strings prev ys))"
  shows "map canon_text xs = map canon_text ys"
  using assms(2-)
proof (induction xs ys rule: rev_induct2)
  case 1
  then show ?case by simp
next
  case (4 x xs y ys)
  let ?S = "set (hashed_strings prev (xs @ [x])) \<union> set (hashed_strings prev (ys @ [y]))"
  have rows: "sha256_hex sha (head_hash prev xs @ ae_payload_hash x) = sha256_hex sha (head_hash prev ys @ ae_payload_hash y)"
    using 4 by simp
  then have "head_hash prev xs @ ae_payload_hash x = head_hash prev ys @ ae_payload_hash y"
    by (rule inj_onD [OF 4(6)]) simp_all
  moreover have "length (ae_payload_hash x) = length (ae_payload_hash y)"
    using 4 length_sha256_hex [OF assms(1)] by simp
  ultimately have h: "head_hash prev xs = head_hash prev ys" "ae_payload_hash x = ae_payload_hash y" by simp_all
  then have "sha256_hex sha (canon_text x) = sha256_hex sha (canon_text y)" using 4 by simp
  then have "canon_text x = canon_text y" by (rule inj_onD [OF 4(6)]) simp_all
  moreover have "map canon_text xs = map canon_text ys"
  proof (rule 4(1))
    show "inj_on (sha256_hex sha) (set (hashed_strings prev xs) \<union> set (hashed_strings prev ys))"
      using 4(6) by (rule inj_on_subset) auto
  qed (use 4 h in simp_all)
  ultimately show ?case by simp
qed simp_all


section \<open>What the walk does not look at\<close>

text \<open>Only the payload, its hash, the row hash, the tenant and the sequence number are read.\<close>

definition relabel ::
  "(audit_row \<Rightarrow> string) \<Rightarrow> (audit_row \<Rightarrow> string) \<Rightarrow> (audit_row \<Rightarrow> time) \<Rightarrow> (audit_row \<Rightarrow> string) \<Rightarrow> audit_row \<Rightarrow> audit_row" where
  "relabel ty us ts pv r = r\<lparr>ae_type := ty r, ae_user := us r, ae_ts := ts r, ae_prev := pv r\<rparr>"

lemma relabel_keeps [simp]:
  "ae_tenant (relabel ty us ts pv r) = ae_tenant r" "ae_payload (relabel ty us ts pv r) = ae_payload r"
  "ae_seq (relabel ty us ts pv r) = ae_seq r" "ae_payload_hash (relabel ty us ts pv r) = ae_payload_hash r"
  "ae_row_hash (relabel ty us ts pv r) = ae_row_hash r"
  by (simp_all add: relabel_def)

lemma sort_key_map: "(\<And>x. k (f x) = k x) \<Longrightarrow> sort_key k (map f xs) = map f (sort_key k xs)"
proof -
  assume k: "\<And>x. k (f x) = k x"
  have "insort_key k (f x) (map f ys) = map f (insort_key k x ys)" for x ys
    by (induction ys) (auto simp: k)
  then show ?thesis by (induction xs) simp_all
qed

lemma select_rows_relabel:
  "select_rows t c b [] (map (relabel ty us ts pv) rows) = map (relabel ty us ts pv) (select_rows t c b [] rows)"
  by (simp add: select_rows_def tenant_rows_def filter_map comp_def sort_key_map take_map)

definition relabel_read where
  "relabel_read ty us ts pv v = v\<lparr>rr_row := relabel ty us ts pv (rr_row v)\<rparr>"

lemma parse_rows_relabel:
  "parse_rows (map (relabel ty us ts pv) rs) = map_sum id (map (relabel_read ty us ts pv)) (parse_rows rs)"
proof (induction rs)
  case Nil
  then show ?case by simp
next
  case (Cons r rs)
  then show ?case
    by (cases "json_loads (ae_payload r)"; cases "parse_rows rs") (simp_all add: relabel_read_def)
qed

lemma walk_batch_relabel:
  "walk_batch sha (map (relabel_read ty us ts pv) vs) prev seen cursor = walk_batch sha vs prev seen cursor"
  by (induction vs arbitrary: prev seen cursor) (auto simp: relabel_read_def)

lemma verify_loop_relabel:
  "verify_loop sha t batch cnt (map (relabel ty us ts pv) rows) prev seen cursor
     = verify_loop sha t batch cnt rows prev seen cursor"
proof (induction sha t batch cnt rows prev seen cursor rule: verify_loop.induct)
  case (1 sha t batch cnt rows prev seen cursor)
  have read: "ledger_read t cursor batch [] (map (relabel ty us ts pv) rows)
      = map_sum id (map (relabel_read ty us ts pv)) (ledger_read t cursor batch [] rows)"
    by (simp add: ledger_read_def select_rows_relabel parse_rows_relabel)
  show ?case
  proof (cases "ledger_read t cursor batch [] rows")
    case (Inl e)
    then show ?thesis using read by (subst (1 2) verify_loop.simps) simp
  next
    case (Inr vs)
    show ?thesis
    proof (cases "walk_batch sha vs prev seen cursor")
      case (Inl x)
      then show ?thesis using read Inr
        by (subst (1 2) verify_loop.simps) (simp add: walk_batch_relabel split: prod.splits)
    next
      case (Inr x)
      then obtain q n c where "walk_batch sha vs prev seen cursor = Inr (q, n, c)" by (cases x) auto
      then show ?thesis using read \<open>ledger_read t cursor batch [] rows = Inr vs\<close> 1 [OF \<open>ledger_read t cursor batch [] rows = Inr vs\<close>]
        by (subst (1 2) verify_loop.simps) (simp add: walk_batch_relabel)
    qed
  qed
qed

lemma verify_chain_relabel:
  "verify_chain sha tenant batch (map (relabel ty us ts pv) rows) = verify_chain sha tenant batch rows"
  by (simp add: verify_chain_def verify_loop_relabel ledger_count_def tenant_rows_def filter_map comp_def)

text \<open>A closed example: a district with two events, the second one of another district between them.\<close>

definition demo_ledger :: "audit_row list" where
  "demo_ledger =
     snd (ledger_append pad32 ''c'' 3 ''B'' (JList [JInt 7, JNull]) ''3'' ''u''
       (snd (ledger_append pad32 ''b'' 2 ''A'' (JBool True) ''4'' ''u''
         (snd (ledger_append pad32 ''a'' 1 ''A'' (JObj [(''k'', JStr ''v'')]) ''3'' ''u'' [])))))"

lemma demo_ledger_reach: "ledger_reach pad32 demo_ledger"
proof -
  have step: "ledger_reach sha rows \<Longrightarrow> wf_json j \<Longrightarrow> ledger_reach sha (snd (ledger_append sha i ts ty j t u rows))"
    for sha rows j i ts ty t u
    by (metis ledger_reach.append prod.collapse)
  show ?thesis unfolding demo_ledger_def by (intro step ledger_reach.empty) simp_all
qed

lemma demo_ledger_count: "ledger_count ''3'' demo_ledger = 2"
  by (simp add: demo_ledger_def ledger_append_def last_seq_and_hash_def ledger_count_def to_row_def Let_def)

definition demo_single :: "audit_row list" where
  "demo_single = snd (ledger_append pad32 ''a'' 1 ''A'' (JObj []) ''3'' ''u'' [])"

lemma demo_single_inv: "ledger_inv pad32 demo_single"
proof -
  have "ledger_inv pad32 []" by (simp add: ledger_inv_def)
  then show ?thesis unfolding demo_single_def by (rule ledger_append_inv [OF _ _ surjective_pairing]) simp
qed

lemma demo_single_row: "demo_single = [\<lparr>ae_id = ''a'', ae_type = ''A'', ae_tenant = ''3'', ae_user = ''u'', ae_payload = ''{}'',
   ae_ts = 1, ae_seq = 1, ae_prev = GENESIS_HASH, ae_payload_hash = sha256_hex pad32 ''{}'', ae_row_hash = sha256_hex pad32 (GENESIS_HASH @ sha256_hex pad32 ''{}''), ae_anchored = None\<rparr>]"
  by (simp add: demo_single_def ledger_append_def last_seq_and_hash_def Let_def to_row_def)
lemma demo_canon: "json_loads ''{}'' = Inr (JObj [])"
  using json_loads_dumps [of "JObj []"] by simp
section \<open>Properties\<close>

text \<open>
  Every ledger reached by appends of any district, interleaved in any order, and by
  anchorings, is accepted by \<open>verify_chain\<close> for every district and every batch size, and the
  report counts every event of the district.
\<close>

lemma verify_chain_accepts_ledger:
  assumes "ledger_reach sha rows" and "batch > 0"
  shows "verify_chain sha tenant batch rows =
    Inr \<lparr>vr_tenant = tenant, vr_total = ledger_count tenant rows, vr_verified = True,
         vr_corrupt = None, vr_reason = None\<rparr>"
  using verify_chain_inv [OF ledger_reach_inv [OF assms(1)] assms(2)] .

lemma verify_chain_accepts_ledger_witness:
  "verify_chain pad32 ''3'' 500 demo_ledger =
     Inr \<lparr>vr_tenant = ''3'', vr_total = 2, vr_verified = True, vr_corrupt = None, vr_reason = None\<rparr>"
  using verify_chain_accepts_ledger [OF demo_ledger_reach, of 500 "''3''"] by (simp add: demo_ledger_count)




text \<open>
  The walk covers the payloads only: rewriting the event type, the actor, the time stamp
  and the stored \<open>prev_hash\<close> of any rows leaves the report as it was.
\<close>

lemma verify_chain_ignores_labels:
  "verify_chain sha tenant batch (map (relabel ty us ts pv) rows) = verify_chain sha tenant batch rows"
  by (rule verify_chain_relabel)

end
