(* ===== verification/Anchor.thy ===== *)
theory Anchor
  imports Chain Parcels Ledger_Verify
begin

text \<open>
  The anchor service \<open>backend/app/blockchain/anchor_service.py\<close> and its routes
  \<open>backend/app/routers/anchors.py\<close>.

  A flush awaits the chain in the middle: the part before (\<open>flush_begin\<close>) selects the events and
  writes the PENDING batch, the part after (\<open>flush_end\<close>) records the receipt.  Each part is one
  atomic step of the event loop; \<open>flush_district\<close> composes them around the guarded call.
\<close>

section \<open>Queries and updates\<close>

definition last_anchor_ts :: "int \<Rightarrow> db \<Rightarrow> time" where
  "last_anchor_ts district_id s =
     (case latest_by an_at (filter (\<lambda>a. an_district a = district_id) (anchors s)) of
        None \<Rightarrow> 0 | Some a \<Rightarrow> an_at a)"

definition list_districts :: "db \<Rightarrow> int list" where
  "list_districts s = map di_id (districts s)"

definition update_anchor :: "string \<Rightarrow> (anchor \<Rightarrow> anchor) \<Rightarrow> db \<Rightarrow> db" where
  "update_anchor batch_id f s = s\<lparr>anchors := update_where (\<lambda>a. an_batch a = batch_id) f (anchors s)\<rparr>"

section \<open>flush_district\<close>

datatype flush_start = Nothing_due | Too_early nat | Started anchor "string list"

definition flush_begin :: "'g env \<Rightarrow> settings \<Rightarrow> int \<Rightarrow> bool \<Rightarrow> db \<Rightarrow> (flush_start, db) outcome" where
  "flush_begin E st district_id force s =
     (let events = unanchored (int_str district_id) (anchor_flush_batch_size st * 4) (audit s)
      in if events = [] then (Inr Nothing_due, s)
         else if \<not> force \<and> length events < anchor_flush_batch_size st
              \<and> e_now E 0 - last_anchor_ts district_id s < of_int (anchor_flush_interval_seconds st)
         then (Inr (Too_early (length events)), s)
         else
           let first_seq = fst (hd events);
               last_seq = fst (last events);
               leaves = map snd events
           in case compute_merkle_root_evm (e_kec E) leaves of
                Inl e \<Rightarrow> (Inl e, s)
              | Inr onchain_root \<Rightarrow>
                  let rec = \<lparr>an_batch = e_uuid E 0, an_district = district_id, an_root = onchain_root,
                             an_first = first_seq, an_last = last_seq, an_count = length leaves,
                             an_tx = None, an_block = None, an_at = e_now E 1, an_confirmed = None,
                             an_status = A_PENDING\<rparr>
                  in and_then (insert_anchor_row rec s) (\<lambda>_ s1. (Inr (Started rec leaves), s1)))"

datatype flush_result =
    Flush_empty
  | Flush_deferred nat
  | Flush_breaker_open anchor
  | Flush_failed anchor string
  | Flush_done anchor_receipt

text \<open>What follows the guarded call; \<open>r\<close> is what the call returned or raised.\<close>

definition commit_event :: "anchor \<Rightarrow> string \<Rightarrow> anchor_receipt \<Rightarrow> json" where
  "commit_event rec sha256_root r = JObj
     [(''batch_id'', JStr (an_batch rec)), (''onchain_root'', JStr (an_root rec)),
      (''sha256_root'', JStr sha256_root), (''tx_hash'', JStr (rc_tx r)), (''block_number'', jopt JInt (rc_block r)),
      (''first_seq'', JInt (an_first rec)), (''last_seq'', JInt (an_last rec)),
      (''leaf_count'', JInt (int (an_count rec))), (''chain_id'', JInt (rc_chain r))]"

definition flush_end ::
  "'g env \<Rightarrow> anchor \<Rightarrow> string list \<Rightarrow> anchor_receipt res \<Rightarrow> db \<Rightarrow> (flush_result, db) outcome" where
  "flush_end E rec leaves r s =
     (case r of
        Inl CircuitOpenError \<Rightarrow>
          (Inr (Flush_breaker_open rec), update_anchor (an_batch rec) (\<lambda>a. a\<lparr>an_status := A_PENDING\<rparr>) s)
      | Inl e \<Rightarrow>
          (Inr (Flush_failed rec (e_exc E e)), update_anchor (an_batch rec) (\<lambda>a. a\<lparr>an_status := A_FAILED\<rparr>) s)
      | Inr receipt \<Rightarrow>
          let s1 = update_anchor (an_batch rec)
                     (\<lambda>a. a\<lparr>an_tx := Some (rc_tx receipt), an_block := rc_block receipt,
                            an_confirmed := rc_confirmed receipt, an_status := rc_status receipt\<rparr>) s
          in case mark_anchored (map an_batch (anchors s1)) (int_str (an_district rec)) (an_first rec) (an_last rec)
                    (an_batch rec) (audit s1) of
               (Inl e, _) \<Rightarrow> (Inl e, s1)
             | (Inr _, rows) \<Rightarrow>
                 (Inr (Flush_done receipt),
                  emit E 4 ''ANCHOR_COMMITTED'' (commit_event rec (compute_merkle_root (e_sha E) leaves) receipt)
                    (an_district rec) ''system:anchor_service'' (s1\<lparr>audit := rows\<rparr>)))"

record 'c anchor_state =
  as_db :: db
  as_breaker :: breaker
  as_chain :: 'c

definition ANCHOR_BREAKER :: breaker where
  "ANCHOR_BREAKER = new_breaker 3 10 300"

definition flush_district ::
  "'g env \<Rightarrow> settings \<Rightarrow> 'c chain_client \<Rightarrow> int \<Rightarrow> bool \<Rightarrow> 'c anchor_state \<Rightarrow> (flush_result, 'c anchor_state) outcome" where
  "flush_district E st client district_id force s =
     (case flush_begin E st district_id force (as_db s) of
        (Inl e, d) \<Rightarrow> (Inl e, s\<lparr>as_db := d\<rparr>)
      | (Inr Nothing_due, d) \<Rightarrow> (Inr Flush_empty, s\<lparr>as_db := d\<rparr>)
      | (Inr (Too_early n), d) \<Rightarrow> (Inr (Flush_deferred n), s\<lparr>as_db := d\<rparr>)
      | (Inr (Started rec leaves), d) \<Rightarrow>
          (case breaker_call (e_now E 2) (e_now E 3)
                  (cl_commit client (\<lambda>i. e_now E (5 + i)) (an_batch rec) district_id (an_root rec)) (as_breaker s) (as_chain s) of
             (r, b, c) \<Rightarrow>
               (case flush_end E rec leaves r d of
                  (out, d') \<Rightarrow> (out, \<lparr>as_db = d', as_breaker = b, as_chain = c\<rparr>))))"

text \<open>
  One round of \<open>anchor_loop_forever\<close>: every district in turn, an exception of one does not stop
  the others.  Each flush takes at most ten readings of the environment.
\<close>

fun anchor_round ::
  "'g env \<Rightarrow> settings \<Rightarrow> 'c chain_client \<Rightarrow> int list \<Rightarrow> 'c anchor_state \<Rightarrow> 'c anchor_state" where
  "anchor_round E st client [] s = s"
| "anchor_round E st client (d # ds) s =
     anchor_round (shift_env 10 E) st client ds (snd (flush_district E st client d False s))"

definition anchor_loop_iteration ::
  "'g env \<Rightarrow> settings \<Rightarrow> 'c chain_client \<Rightarrow> 'c anchor_state \<Rightarrow> 'c anchor_state" where
  "anchor_loop_iteration E st client s = anchor_round E st client (list_districts (as_db s)) s"

definition poll_interval :: "settings \<Rightarrow> int" where
  "poll_interval st = max 15 (anchor_flush_interval_seconds st div 10)"

section \<open>build_proof_for_event\<close>

definition anchored_row :: "int \<Rightarrow> int \<Rightarrow> db \<Rightarrow> audit_row \<Rightarrow> bool" where
  "anchored_row district_id leaf_seq s e \<longleftrightarrow>
     ae_tenant e = int_str district_id \<and> ae_seq e = leaf_seq
     \<and> (case ae_anchored e of None \<Rightarrow> False | Some b \<Rightarrow> find_anchor b s \<noteq> None)"

text \<open>No leaf with the sequence number: \<open>next\<close> raises \<open>StopIteration\<close>.\<close>

definition build_proof_for_event :: "(bytes \<Rightarrow> bytes) \<Rightarrow> int \<Rightarrow> int \<Rightarrow> db \<Rightarrow> inclusion_proof option res" where
  "build_proof_for_event kec district_id leaf_seq s =
     (case find (anchored_row district_id leaf_seq s) (audit s) of
        None \<Rightarrow> Inr None
      | Some e \<Rightarrow>
          (case find_anchor (the (ae_anchored e)) s of
             None \<Rightarrow> Inr None
           | Some a \<Rightarrow>
               let rows = sort_key ae_seq (filter (in_range (int_str district_id) (an_first a) (an_last a)) (audit s));
                   target = length (takeWhile (\<lambda>r. ae_seq r \<noteq> leaf_seq) rows)
               in if target = length rows then Inl RuntimeError
                  else res_bind (merkle_proof_evm kec (map ae_payload_hash rows) (int target)) (\<lambda>p.
                    Inr (Some \<lparr>mp_batch = an_batch a, mp_leaf = ep_leaf p, mp_siblings = ep_siblings p,
                               mp_root = an_root a\<rparr>))))"

section \<open>Routes\<close>

text \<open>The SQL \<open>payload_json LIKE '%"key": "value"%'\<close> with the value escaped.\<close>

definition payload_has :: "string \<Rightarrow> string \<Rightarrow> audit_row \<Rightarrow> bool" where
  "payload_has key v e =
     sql_like (''%'' @ [CHR 0x22] @ key @ [CHR 0x22] @ '': '' @ [CHR 0x22] @ escape_like_value v @ [CHR 0x22] @ ''%'')
       (ae_payload e)"

definition issue_event :: "int \<Rightarrow> string \<Rightarrow> string \<Rightarrow> audit_row \<Rightarrow> bool" where
  "issue_event district_id key v e \<longleftrightarrow>
     ae_tenant e = int_str district_id \<and> ae_type e = ''TITLE_ISSUED'' \<and> payload_has key v e"

definition list_anchors :: "int option \<Rightarrow> nat \<Rightarrow> nat \<Rightarrow> db \<Rightarrow> (anchor list \<times> nat) res" where
  "list_anchors district_id limit offset s =
     (if \<not> (1 \<le> limit \<and> limit \<le> 500) then Inl (HTTPException 422)
      else
        (let rows = filter (\<lambda>a. opt_eq district_id (an_district a)) (anchors s)
         in Inr (page limit offset (order_desc an_at rows), length rows)))"

definition get_anchor :: "string \<Rightarrow> db \<Rightarrow> anchor res" where
  "get_anchor batch_id s = (case find_anchor batch_id s of None \<Rightarrow> Inl (HTTPException 404) | Some a \<Rightarrow> Inr a)"

definition proof_for_title :: "(bytes \<Rightarrow> bytes) \<Rightarrow> string \<Rightarrow> db \<Rightarrow> inclusion_proof res" where
  "proof_for_title kec title_no s =
     (case find_title title_no s of
        None \<Rightarrow> Inl (HTTPException 404)
      | Some t \<Rightarrow>
          (let seq_row = (case find (issue_event (ti_district t) ''title_no'' title_no) (audit s) of
                            Some e \<Rightarrow> Some e
                          | None \<Rightarrow> find (issue_event (ti_district t) ''parcel_id'' (ti_parcel t)) (audit s))
           in case seq_row of
                None \<Rightarrow> Inl (HTTPException 409)
              | Some e \<Rightarrow>
                  res_bind (build_proof_for_event kec (ti_district t) (ae_seq e) s) (\<lambda>p.
                    case p of None \<Rightarrow> Inl (HTTPException 409) | Some proof \<Rightarrow> Inr proof)))"

definition manual_flush ::
  "'g env \<Rightarrow> settings \<Rightarrow> 'c chain_client \<Rightarrow> int \<Rightarrow> auth_context option \<Rightarrow> 'c anchor_state
   \<Rightarrow> (flush_result, 'c anchor_state) outcome" where
  "manual_flush E st client district_id ctx =
     guarded_by [ADMIN, REGISTRAR] ctx (\<lambda>_. flush_district E st client district_id True)"

interpretation flush_route: role_route "[ADMIN, REGISTRAR]" "manual_flush E st client d" for E st client d
  by unfold_locales (simp_all add: manual_flush_def)

section \<open>Lemmas\<close>

lemma update_anchor_sel [simp]:
  "districts (update_anchor b f s) = districts s" "owners (update_anchor b f s) = owners s"
  "parcels (update_anchor b f s) = parcels s" "titles (update_anchor b f s) = titles s"
  "transfers (update_anchor b f s) = transfers s" "audit (update_anchor b f s) = audit s"
  by (simp_all add: update_anchor_def)

lemma proof_reaches_evm_root:
  assumes "0 \<le> i" "i < int (length leaves)" "merkle_proof_evm kec leaves i = Inr p"
  shows "verify_merkle_proof_evm kec (ep_leaf p) (ep_siblings p) (evm_root kec leaves) = Inr True"
proof -
  have "sha256_leaves_to_keccak kec leaves ! nat i =
      keccak_hex kec (removeprefix ''0x'' (lower_str (leaves ! nat i)))"
    using assms by (simp add: sha256_leaves_to_keccak_def nat_less_iff)
  then show ?thesis
    using kec_tree.proof_reaches_root
      [where xs = "sha256_leaves_to_keccak kec leaves" and kec = kec and i = i, OF hexed_leaves] assms
    by (auto simp: merkle_proof_evm_eq verify_merkle_proof_evm_def climb_sorted_unordered evm_root_def)
qed

end
