(* ===== verification/Anchor_Safety.thy ===== *)
theory Anchor_Safety
  imports Anchor
begin

text \<open>
  What anchoring guarantees when flushes, appends and the rest of the backend interleave at
  every await: the anchored events of a district are a prefix of its ledger, every batch row
  holds the on-chain root of the events it names, a proof built for any anchored event verifies
  against it, and a chain that keeps the contract of \<open>Chain\<close> attests it.
\<close>

section \<open>Sequence numbers and ranges\<close>

lemma chain_filter_gt:
  "chain_from sha p m R \<Longrightarrow> m \<le> n \<Longrightarrow> filter (\<lambda>r. n < ae_seq r) R = drop (nat (n - m)) R"
proof (induction R arbitrary: p m)
  case Nil
  then show ?case by simp
next
  case (Cons r R)
  show ?case
  proof (cases "n = m")
    case True
    then have "\<forall>x\<in>set (r # R). n < ae_seq x"
      using Cons.prems(1) chain_from_seq_bounds by blast
    then show ?thesis using True by (simp add: filter_True)
  next
    case False
    then have "nat (n - m) = Suc (nat (n - (m + 1)))" using Cons.prems(2) by simp
    moreover have "filter (\<lambda>r. n < ae_seq r) R = drop (nat (n - (m + 1))) R"
      by (rule Cons.IH [of "ae_row_hash r"]) (use Cons.prems False in auto)
    ultimately show ?thesis using Cons.prems False by simp
  qed
qed

lemma chain_filter_le:
  "chain_from sha p m R \<Longrightarrow> m \<le> b \<Longrightarrow> filter (\<lambda>r. ae_seq r \<le> b) R = take (nat (b - m)) R"
proof (induction R arbitrary: p m)
  case Nil
  then show ?case by simp
next
  case (Cons r R)
  show ?case
  proof (cases "b = m")
    case True
    then have "\<forall>x\<in>set (r # R). \<not> ae_seq x \<le> b"
      using Cons.prems(1) chain_from_seq_bounds by fastforce
    then show ?thesis using True by (simp add: filter_empty_conv)
  next
    case False
    then have "nat (b - m) = Suc (nat (b - (m + 1)))" using Cons.prems(2) by simp
    moreover have "filter (\<lambda>r. ae_seq r \<le> b) R = take (nat (b - (m + 1))) R"
      by (rule Cons.IH [of "ae_row_hash r"]) (use Cons.prems False in auto)
    ultimately show ?thesis using Cons.prems False by simp
  qed
qed

lemma chain_take: "chain_from sha p m R \<Longrightarrow> chain_from sha p m (take k R)"
  by (metis append_take_drop_id chain_from_append)

text \<open>The rows of a range, as a slice of the rows of the tenant.\<close>

definition slice :: "string \<Rightarrow> int \<Rightarrow> int \<Rightarrow> audit_row list \<Rightarrow> audit_row list" where
  "slice t a b rows = filter (in_range t a b) rows"

lemma slice_tenant: "slice t a b rows = filter (\<lambda>r. a - 1 < ae_seq r) (filter (\<lambda>r. ae_seq r \<le> b) (tenant_rows t rows))"
  unfolding slice_def tenant_rows_def filter_filter by (rule filter_cong) (auto simp: in_range_def)

lemma slice_chain:
  assumes "chain_from sha GENESIS_HASH 0 (tenant_rows t rows)" "1 \<le> a" "0 \<le> b"
  shows "slice t a b rows = drop (nat (a - 1)) (take (nat b) (tenant_rows t rows))"
  using chain_filter_gt [OF chain_take [OF assms(1)], of "a - 1" "nat b"] chain_filter_le [OF assms(1) assms(3)] assms(2)
  by (simp add: slice_tenant)

lemma slice_sorted:
  assumes "chain_from sha GENESIS_HASH 0 (tenant_rows t rows)"
  shows "sort_key ae_seq (slice t a b rows) = slice t a b rows"
proof -
  have "sorted (map ae_seq (tenant_rows t rows))" using assms by (rule chain_from_sorted)
  then have "sorted (map ae_seq (filter (\<lambda>r. a - 1 < ae_seq r) (filter (\<lambda>r. ae_seq r \<le> b) (tenant_rows t rows))))"
    by (intro sorted_filter)
  then show ?thesis by (simp add: slice_tenant sort_key_sorted)
qed

lemma range_hashes_slice:
  assumes "chain_from sha GENESIS_HASH 0 (tenant_rows t rows)"
  shows "range_hashes t a b rows = map ae_payload_hash (slice t a b rows)"
  using slice_sorted [OF assms] by (simp add: range_hashes_def slice_def)

section \<open>The invariant of the two tables\<close>

definition anchored_upto :: "string \<Rightarrow> int \<Rightarrow> audit_row list \<Rightarrow> bool" where
  "anchored_upto t n rows \<longleftrightarrow> (\<forall>r\<in>set (tenant_rows t rows). ae_anchored r \<noteq> None \<longleftrightarrow> ae_seq r \<le> n)"

definition tenant_of :: "anchor \<Rightarrow> string" where
  "tenant_of a = int_str (an_district a)"

definition batch_ok :: "(bytes \<Rightarrow> bytes) \<Rightarrow> int \<Rightarrow> audit_row list \<Rightarrow> anchor \<Rightarrow> bool" where
  "batch_ok kec n rows a \<longleftrightarrow>
     1 \<le> an_first a \<and> an_first a \<le> n + 1 \<and> an_first a \<le> an_last a
     \<and> an_last a \<le> int (length (tenant_rows (tenant_of a) rows))
     \<and> an_root a = evm_root kec (map ae_payload_hash (slice (tenant_of a) (an_first a) (an_last a) rows))"

definition tenant_ok :: "(bytes \<Rightarrow> bytes) \<Rightarrow> anchor list \<Rightarrow> audit_row list \<Rightarrow> string \<Rightarrow> bool" where
  "tenant_ok kec as rows t \<longleftrightarrow>
     (\<exists>n. 0 \<le> n \<and> n \<le> int (length (tenant_rows t rows)) \<and> anchored_upto t n rows
        \<and> (\<forall>a\<in>set as. tenant_of a = t \<longrightarrow> batch_ok kec n rows a))"

definition in_batch :: "anchor list \<Rightarrow> audit_row \<Rightarrow> bool" where
  "in_batch as r \<longleftrightarrow>
     (\<forall>b. ae_anchored r = Some b \<longrightarrow> (\<exists>a\<in>set as. an_batch a = b \<and> in_range (tenant_of a) (an_first a) (an_last a) r))"

definition anchor_inv :: "(bytes \<Rightarrow> bytes) \<Rightarrow> (bytes \<Rightarrow> bytes) \<Rightarrow> db \<Rightarrow> bool" where
  "anchor_inv sha kec s \<longleftrightarrow>
     ledger_inv sha (audit s) \<and> distinct (map an_batch (anchors s))
     \<and> (\<forall>t. tenant_ok kec (anchors s) (audit s) t) \<and> (\<forall>r\<in>set (audit s). in_batch (anchors s) r)"

lemma anchor_inv_chain: "anchor_inv sha kec s \<Longrightarrow> chain_from sha GENESIS_HASH 0 (tenant_rows t (audit s))"
  by (simp add: anchor_inv_def ledger_inv_def)

text \<open>What selecting the events of a flush yields under the invariant.\<close>

lemma unanchored_slice:
  assumes ch: "chain_from sha GENESIS_HASH 0 (tenant_rows t rows)" and "anchored_upto t n rows" and "0 \<le> n"
  shows "unanchored t k rows = map (\<lambda>r. (ae_seq r, ae_payload_hash r)) (take k (drop (nat n) (tenant_rows t rows)))"
proof -
  let ?R = "tenant_rows t rows"
  have "filter (\<lambda>r. ae_anchored r = None) ?R = filter (\<lambda>r. n < ae_seq r) ?R"
    using assms(2) by (auto simp: anchored_upto_def intro!: filter_cong)
  also have "\<dots> = drop (nat n) ?R" using chain_filter_gt [OF ch assms(3)] by simp
  finally have f: "filter (\<lambda>r. ae_anchored r = None) ?R = drop (nat n) ?R" .
  have "sorted (map ae_seq (drop (nat n) ?R))"
    using chain_from_sorted [OF ch] by (simp add: drop_map [symmetric] sorted_wrt_drop)
  then show ?thesis by (simp add: unanchored_def f sort_key_sorted take_map)
qed

lemma chain_nth_seq:
  assumes "chain_from sha GENESIS_HASH 0 R" "i < length R"
  shows "ae_seq (R ! i) = 1 + int i"
proof -
  have "map ae_seq R ! i = map (\<lambda>i. 0 + 1 + int i) [0..<length R] ! i"
    using chain_from_seqs [OF assms(1)] by simp
  then show ?thesis using assms(2) by simp
qed

text \<open>The selected events are the range from n + 1 on, and it is not empty.\<close>

lemma unanchored_range:
  assumes ch: "chain_from sha GENESIS_HASH 0 (tenant_rows t rows)" and up: "anchored_upto t n rows"
    and n: "0 \<le> n" and ne: "unanchored t k rows \<noteq> []"
  defines "ev \<equiv> unanchored t k rows"
  shows "fst (hd ev) = n + 1" and "fst (last ev) = n + int (length ev)"
    and "n + int (length ev) \<le> int (length (tenant_rows t rows))"
    and "ev = map (\<lambda>r. (ae_seq r, ae_payload_hash r)) (slice t (n + 1) (n + int (length ev)) rows)"
    and "map snd ev = map ae_payload_hash (slice t (n + 1) (n + int (length ev)) rows)"
proof -
  let ?R = "tenant_rows t rows"
  have ev: "ev = map (\<lambda>r. (ae_seq r, ae_payload_hash r)) (take k (drop (nat n) ?R))"
    unfolding ev_def by (rule unanchored_slice [OF ch up n])
  have len: "length ev = min k (length ?R - nat n)" "nat n < length ?R" "0 < length ev"
    using ne by (auto simp: ev ev_def [symmetric] min_def)
  have nth: "ev ! i = (ae_seq (?R ! (nat n + i)), ae_payload_hash (?R ! (nat n + i)))" if "i < length ev" for i
    using that len by (simp add: ev)
  have seq: "fst (ev ! i) = n + 1 + int i" if "i < length ev" for i
    using nth [OF that] chain_nth_seq [OF ch, of "nat n + i"] that len n by simp
  have "ev \<noteq> []" using len by auto
  then show "fst (hd ev) = n + 1" using seq [of 0] len(3) hd_conv_nth [of ev] by simp
  from \<open>ev \<noteq> []\<close> show "fst (last ev) = n + int (length ev)"
    using seq [of "length ev - 1"] len(3) last_conv_nth [of ev] by simp
  show bound: "n + int (length ev) \<le> int (length ?R)" using len n by simp
  have "slice t (n + 1) (n + int (length ev)) rows = drop (nat n) (take (nat n + length ev) ?R)"
    using slice_chain [OF ch, of "n + 1" "n + int (length ev)"] n by (simp add: nat_add_distrib)
  also have "\<dots> = take (length ev) (drop (nat n) ?R)" by (simp add: take_drop add.commute)
  also have "\<dots> = take k (drop (nat n) ?R)" by (simp add: len min_def)
  finally have sl: "slice t (n + 1) (n + int (length ev)) rows = take k (drop (nat n) ?R)" .
  show "ev = map (\<lambda>r. (ae_seq r, ae_payload_hash r)) (slice t (n + 1) (n + int (length ev)) rows)"
    unfolding sl by (rule ev)
  show "map snd ev = map ae_payload_hash (slice t (n + 1) (n + int (length ev)) rows)"
    unfolding sl by (simp add: ev comp_def)
qed

section \<open>Every operation keeps the invariant\<close>

text \<open>Operations that touch neither table.\<close>

lemma anchor_inv_cong: "audit s' = audit s \<Longrightarrow> anchors s' = anchors s \<Longrightarrow> anchor_inv sha kec s' = anchor_inv sha kec s"
  by (simp add: anchor_inv_def)

text \<open>Appending an event: it is above every range, and not anchored.\<close>

lemma slice_snoc:
  assumes ch: "chain_from sha GENESIS_HASH 0 (tenant_rows t (rows @ [r]))"
    and "b \<le> int (length (tenant_rows t rows))"
  shows "slice t a b (rows @ [r]) = slice t a b rows"
proof (cases "ae_tenant r = t")
  case True
  then have "ae_seq r = int (length (tenant_rows t rows)) + 1" using ch by simp
  then show ?thesis using assms(2) by (simp add: slice_def in_range_def)
qed (simp add: slice_def in_range_def)

lemma tenant_ok_snoc:
  assumes ok: "tenant_ok kec as rows t" and new: "ae_anchored r = None"
    and ch: "chain_from sha GENESIS_HASH 0 (tenant_rows t (rows @ [r]))"
  shows "tenant_ok kec as (rows @ [r]) t"
proof -
  obtain n where n: "0 \<le> n" "n \<le> int (length (tenant_rows t rows))" "anchored_upto t n rows"
    "\<And>a. a \<in> set as \<Longrightarrow> tenant_of a = t \<Longrightarrow> batch_ok kec n rows a"
    using ok by (auto simp: tenant_ok_def)
  have "anchored_upto t n (rows @ [r])"
    using n(2,3) new ch by (auto simp: anchored_upto_def)
  moreover have "batch_ok kec n (rows @ [r]) a" if "a \<in> set as" "tenant_of a = t" for a
    using n(4) [OF that] slice_snoc [OF ch] that(2) by (auto simp: batch_ok_def)
  ultimately show ?thesis using n(1,2) by (auto simp: tenant_ok_def)
qed

lemma anchor_inv_emit:
  assumes inv: "anchor_inv sha kec s" and "wf_json p" and "e_sha E = sha"
  shows "anchor_inv sha kec (emit E k t p d a s)"
proof -
  let ?rows' = "audit (emit E k t p d a s)"
  have led: "ledger_inv sha ?rows'" using assms by (auto simp: anchor_inv_def emit_ledger_inv)
  have ch: "chain_from sha GENESIS_HASH 0 (tenant_rows u ?rows')" for u using led by (simp add: ledger_inv_def)
  consider "?rows' = audit s" | e where "?rows' = audit s @ [to_row e]"
    by (rule audit_emit_cases [of "e_sha E" "e_uuid E k" "e_now E k" t p "int_str d" a "audit s"])
      (auto simp: emit_def)
  then show ?thesis
  proof cases
    case 1
    then show ?thesis using inv by (simp add: anchor_inv_def)
  next
    case (2 e)
    have "tenant_ok kec (anchors s) ?rows' u" for u
      using tenant_ok_snoc [of kec "anchors s" "audit s" u "to_row e" sha] ch [of u] inv
      unfolding 2 by (simp add: anchor_inv_def to_row_def del: tenant_rows_simps)
    moreover have "in_batch (anchors s) r" if "r \<in> set ?rows'" for r
      using that inv unfolding 2 by (auto simp: anchor_inv_def in_batch_def to_row_def)
    ultimately show ?thesis using led inv by (simp add: anchor_inv_def)
  qed
qed

text \<open>Writing the PENDING batch of the events selected.\<close>

lemma anchor_inv_insert:
  assumes inv: "anchor_inv sha kec s" and fresh: "find_anchor (an_batch r) s = None"
    and ok: "\<And>n. 0 \<le> n \<Longrightarrow> anchored_upto (tenant_of r) n (audit s) \<Longrightarrow> batch_ok kec n (audit s) r"
  shows "anchor_inv sha kec (s\<lparr>anchors := anchors s @ [r]\<rparr>)"
proof -
  have "an_batch r \<notin> an_batch ` set (anchors s)"
    using fresh by (auto simp: find_anchor_def find_NoneD)
  moreover have "tenant_ok kec (anchors s @ [r]) (audit s) t" for t
  proof -
    have "tenant_ok kec (anchors s) (audit s) t" using inv by (simp add: anchor_inv_def)
    then show ?thesis using ok by (auto simp: tenant_ok_def)
  qed
  ultimately show ?thesis using inv by (auto simp: anchor_inv_def in_batch_def)
qed

lemma flush_begin_Started:
  assumes "flush_begin E st d force s = (Inr (Started rec leaves), s')"
  shows "an_district rec = d \<and> an_status rec = A_PENDING \<and> find_anchor (an_batch rec) s = None
    \<and> s' = s\<lparr>anchors := anchors s @ [rec]\<rparr>
    \<and> (let ev = unanchored (int_str d) (anchor_flush_batch_size st * 4) (audit s)
       in ev \<noteq> [] \<and> leaves = map snd ev \<and> an_first rec = fst (hd ev) \<and> an_last rec = fst (last ev)
          \<and> an_root rec = evm_root (e_kec E) leaves)
    \<and> an_batch rec = e_uuid E 0"
  using assms
  by (auto simp: flush_begin_def Let_def compute_merkle_root_evm_eq insert_anchor_row_def res_simps split: if_splits)

lemma flush_begin_other:
  "flush_begin E st d force s = (r, s') \<Longrightarrow> (\<And>rec leaves. r \<noteq> Inr (Started rec leaves)) \<Longrightarrow> s' = s"
  by (auto simp: flush_begin_def Let_def compute_merkle_root_evm_eq insert_anchor_row_def res_simps and_then_def
      split: if_splits)

lemma anchor_inv_begin:
  assumes inv: "anchor_inv sha kec s" and run: "flush_begin E st d force s = (r, s')" and "e_kec E = kec"
  shows "anchor_inv sha kec s'"
proof (cases "\<exists>rec leaves. r = Inr (Started rec leaves)")
  case False
  then show ?thesis using flush_begin_other [OF run] inv by auto
next
  case True
  then obtain rec leaves where r: "r = Inr (Started rec leaves)" by blast
  let ?ev = "unanchored (int_str d) (anchor_flush_batch_size st * 4) (audit s)"
  note b = flush_begin_Started [OF run [unfolded r], unfolded Let_def]
  have "batch_ok kec n (audit s) rec" if "0 \<le> n" "anchored_upto (tenant_of rec) n (audit s)" for n
    using unanchored_range(1,2,3,5) [OF anchor_inv_chain [OF inv] that(2,1)] that b assms(3)
    by (auto simp: batch_ok_def tenant_of_def Suc_leI)
  then have "anchor_inv sha kec (s\<lparr>anchors := anchors s @ [rec]\<rparr>)"
    using anchor_inv_insert [OF inv] b by blast
  then show ?thesis using b by simp
qed

text \<open>Updating a batch row.\<close>

definition same_batch :: "anchor \<Rightarrow> anchor \<Rightarrow> bool" where
  "same_batch a b \<longleftrightarrow> an_batch a = an_batch b \<and> an_district a = an_district b \<and> an_root a = an_root b
     \<and> an_first a = an_first b \<and> an_last a = an_last b"

lemma batch_ok_same: "same_batch a b \<Longrightarrow> batch_ok kec n rows a = batch_ok kec n rows b"
  by (simp add: same_batch_def batch_ok_def tenant_of_def)

lemma anchor_inv_update:
  assumes inv: "anchor_inv sha kec s" and f: "\<And>a. same_batch (f a) a"
  shows "anchor_inv sha kec (update_anchor b f s)"
proof -
  have keep: "an_batch (f a) = an_batch a" "tenant_of (f a) = tenant_of a"
    "an_first (f a) = an_first a" "an_last (f a) = an_last a" for a
    using f [of a] by (simp_all add: same_batch_def tenant_of_def)
  let ?as = "update_where (\<lambda>a. an_batch a = b) f (anchors s)"
  have d: "map an_batch ?as = map an_batch (anchors s)" by (rule map_update_where) (rule keep)
  have "(\<forall>a\<in>set ?as. tenant_of a = t \<longrightarrow> batch_ok kec n rows a)
      \<longleftrightarrow> (\<forall>a\<in>set (anchors s). tenant_of a = t \<longrightarrow> batch_ok kec n rows a)" for rows t n
    by (rule ball_update_where) (simp add: keep batch_ok_same [OF f])
  then have t: "tenant_ok kec ?as rows t = tenant_ok kec (anchors s) rows t" for rows t
    by (simp add: tenant_ok_def)
  have i: "in_batch ?as r = in_batch (anchors s) r" for r
    by (simp add: in_batch_def bex_update_where keep)
  have s: "anchors (update_anchor b f s) = ?as" "audit (update_anchor b f s) = audit s"
    by (simp_all add: update_anchor_def)
  show ?thesis using inv unfolding anchor_inv_def s d t i .
qed

text \<open>Marking a range: only rows above the anchored prefix are left in it, and they extend it.\<close>

lemma slice_marked:
  "map ae_payload_hash (slice t a b (update_where p (\<lambda>r. r\<lparr>ae_anchored := x\<rparr>) rows)) = map ae_payload_hash (slice t a b rows)"
  unfolding slice_def by (subst filter_update_where) (simp_all add: in_range_def map_update_where)

lemma tenant_rows_marked:
  "tenant_rows t (update_where p (\<lambda>r. r\<lparr>ae_anchored := x\<rparr>) rows) = update_where p (\<lambda>r. r\<lparr>ae_anchored := x\<rparr>) (tenant_rows t rows)"
  by (rule tenant_rows_update_where) simp

lemma batch_ok_marked:
  assumes "batch_ok kec n rows a" "n \<le> n'"
  shows "batch_ok kec n' (update_where p (\<lambda>r. r\<lparr>ae_anchored := x\<rparr>) rows) a"
  using assms by (simp add: batch_ok_def slice_marked tenant_rows_marked)

definition marked :: "anchor \<Rightarrow> audit_row list \<Rightarrow> audit_row list" where
  "marked a rows = update_where (\<lambda>r. in_range (tenant_of a) (an_first a) (an_last a) r \<and> ae_anchored r = None)
     (\<lambda>r. r\<lparr>ae_anchored := Some (an_batch a)\<rparr>) rows"

lemma tenant_ok_marked:
  assumes ok: "tenant_ok kec as rows t" and a: "a \<in> set as"
  shows "tenant_ok kec as (marked a rows) t"
proof -
  obtain n where n: "0 \<le> n" "n \<le> int (length (tenant_rows t rows))" "anchored_upto t n rows"
    and bs: "\<And>a. a \<in> set as \<Longrightarrow> tenant_of a = t \<Longrightarrow> batch_ok kec n rows a"
    using ok by (auto simp: tenant_ok_def)
  define m where "m = (if tenant_of a = t then max n (an_last a) else n)"
  have b: "batch_ok kec n rows a" if "tenant_of a = t" using bs [OF a that] .
  have "n \<le> m" "0 \<le> m" "m \<le> int (length (tenant_rows t (marked a rows)))"
    using n b by (auto simp: m_def marked_def tenant_rows_marked batch_ok_def)
  moreover have "anchored_upto t m (marked a rows)"
    unfolding anchored_upto_def
  proof
    fix r
    assume "r \<in> set (tenant_rows t (marked a rows))"
    then obtain r0 where r0: "r0 \<in> set (tenant_rows t rows)"
      and r: "r = (if in_range (tenant_of a) (an_first a) (an_last a) r0 \<and> ae_anchored r0 = None
                   then r0\<lparr>ae_anchored := Some (an_batch a)\<rparr> else r0)"
      by (auto simp: marked_def tenant_rows_marked set_update_where)
    have "ae_tenant r0 = t" using r0 by (simp add: tenant_rows_def)
    moreover have "ae_anchored r0 \<noteq> None \<longleftrightarrow> ae_seq r0 \<le> n" using r0 n(3) by (simp add: anchored_upto_def)
    ultimately show "ae_anchored r \<noteq> None \<longleftrightarrow> ae_seq r \<le> m"
      using b by (auto simp: r m_def in_range_def batch_ok_def)
  qed
  moreover have "batch_ok kec m (marked a rows) c" if "c \<in> set as" "tenant_of c = t" for c
    using batch_ok_marked [OF bs [OF that] \<open>n \<le> m\<close>] by (simp add: marked_def)
  ultimately show ?thesis by (auto simp: tenant_ok_def)
qed

lemma anchor_inv_marked:
  assumes inv: "anchor_inv sha kec s" and a: "a \<in> set (anchors s)"
  shows "anchor_inv sha kec (s\<lparr>audit := marked a (audit s)\<rparr>)"
proof -
  have "\<exists>n. mark_anchored [an_batch a] (tenant_of a) (an_first a) (an_last a) (an_batch a) (audit s) = (Inr n, marked a (audit s))"
    by (simp add: mark_anchored_def marked_def Let_def)
  then have "ledger_inv sha (marked a (audit s))"
    using inv mark_anchored_inv unfolding anchor_inv_def by blast
  moreover have "in_batch (anchors s) r" if mem: "r \<in> set (marked a (audit s))" for r
  proof -
    obtain r0 where "r0 \<in> set (audit s)"
      and r: "r = (if in_range (tenant_of a) (an_first a) (an_last a) r0 \<and> ae_anchored r0 = None
                   then r0\<lparr>ae_anchored := Some (an_batch a)\<rparr> else r0)"
      using mem unfolding marked_def set_update_where by blast
    then have "in_batch (anchors s) r0" using inv by (simp add: anchor_inv_def)
    then show ?thesis using a by (auto simp: r in_batch_def in_range_def)
  qed
  ultimately show ?thesis using inv a by (simp add: anchor_inv_def tenant_ok_marked)
qed

text \<open>The second half of a flush, for any batch that the first half wrote.\<close>

definition recorded :: "anchor \<Rightarrow> anchor_receipt \<Rightarrow> db \<Rightarrow> db" where
  "recorded rec r s = update_anchor (an_batch rec)
     (\<lambda>a. a\<lparr>an_tx := Some (rc_tx r), an_block := rc_block r, an_confirmed := rc_confirmed r, an_status := rc_status r\<rparr>) s"

lemma recorded_has:
  assumes "a \<in> set (anchors s)" "same_batch a rec"
  shows "\<exists>c\<in>set (anchors (recorded rec r s)). same_batch c rec \<and> an_status c = rc_status r"
proof (rule bexI)
  let ?c = "a\<lparr>an_tx := Some (rc_tx r), an_block := rc_block r, an_confirmed := rc_confirmed r, an_status := rc_status r\<rparr>"
  show "same_batch ?c rec \<and> an_status ?c = rc_status r" using assms(2) by (simp add: same_batch_def)
  show "?c \<in> set (anchors (recorded rec r s))"
    using assms by (auto simp: recorded_def update_anchor_def set_update_where same_batch_def)
qed

lemma marked_same: "same_batch c rec \<Longrightarrow> marked c rows = marked rec rows"
  by (simp add: marked_def same_batch_def tenant_of_def)

lemma flush_end_receipt:
  assumes "a \<in> set (anchors s)" "same_batch a rec"
  shows "flush_end E rec leaves (Inr r) s =
    (Inr (Flush_done r),
     emit E 4 ''ANCHOR_COMMITTED'' (commit_event rec (compute_merkle_root (e_sha E) leaves) r) (an_district rec)
       ''system:anchor_service'' ((recorded rec r s)\<lparr>audit := marked rec (audit s)\<rparr>))"
proof -
  obtain c where "c \<in> set (anchors (recorded rec r s))" "same_batch c rec"
    using recorded_has [OF assms] by blast
  then have "an_batch rec \<in> set (map an_batch (anchors (recorded rec r s)))"
    by (auto simp: same_batch_def intro: rev_image_eqI)
  then show ?thesis
    by (simp add: flush_end_def mark_anchored_def marked_def recorded_def [symmetric] tenant_of_def Let_def)
      (simp add: recorded_def)
qed

lemma flush_end_error:
  "flush_end E rec leaves (Inl e) s =
     (Inr (if e = CircuitOpenError then Flush_breaker_open rec else Flush_failed rec (e_exc E e)),
      update_anchor (an_batch rec) (\<lambda>a. a\<lparr>an_status := (if e = CircuitOpenError then A_PENDING else A_FAILED)\<rparr>) s)"
  by (cases e) (simp_all add: flush_end_def)

lemma wf_commit_event [simp]: "wf_json (commit_event rec rt r)"
  by (cases "rc_block r") (simp_all add: commit_event_def jopt_def)

lemma anchor_inv_end:
  assumes inv: "anchor_inv sha kec s" and a: "a \<in> set (anchors s)" "same_batch a rec" and sha: "e_sha E = sha"
  shows "anchor_inv sha kec (snd (flush_end E rec leaves r s))"
proof (cases r)
  case (Inl e)
  have "anchor_inv sha kec (snd (flush_end E rec leaves (Inl e) s))"
    unfolding flush_end_error snd_conv by (rule anchor_inv_update [OF inv]) (simp add: same_batch_def)
  then show ?thesis by (simp add: Inl)
next
  case (Inr x)
  have rec: "anchor_inv sha kec (recorded rec x s)"
    unfolding recorded_def by (rule anchor_inv_update [OF inv]) (simp add: same_batch_def)
  obtain c where c: "c \<in> set (anchors (recorded rec x s))" "same_batch c rec" using recorded_has [OF a] by blast
  have au: "audit (recorded rec x s) = audit s" by (simp add: recorded_def)
  have "anchor_inv sha kec ((recorded rec x s)\<lparr>audit := marked rec (audit s)\<rparr>)"
    using anchor_inv_marked [OF rec c(1)] by (simp add: au marked_same [OF c(2)])
  then show ?thesis by (simp add: Inr flush_end_receipt [OF a] anchor_inv_emit sha)
qed

text \<open>The end of a flush changes the row of its batch only, and calls it CONFIRMED only when the receipt does.\<close>

lemma flush_end_updates:
  assumes "a \<in> set (anchors s)" "same_batch a rec" "flush_end E rec leaves r s = (out, s')"
  obtains g where "anchors s' = update_where (\<lambda>a. an_batch a = an_batch rec) g (anchors s)"
    and "\<And>a. same_batch (g a) a" and "\<And>a. an_status (g a) = A_CONFIRMED \<Longrightarrow> \<exists>x. r = Inr x \<and> rc_status x = A_CONFIRMED"
proof (cases r)
  case (Inl e)
  let ?st = "if e = CircuitOpenError then A_PENDING else A_FAILED"
  have "anchors s' = update_where (\<lambda>a. an_batch a = an_batch rec) (\<lambda>a. a\<lparr>an_status := ?st\<rparr>) (anchors s)"
    using assms(3) Inl by (auto simp: flush_end_error update_anchor_def)
  then show thesis by (rule that) (simp_all add: same_batch_def split: if_splits)
next
  case (Inr x)
  have "anchors s' = update_where (\<lambda>a. an_batch a = an_batch rec)
      (\<lambda>a. a\<lparr>an_tx := Some (rc_tx x), an_block := rc_block x, an_confirmed := rc_confirmed x, an_status := rc_status x\<rparr>) (anchors s)"
    using assms(3) Inr by (auto simp: flush_end_receipt [OF assms(1,2)] recorded_def update_anchor_def)
  then show thesis by (rule that) (simp_all add: same_batch_def Inr)
qed

lemma anchor_inv_flush:
  assumes inv: "anchor_inv (e_sha E) (e_kec E) (as_db s)"
  shows "anchor_inv (e_sha E) (e_kec E) (as_db (snd (flush_district E st client d force s)))"
proof -
  obtain r db1 where b: "flush_begin E st d force (as_db s) = (r, db1)" by (cases "flush_begin E st d force (as_db s)")
  have inv1: "anchor_inv (e_sha E) (e_kec E) db1" using anchor_inv_begin [OF inv b] by simp
  show ?thesis
  proof (cases "\<exists>rec leaves. r = Inr (Started rec leaves)")
    case False
    then show ?thesis using b inv1 by (auto simp: flush_district_def split: sum.splits flush_start.splits)
  next
    case True
    then obtain rec leaves where r: "r = Inr (Started rec leaves)" by blast
    have "rec \<in> set (anchors db1)" using flush_begin_Started [OF b [unfolded r]] by simp
    then have "anchor_inv (e_sha E) (e_kec E) (snd (flush_end E rec leaves x db1))" for x
      by (intro anchor_inv_end [OF inv1 _ _ refl]) (simp_all add: same_batch_def)
    then show ?thesis
      using b by (auto simp: flush_district_def r split: prod.splits) (metis snd_conv)
  qed
qed

section \<open>Proofs of anchored events\<close>

lemma chain_from_hash: "chain_from sha p n R \<Longrightarrow> r \<in> set R \<Longrightarrow> ae_payload_hash r = sha256_hex sha (ae_payload r)"
  by (induction R arbitrary: p n) auto

lemma hexdig_not_x [simp]: "n < 16 \<Longrightarrow> hexdig n \<noteq> CHR ''x''"
  by (drule nat_lt_16_cases) (auto simp: hexdig_def)

lemma removeprefix_hex_str [simp]: "removeprefix ''0x'' (hex_str bs) = hex_str bs"
  by (cases bs) (auto simp: removeprefix_def dest: sym)

lemma tenant_seq_unique:
  assumes ch: "chain_from sha GENESIS_HASH 0 (tenant_rows t rows)" and "e \<in> set rows" "r \<in> set rows"
    and "ae_tenant e = t" "ae_tenant r = t" "ae_seq e = ae_seq r"
  shows "e = r"
proof -
  have "distinct (map ae_seq (tenant_rows t rows))" using ch by (rule chain_from_distinct)
  moreover have "e \<in> set (tenant_rows t rows)" "r \<in> set (tenant_rows t rows)"
    using assms by (simp_all add: tenant_rows_def)
  ultimately show ?thesis using assms(6) by (metis distinct_map inj_onD)
qed

lemma takeWhile_index:
  assumes "x \<in> set xs" "k x = v"
  shows "length (takeWhile (\<lambda>y. k y \<noteq> v) xs) < length xs"
    and "k (xs ! length (takeWhile (\<lambda>y. k y \<noteq> v) xs)) = v"
  using assms by (induction xs) auto

lemma find_anchor_in:
  "distinct (map an_batch (anchors s)) \<Longrightarrow> a \<in> set (anchors s) \<Longrightarrow> find_anchor (an_batch a) s = Some a"
  by (simp add: find_anchor_def find_key_unique)

lemma build_proof_sound:
  assumes inv: "anchor_inv sha kec s" and r: "r \<in> set (audit s)" "ae_tenant r = int_str d" "ae_anchored r = Some b"
  shows "\<exists>a p. find_anchor b s = Some a \<and> build_proof_for_event kec d (ae_seq r) s = Inr (Some p)
    \<and> mp_batch p = b \<and> mp_root p = an_root a \<and> mp_leaf p = keccak_hex kec (sha256_hex sha (ae_payload r))
    \<and> verify_merkle_proof_evm kec (mp_leaf p) (mp_siblings p) (mp_root p) = Inr True
    \<and> hexed kec (mp_leaf p) \<and> list_all (hexed kec) (mp_siblings p) \<and> hexed kec (mp_root p)"
proof -
  have ch: "chain_from sha GENESIS_HASH 0 (tenant_rows (int_str d) (audit s))" using anchor_inv_chain [OF inv] .
  obtain a where a: "a \<in> set (anchors s)" "an_batch a = b" and rng: "in_range (tenant_of a) (an_first a) (an_last a) r"
    using inv r unfolding anchor_inv_def in_batch_def by blast
  have fa: "find_anchor b s = Some a" using find_anchor_in [OF _ a(1)] inv a(2) by (simp add: anchor_inv_def)
  have ten: "tenant_of a = int_str d" using rng r(2) by (simp add: in_range_def)
  obtain n where ok: "batch_ok kec n (audit s) a"
    using inv a(1) ten unfolding anchor_inv_def tenant_ok_def by blast
  have row: "find (anchored_row d (ae_seq r) s) (audit s) = Some r"
  proof -
    have "anchored_row d (ae_seq r) s r" using r fa by (simp add: anchored_row_def)
    then obtain e where e: "find (anchored_row d (ae_seq r) s) (audit s) = Some e"
      using r(1) by (cases "find (anchored_row d (ae_seq r) s) (audit s)") (auto simp: find_NoneD)
    then have "e \<in> set (audit s)" "anchored_row d (ae_seq r) s e" by (auto dest: find_SomeD)
    then have "e = r" using tenant_seq_unique [OF ch _ r(1) _ r(2)] by (auto simp: anchored_row_def)
    then show ?thesis using e by simp
  qed
  let ?rows = "slice (int_str d) (an_first a) (an_last a) (audit s)"
  let ?leaves = "map ae_payload_hash ?rows"
  let ?i = "length (takeWhile (\<lambda>x. ae_seq x \<noteq> ae_seq r) ?rows)"
  have sorted: "sort_key ae_seq (filter (in_range (int_str d) (an_first a) (an_last a)) (audit s)) = ?rows"
    using slice_sorted [OF ch] by (simp add: slice_def)
  have "r \<in> set ?rows" using r(1) rng ten by (simp add: slice_def)
  then have i: "?i < length ?rows" "ae_seq (?rows ! ?i) = ae_seq r"
    by (rule takeWhile_index [OF _ refl])+
  have mem: "?rows ! ?i \<in> set (audit s)" "ae_tenant (?rows ! ?i) = int_str d"
    using nth_mem [OF i(1)] by (auto simp: slice_def in_range_def)
  have "?rows ! ?i = r" by (rule tenant_seq_unique [OF ch mem(1) r(1) mem(2) r(2) i(2)])
  then have leaf: "?leaves ! ?i = sha256_hex sha (ae_payload r)"
    using i(1) chain_from_hash [OF ch, of r] r by (simp add: tenant_rows_def)
  obtain p where p: "merkle_proof_evm kec ?leaves (int ?i) = Inr p" "ep_leaf p = keccak_hex kec (sha256_hex sha (ae_payload r))"
    using i(1) leaf by (simp add: merkle_proof_evm_eq sha256_hex_def hex_simps)
  have "verify_merkle_proof_evm kec (ep_leaf p) (ep_siblings p) (evm_root kec ?leaves) = Inr True"
    by (rule proof_reaches_evm_root [OF _ _ p(1)]) (use i(1) in simp_all)
  moreover have "an_root a = evm_root kec ?leaves" using ok ten by (simp add: batch_ok_def)
  moreover have "hexed kec (ep_leaf p) \<and> list_all (hexed kec) (ep_siblings p) \<and> hexed kec (ep_root p)"
    by (rule merkle_proof_evm_hexed [OF _ _ p(1)]) (use i(1) in simp_all)
  moreover have "ep_root p = evm_root kec ?leaves"
    using i(1) p(1) by (auto simp: merkle_proof_evm_eq)
  ultimately show ?thesis
    using row r(3) fa i(1) p a(2) by (simp add: build_proof_for_event_def sorted Let_def)
qed

section \<open>The system: tables, chain and flushes in flight\<close>

text \<open>
  A flight is a flush between its two halves: its batch, its leaves, and what the guarded call
  returned once it has.
\<close>

section \<open>The system: tables, chain and flushes in flight\<close>

text \<open>
  A flight is a flush between its two halves: its batch, its leaves, and what the guarded call
  returned once it has.  The steps are the atomic sections: the ledger grows; something else
  happens in the backend that touches neither table; a flush starts; its commit reaches the
  chain, or the open breaker refuses it; the answer is recorded.
\<close>

record flight =
  fl_batch :: anchor
  fl_leaves :: "string list"
  fl_answer :: "anchor_receipt res option"

record 'c sys =
  sy_db :: db
  sy_chain :: 'c
  sy_flights :: "flight list"

inductive sys_step :: "(bytes \<Rightarrow> bytes) \<Rightarrow> (bytes \<Rightarrow> bytes) \<Rightarrow> 'c chain_client \<Rightarrow> 'c sys \<Rightarrow> 'c sys \<Rightarrow> bool"
  for sha kec client where
  event: "wf_json p \<Longrightarrow> e_sha (E :: unit env) = sha \<Longrightarrow>
    sys_step sha kec client s (s\<lparr>sy_db := emit E k t p d a (sy_db s)\<rparr>)"
| elsewhere: "audit db' = audit (sy_db s) \<Longrightarrow> anchors db' = anchors (sy_db s) \<Longrightarrow>
    sys_step sha kec client s (s\<lparr>sy_db := db'\<rparr>)"
| start: "e_kec (E :: unit env) = kec \<Longrightarrow> flush_begin E st d force (sy_db s) = (Inr (Started rec leaves), db') \<Longrightarrow>
    sys_step sha kec client s (s\<lparr>sy_db := db', sy_flights := \<lparr>fl_batch = rec, fl_leaves = leaves, fl_answer = None\<rparr> # sy_flights s\<rparr>)"
| commit: "sy_flights s = xs @ f # ys \<Longrightarrow> fl_answer f = None \<Longrightarrow>
    cl_commit client clk (an_batch (fl_batch f)) (an_district (fl_batch f)) (an_root (fl_batch f)) (sy_chain s) = (r, c') \<Longrightarrow>
    sys_step sha kec client s (s\<lparr>sy_chain := c', sy_flights := xs @ f\<lparr>fl_answer := Some r\<rparr> # ys\<rparr>)"
| refuse: "sy_flights s = xs @ f # ys \<Longrightarrow> fl_answer f = None \<Longrightarrow>
    sys_step sha kec client s (s\<lparr>sy_flights := xs @ f\<lparr>fl_answer := Some (Inl CircuitOpenError)\<rparr> # ys\<rparr>)"
| finish: "sy_flights s = xs @ f # ys \<Longrightarrow> fl_answer f = Some r \<Longrightarrow> e_sha (E :: unit env) = sha \<Longrightarrow>
    flush_end E (fl_batch f) (fl_leaves f) r (sy_db s) = (out, db') \<Longrightarrow>
    sys_step sha kec client s (s\<lparr>sy_db := db', sy_flights := xs @ ys\<rparr>)"

inductive sys_reach :: "(bytes \<Rightarrow> bytes) \<Rightarrow> (bytes \<Rightarrow> bytes) \<Rightarrow> 'c chain_client \<Rightarrow> 'c sys \<Rightarrow> bool"
  for sha kec client where
  init: "audit db = [] \<Longrightarrow> anchors db = [] \<Longrightarrow> sys_reach sha kec client \<lparr>sy_db = db, sy_chain = c, sy_flights = []\<rparr>"
| step: "sys_reach sha kec client s \<Longrightarrow> sys_step sha kec client s s' \<Longrightarrow> sys_reach sha kec client s'"

lemma anchor_inv_empty: "audit s = [] \<Longrightarrow> anchors s = [] \<Longrightarrow> anchor_inv sha kec s"
  by (auto simp: anchor_inv_def ledger_inv_def tenant_ok_def anchored_upto_def intro!: exI [of _ 0])

text \<open>What holds of a flight: its batch row is there, still PENDING.\<close>

definition pending_row :: "anchor list \<Rightarrow> anchor \<Rightarrow> bool" where
  "pending_row as rec \<longleftrightarrow> (\<exists>a\<in>set as. same_batch a rec \<and> an_status a = A_PENDING)"

lemma pending_row_update_other:
  assumes "pending_row as rec" "an_batch rec \<noteq> b"
  shows "pending_row (update_where (\<lambda>a. an_batch a = b) f as) rec"
proof -
  obtain a where a: "a \<in> set as" "same_batch a rec" "an_status a = A_PENDING" using assms by (auto simp: pending_row_def)
  then have "a \<in> set (update_where (\<lambda>a. an_batch a = b) f as)"
    using assms(2) by (auto simp: set_update_where same_batch_def intro!: bexI [of _ a])
  then show ?thesis using a by (auto simp: pending_row_def)
qed

lemma batch_unique:
  "distinct (map an_batch as) \<Longrightarrow> a \<in> set as \<Longrightarrow> b \<in> set as \<Longrightarrow> an_batch a = an_batch b \<Longrightarrow> a = b"
  by (metis distinct_map inj_onD)

lemma flights_unique:
  "distinct (map (an_batch \<circ> fl_batch) (xs @ f # ys)) \<Longrightarrow> g \<in> set xs \<union> set ys
   \<Longrightarrow> an_batch (fl_batch g) \<noteq> an_batch (fl_batch f)"
  by (auto simp: comp_def dest: sym intro: rev_image_eqI)

context chain_contract
begin

definition flight_ok :: "db \<Rightarrow> 'c \<Rightarrow> flight \<Rightarrow> bool" where
  "flight_ok db c f \<longleftrightarrow> pending_row (anchors db) (fl_batch f)
     \<and> (\<forall>r. fl_answer f = Some (Inr r) \<longrightarrow> rc_status r = A_CONFIRMED
          \<longrightarrow> attests (an_batch (fl_batch f)) (an_root (fl_batch f)) c)"

definition attested :: "db \<Rightarrow> 'c \<Rightarrow> bool" where
  "attested db c \<longleftrightarrow> (\<forall>a\<in>set (anchors db). an_status a = A_CONFIRMED \<longrightarrow> attests (an_batch a) (an_root a) c)"

definition sys_inv :: "(bytes \<Rightarrow> bytes) \<Rightarrow> 'c sys \<Rightarrow> bool" where
  "sys_inv sha s \<longleftrightarrow> anchor_inv sha kec (sy_db s) \<and> attested (sy_db s) (sy_chain s)
     \<and> distinct (map (an_batch \<circ> fl_batch) (sy_flights s))
     \<and> (\<forall>f\<in>set (sy_flights s). flight_ok (sy_db s) (sy_chain s) f)"

lemma start_inv:
  assumes inv: "sys_inv sha s" and kec: "e_kec E = kec"
    and run: "flush_begin E st d force (sy_db s) = (Inr (Started rec leaves), db')"
  shows "sys_inv sha (s\<lparr>sy_db := db', sy_flights := \<lparr>fl_batch = rec, fl_leaves = leaves, fl_answer = None\<rparr> # sy_flights s\<rparr>)"
proof -
  note b = flush_begin_Started [OF run]
  have fresh: "a \<in> set (anchors (sy_db s)) \<Longrightarrow> an_batch a \<noteq> an_batch rec" for a
    using b by (auto simp: find_anchor_def find_NoneD)
  have "anchor_inv sha kec db'" using inv anchor_inv_begin [OF _ run kec] by (simp add: sys_inv_def)
  moreover have "attested db' (sy_chain s)" using inv b by (auto simp: sys_inv_def attested_def)
  moreover have "an_batch (fl_batch f) \<noteq> an_batch rec \<and> flight_ok db' (sy_chain s) f" if "f \<in> set (sy_flights s)" for f
  proof -
    have f: "flight_ok (sy_db s) (sy_chain s) f" using inv that by (simp add: sys_inv_def)
    then show ?thesis using fresh b by (auto simp: flight_ok_def pending_row_def same_batch_def)
  qed
  moreover have "flight_ok db' (sy_chain s) \<lparr>fl_batch = rec, fl_leaves = leaves, fl_answer = None\<rparr>"
    using b by (auto simp: flight_ok_def pending_row_def same_batch_def)
  ultimately show ?thesis using inv by (fastforce simp: sys_inv_def)
qed

lemma answer_inv:
  assumes inv: "sys_inv sha s" and fl: "sy_flights s = xs @ f # ys"
    and other: "\<And>b rt. b \<noteq> an_batch (fl_batch f) \<Longrightarrow> attests b rt (sy_chain s) \<Longrightarrow> attests b rt c'"
    and mine: "\<And>x. r = Inr x \<Longrightarrow> rc_status x = A_CONFIRMED \<Longrightarrow> attests (an_batch (fl_batch f)) (an_root (fl_batch f)) c'"
  shows "sys_inv sha (s\<lparr>sy_chain := c', sy_flights := xs @ f\<lparr>fl_answer := Some r\<rparr> # ys\<rparr>)"
proof -
  have dist: "distinct (map an_batch (anchors (sy_db s)))" using inv by (simp add: sys_inv_def anchor_inv_def)
  have f: "flight_ok (sy_db s) (sy_chain s) f" using inv fl by (simp add: sys_inv_def)
  then obtain a where a: "a \<in> set (anchors (sy_db s))" "same_batch a (fl_batch f)" "an_status a = A_PENDING"
    by (auto simp: flight_ok_def pending_row_def)
  have "attested (sy_db s) c'"
    unfolding attested_def
  proof (intro ballI impI)
    fix b
    assume b: "b \<in> set (anchors (sy_db s))" "an_status b = A_CONFIRMED"
    then have "an_batch b \<noteq> an_batch (fl_batch f)"
      using a batch_unique [OF dist a(1) b(1)] by (auto simp: same_batch_def)
    then show "attests (an_batch b) (an_root b) c'"
      using inv b other by (auto simp: sys_inv_def attested_def)
  qed
  moreover have "flight_ok (sy_db s) c' g" if "g \<in> set xs \<union> set ys" for g
  proof -
    have "flight_ok (sy_db s) (sy_chain s) g" using inv fl that by (auto simp: sys_inv_def)
    moreover have "an_batch (fl_batch g) \<noteq> an_batch (fl_batch f)"
      by (rule flights_unique [OF _ that]) (use inv fl in \<open>simp add: sys_inv_def\<close>)
    ultimately show ?thesis using other by (auto simp: flight_ok_def)
  qed
  moreover have "flight_ok (sy_db s) c' (f\<lparr>fl_answer := Some r\<rparr>)" using f mine by (auto simp: flight_ok_def)
  ultimately show ?thesis using inv fl by (auto simp: sys_inv_def)
qed

lemma finish_inv:
  assumes inv: "sys_inv sha s" and fl: "sy_flights s = xs @ f # ys" and ans: "fl_answer f = Some r"
    and sha: "e_sha E = sha" and run: "flush_end E (fl_batch f) (fl_leaves f) r (sy_db s) = (out, db')"
  shows "sys_inv sha (s\<lparr>sy_db := db', sy_flights := xs @ ys\<rparr>)"
proof -
  have f: "flight_ok (sy_db s) (sy_chain s) f" using inv fl by (simp add: sys_inv_def)
  then obtain a where a: "a \<in> set (anchors (sy_db s))" "same_batch a (fl_batch f)"
    by (auto simp: flight_ok_def pending_row_def)
  have "anchor_inv sha kec db'"
    using anchor_inv_end [OF _ a sha, of kec "fl_leaves f" r] inv run by (simp add: sys_inv_def)
  moreover obtain g where g: "anchors db' = update_where (\<lambda>a. an_batch a = an_batch (fl_batch f)) g (anchors (sy_db s))"
    and same: "\<And>a. same_batch (g a) a"
    and conf: "\<And>a. an_status (g a) = A_CONFIRMED \<Longrightarrow> \<exists>x. r = Inr x \<and> rc_status x = A_CONFIRMED"
    using flush_end_updates [OF a run] by metis
  have "attested db' (sy_chain s)"
    unfolding attested_def
  proof (intro ballI impI)
    fix b
    assume b: "b \<in> set (anchors db')" "an_status b = A_CONFIRMED"
    then obtain b0 where b0: "b0 \<in> set (anchors (sy_db s))" "b = (if an_batch b0 = an_batch (fl_batch f) then g b0 else b0)"
      unfolding g set_update_where by blast
    show "attests (an_batch b) (an_root b) (sy_chain s)"
    proof (cases "an_batch b0 = an_batch (fl_batch f)")
      case True
      then have "b0 = a"
        using batch_unique [of "anchors (sy_db s)" b0 a] b0(1) a inv
        by (auto simp: sys_inv_def anchor_inv_def same_batch_def)
      then have "an_root b = an_root (fl_batch f)" "an_batch b = an_batch (fl_batch f)"
        using b0(2) True same [of b0] a(2) by (auto simp: same_batch_def)
      moreover obtain x where "r = Inr x" "rc_status x = A_CONFIRMED" using conf b(2) b0(2) True by auto
      ultimately show ?thesis using f ans by (auto simp: flight_ok_def)
    next
      case False
      then show ?thesis using b b0 inv by (auto simp: sys_inv_def attested_def)
    qed
  qed
  moreover have "flight_ok db' (sy_chain s) h" if "h \<in> set xs \<union> set ys" for h
  proof -
    have "flight_ok (sy_db s) (sy_chain s) h" using inv fl that by (auto simp: sys_inv_def)
    moreover have "an_batch (fl_batch h) \<noteq> an_batch (fl_batch f)"
      by (rule flights_unique [OF _ that]) (use inv fl in \<open>simp add: sys_inv_def\<close>)
    ultimately show ?thesis by (auto simp: flight_ok_def g pending_row_update_other)
  qed
  ultimately show ?thesis using inv fl by (auto simp: sys_inv_def)
qed

lemma sys_step_inv: "sys_step sha kec client s s' \<Longrightarrow> sys_inv sha s \<Longrightarrow> sys_inv sha s'"
proof (induction rule: sys_step.induct)
  case (event p E s k t d a)
  then show ?case by (simp add: sys_inv_def attested_def flight_ok_def anchor_inv_emit)
next
  case (elsewhere db' s)
  then show ?case by (simp add: sys_inv_def attested_def flight_ok_def anchor_inv_cong [of db' "sy_db s"])
next
  case (start E st d force s rec leaves db')
  then show ?case using start_inv by blast
next
  case (commit s xs f ys clk r c')
  show ?case
    by (rule answer_inv [OF commit.prems commit.hyps(1)])
      (use commit.hyps(3) attests_kept commit_attests in blast)+
next
  case (refuse s xs f ys)
  have "sys_inv sha (s\<lparr>sy_chain := sy_chain s, sy_flights := xs @ f\<lparr>fl_answer := Some (Inl CircuitOpenError)\<rparr> # ys\<rparr>)"
    by (rule answer_inv [OF refuse.prems refuse.hyps(1)]) simp_all
  then show ?case by simp
next
  case (finish s xs f ys r E out db')
  then show ?case using finish_inv by blast
qed

lemma sys_reach_inv: "sys_reach sha kec client s \<Longrightarrow> sys_inv sha s"
proof (induction rule: sys_reach.induct)
  case (init db c)
  then show ?case by (simp add: sys_inv_def attested_def anchor_inv_empty)
next
  case (step s s')
  then show ?case using sys_step_inv by blast
qed

text \<open>Whoever holds a confirmed batch can have every event in it verified on the chain.\<close>

lemma confirmed_event_verifies:
  assumes "sys_reach sha kec client s" and r: "r \<in> set (audit (sy_db s))" "ae_tenant r = int_str d"
    and a: "a \<in> set (anchors (sy_db s))" "ae_anchored r = Some (an_batch a)" "an_status a = A_CONFIRMED"
  shows "\<exists>p. build_proof_for_event kec d (ae_seq r) (sy_db s) = Inr (Some p)
    \<and> cl_verify client (mp_batch p) (mp_leaf p) (mp_siblings p) (sy_chain s) = Inr True"
proof -
  have inv: "sys_inv sha s" using sys_reach_inv assms(1) .
  have ai: "anchor_inv sha kec (sy_db s)" using inv by (simp add: sys_inv_def)
  obtain a' p where p: "find_anchor (an_batch a) (sy_db s) = Some a'"
    "build_proof_for_event kec d (ae_seq r) (sy_db s) = Inr (Some p)"
    "mp_batch p = an_batch a" "mp_root p = an_root a'"
    "verify_merkle_proof_evm kec (mp_leaf p) (mp_siblings p) (mp_root p) = Inr True"
    and digests: "hexed kec (mp_leaf p)" "list_all (hexed kec) (mp_siblings p)" "hexed kec (mp_root p)"
    using build_proof_sound [OF ai r a(2)] by blast
  have "a' = a" using p(1) find_anchor_in [OF _ a(1)] ai by (simp add: anchor_inv_def)
  moreover have "attests (an_batch a) (an_root a) (sy_chain s)"
    using inv a(1,3) by (simp add: sys_inv_def attested_def)
  ultimately show ?thesis using p attests_verdict [of _ _ _ "mp_leaf p" "mp_siblings p"] digests by auto
qed

end

end
