(* ===== verification/Ops.thy ===== *)
theory Ops
  imports Jobs Owners Anchor_Safety
begin

text \<open>
  The state of one backend process, and the routers \<open>backend/app/routers/admin.py\<close>,
  \<open>backend/app/routers/demo.py\<close> and \<open>backend/app/routers/health.py\<close> that look at it as a whole.
\<close>

section \<open>The backend process\<close>

text \<open>
  The database, the module-level circuit breakers of NIRA and of the anchor service, the in-process
  cache of \<open>util/cache.py\<close>, the chain, and the clocks the two background loops keep.
\<close>

record 'c backend =
  be_db :: db
  be_nira :: breaker
  be_cache :: cache
  be_anchor :: breaker
  be_chain :: 'c
  be_sweep :: time
  be_parity :: time

text \<open>A component works on its part of the process and leaves the rest.\<close>

definition on_db :: "(db \<Rightarrow> ('a, db) outcome) \<Rightarrow> 'c backend \<Rightarrow> ('a, 'c backend) outcome" where
  "on_db f b = (case f (be_db b) of (r, d) \<Rightarrow> (r, b\<lparr>be_db := d\<rparr>))"

definition on_nira :: "(nira_state \<Rightarrow> ('a, nira_state) outcome) \<Rightarrow> 'c backend \<Rightarrow> ('a, 'c backend) outcome" where
  "on_nira f b =
     (case f \<lparr>n_db = be_db b, n_breaker = be_nira b, n_cache = be_cache b\<rparr> of
        (r, n) \<Rightarrow> (r, b\<lparr>be_db := n_db n, be_nira := n_breaker n, be_cache := n_cache n\<rparr>))"

definition on_anchor :: "('c anchor_state \<Rightarrow> ('a, 'c anchor_state) outcome) \<Rightarrow> 'c backend \<Rightarrow> ('a, 'c backend) outcome" where
  "on_anchor f b =
     (case f \<lparr>as_db = be_db b, as_breaker = be_anchor b, as_chain = be_chain b\<rparr> of
        (r, a) \<Rightarrow> (r, b\<lparr>be_db := as_db a, be_anchor := as_breaker a, be_chain := as_chain a\<rparr>))"

section \<open>admin.py\<close>

record district_request =
  cd_id :: int
  cd_name :: string
  cd_region :: string

definition district_request_ok :: "district_request \<Rightarrow> bool" where
  "district_request_ok q \<longleftrightarrow>
     1 \<le> cd_id q \<and> cd_id q \<le> 10000 \<and> 2 \<le> length (cd_name q) \<and> length (cd_name q) \<le> 128
     \<and> 2 \<le> length (cd_region q) \<and> length (cd_region q) \<le> 64"

record staff_request =
  cs_external :: string
  cs_district :: "int option"
  cs_role :: string
  cs_email :: "string option"
  cs_name :: "string option"

definition staff_request_ok :: "staff_request \<Rightarrow> bool" where
  "staff_request_ok q \<longleftrightarrow> 2 \<le> length (cs_external q) \<and> length (cs_external q) \<le> 128 \<and> 2 \<le> length (cs_role q)"

definition create_district ::
  "'g env \<Rightarrow> district_request \<Rightarrow> auth_context option \<Rightarrow> db \<Rightarrow> (int \<times> string \<times> string, db) outcome" where
  "create_district E q ctx = guarded_by [ADMIN] ctx (\<lambda>_ s.
     if \<not> district_request_ok q then (Inl (HTTPException 422), s)
     else if find_district (cd_id q) s \<noteq> None then (Inl (HTTPException 409), s)
     else
       and_then
         (insert_district \<lparr>di_id = cd_id q, di_name = cd_name q, di_region = cd_region q, di_created = e_now E 0\<rparr> s)
         (\<lambda>_ s1. (Inr (cd_id q, cd_name q, cd_region q), s1)))"

text \<open>The unique pair of district and external id is not looked up before: a second insert raises.\<close>

definition create_staff ::
  "'g env \<Rightarrow> staff_request \<Rightarrow> auth_context option \<Rightarrow> db \<Rightarrow> (string \<times> string \<times> string, db) outcome" where
  "create_staff E q ctx = guarded_by [ADMIN] ctx (\<lambda>_ s.
     if \<not> staff_request_ok q then (Inl (HTTPException 422), s)
     else case role_parse (Some (cs_role q)) of
       None \<Rightarrow> (Inl (HTTPException 422), s)
     | Some r \<Rightarrow>
         and_then
           (insert_staff
              \<lparr>st_id = e_uuid E 0, st_external = cs_external q, st_district = cs_district q, st_role = r,
               st_email = cs_email q, st_name = cs_name q, st_created = e_now E 0, st_seen = e_now E 0\<rparr> s)
           (\<lambda>_ s1. (Inr (e_uuid E 0, cs_external q, role_str r), s1)))"

definition report_dict :: "report \<Rightarrow> (string \<times> json) list" where
  "report_dict r =
     [(''tenant_id'', JStr (vr_tenant r)), (''total_events'', JInt (int (vr_total r))),
      (''verified'', JBool (vr_verified r)), (''first_corrupt_seq'', jopt JInt (vr_corrupt r)),
      (''reason'', jopt JStr (vr_reason r))]"

definition audit_verify ::
  "'g env \<Rightarrow> int \<Rightarrow> auth_context option \<Rightarrow> db \<Rightarrow> ((string \<times> json) list, db) outcome" where
  "audit_verify E district_id ctx = guarded_by [AUDITOR, ADMIN] ctx (\<lambda>_ s.
     (res_bind (verify_chain (e_sha E) (int_str district_id) 500 (audit s)) (\<lambda>r. Inr (report_dict r)), s))"

interpretation district_route: role_route "[ADMIN]" "create_district E q" for E q
  by unfold_locales (simp_all add: create_district_def)

interpretation staff_route: role_route "[ADMIN]" "create_staff E q" for E q
  by unfold_locales (simp_all add: create_staff_def)

interpretation audit_route: role_route "[AUDITOR, ADMIN]" "audit_verify E d" for E d
  by unfold_locales (simp_all add: audit_verify_def)

section \<open>demo.py\<close>

fun circuit_str :: "circuit_state \<Rightarrow> string" where
  "circuit_str CLOSED = ''closed''"
| "circuit_str OPEN = ''open''"
| "circuit_str HALF_OPEN = ''half_open''"

text \<open>\<open>_ensure_enabled\<close> in front of a route.\<close>

definition ensure_enabled :: "settings \<Rightarrow> ('s \<Rightarrow> ('a, 's) outcome) \<Rightarrow> 's \<Rightarrow> ('a, 's) outcome" where
  "ensure_enabled st route s = (if app_env st = Production then (Inl (HTTPException 403), s) else route s)"

text \<open>Reading \<open>state\<close> may move a breaker to half open; reading 1 of the clock is that look.\<close>

definition rpc_kill :: "'g env \<Rightarrow> settings \<Rightarrow> 'c backend \<Rightarrow> (string, 'c backend) outcome" where
  "rpc_kill E st = ensure_enabled st (\<lambda>b.
     let (x, br) = breaker_state (e_now E 1) (force_open (e_now E 0) (be_anchor b)) in (Inr (circuit_str x), b\<lparr>be_anchor := br\<rparr>))"

definition rpc_restore :: "'g env \<Rightarrow> settings \<Rightarrow> 'c backend \<Rightarrow> (string, 'c backend) outcome" where
  "rpc_restore E st = ensure_enabled st (\<lambda>b.
     let (x, br) = breaker_state (e_now E 1) (force_close (be_anchor b)) in (Inr (circuit_str x), b\<lparr>be_anchor := br\<rparr>))"

definition nira_kill :: "'g env \<Rightarrow> settings \<Rightarrow> 'c backend \<Rightarrow> (string, 'c backend) outcome" where
  "nira_kill E st = ensure_enabled st (\<lambda>b.
     let (x, br) = breaker_state (e_now E 1) (force_open (e_now E 0) (be_nira b)) in (Inr (circuit_str x), b\<lparr>be_nira := br\<rparr>))"

definition nira_restore :: "'g env \<Rightarrow> settings \<Rightarrow> 'c backend \<Rightarrow> (string, 'c backend) outcome" where
  "nira_restore E st = ensure_enabled st (\<lambda>b.
     let (x, br) = breaker_state (e_now E 1) (force_close (be_nira b)) in (Inr (circuit_str x), b\<lparr>be_nira := br\<rparr>))"

definition demo_flush ::
  "'g env \<Rightarrow> settings \<Rightarrow> 'c chain_client \<Rightarrow> int \<Rightarrow> 'c backend \<Rightarrow> (flush_result, 'c backend) outcome" where
  "demo_flush E st client district_id = ensure_enabled st (on_anchor (flush_district E st client district_id True))"

text \<open>The i-th entry takes reading k + i; an entry Redis refuses ends the loop with its error.\<close>

fun enqueue_all :: "'g env \<Rightarrow> nat \<Rightarrow> stream option \<Rightarrow> transfer list \<Rightarrow> nat \<Rightarrow> nat res" where
  "enqueue_all E k redis [] n = Inr n"
| "enqueue_all E k redis (t # ts) n =
     res_bind (enqueue_score E k redis ''TRANSFER'' (t_id t)) (\<lambda>_. enqueue_all E (Suc k) redis ts (Suc n))"

definition rescore_pending ::
  "'g env \<Rightarrow> settings \<Rightarrow> stream option \<Rightarrow> 'c backend \<Rightarrow> (nat, 'c backend) outcome" where
  "rescore_pending E st redis = ensure_enabled st (\<lambda>b.
     (enqueue_all E 0 redis
        (take 50 (order_desc t_initiated (filter (\<lambda>t. t_status t = T_PENDING) (transfers (be_db b))))) 0, b))"

definition demo_status :: "'g env \<Rightarrow> settings \<Rightarrow> 'c backend \<Rightarrow> ((string \<times> json) list, 'c backend) outcome" where
  "demo_status E st = ensure_enabled st (\<lambda>b.
     let (x, a) = breaker_state (e_now E 0) (be_anchor b); (y, n) = breaker_state (e_now E 1) (be_nira b)
     in (Inr [(''demo_mode'', JBool True), (''anchor_breaker'', JStr (circuit_str x)), (''nira_breaker'', JStr (circuit_str y))],
         b\<lparr>be_anchor := a, be_nira := n\<rparr>))"

section \<open>health.py\<close>

text \<open>
  What the probe asks of its surroundings: whether \<open>SELECT 1\<close> and Redis raise or answer, the chain
  client, which may fail to be built, and the file of the model.
\<close>

record 'c probe =
  pb_app :: string
  pb_select :: "unit res"
  pb_redis :: "bool res"
  pb_client :: "'c chain_client res"
  pb_model :: "bool \<times> string"

record readiness =
  rd_status :: int
  rd_ok :: bool
  rd_degraded :: bool
  rd_details :: "(string \<times> json) list"

definition error_text :: "'g env \<Rightarrow> exc \<Rightarrow> json" where
  "error_text E e = JStr (''error: '' @ e_exc E e)"

definition healthz :: "string \<Rightarrow> (string \<times> json) list" where
  "healthz app_name = [(''ok'', JBool True), (''app'', JStr app_name)]"

definition chain_report :: "int \<Rightarrow> report \<Rightarrow> json" where
  "chain_report did r =
     JObj [(''district_id'', JInt did), (''events'', JInt (int (vr_total r))), (''verified'', JBool (vr_verified r))]"

definition audit_probe :: "'g env \<Rightarrow> db \<Rightarrow> (bool \<times> json) res" where
  "audit_probe E s =
     res_bind (map_res (\<lambda>did. res_bind (verify_chain (e_sha E) (int_str did) 500 (audit s)) (\<lambda>r. Inr (did, r))) [1, 2, 3, 4])
       (\<lambda>reports.
          let any_corrupt = list_ex (\<lambda>(_, r). \<not> vr_verified r \<and> vr_total r > 0) reports
          in Inr (any_corrupt,
                  JObj [(''verified'', JBool (\<not> any_corrupt)),
                        (''districts'', JList (map (\<lambda>(did, r). chain_report did r) reports))]))"

definition readyz :: "'g env \<Rightarrow> 'c probe \<Rightarrow> 'c backend \<Rightarrow> readiness \<times> 'c backend" where
  "readyz E p b =
     (let ok = (case pb_select p of Inr _ \<Rightarrow> True | Inl _ \<Rightarrow> False);
          database = (''db'', case pb_select p of Inr _ \<Rightarrow> JStr ''ok'' | Inl e \<Rightarrow> error_text E e);
          redis = (''redis'', case pb_redis p of Inr c \<Rightarrow> JStr (if c then ''ok'' else ''fallback'') | Inl e \<Rightarrow> error_text E e);
          (chain, chain_down, b1) =
            (case pb_client p of
               Inl e \<Rightarrow> ([(''blockchain'', error_text E e)], True, b)
             | Inr client \<Rightarrow>
                 (let (x, br) = breaker_state (e_now E 0) (be_anchor b)
                  in ([(''blockchain'', JObj (cl_health client (be_chain b))), (''anchor_breaker'', JStr (circuit_str x))],
                      False, b\<lparr>be_anchor := br\<rparr>)));
          model = (''fraud_model'', JObj [(''loaded'', JBool (fst (pb_model p))), (''path'', JStr (snd (pb_model p)))]);
          (corrupt, audit_chain) =
            (case audit_probe E (be_db b) of Inl e \<Rightarrow> (True, error_text E e) | Inr (c, j) \<Rightarrow> (c, j))
      in (\<lparr>rd_status = (if ok then 200 else 503), rd_ok = ok, rd_degraded = chain_down \<or> corrupt,
           rd_details = [database, redis] @ chain @ [model, (''audit_chain'', audit_chain)]\<rparr>, b1))"

section \<open>Lemmas\<close>

lemma on_db_snd [simp]: "be_db (snd (on_db f b)) = snd (f (be_db b))"
  by (simp add: on_db_def case_prod_beta)

lemma on_nira_db: "be_db (snd (on_nira f b)) = n_db (snd (f \<lparr>n_db = be_db b, n_breaker = be_nira b, n_cache = be_cache b\<rparr>))"
  by (simp add: on_nira_def case_prod_beta)

lemma on_anchor_db: "be_db (snd (on_anchor f b)) = as_db (snd (f \<lparr>as_db = be_db b, as_breaker = be_anchor b, as_chain = be_chain b\<rparr>))"
  by (simp add: on_anchor_def case_prod_beta)

text \<open>In production no demo route does anything.\<close>

lemma demo_disabled:
  assumes "app_env st = Production"
  shows "rpc_kill E st b = (Inl (HTTPException 403), b)" "rpc_restore E st b = (Inl (HTTPException 403), b)"
    "nira_kill E st b = (Inl (HTTPException 403), b)" "nira_restore E st b = (Inl (HTTPException 403), b)"
    "demo_flush E st client d b = (Inl (HTTPException 403), b)"
    "rescore_pending E st redis b = (Inl (HTTPException 403), b)"
    "demo_status E st b = (Inl (HTTPException 403), b)"
  using assms by (simp_all add: rpc_kill_def rpc_restore_def nira_kill_def nira_restore_def demo_flush_def
      rescore_pending_def demo_status_def ensure_enabled_def)

end
