(* ===== verification/Titles.thy ===== *)
theory Titles
  imports Anchor Outbox
begin

text \<open>
  Titles: the router \<open>backend/app/routers/titles.py\<close> with the models of
  \<open>backend/app/models/titles.py\<close> (issuing, lookup with the anchoring state, listing, revocation).
\<close>

section \<open>The anchor of a title\<close>

text \<open>
  The nested query: the batch that the latest TITLE_ISSUED event with the text is anchored in.
  The inner query orders the events of all districts by their sequence number.
\<close>

definition event_anchor :: "string \<Rightarrow> string \<Rightarrow> db \<Rightarrow> anchor option" where
  "event_anchor key v s =
     (case latest_by ae_seq (filter (\<lambda>e. ae_type e = ''TITLE_ISSUED'' \<and> payload_has key v e) (audit s)) of
        None \<Rightarrow> None
      | Some e \<Rightarrow> (case ae_anchored e of None \<Rightarrow> None | Some b \<Rightarrow> find_anchor b s))"

definition title_anchor :: "title \<Rightarrow> db \<Rightarrow> anchor option" where
  "title_anchor t s =
     (case event_anchor ''title_no'' (ti_no t) s of
        Some a \<Rightarrow> Some a
      | None \<Rightarrow> event_anchor ''parcel_id'' (ti_parcel t) s)"

record title_view =
  tv_row :: title
  tv_proof :: "(string \<times> json) list option"
  tv_status :: string
  tv_tx :: "string option"
  tv_block :: "int option"

text \<open>The column \<open>merkle_proof\<close> is text that has to be a JSON object; empty text counts as null.\<close>

definition stored_proof :: "title \<Rightarrow> (string \<times> json) list option res" where
  "stored_proof t =
     (if ti_proof t = None \<or> ti_proof t = Some [] then Inr None
      else res_bind (json_loads (the (ti_proof t))) (\<lambda>j.
        case j of JObj kvs \<Rightarrow> Inr (Some kvs) | JNull \<Rightarrow> Inr None | _ \<Rightarrow> Inl ValueError))"

definition attach_anchor :: "title \<Rightarrow> db \<Rightarrow> title_view res" where
  "attach_anchor t s =
     (let a = title_anchor t s
      in res_bind (stored_proof t) (\<lambda>p.
           Inr \<lparr>tv_row = t, tv_proof = p,
                tv_status = (case a of None \<Rightarrow> ''PENDING'' | Some x \<Rightarrow> anchor_status_str (an_status x)),
                tv_tx = (case a of None \<Rightarrow> None | Some x \<Rightarrow> an_tx x),
                tv_block = (case a of None \<Rightarrow> None | Some x \<Rightarrow> an_block x)\<rparr>))"

section \<open>Issuing\<close>

record title_request =
  tq_parcel :: string
  tq_owner :: string

definition title_request_ok :: "title_request \<Rightarrow> bool" where
  "title_request_ok q \<longleftrightarrow>
     11 \<le> length (tq_parcel q) \<and> length (tq_parcel q) \<le> 32 \<and> 8 \<le> length (tq_owner q) \<and> length (tq_owner q) \<le> 64"

definition canonical_payload :: "'g env \<Rightarrow> title_request \<Rightarrow> string \<Rightarrow> string \<Rightarrow> string \<Rightarrow> int \<Rightarrow> json" where
  "canonical_payload E q title_no full_name registrar district_id = JObj
     [(''title_no'', JStr title_no), (''parcel_id'', JStr (tq_parcel q)), (''owner_id'', JStr (tq_owner q)),
      (''owner_full_name'', JStr full_name), (''issued_at'', jreal E (e_now E 1)),
      (''registrar_id'', JStr registrar), (''district_id'', JInt district_id)]"

definition set_parcel_owner :: "string \<Rightarrow> string \<Rightarrow> time \<Rightarrow> db \<Rightarrow> db" where
  "set_parcel_owner parcel_id owner_id now s =
     s\<lparr>parcels := update_where (\<lambda>p. p_id p = parcel_id)
        (\<lambda>p. p\<lparr>p_owner := Some owner_id, p_status := P_ACTIVE, p_updated := now\<rparr>) (parcels s)\<rparr>"

text \<open>
  The \<open>UPDATE\<close> references the owner, who was read before; the clock readings are 0 for the year,
  1 for the issue, 2 for the update, 3 for the event and 4 for the queue.
\<close>

definition issue_title_handler ::
  "'g env \<Rightarrow> stream option \<Rightarrow> title_request \<Rightarrow> auth_context \<Rightarrow> db \<Rightarrow> (title_view, db) outcome" where
  "issue_title_handler E redis q ctx s =
     (if \<not> title_request_ok q then (Inl (HTTPException 422), s)
      else case find_parcel (tq_parcel q) s of
        None \<Rightarrow> (Inl (HTTPException 404), s)
      | Some parcel \<Rightarrow>
          if p_status parcel \<notin> {P_ACTIVE, P_TRANSFERRED} then (Inl (HTTPException 409), s)
          else case find_owner (tq_owner q) s of
            None \<Rightarrow> (Inl (HTTPException 404), s)
          | Some owner \<Rightarrow>
              if o_kyc owner \<noteq> K_VERIFIED then (Inl (HTTPException 409), s)
              else
                let district_id = p_district parcel;
                    sequence = int (length (filter (\<lambda>t. ti_district t = district_id) (titles s))) + 1;
                    title_no = make_title_no district_id sequence None (e_now E 0);
                    payload = canonical_payload E q title_no (o_name owner) (cx_id ctx) district_id
                in and_then
                     (insert_title
                        \<lparr>ti_no = title_no, ti_parcel = tq_parcel q, ti_issued = e_now E 1, ti_registrar = cx_id ctx,
                         ti_district = district_id, ti_hash = content_hash (e_sha E) payload, ti_proof = None,
                         ti_revoked = None, ti_reason = None\<rparr> s)
                     (\<lambda>_ s1.
                       let s2 = set_parcel_owner (tq_parcel q) (tq_owner q) (e_now E 2) s1;
                           s3 = emit E 3 ''TITLE_ISSUED'' payload district_id (cx_id ctx) s2
                       in case enqueue_score E 4 redis ''TITLE'' title_no of
                            Inl e \<Rightarrow> (Inl e, s3)
                          | Inr _ \<Rightarrow>
                              (case find_title title_no s3 of
                                 None \<Rightarrow> (Inl TypeError, s3)
                               | Some t \<Rightarrow> (attach_anchor t s3, s3))))"

definition issue_title ::
  "'g env \<Rightarrow> stream option \<Rightarrow> title_request \<Rightarrow> auth_context option \<Rightarrow> db \<Rightarrow> (title_view, db) outcome" where
  "issue_title E redis q ctx = guarded_by [REGISTRAR] ctx (issue_title_handler E redis q)"

section \<open>Lookup, listing, revocation\<close>

definition issue_row :: "int \<Rightarrow> string \<Rightarrow> string \<Rightarrow> db \<Rightarrow> audit_row option" where
  "issue_row district_id title_no parcel_id s =
     (case find (issue_event district_id ''title_no'' title_no) (audit s) of
        Some e \<Rightarrow> Some e
      | None \<Rightarrow> find (issue_event district_id ''parcel_id'' parcel_id) (audit s))"

definition get_title :: "(bytes \<Rightarrow> bytes) \<Rightarrow> string \<Rightarrow> auth_context option \<Rightarrow> db \<Rightarrow> (title_view, db) outcome" where
  "get_title kec title_no ctx = guarded_by ALL_ROLES ctx (\<lambda>_ s.
     case find_title title_no s of
       None \<Rightarrow> (Inl (HTTPException 404), s)
     | Some t \<Rightarrow>
         (res_bind (attach_anchor t s) (\<lambda>view.
            if tv_tx view \<noteq> None \<and> tv_tx view \<noteq> Some [] \<and> tv_proof view = None then
              (case issue_row (ti_district t) title_no (ti_parcel t) s of
                 None \<Rightarrow> Inr view
               | Some e \<Rightarrow>
                   res_bind (build_proof_for_event kec (ti_district t) (ae_seq e) s) (\<lambda>p.
                     case p of None \<Rightarrow> Inr view | Some proof \<Rightarrow> Inr (view\<lparr>tv_proof := Some (proof_dict proof)\<rparr>)))
            else Inr view), s))"

definition list_titles ::
  "int option \<Rightarrow> string option \<Rightarrow> nat \<Rightarrow> nat \<Rightarrow> auth_context option \<Rightarrow> db \<Rightarrow> (title_view list, db) outcome" where
  "list_titles district_id parcel_id limit offset ctx = guarded_by ALL_ROLES ctx (\<lambda>_ s.
     if \<not> (1 \<le> limit \<and> limit \<le> 500) then (Inl (HTTPException 422), s)
     else
       (map_res (\<lambda>t. attach_anchor t s)
          (page limit offset (order_desc ti_issued
            (filter (\<lambda>t. opt_eq district_id (ti_district t) \<and> text_eq parcel_id (Some (ti_parcel t))) (titles s)))), s))"

definition set_revoked :: "string \<Rightarrow> time \<Rightarrow> string \<Rightarrow> db \<Rightarrow> db" where
  "set_revoked title_no now reason s =
     s\<lparr>titles := update_where (\<lambda>t. ti_no t = title_no) (\<lambda>t. t\<lparr>ti_revoked := Some now, ti_reason := Some reason\<rparr>) (titles s)\<rparr>"

definition revoke_title :: "'g env \<Rightarrow> string \<Rightarrow> string \<Rightarrow> auth_context option \<Rightarrow> db \<Rightarrow> (unit, db) outcome" where
  "revoke_title E title_no reason ctx = guarded_by [REGISTRAR] ctx (\<lambda>c s.
     case find_title title_no s of
       None \<Rightarrow> (Inl (HTTPException 404), s)
     | Some t \<Rightarrow>
         (Inr (),
          emit E 1 ''TITLE_REVOKED'' (JObj [(''title_no'', JStr title_no), (''reason'', JStr reason)])
            (ti_district t) (cx_id c) (set_revoked title_no (e_now E 0) reason s)))"

interpretation issue_route: role_route "[REGISTRAR]" "issue_title E redis q" for E redis q
  by unfold_locales (simp_all add: issue_title_def)

interpretation revoke_route: role_route "[REGISTRAR]" "revoke_title E title_no reason" for E title_no reason
  by unfold_locales (simp_all add: revoke_title_def)

section \<open>Lemmas\<close>

lemma set_parcel_owner_sel [simp]:
  "districts (set_parcel_owner i j t s) = districts s" "owners (set_parcel_owner i j t s) = owners s"
  "titles (set_parcel_owner i j t s) = titles s" "transfers (set_parcel_owner i j t s) = transfers s"
  "audit (set_parcel_owner i j t s) = audit s" "anchors (set_parcel_owner i j t s) = anchors s"
  by (simp_all add: set_parcel_owner_def)

lemma find_parcel_set_owner:
  "find_parcel j (set_parcel_owner i x t s) = map_option (\<lambda>p. if p_id p = i
     then p\<lparr>p_owner := Some x, p_status := P_ACTIVE, p_updated := t\<rparr> else p) (find_parcel j s)"
  by (simp add: find_parcel_def set_parcel_owner_def find_update_where)

lemma find_parcel_set_owner_other: "j \<noteq> i \<Longrightarrow> find_parcel j (set_parcel_owner i x t s) = find_parcel j s"
  by (cases "find_parcel j s") (auto simp: find_parcel_set_owner dest: find_parcel_id)

lemma insert_title_Inr:
  "insert_title r s = (Inr (), s') \<longleftrightarrow>
     s' = s\<lparr>titles := titles s @ [r]\<rparr> \<and> find_title (ti_no r) s = None \<and> find_parcel (ti_parcel r) s \<noteq> None"
  by (auto simp: insert_title_def)

lemma attach_anchor_row: "attach_anchor t s = Inr v \<Longrightarrow> tv_row v = t"
  by (auto simp: attach_anchor_def Let_def res_simps)

text \<open>What a successful issue went through.\<close>

lemma issue_title_handler_Inr:
  assumes "issue_title_handler E redis q c s = (Inr v, s')"
  obtains p o' where "find_parcel (tq_parcel q) s = Some p" "p_status p \<in> {P_ACTIVE, P_TRANSFERRED}"
    "find_owner (tq_owner q) s = Some o'" "o_kyc o' = K_VERIFIED"
    "let no = make_title_no (p_district p) (int (length (filter (\<lambda>t. ti_district t = p_district p) (titles s))) + 1) None (e_now E 0);
         payload = canonical_payload E q no (o_name o') (cx_id c) (p_district p);
         t = \<lparr>ti_no = no, ti_parcel = tq_parcel q, ti_issued = e_now E 1, ti_registrar = cx_id c,
              ti_district = p_district p, ti_hash = content_hash (e_sha E) payload, ti_proof = None,
              ti_revoked = None, ti_reason = None\<rparr>
     in find_title no s = None \<and> tv_row v = t
        \<and> s' = emit E 3 ''TITLE_ISSUED'' payload (p_district p) (cx_id c)
                 (set_parcel_owner (tq_parcel q) (tq_owner q) (e_now E 2) (s\<lparr>titles := titles s @ [t]\<rparr>))"
proof -
  obtain p where p: "find_parcel (tq_parcel q) s = Some p" and ok: "title_request_ok q"
    using assms by (auto simp: issue_title_handler_def split: if_splits option.splits)
  have st: "p_status p \<in> {P_ACTIVE, P_TRANSFERRED}"
    using assms p ok by (simp add: issue_title_handler_def split: if_splits)
  obtain o' where o': "find_owner (tq_owner q) s = Some o'"
    using assms p ok st by (cases "find_owner (tq_owner q) s") (auto simp: issue_title_handler_def split: if_splits)
  have k: "o_kyc o' = K_VERIFIED"
    using assms p ok st o' by (simp add: issue_title_handler_def split: if_splits)
  let ?no = "make_title_no (p_district p) (int (length (filter (\<lambda>t. ti_district t = p_district p) (titles s))) + 1) None (e_now E 0)"
  let ?payload = "canonical_payload E q ?no (o_name o') (cx_id c) (p_district p)"
  let ?t = "\<lparr>ti_no = ?no, ti_parcel = tq_parcel q, ti_issued = e_now E 1, ti_registrar = cx_id c,
              ti_district = p_district p, ti_hash = content_hash (e_sha E) ?payload, ti_proof = None,
              ti_revoked = None, ti_reason = None\<rparr>"
  let ?s1 = "s\<lparr>titles := titles s @ [?t]\<rparr>"
  let ?s3 = "emit E 3 ''TITLE_ISSUED'' ?payload (p_district p) (cx_id c) (set_parcel_owner (tq_parcel q) (tq_owner q) (e_now E 2) ?s1)"
  have fresh: "find_title ?no s = None"
    using assms p ok st o' k by (auto simp: issue_title_handler_def insert_title_def Let_def split: if_splits)
  have find: "find_title ?no ?s3 = Some ?t"
    using fresh by (simp add: find_title_def find_append)
  have nst: "(p_status p \<noteq> P_ACTIVE \<and> p_status p \<noteq> P_TRANSFERRED) = False" using st by auto
  have "attach_anchor ?t ?s3 = Inr v \<and> s' = ?s3"
    using assms p ok o' k fresh find
    by (auto simp: nst issue_title_handler_def insert_title_def Let_def split: sum.splits)
  then show thesis using that [OF p st o' k] fresh attach_anchor_row [of ?t ?s3 v] by (simp add: Let_def)
qed

section \<open>Properties\<close>

text \<open>
  C31. Issuing a title succeeds only for a registrar or an administrator, for an existing parcel
  that is ACTIVE or TRANSFERRED (never DISPUTED or FROZEN) and an owner whose KYC is VERIFIED.  Then
  exactly one title is added, with a number not used before and the content hash of the canonical
  payload, the parcel belongs to that owner and is ACTIVE, and no other parcel, owner or transfer
  changes.
\<close>

theorem issue_title_success:
  assumes "issue_title E redis q ctx s = (Inr v, s')"
  shows "\<exists>c p o'. ctx = Some c \<and> has_role c [REGISTRAR]
    \<and> find_parcel (tq_parcel q) s = Some p \<and> p_status p \<in> {P_ACTIVE, P_TRANSFERRED}
    \<and> find_owner (tq_owner q) s = Some o' \<and> o_kyc o' = K_VERIFIED
    \<and> titles s' = titles s @ [tv_row v] \<and> find_title (ti_no (tv_row v)) s = None
    \<and> ti_parcel (tv_row v) = tq_parcel q \<and> ti_revoked (tv_row v) = None
    \<and> ti_hash (tv_row v) = content_hash (e_sha E)
        (canonical_payload E q (ti_no (tv_row v)) (o_name o') (cx_id c) (p_district p))
    \<and> find_parcel (tq_parcel q) s' = Some (p\<lparr>p_owner := Some (tq_owner q), p_status := P_ACTIVE, p_updated := e_now E 2\<rparr>)
    \<and> (\<forall>j. j \<noteq> tq_parcel q \<longrightarrow> find_parcel j s' = find_parcel j s)
    \<and> owners s' = owners s \<and> transfers s' = transfers s"
proof -
  obtain c where c: "ctx = Some c" "has_role c [REGISTRAR]" using issue_route.success_has_role [OF assms] by blast
  then have h: "issue_title_handler E redis q c s = (Inr v, s')" using assms by (simp add: issue_title_def)
  from h obtain p o' where r: "find_parcel (tq_parcel q) s = Some p" "p_status p \<in> {P_ACTIVE, P_TRANSFERRED}"
    "find_owner (tq_owner q) s = Some o'" "o_kyc o' = K_VERIFIED"
    and e: "let no = make_title_no (p_district p) (int (length (filter (\<lambda>t. ti_district t = p_district p) (titles s))) + 1) None (e_now E 0);
         payload = canonical_payload E q no (o_name o') (cx_id c) (p_district p);
         t = \<lparr>ti_no = no, ti_parcel = tq_parcel q, ti_issued = e_now E 1, ti_registrar = cx_id c,
              ti_district = p_district p, ti_hash = content_hash (e_sha E) payload, ti_proof = None,
              ti_revoked = None, ti_reason = None\<rparr>
     in find_title no s = None \<and> tv_row v = t
        \<and> s' = emit E 3 ''TITLE_ISSUED'' payload (p_district p) (cx_id c)
                 (set_parcel_owner (tq_parcel q) (tq_owner q) (e_now E 2) (s\<lparr>titles := titles s @ [t]\<rparr>))"
    by (rule issue_title_handler_Inr)
  have keep: "find_parcel j (s\<lparr>titles := x\<rparr>) = find_parcel j s" for j x by (simp add: find_parcel_def)
  have "p_id p = tq_parcel q" using r(1) by (rule find_parcel_id)
  then have "find_parcel (tq_parcel q) s' = Some (p\<lparr>p_owner := Some (tq_owner q), p_status := P_ACTIVE, p_updated := e_now E 2\<rparr>)"
    using r(1) e by (auto simp: Let_def find_parcel_set_owner keep)
  moreover have "\<forall>j. j \<noteq> tq_parcel q \<longrightarrow> find_parcel j s' = find_parcel j s"
    using e by (auto simp: Let_def find_parcel_set_owner_other keep)
  moreover have "titles s' = titles s @ [tv_row v]" "owners s' = owners s" "transfers s' = transfers s"
    using e by (auto simp: Let_def)
  ultimately show ?thesis using c r e by (intro exI [of _ c] exI [of _ p] exI [of _ o']) (simp add: Let_def)
qed

definition demo_title_db :: db where
  "demo_title_db = demo_db\<lparr>
     parcels := [\<lparr>p_id = ''UG-MIT-024718/2026'', p_tenure = MAILO, p_district = 3, p_sub_county = ''Mityana TC'',
                  p_geometry = ''{}'', p_area = 1, p_owner = None, p_status = P_ACTIVE, p_created = 0, p_updated = 0\<rparr>],
     owners := [\<lparr>o_id = ''owner-01'', o_nin_hash = ''h'', o_nin_encrypted = [], o_name = ''Sarah Nakato'', o_dob = None,
                 o_phone = None, o_kyc = K_VERIFIED, o_kyc_at = Some 1, o_created = 0, o_updated = 0\<rparr>]\<rparr>"

definition demo_title_request :: title_request where
  "demo_title_request = \<lparr>tq_parcel = ''UG-MIT-024718/2026'', tq_owner = ''owner-01''\<rparr>"

lemma demo_issue_runs:
  "\<exists>v s'. issue_title demo_env None demo_title_request (Some (demo_ctx REGISTRAR)) demo_title_db = (Inr v, s')"
proof -
  have "has_role (demo_ctx REGISTRAR) [REGISTRAR]"
    by (simp add: demo_ctx_def demo_context_def has_role_def cx_role_def)
  moreover have "\<exists>v s'. issue_title_handler demo_env None demo_title_request (demo_ctx REGISTRAR) demo_title_db = (Inr v, s')"
    by (simp add: issue_title_handler_def demo_title_request_def title_request_ok_def demo_title_db_def demo_db_def
        empty_db_def find_parcel_def find_owner_def insert_title_def find_title_def enqueue_score_def stream_publish_def
        attach_anchor_def stored_proof_def Let_def)
  ultimately show ?thesis by (simp add: issue_title_def)
qed

theorem issue_title_success_witness:
  "\<exists>v s'. issue_title demo_env None demo_title_request (Some (demo_ctx REGISTRAR)) demo_title_db = (Inr v, s')
     \<and> length (titles s') = 1 \<and> map_option p_owner (find_parcel ''UG-MIT-024718/2026'' s') = Some (Some ''owner-01'')"
proof -
  obtain v s' where r: "issue_title demo_env None demo_title_request (Some (demo_ctx REGISTRAR)) demo_title_db = (Inr v, s')"
    using demo_issue_runs by blast
  from issue_title_success [OF r] obtain p where
    "titles s' = titles demo_title_db @ [tv_row v]"
    "find_parcel (tq_parcel demo_title_request) s' = Some (p\<lparr>p_owner := Some (tq_owner demo_title_request), p_status := P_ACTIVE, p_updated := e_now demo_env 2\<rparr>)"
    by blast
  then show ?thesis using r by (simp add: demo_title_request_def demo_title_db_def demo_db_def empty_db_def)
qed

end
