(* ===== verification/Anchor_Props.thy ===== *)
theory Anchor_Props
  imports Anchor_Safety
begin

text \<open>
  The properties of the anchor service, and a small run of it for closed examples: one event of
  district 3, flushed to the mock chain.
\<close>

section \<open>What a flush does to the ledger\<close>

definition flush_events :: "settings \<Rightarrow> int \<Rightarrow> audit_row list \<Rightarrow> (int \<times> string) list" where
  "flush_events st d rows = unanchored (int_str d) (anchor_flush_batch_size st * 4) rows"

definition selected :: "settings \<Rightarrow> int \<Rightarrow> audit_row list \<Rightarrow> audit_row \<Rightarrow> bool" where
  "selected st d rows r \<longleftrightarrow>
     ae_tenant r = int_str d \<and> ae_anchored r = None \<and> (ae_seq r, ae_payload_hash r) \<in> set (flush_events st d rows)"

lemma marked_selected:
  assumes inv: "anchor_inv (e_sha E) (e_kec E) s"
    and run: "flush_begin E st d force s = (Inr (Started rec leaves), s')"
  shows "marked rec (audit s) = update_where (selected st d (audit s)) (\<lambda>r. r\<lparr>ae_anchored := Some (an_batch rec)\<rparr>) (audit s)"
proof -
  note b = flush_begin_Started [OF run, unfolded Let_def]
  obtain n where n: "0 \<le> n" "anchored_upto (int_str d) n (audit s)"
    using inv unfolding anchor_inv_def tenant_ok_def by blast
  let ?ev = "flush_events st d (audit s)"
  note r = unanchored_range [OF anchor_inv_chain [OF inv] n(2,1), of "anchor_flush_batch_size st * 4", folded flush_events_def]
  have ev: "?ev \<noteq> []" using b by (simp add: flush_events_def)
  have first: "an_first rec = n + 1" "an_last rec = n + int (length ?ev)" "tenant_of rec = int_str d"
    using b r(1,2) [OF ev] by (simp_all add: flush_events_def tenant_of_def)
  have "set ?ev = (\<lambda>r. (ae_seq r, ae_payload_hash r)) ` set (slice (int_str d) (an_first rec) (an_last rec) (audit s))"
    by (subst r(4) [OF ev]) (simp add: first)
  then have "(in_range (tenant_of rec) (an_first rec) (an_last rec) x \<and> ae_anchored x = None) = selected st d (audit s) x"
    if "x \<in> set (audit s)" for x
    using that by (auto simp: selected_def first(3) slice_def in_range_def)
  then show ?thesis unfolding marked_def update_where_def by (intro map_cong) auto
qed

lemma emit_audit_cases:
  obtains "audit (emit E k t p d a s) = audit s"
  | e where "audit (emit E k t p d a s) = audit s @ [e]" "ae_type e = t" "ae_tenant e = int_str d" "ae_anchored e = None"
proof (rule audit_emit_cases [of "e_sha E" "e_uuid E k" "e_now E k" t p "int_str d" a "audit s"])
  assume "audit_emit (e_sha E) (e_uuid E k) (e_now E k) t p (int_str d) a (audit s) = (None, audit s)"
  then show thesis using that(1) by (simp add: emit_def)
next
  fix e
  assume "audit_emit (e_sha E) (e_uuid E k) (e_now E k) t p (int_str d) a (audit s) = (Some e, audit s @ [to_row e])"
    and "ledger_append (e_sha E) (e_uuid E k) (e_now E k) t p (int_str d) a (audit s) = (Inr e, audit s @ [to_row e])"
  then show thesis using that(2) [of "to_row e"] ledger_append_row
    by (fastforce simp: emit_def to_row_def)
qed

lemma flush_district_started:
  assumes "flush_begin E st d force (as_db s) = (Inr (Started rec leaves), db1)"
  shows "flush_district E st client d force s =
    (case breaker_call (e_now E 2) (e_now E 3) (cl_commit client (\<lambda>i. e_now E (5 + i)) (an_batch rec) d (an_root rec))
        (as_breaker s) (as_chain s) of
       (r, b, c) \<Rightarrow> (fst (flush_end E rec leaves r db1),
         \<lparr>as_db = snd (flush_end E rec leaves r db1), as_breaker = b, as_chain = c\<rparr>))"
  using assms by (simp add: flush_district_def split: prod.split)

text \<open>What a receipt does to the events and the batches.\<close>

lemma flush_end_done:
  fixes q :: anchor_receipt
  assumes inv: "anchor_inv (e_sha E) (e_kec E) s" and b: "flush_begin E st d force s = (Inr (Started rec leaves), db1)"
  defines "x \<equiv> flush_end E rec leaves (Inr q) db1"
  shows "fst x = Inr (Flush_done q) \<and>
    (\<exists>b tail. find_anchor b s = None
       \<and> (\<exists>a\<in>set (anchors (snd x)). an_batch a = b \<and> an_district a = d \<and> an_status a = rc_status q)
       \<and> audit (snd x) = update_where (selected st d (audit s)) (\<lambda>r. r\<lparr>ae_anchored := Some b\<rparr>) (audit s) @ tail
       \<and> length tail \<le> 1 \<and> (\<forall>e\<in>set tail. ae_type e = ''ANCHOR_COMMITTED'' \<and> ae_anchored e = None))"
proof -
  note st = flush_begin_Started [OF b]
  have rec: "rec \<in> set (anchors db1)" "same_batch rec rec" using st by (simp_all add: same_batch_def)
  note x = x_def [unfolded flush_end_receipt [OF rec]]
  obtain a where a: "a \<in> set (anchors (recorded rec q db1))" "same_batch a rec" "an_status a = rc_status q"
    using recorded_has [OF rec] by blast
  let ?m = "update_where (selected st d (audit s)) (\<lambda>r. r\<lparr>ae_anchored := Some (an_batch rec)\<rparr>) (audit s)"
  have m: "marked rec (audit db1) = ?m" using marked_selected [OF inv b] st by simp
  obtain tail where tail: "audit (snd x) = ?m @ tail" "length tail \<le> 1"
    "\<forall>e\<in>set tail. ae_type e = ''ANCHOR_COMMITTED'' \<and> ae_anchored e = None"
    by (rule emit_audit_cases [of E 4 "''ANCHOR_COMMITTED''" "commit_event rec (compute_merkle_root (e_sha E) leaves) q"
          "an_district rec" "''system:anchor_service''" "(recorded rec q db1)\<lparr>audit := marked rec (audit db1)\<rparr>"])
      (auto simp: x m)
  have "a \<in> set (anchors (snd x))" "an_batch a = an_batch rec" "an_district a = d"
    using a st by (auto simp: x same_batch_def)
  then show ?thesis using st tail a(3) by (intro conjI exI [of _ "an_batch rec"] exI [of _ tail]) (auto simp: x)
qed

section \<open>Properties\<close>

text \<open>
  C9. A flush of a district, whatever the chain does.  It keeps the invariant of ledger and
  batches.  If the guarded call returned a receipt, of any status, exactly the selected events of the district are
  marked as anchored in a new batch that carries the status of the receipt, and at most the event
  ANCHOR_COMMITTED is appended.  In every other case (nothing due, deferred, open breaker, failed
  submission) no event is marked, appended or lost, so the next flush selects the same events again.
\<close>

theorem flush_effect:
  assumes inv: "anchor_inv (e_sha E) (e_kec E) (as_db s)"
    and run: "flush_district E st client d force s = (out, s')"
  shows "anchor_inv (e_sha E) (e_kec E) (as_db s') \<and>
    (case out of
       Inr (Flush_done r) \<Rightarrow>
         (\<exists>b tail. find_anchor b (as_db s) = None
            \<and> (\<exists>a\<in>set (anchors (as_db s')). an_batch a = b \<and> an_district a = d \<and> an_status a = rc_status r)
            \<and> audit (as_db s') = update_where (selected st d (audit (as_db s))) (\<lambda>r. r\<lparr>ae_anchored := Some b\<rparr>) (audit (as_db s)) @ tail
            \<and> length tail \<le> 1 \<and> (\<forall>e\<in>set tail. ae_type e = ''ANCHOR_COMMITTED'' \<and> ae_anchored e = None))
     | _ \<Rightarrow> audit (as_db s') = audit (as_db s)
         \<and> flush_events st d (audit (as_db s')) = flush_events st d (audit (as_db s)))"
proof -
  have inv': "anchor_inv (e_sha E) (e_kec E) (as_db s')" using anchor_inv_flush [OF inv, of st client d force] run by simp
  obtain r db1 where b: "flush_begin E st d force (as_db s) = (r, db1)" by (cases "flush_begin E st d force (as_db s)")
  show ?thesis
  proof (cases "\<exists>rec leaves. r = Inr (Started rec leaves)")
    case False
    then have "db1 = as_db s" using flush_begin_other [OF b] by auto
    then show ?thesis using False run b inv'
      by (auto simp: flush_district_def split: sum.splits flush_start.splits)
  next
    case True
    then obtain rec leaves where r: "r = Inr (Started rec leaves)" by blast
    note st = flush_begin_Started [OF b [unfolded r]]
    have rec: "rec \<in> set (anchors db1)" "same_batch rec rec" using st by (simp_all add: same_batch_def)
    obtain x br c where call: "breaker_call (e_now E 2) (e_now E 3)
        (cl_commit client (\<lambda>i. e_now E (5 + i)) (an_batch rec) d (an_root rec)) (as_breaker s) (as_chain s) = (x, br, c)"
      by (cases "breaker_call (e_now E 2) (e_now E 3)
        (cl_commit client (\<lambda>i. e_now E (5 + i)) (an_batch rec) d (an_root rec)) (as_breaker s) (as_chain s)")
    have out: "out = fst (flush_end E rec leaves x db1)" "as_db s' = snd (flush_end E rec leaves x db1)"
      using run call by (auto simp: flush_district_started [OF b [unfolded r]])
    show ?thesis
    proof (cases x)
      case (Inl e)
      then show ?thesis using inv' out st by (simp add: flush_end_error)
    next
      case (Inr q)
      then show ?thesis using inv' out flush_end_done [OF inv b [unfolded r]] by simp
    qed
  qed
qed

section \<open>A run of the service\<close>

definition run_settings :: settings where
  "run_settings = prod_settings\<lparr>blockchain_provider := Chain_Mock\<rparr>"

definition run_event :: db where
  "run_event = emit demo_env 7 ''TITLE_ISSUED'' (JObj [(''title_no'', JStr ''T001'')]) 3 ''r'' demo_db"

definition run_state :: "mock_chain anchor_state" where
  "run_state = \<lparr>as_db = run_event, as_breaker = ANCHOR_BREAKER, as_chain = new_mock_chain\<rparr>"

lemma run_event_inv: "anchor_inv pad32 pad32 run_event"
  unfolding run_event_def
  by (rule anchor_inv_emit [OF anchor_inv_empty]) (simp_all add: demo_db_def empty_db_def demo_env_def)

definition run_payload :: string where
  "run_payload = json_dumps (JObj [(''title_no'', JStr ''T001'')])"

definition run_leaf :: string where
  "run_leaf = sha256_hex pad32 run_payload"

lemma run_event_audit:
  "\<exists>e. audit run_event = [e] \<and> ae_tenant e = int_str 3 \<and> ae_seq e = 1 \<and> ae_anchored e = None
     \<and> ae_type e = ''TITLE_ISSUED'' \<and> ae_payload e = run_payload \<and> ae_payload_hash e = run_leaf"
  by (simp add: run_event_def emit_def audit_emit_def ledger_append_def last_seq_and_hash_def demo_db_def
      empty_db_def to_row_def tenant_rows_def run_payload_def run_leaf_def demo_env_def Let_def)

lemma run_flush_events: "flush_events run_settings 3 (audit run_event) = [(1, run_leaf)]"
  using run_event_audit by (auto simp: flush_events_def unanchored_def run_settings_def prod_settings_def tenant_rows_def)

lemma run_begins: "\<exists>rec leaves db. flush_begin demo_env run_settings 3 True run_event = (Inr (Started rec leaves), db)"
proof -
  have "unanchored (int_str 3) (anchor_flush_batch_size run_settings * 4) (audit run_event) = [(1, run_leaf)]"
    using run_flush_events by (simp add: flush_events_def)
  moreover have "anchors run_event = []" "find_district 3 run_event \<noteq> None"
    by (simp_all add: run_event_def demo_db_def empty_db_def find_district_def)
  ultimately show ?thesis
    by (simp add: flush_begin_def compute_merkle_root_evm_eq insert_anchor_row_def find_anchor_def Let_def)
qed

lemma run_flush: "\<exists>r s'. flush_district demo_env run_settings (mock_client pad32 pad32) 3 True run_state = (Inr (Flush_done r), s')
    \<and> rc_status r = A_CONFIRMED"
proof -
  obtain rec leaves db1 where b: "flush_begin demo_env run_settings 3 True run_event = (Inr (Started rec leaves), db1)"
    using run_begins by blast
  then have rec: "rec \<in> set (anchors db1)" "same_batch rec rec"
    using flush_begin_Started [OF b] by (simp_all add: same_batch_def)
  show ?thesis
    using flush_district_started [of demo_env run_settings 3 True run_state rec leaves db1 "mock_client pad32 pad32"] b
    by (simp add: run_state_def mock_client_def mock_commit_def breaker_call_def preflight_def maybe_half_open_def
        ANCHOR_BREAKER_def new_breaker_def flush_end_receipt [OF rec] Let_def)
qed

theorem flush_effect_witness:
  "\<exists>r s'. flush_district demo_env run_settings (mock_client pad32 pad32) 3 True run_state = (Inr (Flush_done r), s')
    \<and> anchor_inv pad32 pad32 (as_db s') \<and> (\<exists>e\<in>set (audit (as_db s')). ae_seq e = 1 \<and> ae_anchored e \<noteq> None)"
proof -
  obtain r s' where run: "flush_district demo_env run_settings (mock_client pad32 pad32) 3 True run_state = (Inr (Flush_done r), s')"
    using run_flush by blast
  have inv: "anchor_inv (e_sha demo_env) (e_kec demo_env) (as_db run_state)"
    using run_event_inv by (simp add: demo_env_def run_state_def)
  obtain b tail where a: "audit (as_db s') = update_where (selected run_settings 3 (audit run_event))
      (\<lambda>r. r\<lparr>ae_anchored := Some b\<rparr>) (audit run_event) @ tail" "anchor_inv pad32 pad32 (as_db s')"
    using flush_effect [OF inv run] by (auto simp: run_state_def demo_env_def)
  obtain e where e: "audit run_event = [e]" "ae_tenant e = int_str 3" "ae_seq e = 1" "ae_anchored e = None"
    using run_event_audit by blast
  have "flush_events run_settings 3 [e] = [(1, ae_payload_hash e)]"
    using e by (simp add: flush_events_def unanchored_def run_settings_def prod_settings_def tenant_rows_def)
  then have "selected run_settings 3 [e] e" using e by (simp add: selected_def)
  then show ?thesis using run a e by auto
qed

text \<open>
  C7. End to end, with every interleaving of appends, other operations, flushes, commits,
  refusals and recordings: whenever an event of a district is anchored in a batch whose row says
  CONFIRMED, the service can build its inclusion proof, and the chain verifies it.
\<close>

theorem anchored_event_verifies:
  assumes "sys_reach sha kec (mock_client sha kec) s"
    and "r \<in> set (audit (sy_db s))" "ae_tenant r = int_str d"
    and "a \<in> set (anchors (sy_db s))" "ae_anchored r = Some (an_batch a)" "an_status a = A_CONFIRMED"
  shows "\<exists>p. build_proof_for_event kec d (ae_seq r) (sy_db s) = Inr (Some p)
    \<and> cl_verify (mock_client sha kec) (mp_batch p) (mp_leaf p) (mp_siblings p) (sy_chain s) = Inr True"
  using assms by (rule mock.confirmed_event_verifies)

text \<open>
  One event and one flush of it, on any chain whose client confirms this one commit.
\<close>

text \<open>A flush of a district with one event, when its batch is confirmed.\<close>

lemma one_event_anchored:
  fixes q :: anchor_receipt
  assumes e: "audit s = [e]" "ae_tenant e = int_str 3" "ae_seq e = 1" "ae_anchored e = None"
    and b: "flush_begin demo_env run_settings 3 True s = (Inr (Started rec leaves), db1)"
  shows "\<exists>a tail. audit (snd (flush_end demo_env rec leaves (Inr q) db1)) = e\<lparr>ae_anchored := Some (an_batch a)\<rparr> # tail
    \<and> (\<forall>x\<in>set tail. ae_type x = ''ANCHOR_COMMITTED'')
    \<and> a \<in> set (anchors (snd (flush_end demo_env rec leaves (Inr q) db1))) \<and> an_status a = rc_status q \<and> an_batch a \<noteq> []"
proof -
  note st = flush_begin_Started [OF b, unfolded Let_def]
  have rec: "rec \<in> set (anchors db1)" "same_batch rec rec" using st by (simp_all add: same_batch_def)
  obtain a where a: "a \<in> set (anchors (recorded rec q db1))" "same_batch a rec" "an_status a = rc_status q"
    using recorded_has [OF rec] by blast
  have "unanchored (int_str 3) (anchor_flush_batch_size run_settings * 4) (audit s) = [(1, ae_payload_hash e)]"
    using e by (simp add: unanchored_def run_settings_def prod_settings_def tenant_rows_def)
  then have m: "marked rec (audit db1) = [e\<lparr>ae_anchored := Some (an_batch rec)\<rparr>]"
    using st e by (auto simp: marked_def in_range_def tenant_of_def)
  obtain tail where "audit (snd (flush_end demo_env rec leaves (Inr q) db1)) = e\<lparr>ae_anchored := Some (an_batch rec)\<rparr> # tail"
    "\<forall>x\<in>set tail. ae_type x = ''ANCHOR_COMMITTED''"
    by (rule emit_audit_cases [of demo_env 4 "''ANCHOR_COMMITTED''" "commit_event rec (compute_merkle_root (e_sha demo_env) leaves) q"
          "an_district rec" "''system:anchor_service''" "(recorded rec q db1)\<lparr>audit := marked rec (audit db1)\<rparr>"])
      (auto simp: flush_end_receipt [OF rec] m)
  moreover have "a \<in> set (anchors (snd (flush_end demo_env rec leaves (Inr q) db1)))" using a(1) by (simp add: flush_end_receipt [OF rec])
  moreover have "an_batch rec \<noteq> []" using st by (simp add: demo_env_def)
  ultimately show ?thesis using a by (intro exI [of _ a] exI [of _ tail]) (simp add: same_batch_def)
qed

lemma run_reaches_on:
  assumes confirms: "\<And>b. \<exists>q c. cl_commit cl (\<lambda>_. 0) b 3 (evm_root pad32 [run_leaf]) c0 = (Inr q, c) \<and> rc_status q = A_CONFIRMED"
  shows "\<exists>s r a tail. sys_reach pad32 pad32 cl s \<and> audit (sy_db s) = r # tail \<and> ae_tenant r = int_str 3
     \<and> ae_seq r = 1 \<and> ae_type r = ''TITLE_ISSUED'' \<and> ae_payload r = run_payload
     \<and> (\<forall>e\<in>set tail. ae_type e = ''ANCHOR_COMMITTED'')
     \<and> a \<in> set (anchors (sy_db s)) \<and> ae_anchored r = Some (an_batch a) \<and> an_status a = A_CONFIRMED
     \<and> an_batch a \<noteq> []"
proof -
  let ?cl = cl
  let ?s0 = "\<lparr>sy_db = demo_db, sy_chain = c0, sy_flights = []\<rparr>"
  let ?s1 = "?s0\<lparr>sy_db := run_event\<rparr>"
  have "sys_reach pad32 pad32 ?cl ?s0" by (rule sys_reach.init) (simp_all add: demo_db_def empty_db_def)
  moreover have "sys_step pad32 pad32 ?cl ?s0 (?s0\<lparr>sy_db := emit demo_env 7 ''TITLE_ISSUED'' (JObj [(''title_no'', JStr ''T001'')]) 3 ''r'' (sy_db ?s0)\<rparr>)"
    by (rule sys_step.event) (simp_all add: demo_env_def)
  ultimately have r1: "sys_reach pad32 pad32 ?cl ?s1" using sys_reach.step by (fastforce simp: run_event_def)
  obtain rec leaves db1 where b: "flush_begin demo_env run_settings 3 True run_event = (Inr (Started rec leaves), db1)"
    using run_begins by blast
  note st = flush_begin_Started [OF b, unfolded Let_def]
  let ?f = "\<lparr>fl_batch = rec, fl_leaves = leaves, fl_answer = None\<rparr>"
  let ?s2 = "?s1\<lparr>sy_db := db1, sy_flights := ?f # sy_flights ?s1\<rparr>"
  have r2: "sys_reach pad32 pad32 ?cl ?s2"
    by (rule sys_reach.step [OF r1 sys_step.start]) (use b in \<open>simp_all add: demo_env_def\<close>)
  have "an_district rec = 3" "an_root rec = evm_root pad32 [run_leaf]"
    using st run_flush_events by (simp_all add: flush_events_def demo_env_def)
  then obtain q c where q: "cl_commit ?cl (\<lambda>_. 0) (an_batch rec) (an_district rec) (an_root rec) c0 = (Inr q, c)"
    "rc_status q = A_CONFIRMED"
    using confirms [of "an_batch rec"] by auto
  let ?s3 = "?s2\<lparr>sy_chain := c, sy_flights := [] @ ?f\<lparr>fl_answer := Some (Inr q)\<rparr> # []\<rparr>"
  have r3: "sys_reach pad32 pad32 ?cl ?s3"
    by (rule sys_reach.step [OF r2 sys_step.commit [where clk = "\<lambda>_. 0"]]) (use q in simp_all)
  have rec: "rec \<in> set (anchors db1)" "same_batch rec rec" using st by (simp_all add: same_batch_def)
  let ?db = "snd (flush_end demo_env rec leaves (Inr q) db1)"
  let ?s4 = "?s3\<lparr>sy_db := ?db, sy_flights := [] @ []\<rparr>"
  let ?g = "?f\<lparr>fl_answer := Some (Inr q)\<rparr>"
  have g: "sy_flights ?s3 = [] @ ?g # []" "fl_answer ?g = Some (Inr q)" "fl_batch ?g = rec" "fl_leaves ?g = leaves" by simp_all
  have r4: "sys_reach pad32 pad32 ?cl ?s4"
    by (rule sys_reach.step [OF r3 sys_step.finish [OF g(1,2), of demo_env pad32 "Inr (Flush_done q)"]])
      (simp_all add: g flush_end_receipt [OF rec], simp add: demo_env_def)
  obtain e where e: "audit run_event = [e]" "ae_tenant e = int_str 3" "ae_seq e = 1" "ae_anchored e = None"
    "ae_type e = ''TITLE_ISSUED''" "ae_payload e = run_payload"
    using run_event_audit by blast
  from one_event_anchored [OF e(1-4) b, of q] obtain a tail where
    "audit ?db = e\<lparr>ae_anchored := Some (an_batch a)\<rparr> # tail" "\<forall>x\<in>set tail. ae_type x = ''ANCHOR_COMMITTED''"
    "a \<in> set (anchors ?db)" "an_status a = rc_status q" "an_batch a \<noteq> []" by blast
  then show ?thesis using r4 e q(2)
    by (intro exI [of _ ?s4] exI [of _ "e\<lparr>ae_anchored := Some (an_batch a)\<rparr>"] exI [of _ a] exI [of _ tail]) simp
qed

lemma mock_confirms: "\<exists>q c. cl_commit (mock_client sha kec) clk b d rt c0 = (Inr q, c) \<and> rc_status q = A_CONFIRMED"
  by (simp add: mock_client_def mock_commit_def Let_def)

lemmas run_reaches = run_reaches_on [OF mock_confirms]

theorem anchored_event_verifies_witness:
  "\<exists>s p. sys_reach pad32 pad32 (mock_client pad32 pad32) s \<and> build_proof_for_event pad32 3 1 (sy_db s) = Inr (Some p)
     \<and> cl_verify (mock_client pad32 pad32) (mp_batch p) (mp_leaf p) (mp_siblings p) (sy_chain s) = Inr True"
proof -
  obtain s r a tail where s: "sys_reach pad32 pad32 (mock_client pad32 pad32) s" "audit (sy_db s) = r # tail"
    "ae_tenant r = int_str 3" and seq: "ae_seq r = 1" and
    a: "a \<in> set (anchors (sy_db s))" "ae_anchored r = Some (an_batch a)" "an_status a = A_CONFIRMED"
    using run_reaches by blast
  have "r \<in> set (audit (sy_db s))" using s(2) by simp
  then show ?thesis using anchored_event_verifies [OF s(1) _ s(3) a] s(1) seq by auto
qed

end
