(* ===== verification/Registry.thy ===== *)
theory Registry
  imports Ops Titles Anchor_Props
begin

text \<open>
  The land register as the law sees it, and the refinement that the handlers implement it: who holds
  which parcel in which status, who is on the register of owners with which identity check, and which
  officer may change what.  Every handler, on every branch, is one move of this register.
\<close>

section \<open>The abstract register\<close>

record land =
  holding :: "string \<Rightarrow> (string option \<times> parcel_status) option"
  standing :: "string \<Rightarrow> kyc_status option"

definition land_of :: "db \<Rightarrow> land" where
  "land_of s =
     \<lparr>holding = (\<lambda>i. map_option (\<lambda>p. (p_owner p, p_status p)) (find_parcel i s)),
      standing = (\<lambda>w. map_option o_kyc (find_owner w s))\<rparr>"

definition hold :: "string \<Rightarrow> string option \<Rightarrow> parcel_status \<Rightarrow> land \<Rightarrow> land" where
  "hold i w st a = a\<lparr>holding := (holding a)(i \<mapsto> (w, st))\<rparr>"

definition grade :: "string \<Rightarrow> kyc_status \<Rightarrow> land \<Rightarrow> land" where
  "grade w k a = a\<lparr>standing := (standing a)(w \<mapsto> k)\<rparr>"

text \<open>An administrator passes every role check.\<close>

definition by_role :: "role list \<Rightarrow> auth_context option \<Rightarrow> bool" where
  "by_role roles ctx \<longleftrightarrow> (case ctx of None \<Rightarrow> False | Some c \<Rightarrow> has_role c roles)"

inductive land_move :: "auth_context option \<Rightarrow> land \<Rightarrow> land \<Rightarrow> bool" for ctx where
  stay: "land_move ctx a a"
| register: "by_role [SURVEYOR, REGISTRAR] ctx \<Longrightarrow> holding a i = None \<Longrightarrow> (\<And>x. w = Some x \<Longrightarrow> standing a x \<noteq> None)
    \<Longrightarrow> land_move ctx a (hold i w P_ACTIVE a)"
| title: "by_role [REGISTRAR] ctx \<Longrightarrow> holding a i = Some (w, st) \<Longrightarrow> st = P_ACTIVE \<or> st = P_TRANSFERRED
    \<Longrightarrow> standing a x = Some K_VERIFIED \<Longrightarrow> land_move ctx a (hold i (Some x) P_ACTIVE a)"
| sell: "by_role [REGISTRAR, LAND_OFFICER] ctx \<Longrightarrow> holding a i \<noteq> None \<Longrightarrow> standing a x \<noteq> None
    \<Longrightarrow> land_move ctx a (hold i (Some x) P_TRANSFERRED a)"
| dispute: "ctx = Some c \<Longrightarrow> standing a (cx_id c) \<noteq> None \<Longrightarrow> holding a i = Some (w, st)
    \<Longrightarrow> land_move ctx a (hold i w P_DISPUTED a)"
| freeze: "by_role [LAND_OFFICER, REGISTRAR] ctx \<Longrightarrow> holding a i = Some (w, st)
    \<Longrightarrow> land_move ctx a (hold i w P_FROZEN a)"
| release: "by_role [AUDITOR, REGISTRAR] ctx \<Longrightarrow> holding a i = Some (w, st) \<Longrightarrow> st = P_DISPUTED \<or> st = P_FROZEN
    \<Longrightarrow> land_move ctx a (hold i w P_ACTIVE a)"
| enrol: "by_role [LAND_OFFICER, REGISTRAR] ctx \<Longrightarrow> standing a w = None \<Longrightarrow> land_move ctx a (grade w K_PENDING a)"
| check: "by_role [LAND_OFFICER, REGISTRAR] ctx \<Longrightarrow> standing a w \<noteq> None \<Longrightarrow> k = K_VERIFIED \<or> k = K_REJECTED
    \<Longrightarrow> land_move ctx a (grade w k a)"

text \<open>Whoever holds land is on the register of owners.\<close>

definition land_ok :: "land \<Rightarrow> bool" where
  "land_ok a \<longleftrightarrow> (\<forall>i x st. holding a i = Some (Some x, st) \<longrightarrow> standing a x \<noteq> None)"

lemma hold_sel [simp]:
  "holding (hold i w st a) j = (if j = i then Some (w, st) else holding a j)" "standing (hold i w st a) = standing a"
  by (auto simp: hold_def)

lemma grade_sel [simp]:
  "holding (grade w k a) = holding a" "standing (grade w k a) x = (if x = w then Some k else standing a x)"
  by (auto simp: grade_def)

lemma land_move_ok: "land_move ctx a b \<Longrightarrow> land_ok a \<Longrightarrow> land_ok b"
  by (induction rule: land_move.induct) (auto simp: land_ok_def split: if_splits)

text \<open>What the moves promise about one parcel: only these officers, only from these statuses.\<close>

lemma land_move_status:
  assumes "land_move ctx a b" "holding a i = Some (w, st)" "holding b i = Some (w', st')" "(w', st') \<noteq> (w, st)"
  shows "(w' \<noteq> w \<longrightarrow> by_role [REGISTRAR, LAND_OFFICER] ctx)
    \<and> (st' = P_FROZEN \<longrightarrow> by_role [LAND_OFFICER, REGISTRAR] ctx \<and> w' = w)
    \<and> (st' = P_ACTIVE \<longrightarrow> by_role [AUDITOR, REGISTRAR] ctx)
    \<and> (st' = P_TRANSFERRED \<longrightarrow> by_role [REGISTRAR, LAND_OFFICER] ctx)
    \<and> (st' = P_DISPUTED \<longrightarrow> ctx \<noteq> None \<and> w' = w)"
  using assms by (cases rule: land_move.cases) (auto simp: by_role_def has_role_def split: if_splits option.splits)

section \<open>How the statements move it\<close>

lemma land_eqI: "parcels s' = parcels s \<Longrightarrow> owners s' = owners s \<Longrightarrow> land_of s' = land_of s"
  by (simp add: land_of_def find_row_defs)

lemma land_registry: "registry s' = registry s \<Longrightarrow> land_of s' = land_of s"
  by (rule land_eqI) (simp_all add: registry_def)

lemma land_same [simp]:
  "land_of (emit E k t p d a s) = land_of s" "land_of (set_transfer i f s) = land_of s"
  "land_of (set_dispute i g s) = land_of s" "land_of (decide_review i st now u n s) = land_of s"
  "land_of (set_appeal i h s) = land_of s" "land_of (set_revoked i now r s) = land_of s"
  "land_of (s\<lparr>titles := x1\<rparr>) = land_of s" "land_of (s\<lparr>nira := x2\<rparr>) = land_of s"
  by (rule land_eqI; simp add: set_appeal_def set_revoked_def)+

lemma land_inserts [simp]:
  "land_of (snd (insert_title r1 s)) = land_of s" "land_of (snd (insert_transfer r2 s)) = land_of s"
  "land_of (snd (insert_job r3 s)) = land_of s" "land_of (snd (insert_dispute r4 s)) = land_of s"
  "land_of (snd (insert_appeal r5 s)) = land_of s" "land_of (snd (insert_district r6 s)) = land_of s"
  "land_of (snd (insert_staff r7 s)) = land_of s"
  by (rule land_eqI; simp add: insert_row_defs)+

lemma land_holding: "find_parcel i s = Some p \<Longrightarrow> holding (land_of s) i = Some (p_owner p, p_status p)"
  and land_free: "find_parcel i s = None \<Longrightarrow> holding (land_of s) i = None"
  and land_standing: "find_owner w s = Some r \<Longrightarrow> standing (land_of s) w = Some (o_kyc r)"
  and land_unknown: "find_owner w s = None \<Longrightarrow> standing (land_of s) w = None"
  by (simp_all add: land_of_def)

lemma land_known: "find_owner w s \<noteq> None \<Longrightarrow> standing (land_of s) w \<noteq> None"
  by (simp add: land_of_def)

lemma land_holdI:
  assumes "owners s' = owners s"
    and "\<And>j. map_option (\<lambda>p. (p_owner p, p_status p)) (find_parcel j s')
           = (if j = i then Some (w, st) else map_option (\<lambda>p. (p_owner p, p_status p)) (find_parcel j s))"
  shows "land_of s' = hold i w st (land_of s)"
  using assms find_row_cong(1) [OF assms(1)] by (auto simp: land_of_def hold_def)

lemma land_gradeI:
  assumes "parcels s' = parcels s"
    and "\<And>x. map_option o_kyc (find_owner x s') = (if x = w then Some k else map_option o_kyc (find_owner x s))"
  shows "land_of s' = grade w k (land_of s)"
  using assms find_row_cong(2) [OF assms(1)] by (auto simp: land_of_def grade_def)

lemma land_set_owner:
  assumes "find_parcel i s = Some p"
  shows "land_of (set_parcel_owner i x now s) = hold i (Some x) P_ACTIVE (land_of s)"
proof (rule land_holdI)
  fix j
  show "map_option (\<lambda>p. (p_owner p, p_status p)) (find_parcel j (set_parcel_owner i x now s))
      = (if j = i then Some (Some x, P_ACTIVE) else map_option (\<lambda>p. (p_owner p, p_status p)) (find_parcel j s))"
    using assms by (cases "find_parcel j s") (auto simp: find_parcel_set_owner dest: find_parcel_id)
qed simp

lemma land_move_parcel:
  assumes "move_parcel i x now s = (Inr (), s')" "find_parcel i s = Some p"
  shows "land_of s' = hold i (Some x) P_TRANSFERRED (land_of s)"
proof (rule land_holdI)
  show "owners s' = owners s" using assms(1) by (auto simp: move_parcel_Inr)
  fix j
  show "map_option (\<lambda>p. (p_owner p, p_status p)) (find_parcel j s')
      = (if j = i then Some (Some x, P_TRANSFERRED) else map_option (\<lambda>p. (p_owner p, p_status p)) (find_parcel j s))"
    using assms(2) by (cases "find_parcel j s") (auto simp: find_move_parcel [OF assms(1)] dest: find_parcel_id)
qed

lemma land_mark_in:
  assumes "find_parcel i s = Some p" "p_status p \<in> from"
  shows "land_of (mark_parcel i from st now s) = hold i (p_owner p) st (land_of s)"
proof (rule land_holdI)
  fix j
  show "map_option (\<lambda>p. (p_owner p, p_status p)) (find_parcel j (mark_parcel i from st now s))
      = (if j = i then Some (p_owner p, st) else map_option (\<lambda>p. (p_owner p, p_status p)) (find_parcel j s))"
    using assms by (cases "find_parcel j s") (auto simp: find_mark_parcel dest: find_parcel_id)
qed simp

lemma land_mark_out:
  assumes "\<And>p. find_parcel i s = Some p \<Longrightarrow> p_status p \<notin> from"
  shows "land_of (mark_parcel i from st now s) = land_of s"
proof -
  have "find_parcel j (mark_parcel i from st now s) = find_parcel j s" for j
    using assms by (cases "find_parcel j s") (auto simp: find_mark_parcel dest: find_parcel_id)
  moreover have "find_owner w (mark_parcel i from st now s) = find_owner w s" for w by (rule find_row_cong) simp
  ultimately show ?thesis by (simp add: land_of_def)
qed

lemma land_insert_parcel:
  assumes "insert_parcel r s = (Inr (), s')"
  shows "land_of s' = hold (p_id r) (p_owner r) (p_status r) (land_of s)" "holding (land_of s) (p_id r) = None"
    "p_owner r = Some x \<Longrightarrow> standing (land_of s) x \<noteq> None"
proof -
  have s': "s' = s\<lparr>parcels := parcels s @ [r]\<rparr>" and free: "find_parcel (p_id r) s = None"
    and ref: "ref_ok (\<lambda>i. find_owner i s \<noteq> None) (p_owner r)"
    using assms by (simp_all add: insert_parcel_Inr)
  show "land_of s' = hold (p_id r) (p_owner r) (p_status r) (land_of s)"
  proof (rule land_holdI)
    fix j
    show "map_option (\<lambda>p. (p_owner p, p_status p)) (find_parcel j s')
        = (if j = p_id r then Some (p_owner r, p_status r) else map_option (\<lambda>p. (p_owner p, p_status p)) (find_parcel j s))"
      using free by (auto simp: s' find_parcel_def find_append split: option.split)
  qed (simp add: s')
  show "holding (land_of s) (p_id r) = None" using free by (rule land_free)
  show "p_owner r = Some x \<Longrightarrow> standing (land_of s) x \<noteq> None" using ref by (simp add: ref_ok_def land_known)
qed

lemma land_insert_owner:
  assumes "insert_owner r s = (Inr (), s')"
  shows "land_of s' = grade (o_id r) (o_kyc r) (land_of s)" "standing (land_of s) (o_id r) = None"
proof -
  have s': "s' = s\<lparr>owners := owners s @ [r]\<rparr>" and free: "find_owner (o_id r) s = None"
    using assms by (auto simp: insert_owner_def split: if_splits)
  show "land_of s' = grade (o_id r) (o_kyc r) (land_of s)"
  proof (rule land_gradeI)
    fix x
    show "map_option o_kyc (find_owner x s') = (if x = o_id r then Some (o_kyc r) else map_option o_kyc (find_owner x s))"
      using free by (auto simp: s' find_owner_def find_append split: option.split)
  qed (simp add: s')
  show "standing (land_of s) (o_id r) = None" using free by (rule land_unknown)
qed

lemma land_set_kyc:
  assumes "find_owner w s \<noteq> None"
  shows "land_of (set_kyc w k now s) = grade w k (land_of s)"
proof (rule land_gradeI)
  fix x
  show "map_option o_kyc (find_owner x (set_kyc w k now s)) = (if x = w then Some k else map_option o_kyc (find_owner x s))"
    using assms by (cases "find_owner x s") (auto simp: find_owner_set_kyc dest: find_owner_id)
qed simp

section \<open>Every handler is a move\<close>

lemma guarded_move:
  assumes "\<And>c. ctx = Some c \<Longrightarrow> has_role c roles \<Longrightarrow> land_move ctx (land_of s) (land_of (snd (h c s)))"
  shows "land_move ctx (land_of s) (land_of (snd (guarded_by roles ctx h s)))"
  using assms by (cases rule: guarded_by_cases [of roles ctx h s]) (auto intro: land_move.stay)

lemma guarded_keeps: "(\<And>c. f (snd (h c s)) = f s) \<Longrightarrow> f (snd (guarded_by roles ctx h s)) = f s"
  by (cases rule: guarded_by_cases [of roles ctx h s]) simp_all

lemma move_stay: "land_of s' = land_of s \<Longrightarrow> land_move ctx (land_of s) (land_of s')"
  by (simp add: land_move.stay)

lemma create_parcel_move: "land_move ctx (land_of s) (land_of (snd (create_parcel E q ctx s)))"
  unfolding create_parcel_def
proof (rule guarded_move)
  fix c assume c: "ctx = Some c" "has_role c [SURVEYOR, REGISTRAR]"
  let ?p = "new_parcel E q (gv_area (validate_geometry E (1 / 10000) 10000 (JObj (pq_geometry q))))"
  show "land_move ctx (land_of s) (land_of (snd (create_parcel_handler E q c s)))"
  proof (cases "insert_parcel ?p s")
    case (Pair r s1)
    show ?thesis
    proof (cases r)
      case (Inl e)
      then have "s1 = s" using Pair by (auto simp: insert_parcel_def split: if_splits)
      then show ?thesis using Pair Inl by (auto simp: create_parcel_handler_def Let_def land_move.stay)
    next
      case (Inr u)
      then have ins: "insert_parcel ?p s = (Inr (), s1)" using Pair by simp
      note l = land_insert_parcel [OF ins]
      have "land_move ctx (land_of s) (land_of s1)"
        using l c land_move.register [of ctx "land_of s" "p_id ?p" "p_owner ?p"] by (simp add: by_role_def new_parcel_def)
      then show ?thesis using ins by (auto simp: create_parcel_handler_def Let_def land_move.stay split: option.splits)
    qed
  qed
qed

lemma issue_title_move: "land_move ctx (land_of s) (land_of (snd (issue_title E redis q ctx s)))"
  unfolding issue_title_def
proof (rule guarded_move)
  fix c assume c: "ctx = Some c" "has_role c [REGISTRAR]"
  let ?h = "snd (issue_title_handler E redis q c s)"
  show "land_move ctx (land_of s) (land_of ?h)"
  proof (cases "\<exists>p r. title_request_ok q \<and> find_parcel (tq_parcel q) s = Some p \<and> p_status p \<in> {P_ACTIVE, P_TRANSFERRED}
      \<and> find_owner (tq_owner q) s = Some r \<and> o_kyc r = K_VERIFIED")
    case False
    then have "?h = s" by (auto simp: issue_title_handler_def split: option.split)
    then show ?thesis by (simp add: land_move.stay)
  next
    case True
    then obtain p r where p: "title_request_ok q" "find_parcel (tq_parcel q) s = Some p" "p_status p = P_ACTIVE \<or> p_status p = P_TRANSFERRED"
      "find_owner (tq_owner q) s = Some r" "o_kyc r = K_VERIFIED" by blast
    have st: "(p_status p \<noteq> P_ACTIVE \<and> p_status p \<noteq> P_TRANSFERRED) = False" using p(3) by blast
    have keep: "find_parcel (tq_parcel q) (s\<lparr>titles := x\<rparr>) = Some p" for x using p(2) by (simp add: find_parcel_def)
    have "land_of ?h = land_of s \<or> land_of ?h = hold (tq_parcel q) (Some (tq_owner q)) P_ACTIVE (land_of s)"
      using p land_set_owner [OF keep]
      by (auto simp: issue_title_handler_def st insert_title_def Let_def split: sum.split option.split)
    then show ?thesis
      using land_move.title [of ctx "land_of s" "tq_parcel q" "p_owner p" "p_status p" "tq_owner q"] c p
      by (auto simp: by_role_def land_holding land_standing land_move.stay)
  qed
qed

lemma revoke_title_move: "land_move ctx (land_of s) (land_of (snd (revoke_title E no reason ctx s)))"
  unfolding revoke_title_def by (rule guarded_move) (simp add: land_move.stay split: option.split)

lemma create_transfer_move: "land_move ctx (land_of s) (land_of (snd (create_transfer E redis q ctx s)))"
  unfolding create_transfer_def
proof (rule guarded_move)
  fix c
  have "land_of (snd (insert_job j s1)) = land_of s1" for j s1 by simp
  then show "land_move ctx (land_of s) (land_of (snd (create_transfer_handler E redis q c s)))"
    by (auto simp: create_transfer_handler_def Let_def snd_and_then land_move.stay split: option.split sum.split)
qed

lemma approve_transfer_move: "land_move ctx (land_of s) (land_of (snd (approve_transfer E i ctx s)))"
  unfolding approve_transfer_def
proof (rule guarded_move)
  fix c assume c: "ctx = Some c" "has_role c [REGISTRAR, LAND_OFFICER]"
  let ?h = "snd (approve_transfer_handler E i c s)"
  obtain r s1 where g: "gate_score E i s = (r, s1)" by force
  have l1: "land_of s1 = land_of s" using gate_registry [OF g] by (rule land_registry)
  show "land_move ctx (land_of s) (land_of ?h)"
  proof (cases "find_transfer i s")
    case None
    then show ?thesis by (simp add: approve_transfer_handler_def land_move.stay)
  next
    case (Some row)
    let ?f = "\<lambda>t. t\<lparr>t_status := T_COMPLETED, t_completed := Some (e_now E 8)\<rparr>"
    obtain m s2 where m: "move_parcel (t_parcel row) (t_to row) (e_now E 8) (set_transfer i ?f s1) = (m, s2)" by force
    have "land_move ctx (land_of s) (land_of s2)"
    proof (cases "m = Inr () \<and> find_parcel (t_parcel row) s1 \<noteq> None")
      case False
      then have "land_of s2 = land_of s1 \<or> (m = Inr () \<and> find_parcel (t_parcel row) s1 = None)"
        using m by (auto simp: move_parcel_def split: if_splits)
      moreover have "land_of s2 = land_of s1" if n: "m = Inr ()" "find_parcel (t_parcel row) s1 = None"
      proof -
        have "find_parcel j s2 = find_parcel j s1" for j
          using find_move_parcel [OF m [unfolded n(1)], of j] n(2) by (cases "find_parcel j s1") (auto dest: find_parcel_id)
        moreover have "find_owner w s2 = find_owner w s1" for w
          by (rule find_row_cong) (use m n in \<open>auto simp: move_parcel_Inr\<close>)
        ultimately show ?thesis by (simp add: land_of_def)
      qed
      ultimately show ?thesis using l1 by (auto simp: land_move.stay)
    next
      case True
      then obtain p where p: "find_parcel (t_parcel row) (set_transfer i ?f s1) = Some p" by auto
      have "find_owner (t_to row) s1 \<noteq> None" using m True by (auto simp: move_parcel_def split: if_splits)
      then have "standing (land_of s) (t_to row) \<noteq> None" using land_known [of "t_to row" s1] l1 by simp
      then show ?thesis
        using land_move_parcel [OF _ p, of "t_to row" "e_now E 8" s2] m True c l1
          land_move.sell [of ctx "land_of s1" "t_parcel row" "t_to row"] land_holding [OF p]
        by (auto simp: by_role_def)
    qed
    then show ?thesis using Some g m l1
      by (auto simp: approve_transfer_handler_def Let_def snd_and_then land_move.stay split: sum.split option.split)
  qed
qed

lemma reject_transfer_move: "land_move ctx (land_of s) (land_of (snd (reject_transfer E i reason ctx s)))"
  unfolding reject_transfer_def
  by (rule guarded_move) (simp add: reject_transfer_handler_def Let_def land_move.stay split: option.split)

lemma mark_move:
  assumes "\<And>p. find_parcel i s = Some p \<Longrightarrow> p_status p \<in> from \<Longrightarrow> land_move ctx (land_of s) (hold i (p_owner p) st (land_of s))"
  shows "land_move ctx (land_of s) (land_of (mark_parcel i from st now s))"
proof (cases "\<exists>p. find_parcel i s = Some p \<and> p_status p \<in> from")
  case True
  then obtain p where "find_parcel i s = Some p" "p_status p \<in> from" by blast
  then show ?thesis using assms land_mark_in by simp
next
  case False
  then have "land_of (mark_parcel i from st now s) = land_of s" by (intro land_mark_out) blast
  then show ?thesis by (rule move_stay)
qed

lemma release_move:
  assumes "by_role [AUDITOR, REGISTRAR] ctx" "land_of s0 = land_of s"
  shows "land_move ctx (land_of s) (land_of (mark_parcel i {P_DISPUTED, P_FROZEN} P_ACTIVE now s0))"
  using mark_move [of i s0 "{P_DISPUTED, P_FROZEN}" ctx P_ACTIVE now] assms land_move.release land_holding by fastforce

lemma file_dispute_move: "land_move ctx (land_of s) (land_of (snd (file_dispute E q ctx s)))"
proof (cases ctx)
  case None
  then show ?thesis by (simp add: file_dispute_def land_move.stay)
next
  case (Some c)
  let ?h = "snd (file_dispute_handler E q c s)"
  have "land_move ctx (land_of s) (land_of ?h)"
  proof (cases "find_parcel (dq_parcel q) s")
    case None
    then show ?thesis by (simp add: file_dispute_handler_def land_move.stay)
  next
    case (Some p)
    let ?d = "new_dispute E q (p_district p) (cx_id c)"
    obtain r s1 where ins: "insert_dispute ?d s = (r, s1)" by force
    have l1: "land_of s1 = land_of s" using land_inserts(4) [of ?d s] ins by simp
    have known: "standing (land_of s) (cx_id c) \<noteq> None" if "r = Inr ()"
      using ins that by (intro land_known) (auto simp: insert_dispute_def new_dispute_def split: if_splits)
    have "land_move ctx (land_of s1) (land_of (mark_parcel (dq_parcel q) UNIV P_DISPUTED (e_now E 1) s1))" if "r = Inr ()"
      using known [OF that] \<open>ctx = Some c\<close> l1 land_move.dispute land_holding by (intro mark_move) fastforce
    then show ?thesis using Some ins l1
      by (auto simp: file_dispute_handler_def Let_def snd_and_then land_move.stay split: sum.split option.split)
  qed
  then show ?thesis using Some by (simp add: file_dispute_def)
qed

lemma review_dispute_move: "land_move ctx (land_of s) (land_of (snd (review_dispute E i ctx s)))"
  unfolding review_dispute_def
  by (rule guarded_move) (simp add: review_dispute_handler_def Let_def land_move.stay split: option.split)

lemma resolve_dispute_move: "land_move ctx (land_of s) (land_of (snd (resolve_dispute E i q ctx s)))"
  unfolding resolve_dispute_def
proof (rule guarded_move)
  fix c assume c: "ctx = Some c" "has_role c [REGISTRAR]"
  then have role: "by_role [AUDITOR, REGISTRAR] ctx" by (auto simp: by_role_def has_role_def)
  show "land_move ctx (land_of s) (land_of (snd (resolve_dispute_handler E i q c s)))"
    using release_move [OF role land_same(3)]
    by (auto simp: resolve_dispute_handler_def Let_def land_move.stay split: option.split)
qed

lemma affirm_review_move: "land_move ctx (land_of s) (land_of (snd (affirm_review E P i n ctx s)))"
  unfolding affirm_review_def
proof (rule guarded_move)
  fix c assume c: "ctx = Some c" "has_role c [LAND_OFFICER, REGISTRAR]"
  then have role: "by_role [LAND_OFFICER, REGISTRAR] ctx" by (simp add: by_role_def)
  have frozen: "land_move ctx (land_of s) (land_of (snd (freeze_subject E row u n s0)))" if l: "land_of s0 = land_of s" for row u s0
  proof -
    have "land_move ctx (land_of s0) (land_of (mark_parcel j UNIV P_FROZEN now s0))" for j now
      using role land_move.freeze land_holding by (intro mark_move) fastforce
    then show ?thesis using l
      by (auto simp: freeze_subject_def Let_def snd_and_then land_move.stay split: option.split sum.split)
  qed
  show "land_move ctx (land_of s) (land_of (snd (affirm_handler E P i n c s)))"
    using frozen [OF land_same(4)]
    by (auto simp: affirm_handler_def Let_def snd_and_then land_move.stay split: option.split sum.split)
qed

lemma dismiss_review_move: "land_move ctx (land_of s) (land_of (snd (dismiss_review E P i n ctx s)))"
  unfolding dismiss_review_def
  by (rule guarded_move) (simp add: dismiss_handler_def Let_def land_move.stay split: option.split)

lemma file_appeal_move: "land_move ctx (land_of s) (land_of (snd (file_appeal E q ctx s)))"
  by (cases ctx) (auto simp: file_appeal_def file_appeal_handler_def Let_def snd_and_then land_move.stay
      split: option.split sum.split)

lemma resolve_appeal_move: "land_move ctx (land_of s) (land_of (snd (resolve_appeal E i oc n ctx s)))"
  unfolding resolve_appeal_def
proof (rule guarded_move)
  fix c assume c: "ctx = Some c" "has_role c [AUDITOR, REGISTRAR]"
  then have role: "by_role [AUDITOR, REGISTRAR] ctx" by (simp add: by_role_def)
  have swap: "{P_FROZEN, P_DISPUTED} = {P_DISPUTED, P_FROZEN}" by blast
  have "land_move ctx (land_of s) (land_of (unfreeze_subject E a oc s0))" if "land_of s0 = land_of s" for a s0
    using release_move [OF role that] that
    by (auto simp: unfreeze_subject_def swap land_move.stay split: option.split)
  then show "land_move ctx (land_of s) (land_of (snd (resolve_appeal_handler E i oc n c s)))"
    by (auto simp: resolve_appeal_handler_def Let_def land_move.stay split: option.split)
qed

lemma create_owner_move: "land_move ctx (land_of s) (land_of (snd (create_owner E q ctx s)))"
  unfolding create_owner_def
proof (rule guarded_move)
  fix c assume c: "ctx = Some c" "has_role c [LAND_OFFICER, REGISTRAR]"
  obtain r s1 where ins: "insert_owner (new_owner E q) s = (r, s1)" by force
  have "land_move ctx (land_of s) (land_of s1)"
  proof (cases r)
    case (Inl e)
    then have "s1 = s" using ins by (auto simp: insert_owner_def split: if_splits)
    then show ?thesis by (simp add: land_move.stay)
  next
    case (Inr u)
    then show ?thesis
      using land_insert_owner [of "new_owner E q" s s1] ins c land_move.enrol [of ctx "land_of s" "o_id (new_owner E q)"]
      by (simp add: by_role_def new_owner_def)
  qed
  then show "land_move ctx (land_of s) (land_of (snd (create_owner_handler E q c s)))"
    using ins by (auto simp: create_owner_handler_def Let_def snd_and_then land_move.stay split: sum.split)
qed

lemma verify_nin_cached_land: "land_of (n_db (snd (verify_nin_cached E st client nin s))) = land_of (n_db s)"
proof -
  obtain r s' where r: "verify_nin_cached E st client nin s = (r, s')" by force
  then show ?thesis using verify_nin_cached_db [OF r] by (auto intro: land_eqI)
qed

lemma kyc_verify_move:
  "land_move ctx (land_of (n_db s)) (land_of (n_db (snd (kyc_verify E st client w nin ctx s))))"
proof (cases rule: guarded_by_cases [of "[LAND_OFFICER, REGISTRAR]" ctx "kyc_verify_handler E st client w nin" s])
  case (1 e)
  then show ?thesis by (simp add: kyc_verify_def land_move.stay)
next
  case (2 c)
  obtain r s1 where v: "verify_nin_cached E st client nin s = (r, s1)" by force
  have l1: "land_of (n_db s1) = land_of (n_db s)" using verify_nin_cached_land [of E st client nin s] v by simp
  have "land_move ctx (land_of (n_db s)) (land_of (n_db (snd (kyc_verify_handler E st client w nin c s))))"
  proof (cases "nin_ok nin \<and> find_owner w (n_db s) \<noteq> None \<and> is_ok r")
    case False
    then show ?thesis using v l1 by (cases r) (auto simp: kyc_verify_handler_def land_move.stay)
  next
    case True
    then obtain x where x: "r = Inr x" by (cases r) auto
    obtain o1 where "find_owner w (n_db s1) = Some o1"
      using True verify_nin_cached_db [OF v] by (auto simp: find_owner_def)
    then have "land_of (set_kyc w k now (n_db s1)) = grade w k (land_of (n_db s))" for k now
      using land_set_kyc [of w "n_db s1"] l1 by simp
    moreover have "standing (land_of (n_db s)) w \<noteq> None" using True land_known by blast
    ultimately show ?thesis using True v x 2 land_move.check [of ctx "land_of (n_db s)" w]
      by (auto simp: kyc_verify_handler_def Let_def n_emit_def by_role_def)
  qed
  then show ?thesis using 2 by (simp add: kyc_verify_def)
qed

lemma verify_nin_move:
  "land_move ctx (land_of (n_db s)) (land_of (n_db (snd (verify_nin_endpoint E st client nin ctx s))))"
proof -
  obtain r s1 where v: "verify_nin_cached E st client nin s = (r, s1)" by force
  have l1: "land_of (n_db s1) = land_of (n_db s)" using verify_nin_cached_land [of E st client nin s] v by simp
  have "land_of (n_db (snd (verify_nin_endpoint E st client nin ctx s))) = land_of (n_db s)"
    unfolding verify_nin_endpoint_def
    by (rule guarded_keeps) (cases r; simp add: v l1 n_emit_def)
  then show ?thesis by (rule move_stay)
qed

lemma flush_district_land: "land_of (as_db (snd (flush_district E st client d force s))) = land_of (as_db s)"
proof -
  have upd: "land_of (update_anchor b f x) = land_of x" for b f x by (rule land_eqI) (simp_all add: update_anchor_def)
  have aud: "land_of (x\<lparr>audit := rows\<rparr>) = land_of x" for x rows by (rule land_eqI) simp_all
  have fin: "land_of (snd (flush_end E rec leaves r x)) = land_of x" for rec leaves r x
    by (simp add: flush_end_def Let_def upd aud split: sum.split exc.split prod.split)
  have beg: "land_of (snd (flush_begin E st d force x)) = land_of x" for x
    by (auto simp: flush_begin_def Let_def snd_and_then insert_anchor_row_def intro: land_eqI split: sum.split)
  obtain r db1 where b: "flush_begin E st d force (as_db s) = (r, db1)" by force
  have l1: "land_of db1 = land_of (as_db s)" using beg [of "as_db s"] b by simp
  show ?thesis
  proof (cases "\<exists>rec leaves. r = Inr (Started rec leaves)")
    case True
    then obtain rec leaves where "r = Inr (Started rec leaves)" by blast
    then show ?thesis using flush_district_started [of E st d force s rec leaves db1 client] b fin l1
      by (simp split: prod.split)
  next
    case False
    then show ?thesis using b l1 by (auto simp: flush_district_def split: sum.split flush_start.split)
  qed
qed

end
