(* ===== verification/Backend.thy ===== *)
theory Backend
  imports Registry
begin

text \<open>
  The backend as one transition function: every route of \<open>backend/app/main.py\<close> that can change
  something and one turn of every background task of its lifespan, on the whole state of a process.
  What holds of it is what holds of the program: the refinement of the land register, and that the
  ledger, the batches and the chain stay within the system of \<open>Anchor_Safety\<close>.
\<close>

section \<open>Requests\<close>

text \<open>What a process is configured with.\<close>

record 'c world =
  w_settings :: settings
  w_chain :: "'c chain_client"
  w_nira :: nira_client
  w_redis :: "stream option"
  w_text :: py_text
  w_note :: string
  w_lock :: "time \<Rightarrow> cache setnx"

datatype request =
    Create_District district_request | Create_Staff staff_request
  | Create_Owner owner_request | Kyc_Verify string string | Verify_Nin string
  | Create_Parcel parcel_request | Issue_Title title_request | Revoke_Title string string
  | Create_Transfer transfer_request | Approve_Transfer string | Reject_Transfer string string
  | File_Dispute dispute_request | Review_Dispute string | Resolve_Dispute string resolve_request
  | Rescore string string | Affirm_Review string string | Dismiss_Review string string
  | File_Appeal appeal_request | Resolve_Appeal string appeal_outcome string
  | Manual_Flush int | Demo_Flush int | Rpc_Kill | Rpc_Restore | Nira_Kill | Nira_Restore
  | Rescore_Pending | Demo_Status
  | Worker_Turn "entry list res option" | Scheduler_Turn | Anchor_Turn

text \<open>
  The state after a request; its answer is that of the route.  The second environment gives the
  readings of the second half of a turn of the worker and of the scheduler.
\<close>

fun handle ::
  "'c world \<Rightarrow> 'g env \<Rightarrow> 'g env \<Rightarrow> auth_context option \<Rightarrow> request \<Rightarrow> 'c backend \<Rightarrow> 'c backend" where
  "handle W E E2 ctx (Create_District q) b = snd (on_db (create_district E q ctx) b)"
| "handle W E E2 ctx (Create_Staff q) b = snd (on_db (create_staff E q ctx) b)"
| "handle W E E2 ctx (Create_Owner q) b = snd (on_db (create_owner E q ctx) b)"
| "handle W E E2 ctx (Kyc_Verify w nin) b = snd (on_nira (kyc_verify E (w_settings W) (w_nira W) w nin ctx) b)"
| "handle W E E2 ctx (Verify_Nin nin) b = snd (on_nira (verify_nin_endpoint E (w_settings W) (w_nira W) nin ctx) b)"
| "handle W E E2 ctx (Create_Parcel q) b = snd (on_db (create_parcel E q ctx) b)"
| "handle W E E2 ctx (Issue_Title q) b = snd (on_db (issue_title E (w_redis W) q ctx) b)"
| "handle W E E2 ctx (Revoke_Title no r) b = snd (on_db (revoke_title E no r ctx) b)"
| "handle W E E2 ctx (Create_Transfer q) b = snd (on_db (create_transfer E (w_redis W) q ctx) b)"
| "handle W E E2 ctx (Approve_Transfer i) b = snd (on_db (approve_transfer E i ctx) b)"
| "handle W E E2 ctx (Reject_Transfer i r) b = snd (on_db (reject_transfer E i r ctx) b)"
| "handle W E E2 ctx (File_Dispute q) b = snd (on_db (file_dispute E q ctx) b)"
| "handle W E E2 ctx (Review_Dispute i) b = snd (on_db (review_dispute E i ctx) b)"
| "handle W E E2 ctx (Resolve_Dispute i q) b = snd (on_db (resolve_dispute E i q ctx) b)"
| "handle W E E2 ctx (Rescore t i) b = snd (on_db (rescore E (w_redis W) t i ctx) b)"
| "handle W E E2 ctx (Affirm_Review i n) b = snd (on_db (affirm_review E (w_text W) i n ctx) b)"
| "handle W E E2 ctx (Dismiss_Review i n) b = snd (on_db (dismiss_review E (w_text W) i n ctx) b)"
| "handle W E E2 ctx (File_Appeal q) b = snd (on_db (file_appeal E q ctx) b)"
| "handle W E E2 ctx (Resolve_Appeal i oc n) b = snd (on_db (resolve_appeal E i oc n ctx) b)"
| "handle W E E2 ctx (Manual_Flush d) b = snd (on_anchor (manual_flush E (w_settings W) (w_chain W) d ctx) b)"
| "handle W E E2 ctx (Demo_Flush d) b = snd (demo_flush E (w_settings W) (w_chain W) d b)"
| "handle W E E2 ctx Rpc_Kill b = snd (rpc_kill E (w_settings W) b)"
| "handle W E E2 ctx Rpc_Restore b = snd (rpc_restore E (w_settings W) b)"
| "handle W E E2 ctx Nira_Kill b = snd (nira_kill E (w_settings W) b)"
| "handle W E E2 ctx Nira_Restore b = snd (nira_restore E (w_settings W) b)"
| "handle W E E2 ctx Rescore_Pending b = snd (rescore_pending E (w_settings W) (w_redis W) b)"
| "handle W E E2 ctx Demo_Status b = snd (demo_status E (w_settings W) b)"
| "handle W E E2 ctx (Worker_Turn read) b =
     (let w = snd (consumer_turn E E2 (w_lock W (e_now E2 0)) read \<lparr>wk_last = be_sweep b, wk_lock = be_cache b, wk_db = be_db b\<rparr>)
      in b\<lparr>be_sweep := wk_last w, be_cache := wk_lock w, be_db := wk_db w\<rparr>)"
| "handle W E E2 ctx Scheduler_Turn b =
     (let (c, t, s) = scheduler_turn E E2 (w_note W) (w_lock W (e_now E 0)) (be_cache b, be_parity b, be_db b)
      in b\<lparr>be_cache := c, be_parity := t, be_db := s\<rparr>)"
| "handle W E E2 ctx Anchor_Turn b =
     (let a = anchor_loop_iteration E (w_settings W) (w_chain W) \<lparr>as_db = be_db b, as_breaker = be_anchor b, as_chain = be_chain b\<rparr>
      in b\<lparr>be_db := as_db a, be_anchor := as_breaker a, be_chain := as_chain a\<rparr>)"

text \<open>Requests in the order they are served.\<close>

record 'g event =
  ev_env :: "'g env"
  ev_env2 :: "'g env"
  ev_ctx :: "auth_context option"
  ev_request :: request

definition handle_all :: "'c world \<Rightarrow> 'g event list \<Rightarrow> 'c backend \<Rightarrow> 'c backend" where
  "handle_all W evs b = foldl (\<lambda>b e. handle W (ev_env e) (ev_env2 e) (ev_ctx e) (ev_request e) b) b evs"

definition new_backend :: "db \<Rightarrow> 'c \<Rightarrow> 'c backend" where
  "new_backend s c =
     \<lparr>be_db = s, be_nira = NIRA_BREAKER, be_cache = Map.empty, be_anchor = ANCHOR_BREAKER, be_chain = c, be_sweep = 0, be_parity = 0\<rparr>"

lemma handle_all_simps [simp]:
  "handle_all W [] b = b"
  "handle_all W (e # evs) b = handle_all W evs (handle W (ev_env e) (ev_env2 e) (ev_ctx e) (ev_request e) b)"
  by (simp_all add: handle_all_def)

section \<open>The land register\<close>

lemma anchor_round_land: "land_of (as_db (anchor_round E st client ds s)) = land_of (as_db s)"
  by (induction ds arbitrary: E s) (simp_all add: flush_district_land)

lemma manual_flush_land: "land_of (as_db (snd (manual_flush E st client d ctx s))) = land_of (as_db s)"
  unfolding manual_flush_def by (rule guarded_keeps [where f = "\<lambda>s. land_of (as_db s)"]) (rule flush_district_land)

lemma consumer_turn_land: "land_of (wk_db (snd (consumer_turn E E2 setnx read w))) = land_of (wk_db w)"
  by (rule land_registry) (simp add: consumer_turn_db split: option.split sum.split)

lemma registry_escalate [simp]: "registry (snd (escalate_pending E note now s)) = registry s"
  by (simp add: escalate_pending_def Let_def)

lemma registry_parity [simp]: "registry (snd (run_parity_audit E s)) = registry s"
  by (simp add: run_parity_audit_def parity_report_def Let_def)

lemma scheduler_turn_land: "land_of (snd (snd (scheduler_turn E E2 note setnx (c, t, s)))) = land_of s"
  by (rule land_registry) (simp add: scheduler_turn_def run_tick_def Let_def split: prod.split)

lemmas handler_moves = create_owner_move create_parcel_move issue_title_move revoke_title_move create_transfer_move
  approve_transfer_move reject_transfer_move file_dispute_move review_dispute_move resolve_dispute_move
  affirm_review_move dismiss_review_move file_appeal_move resolve_appeal_move

lemmas demo_defs = rpc_kill_def rpc_restore_def nira_kill_def nira_restore_def rescore_pending_def demo_status_def
  demo_flush_def ensure_enabled_def

lemma handle_moves: "land_move ctx (land_of (be_db b)) (land_of (be_db (handle W E E2 ctx q b)))"
proof (cases q)
  case (Create_District x)
  have "land_of (snd (create_district E x ctx (be_db b))) = land_of (be_db b)"
    unfolding create_district_def by (rule guarded_keeps) (simp add: snd_and_then split: sum.split)
  then show ?thesis by (simp add: Create_District move_stay)
next
  case (Create_Staff x)
  have "land_of (snd (create_staff E x ctx (be_db b))) = land_of (be_db b)"
    unfolding create_staff_def by (rule guarded_keeps) (simp add: snd_and_then split: sum.split option.split)
  then show ?thesis by (simp add: Create_Staff move_stay)
next
  case (Kyc_Verify w nin)
  then show ?thesis
    using kyc_verify_move [of ctx "\<lparr>n_db = be_db b, n_breaker = be_nira b, n_cache = be_cache b\<rparr>" E "w_settings W" "w_nira W" w nin]
    by (simp add: on_nira_db)
next
  case (Verify_Nin nin)
  then show ?thesis
    using verify_nin_move [of ctx "\<lparr>n_db = be_db b, n_breaker = be_nira b, n_cache = be_cache b\<rparr>" E "w_settings W" "w_nira W" nin]
    by (simp add: on_nira_db)
next
  case (Rescore t i)
  have "land_of (snd (rescore E (w_redis W) t i ctx (be_db b))) = land_of (be_db b)"
    unfolding rescore_def by (rule guarded_keeps) simp
  then show ?thesis by (simp add: Rescore move_stay)
next
  case (Manual_Flush d)
  then show ?thesis by (simp add: on_anchor_db manual_flush_land move_stay)
next
  case (Demo_Flush d)
  then show ?thesis by (simp add: demo_defs on_anchor_db flush_district_land move_stay)
next
  case (Worker_Turn read)
  then show ?thesis by (simp add: Let_def consumer_turn_land move_stay)
next
  case Scheduler_Turn
  then show ?thesis
    using scheduler_turn_land [of E E2 "w_note W" "w_lock W (e_now E 0)" "be_cache b" "be_parity b" "be_db b"]
    by (simp add: move_stay case_prod_beta)
next
  case Anchor_Turn
  then show ?thesis by (simp add: Let_def anchor_loop_iteration_def anchor_round_land move_stay)
qed (simp_all add: handler_moves demo_defs Let_def move_stay split: prod.split)

lemma handle_all_land_ok: "land_ok (land_of (be_db b)) \<Longrightarrow> land_ok (land_of (be_db (handle_all W evs b)))"
proof (induction evs arbitrary: b)
  case (Cons e evs)
  then show ?case by (simp add: land_move_ok [OF handle_moves])
qed simp

end
