(* ===== verification/Json_Parse.thy ===== *)
theory Json_Parse
  imports Json_Roundtrip
begin

text \<open>
  What \<open>json.loads\<close> returns, for any text: objects with distinct keys and floats that are literals.
  So whatever a payload was read from, hashing and printing it again is well defined.
\<close>

section \<open>Numbers\<close>

lemma digits_split: "digits_of s = (ds, r) \<Longrightarrow> s = ds @ r \<and> list_all is_digit ds \<and> (r = [] \<or> \<not> is_digit (hd r))"
proof -
  assume "digits_of s = (ds, r)"
  then have d: "ds = takeWhile is_digit s" "r = dropWhile is_digit s" by (auto simp: digits_of_def)
  then have "s = ds @ r" "list_all is_digit ds" by (auto simp: list_all_iff dest: set_takeWhileD)
  moreover have "r = [] \<or> \<not> is_digit (hd r)" using d(2) hd_dropWhile [of is_digit s] by blast
  ultimately show ?thesis by blast
qed

lemma digits_again: "list_all is_digit ds \<Longrightarrow> t = [] \<or> \<not> is_digit (hd t) \<Longrightarrow> digits_of (ds @ t) = (ds, t)"
  by (cases t) (auto simp: digits_of_def list_all_iff takeWhile_append dropWhile_append)

text \<open>What a part of a number read is read again from the part alone, whatever it is followed by.\<close>

definition no_digit :: "string \<Rightarrow> bool" where
  "no_digit t \<longleftrightarrow> t = [] \<or> \<not> is_digit (hd t)"

lemma scan_exp_again:
  assumes "scan_exp s = (e, r)"
  shows "scan_exp e = (e, [])" "no_digit e" "e = [] \<or> hd e \<noteq> CHR ''.''"
proof -
  have "scan_exp e = (e, []) \<and> no_digit e \<and> (e = [] \<or> hd e \<noteq> CHR ''.'')"
  proof (cases "e = []")
    case True
    then show ?thesis by (simp add: scan_exp_def no_digit_def)
  next
    case False
    then obtain c t where s: "s = c # t" "c = CHR ''e'' \<or> c = CHR ''E''"
      using assms by (cases s) (auto simp: scan_exp_def split: if_splits)
    define sg where "sg = (case t of d # r' \<Rightarrow> if d = CHR ''-'' \<or> d = CHR ''+'' then [d] else [] | [] \<Rightarrow> [])"
    define t' where "t' = (case t of d # r' \<Rightarrow> if d = CHR ''-'' \<or> d = CHR ''+'' then r' else t | [] \<Rightarrow> t)"
    have pair: "(case t of d # r' \<Rightarrow> if d = CHR ''-'' \<or> d = CHR ''+'' then ([d], r') else ([], t) | [] \<Rightarrow> ([], t)) = (sg, t')"
      by (auto simp: sg_def t'_def split: list.split)
    obtain ds z where d: "digits_of t' = (ds, z)" by force
    have ds: "ds \<noteq> []" "e = c # sg @ ds" using assms False s pair d by (auto simp: scan_exp_def split: if_splits)
    have dig: "list_all is_digit ds" using digits_split [OF d] by simp
    have sgn: "\<not> is_digit CHR ''-''" "\<not> is_digit CHR ''+''" by code_simp+
    have "hd ds \<noteq> CHR ''-''" "hd ds \<noteq> CHR ''+''" using dig ds(1) sgn by (cases ds; auto)+
    then have "(case sg @ ds of d # r' \<Rightarrow> if d = CHR ''-'' \<or> d = CHR ''+'' then ([d], r') else ([], sg @ ds) | [] \<Rightarrow> ([], sg @ ds)) = (sg, ds)"
      using ds(1) by (cases ds) (auto simp: sg_def split: list.split)
    moreover have "digits_of ds = (ds, [])" using digits_again [OF dig, of "[]"] by simp
    ultimately have "scan_exp e = (e, [])" using s ds by (auto simp: scan_exp_def)
    moreover have "\<not> is_digit c" "c \<noteq> CHR ''.''" using s(2) by (auto simp: is_digit_def)
    ultimately show ?thesis using ds by (simp add: no_digit_def)
  qed
  then show "scan_exp e = (e, [])" "no_digit e" "e = [] \<or> hd e \<noteq> CHR ''.''" by simp_all
qed

lemma scan_frac_again:
  assumes "scan_frac s = (f, r)" "no_digit t" "t = [] \<or> hd t \<noteq> CHR ''.''"
  shows "scan_frac (f @ t) = (f, t)" "no_digit (f @ t)"
proof -
  have "scan_frac (f @ t) = (f, t) \<and> no_digit (f @ t)"
  proof (cases "f = []")
    case True
    then show ?thesis using assms(2,3) by (cases t) (auto simp: scan_frac_def)
  next
    case False
    then obtain u where s: "s = CHR ''.'' # u" using assms(1) by (cases s) (auto simp: scan_frac_def split: if_splits)
    obtain ds z where d: "digits_of u = (ds, z)" by force
    have f: "f = CHR ''.'' # ds" "ds \<noteq> []" using assms(1) False s d by (auto simp: scan_frac_def split: if_splits)
    have "digits_of (ds @ t) = (ds, t)" using digits_split [OF d] assms(2) digits_again by (auto simp: no_digit_def)
    then show ?thesis using f by (auto simp: scan_frac_def no_digit_def is_digit_def)
  qed
  then show "scan_frac (f @ t) = (f, t)" "no_digit (f @ t)" by simp_all
qed

lemma scan_int_part_again:
  assumes "scan_int_part s = Some (i, r)" "no_digit t"
  shows "scan_int_part (i @ t) = Some (i, t)"
proof -
  define sg where "sg = (case s of c # r \<Rightarrow> if c = CHR ''-'' then [c] else [] | [] \<Rightarrow> [])"
  define u where "u = (case s of c # r \<Rightarrow> if c = CHR ''-'' then r else s | [] \<Rightarrow> s)"
  have split: "(case x of c # r \<Rightarrow> if c = CHR ''-'' then ([c], r) else ([], x) | [] \<Rightarrow> ([], x))
      = (case x of c # r \<Rightarrow> if c = CHR ''-'' then [c] else [] | [] \<Rightarrow> [], case x of c # r \<Rightarrow> if c = CHR ''-'' then r else x | [] \<Rightarrow> x)"
    for x :: string by (cases x) auto
  obtain c v where u: "u = c # v" using assms(1) by (cases u) (auto simp: scan_int_part_def split u_def [symmetric])
  have sg: "sg = [] \<or> sg = ''-''" by (auto simp: sg_def split: list.split)
  have neg: "\<not> is_digit CHR ''-''" by code_simp
  show ?thesis
  proof (cases "c = CHR ''0''")
    case True
    then have "i = sg @ ''0''" using assms(1) u by (simp add: scan_int_part_def split u_def [symmetric] sg_def [symmetric])
    then show ?thesis using sg by (auto simp: scan_int_part_def)
  next
    case False
    obtain ds z where d: "digits_of u = (ds, z)" by force
    have i: "i = sg @ ds" "is_digit c" using assms(1) u False d
      by (auto simp: scan_int_part_def split u_def [symmetric] sg_def [symmetric] split: if_splits)
    then obtain ds' where ds: "ds = c # ds'" using d u by (auto simp: digits_of_def)
    have "digits_of (ds @ t) = (ds, t)" using digits_split [OF d] assms(2) digits_again by (auto simp: no_digit_def)
    moreover have "c \<noteq> CHR ''-''" using i(2) neg by auto
    ultimately show ?thesis using sg i ds False by (auto simp: scan_int_part_def)
  qed
qed

lemma scan_number_wf: "scan_number s = Some (j, r) \<Longrightarrow> wf_json j"
proof -
  assume a: "scan_number s = Some (j, r)"
  obtain i u where i: "scan_int_part s = Some (i, u)" using a by (auto simp: scan_number_def split: option.splits)
  obtain f v where f: "scan_frac u = (f, v)" by force
  obtain e w where e: "scan_exp v = (e, w)" by force
  note ea = scan_exp_again [OF e]
  note fa = scan_frac_again [OF f ea(2,3)]
  have "scan_number (i @ f @ e) = Some (if f = [] \<and> e = [] then JInt (int_val i) else JFloat (i @ f @ e), [])"
    using scan_int_part_again [OF i fa(2)] fa(1) ea(1) by (simp add: scan_number_def)
  then show "wf_json j" using a i f e by (auto simp: scan_number_def float_lit_def split: if_splits)
qed

section \<open>Values\<close>

lemma scan_scalar_wf: "scan_scalar s = Some (j, r) \<Longrightarrow> wf_json j"
  using scan_number_wf by (auto simp: scan_scalar_def eat_def float_lit_def split: list.splits if_splits option.splits)

lemma fst_dict_put: "fst ` set (dict_put k v d) = insert k (fst ` set d)"
proof (induction d)
  case (Cons p d)
  obtain k' v' where "p = (k', v')" by (cases p)
  then show ?case using Cons by (cases "k' = k") (simp_all add: insert_commute)
qed simp

lemma dict_put_wf:
  "distinct (map fst d) \<Longrightarrow> list_all (\<lambda>(k, v). wf_json v) d \<Longrightarrow> wf_json v
   \<Longrightarrow> distinct (map fst (dict_put k v d)) \<and> list_all (\<lambda>(k, v). wf_json v) (dict_put k v d)"
  by (induction d) (auto simp: fst_dict_put image_iff)

lemma dict_of_wf: "list_all (\<lambda>(k, v). wf_json v) kvs \<Longrightarrow> wf_json (JObj (dict_of kvs))"
proof (induction kvs rule: rev_induct)
  case (snoc p kvs)
  then show ?case by (cases p) (simp add: dict_of_def dict_put_wf)
qed (simp add: dict_of_def)

lemma scan_wf:
  "(\<forall>s j r. scan_value n s = Some (j, r) \<longrightarrow> wf_json j)
   \<and> (\<forall>s xs r. scan_items n s = Some (xs, r) \<longrightarrow> list_all wf_json xs)
   \<and> (\<forall>s kvs r. scan_pairs n s = Some (kvs, r) \<longrightarrow> list_all (\<lambda>(k, v). wf_json v) kvs)"
proof (induction n)
  case (Suc n)
  then have v: "scan_value n s = Some (j, r) \<Longrightarrow> wf_json j"
    and i: "scan_items n s = Some (xs, r) \<Longrightarrow> list_all wf_json xs"
    and p: "scan_pairs n s = Some (kvs, r) \<Longrightarrow> list_all (\<lambda>(k, v). wf_json v) kvs" for s j r xs kvs by blast+
  have "wf_json j" if "scan_value (Suc n) s = Some (j, r)" for s j r
    using that i p dict_of_wf scan_scalar_wf by (force split: list.splits if_splits)
  moreover have "list_all wf_json xs" if "scan_items (Suc n) s = Some (xs, r)" for s xs r
    using that i v by (force split: list.splits if_splits option.splits)
  moreover have "list_all (\<lambda>(k, v). wf_json v) kvs" if "scan_pairs (Suc n) s = Some (kvs, r)" for s kvs r
    using that p v by (force split: list.splits if_splits option.splits)
  ultimately show ?case by blast
qed simp

lemma json_loads_wf: "json_loads s = Inr j \<Longrightarrow> wf_json j"
proof -
  assume "json_loads s = Inr j"
  then obtain r where "scan_value (Suc (length s)) (skip_ws s) = Some (j, r)"
    unfolding json_loads_def by (cases "scan_value (Suc (length s)) (skip_ws s)") (auto split: if_splits)
  then show ?thesis using scan_wf [THEN conjunct1] by blast
qed

section \<open>Properties\<close>



end
