(* ===== verification/Backend_Ledger.thy ===== *)
theory Backend_Ledger
  imports Backend Json_Parse
begin

text \<open>
  Everything the backend does to the audit ledger and to the batches is a sequence of steps of the
  system of \<open>Anchor_Safety\<close>: events appended with well-formed payloads, and the parts of a flush.
  So its theorems hold in every state the backend can reach by serving requests and by the turns
  of its background tasks.
\<close>

section \<open>Events only\<close>

text \<open>\<open>repr\<close> of a float is a literal of JSON as Python reads it.\<close>

definition env_ok :: "'g env \<Rightarrow> bool" where
  "env_ok E \<longleftrightarrow> (\<forall>x. float_lit (e_repr E x))"

definition forget :: "'g env \<Rightarrow> unit env" where
  "forget E =
     \<lparr>e_sha = e_sha E, e_kec = e_kec E, e_now = e_now E, e_uuid = e_uuid E, e_repr = e_repr E, e_encrypt = e_encrypt E,
      e_exc = e_exc E, e_shape = (\<lambda>_. None), e_valid = (\<lambda>_. True), e_simple = (\<lambda>_. True), e_area = (\<lambda>_. 0),
      e_metric_area = (\<lambda>_. None), e_centroid = (\<lambda>_. (0, 0)), e_intersects = (\<lambda>_ _. False),
      e_common_area = (\<lambda>_ _. 0), e_within = (\<lambda>_ _. False), e_ratio = e_ratio E, e_model = e_model E\<rparr>"

inductive appends :: "(bytes \<Rightarrow> bytes) \<Rightarrow> db \<Rightarrow> db \<Rightarrow> bool" for sha where
  same: "audit s' = audit s \<Longrightarrow> anchors s' = anchors s \<Longrightarrow> appends sha s s'"
| event: "appends sha s s1 \<Longrightarrow> wf_json p \<Longrightarrow> e_sha (E :: unit env) = sha \<Longrightarrow> appends sha s (emit E k t p d a s1)"
| elsewhere: "appends sha s s1 \<Longrightarrow> audit s' = audit s1 \<Longrightarrow> anchors s' = anchors s1 \<Longrightarrow> appends sha s s'"

definition logs :: "db \<Rightarrow> audit_row list \<times> anchor list" where
  "logs s = (audit s, anchors s)"

lemma forget_sel [simp]:
  "e_sha (forget E) = e_sha E" "e_kec (forget E) = e_kec E" "e_now (forget E) = e_now E" "e_uuid (forget E) = e_uuid E"
  "e_exc (forget E) = e_exc E" "emit (forget E) k t p d a s = emit E k t p d a s"
  by (simp_all add: forget_def emit_def)

lemma shift_sel [simp]:
  "e_sha (shift_env n E) = e_sha E" "e_kec (shift_env n E) = e_kec E" "env_ok (shift_env n E) = env_ok E"
  by (simp_all add: shift_env_def env_ok_def)

lemma appends_logs: "logs s' = logs s \<Longrightarrow> appends sha s s'"
  by (rule appends.same) (simp_all add: logs_def)

lemma appends_refl [simp]: "appends sha s s"
  by (simp add: appends_logs)

lemma appends_emit:
  "logs s1 = logs s \<Longrightarrow> wf_json p \<Longrightarrow> e_sha E = sha \<Longrightarrow> appends sha s (emit E k t p d a s1)"
  using appends.event [OF appends_logs, of s1 s p "forget E" sha k t d a] by simp

lemma appends_more:
  "appends sha s s1 \<Longrightarrow> wf_json p \<Longrightarrow> e_sha E = sha \<Longrightarrow> appends sha s (emit E k t p d a s1)"
  using appends.event [of sha s s1 p "forget E" k t d a] by simp

lemma appends_then: "appends sha s s1 \<Longrightarrow> logs s2 = logs s1 \<Longrightarrow> appends sha s s2"
  by (rule appends.elsewhere) (simp_all add: logs_def)

lemma appends_trans: "appends sha s1 s2 \<Longrightarrow> appends sha s s1 \<Longrightarrow> appends sha s s2"
proof (induction rule: appends.induct)
  case (same s' s1)
  then show ?case using appends.elsewhere by blast
next
  case (event s1 s2 p E k t d a)
  then show ?case using appends.event by blast
next
  case (elsewhere s1 s2 s')
  then show ?case using appends.elsewhere by blast
qed

lemma logs_same [simp]:
  "logs (set_transfer i f1 s) = logs s" "logs (set_dispute i f2 s) = logs s" "logs (set_appeal i f3 s) = logs s"
  "logs (decide_review i st now u n s) = logs s" "logs (set_revoked i now r s) = logs s"
  "logs (set_parcel_owner i x now s) = logs s" "logs (mark_parcel i from pst now s) = logs s"
  "logs (set_kyc i k now s) = logs s" "logs (stamp_escalated i now s) = logs s"
  "logs (finish_job i js m err nx s) = logs s" "logs (s\<lparr>nira := ns\<rparr>) = logs s" "logs (s\<lparr>titles := ts\<rparr>) = logs s"
  by (simp_all add: logs_def set_transfer_def set_dispute_def set_appeal_def decide_review_def set_revoked_def
      set_parcel_owner_def mark_parcel_def set_kyc_def stamp_escalated_def finish_job_def)

lemma logs_inserts [simp]:
  "logs (snd (insert_owner r1 s)) = logs s" "logs (snd (insert_parcel r2 s)) = logs s"
  "logs (snd (insert_title r3 s)) = logs s" "logs (snd (insert_transfer r4 s)) = logs s"
  "logs (snd (insert_dispute r5 s)) = logs s" "logs (snd (insert_district r6 s)) = logs s"
  "logs (snd (insert_staff r7 s)) = logs s" "logs (snd (insert_review r8 s)) = logs s"
  "logs (snd (insert_appeal r9 s)) = logs s" "logs (snd (insert_job r10 s)) = logs s"
  "logs (snd (move_parcel i x now s)) = logs s" "logs (snd (persist_score E k t i sc s)) = logs s"
  by (simp_all add: logs_def insert_row_defs move_parcel_def persist_score_def)

lemma wf_jreal [simp]: "env_ok E \<Longrightarrow> wf_json (jreal E x)"
  by (simp add: env_ok_def jreal_def)

lemma wf_jopt [simp]: "(\<And>y. x = Some y \<Longrightarrow> wf_json (f y)) \<Longrightarrow> wf_json (jopt f x)"
  by (cases x) (simp_all add: jopt_def)

section \<open>The handlers\<close>

lemma guarded_appends:
  "(\<And>c. appends sha s (snd (h c s))) \<Longrightarrow> appends sha s (snd (guarded_by roles ctx h s))"
  by (cases rule: guarded_by_cases [of roles ctx h s]) simp_all

lemma create_owner_appends: "appends (e_sha E) s (snd (create_owner E q ctx s))"
  unfolding create_owner_def
  by (rule guarded_appends)
    (auto simp: create_owner_handler_def Let_def snd_and_then appends_logs intro!: appends_emit split: sum.split)

lemma create_parcel_appends: "env_ok E \<Longrightarrow> appends (e_sha E) s (snd (create_parcel E q ctx s))"
  unfolding create_parcel_def
  by (rule guarded_appends)
    (auto simp: create_parcel_handler_def Let_def snd_and_then appends_logs intro!: appends_emit split: sum.split option.split)

lemma issue_title_appends: "env_ok E \<Longrightarrow> appends (e_sha E) s (snd (issue_title E redis q ctx s))"
  unfolding issue_title_def
  by (rule guarded_appends)
    (auto simp: issue_title_handler_def canonical_payload_def Let_def snd_and_then appends_logs intro!: appends_emit
      split: sum.split option.split)

lemma revoke_title_appends: "appends (e_sha E) s (snd (revoke_title E no r ctx s))"
  unfolding revoke_title_def by (rule guarded_appends) (auto intro!: appends_emit split: option.split)

lemma create_transfer_appends: "appends (e_sha E) s (snd (create_transfer E redis q ctx s))"
  unfolding create_transfer_def
proof (rule guarded_appends)
  fix c
  have "logs (snd (insert_job j (snd (insert_transfer t s)))) = logs s" for j t by simp
  then show "appends (e_sha E) s (snd (create_transfer_handler E redis q c s))"
    by (auto simp: create_transfer_handler_def Let_def snd_and_then appends_logs intro!: appends_emit split: sum.split option.split)
qed

lemma reject_transfer_appends: "appends (e_sha E) s (snd (reject_transfer E i r ctx s))"
  unfolding reject_transfer_def
  by (rule guarded_appends) (auto simp: reject_transfer_handler_def Let_def intro!: appends_emit split: option.split)

lemma file_dispute_appends: "appends (e_sha E) s (snd (file_dispute E q ctx s))"
  by (cases ctx) (auto simp: file_dispute_def file_dispute_handler_def Let_def snd_and_then appends_logs
      intro!: appends_emit split: option.split sum.split)

lemma review_dispute_appends: "appends (e_sha E) s (snd (review_dispute E i ctx s))"
  unfolding review_dispute_def
  by (rule guarded_appends) (auto simp: review_dispute_handler_def Let_def appends_logs intro!: appends_emit split: option.split)

lemma resolve_dispute_appends: "appends (e_sha E) s (snd (resolve_dispute E i q ctx s))"
  unfolding resolve_dispute_def
  by (rule guarded_appends) (auto simp: resolve_dispute_handler_def Let_def intro!: appends_emit split: option.split)

lemma affirm_review_appends: "appends (e_sha E) s (snd (affirm_review E P i n ctx s))"
  unfolding affirm_review_def
proof (rule guarded_appends)
  fix c
  have "logs (snd (freeze_subject E row u n x)) = logs x" for row u x
    by (simp add: freeze_subject_def Let_def snd_and_then split: option.split sum.split)
  then show "appends (e_sha E) s (snd (affirm_handler E P i n c s))"
    by (auto simp: affirm_handler_def Let_def snd_and_then appends_logs intro!: appends_emit split: option.split sum.split)
qed

lemma dismiss_review_appends: "appends (e_sha E) s (snd (dismiss_review E P i n ctx s))"
  unfolding dismiss_review_def
  by (rule guarded_appends) (auto simp: dismiss_handler_def Let_def intro!: appends_emit split: option.split)

lemma file_appeal_appends: "appends (e_sha E) s (snd (file_appeal E q ctx s))"
  by (cases ctx) (auto simp: file_appeal_def file_appeal_handler_def Let_def snd_and_then appends_logs
      intro!: appends_emit split: option.split sum.split)

lemma resolve_appeal_appends: "appends (e_sha E) s (snd (resolve_appeal E i oc n ctx s))"
  unfolding resolve_appeal_def
  by (rule guarded_appends)
    (auto simp: resolve_appeal_handler_def unfreeze_subject_def Let_def intro!: appends_emit split: option.split)

section \<open>The scorer\<close>

lemma wf_signal_dict [simp]: "env_ok E \<Longrightarrow> wf_json (signal_dict E g)"
  by (simp add: signal_dict_def)

lemma wf_review_queued [simp]: "env_ok E \<Longrightarrow> wf_json (review_queued_event E r t i p sc)"
  by (simp add: review_queued_event_def list_all_iff)

lemma logs_enqueue [simp]: "logs (snd (enqueue_for_review E k t i d sc s)) = logs s"
  by (simp add: enqueue_for_review_def Let_def snd_and_then split: option.split sum.split)

lemma act_appends: "env_ok E \<Longrightarrow> appends (e_sha E) s (snd (act_on_score E k t i sc s))"
  by (auto simp: act_on_score_def snd_and_then appends_logs intro!: appends_emit split: option.split sum.split)

lemma score_and_act_appends: "env_ok E \<Longrightarrow> appends (e_sha E) s (snd (score_and_act E t i x s))"
  by (auto simp: score_and_act_def Let_def snd_and_then appends_logs intro: appends_trans [OF act_appends appends_logs] split: sum.split)

lemma score_now_appends: "env_ok E \<Longrightarrow> appends (e_sha E) s (snd (score_now E t i s))"
  by (auto simp: score_now_def snd_and_then score_and_act_appends split: option.split sum.split)

lemma approve_transfer_appends:
  assumes "env_ok E"
  shows "appends (e_sha E) s (snd (approve_transfer E i ctx s))"
  unfolding approve_transfer_def
proof (rule guarded_appends)
  fix c
  obtain r s1 where g: "gate_score E i s = (r, s1)" by force
  have s1: "appends (e_sha E) s s1" using score_now_appends [OF assms, of s "''TRANSFER''" i] g by (simp add: gate_score_eq)
  have upd: "logs (snd (move_parcel p w now (set_transfer i f s1))) = logs s1" for p w now f by simp
  show "appends (e_sha E) s (snd (approve_transfer_handler E i c s))"
    using s1 appends_then [OF s1 upd]
    by (auto simp: approve_transfer_handler_def g snd_and_then Let_def intro!: appends_more split: option.split sum.split)
qed

lemma sweep_job_appends:
  assumes "env_ok E"
  shows "appends (e_sha E) s (snd (sweep_job E j s))"
proof -
  have "appends (e_sha E) s (snd (score_now E (j_type j) (j_subject j) s))" using assms by (rule score_now_appends)
  then show ?thesis using appends_then
    by (cases "score_now E (j_type j) (j_subject j) s") (auto simp: sweep_job_def Let_def split: sum.splits)
qed

lemma sweep_jobs_appends: "env_ok E \<Longrightarrow> appends (e_sha E) s (snd (sweep_jobs E js s))"
proof (induction js arbitrary: E s)
  case (Cons j js)
  have "appends (e_sha E) (snd (sweep_job E j s)) (snd (sweep_jobs (shift_env 9 E) js (snd (sweep_job E j s))))"
    using Cons.IH [of "shift_env 9 E" "snd (sweep_job E j s)"] Cons.prems by simp
  then show ?case using appends_trans [OF _ sweep_job_appends] Cons.prems
    by (simp add: sweep_jobs_Cons del: sweep_jobs.simps(2))
qed simp

lemma maybe_sweep_appends: "env_ok E \<Longrightarrow> appends (e_sha E) (snd st) (snd (maybe_sweep_outbox E st))"
  using sweep_jobs_appends [of "shift_env 1 (shift_env 1 E)"]
  by (cases st) (simp add: maybe_sweep_outbox_def sweep_scoring_outbox_def Let_def)

lemma score_once_appends:
  assumes "env_ok E"
  shows "appends (e_sha E) (snd st) (snd (snd (score_once E setnx m st)))"
proof -
  obtain c s where st: "st = (c, s)" by (cases st)
  show ?thesis unfolding st by (rule score_once_db [of E setnx m c s]) (simp_all add: score_and_act_appends [OF assms])
qed

lemma consume_appends: "env_ok E \<Longrightarrow> appends (e_sha E) (snd st) (snd (snd (consume_entries E setnx es st)))"
proof (induction es arbitrary: E st)
  case (Cons e es)
  have "appends (e_sha E) (snd (snd (score_once E setnx (snd e) st)))
      (snd (snd (consume_entries (shift_env 9 E) setnx es (snd (score_once E setnx (snd e) st)))))"
    using Cons.IH [of "shift_env 9 E" "snd (score_once E setnx (snd e) st)"] Cons.prems by simp
  then show ?case using appends_trans [OF _ score_once_appends] Cons.prems
    by (simp add: consume_Cons del: consume_entries.simps(2))
qed simp

lemma consumer_turn_appends:
  assumes "env_ok E" "env_ok E2" "e_sha E = sha" "e_sha E2 = sha"
  shows "appends sha (wk_db w) (wk_db (snd (consumer_turn E E2 setnx read w)))"
proof -
  let ?st = "(wk_last w, wk_db w)"
  have one: "appends sha (wk_db w) (snd (maybe_sweep_outbox E ?st))" using maybe_sweep_appends [OF assms(1), of ?st] assms(3) by simp
  have two: "appends sha (snd (maybe_sweep_outbox E ?st)) (snd (snd (consume_entries E2 setnx es (wk_lock w, snd (maybe_sweep_outbox E ?st)))))" for es
    using consume_appends [OF assms(2), of "(wk_lock w, snd (maybe_sweep_outbox E ?st))"] assms(4) by simp
  show ?thesis using one appends_trans [OF two one] by (simp add: consumer_turn_db split: option.split sum.split)
qed

section \<open>The scheduler\<close>

lemma escalate_rows_appends: "appends (e_sha E) s (escalate_rows E memo now k qs s)"
proof (induction qs arbitrary: k s)
  case (Cons q qs)
  have "appends (e_sha E) s (emit E k ''FRAUD_REVIEW_ESCALATED'' (escalation_event memo now q) (r_district q) ''system:escalation_job''
         (stamp_escalated (r_id q) now s))"
    by (rule appends_emit) (simp_all add: escalation_event_def)
  then show ?case using appends_trans [OF Cons.IH] by simp
qed simp

lemma escalate_pending_appends: "appends (e_sha E) s (snd (escalate_pending E memo now s))"
  by (simp add: escalate_pending_def Let_def escalate_rows_appends)

lemma wf_slice_fields:
  assumes "env_ok E" "wf_json (ps_key x)"
  shows "wf_json (JObj (slice_fields E x))" "wf_json (JObj ((''group'', JStr g) # slice_fields E x))"
  using assms by (simp_all add: slice_fields_def)

lemma report_keys:
  "x \<in> set (map (slice_of m) (district_rows s)) \<union> set (map (slice_of m) (tenure_rows s)) \<union> set (map (slice_of m) (gender_rows s))
   \<Longrightarrow> wf_json (ps_key x)"
  by (auto simp: slice_of_def district_rows_def tenure_rows_def gender_rows_def Let_def)

lemma wf_appeal_counts: "wf_json (JObj (appeal_counts s))"
  by (simp add: appeal_counts_def comp_def list_all_iff)

lemma wf_slices:
  assumes "env_ok E" "\<And>x. x \<in> set xs \<Longrightarrow> wf_json (ps_key x)"
  shows "wf_json (JList (map (\<lambda>x. JObj (slice_fields E x)) xs))"
  using assms wf_slice_fields(1) by (auto simp: list_all_iff simp del: wf_json.simps(3))

lemma parity_report_wf:
  assumes "env_ok E"
  shows "wf_json (parity_json E (fst (parity_report E s)))"
proof -
  let ?r = "fst (parity_report E s)"
  have keys: "x \<in> set (pr_districts ?r) \<union> set (pr_tenures ?r) \<union> set (pr_genders ?r) \<Longrightarrow> wf_json (ps_key x)" for x
    using report_keys [of x "district_mean s" s] by (simp add: parity_report_def Let_def)
  have "wf_json (JList (map (\<lambda>x. JObj (slice_fields E x)) (pr_districts ?r)))"
    "wf_json (JList (map (\<lambda>x. JObj (slice_fields E x)) (pr_tenures ?r)))"
    "wf_json (JList (map (\<lambda>x. JObj (slice_fields E x)) (pr_genders ?r)))"
    by (rule wf_slices [OF assms keys]; simp)+
  moreover have "wf_json (JObj (pr_appeals ?r))" using wf_appeal_counts by (simp add: parity_report_def Let_def)
  ultimately show ?thesis using assms by (simp add: parity_json_def)
qed

lemma breach_event_wf:
  assumes "env_ok E" "\<And>g x. (g, x) \<in> set (pr_breaches r) \<Longrightarrow> wf_json (ps_key x)"
  shows "wf_json (breach_event E r)"
  using assms wf_slice_fields(2) [OF assms(1)] by (fastforce simp: breach_event_def list_all_iff)

lemma run_parity_appends:
  assumes "env_ok E"
  shows "appends (e_sha E) s (snd (run_parity_audit E s))"
proof -
  let ?r = "fst (parity_report E s)"
  have s1: "snd (parity_report E s) = emit E 1 ''FRAUD_PARITY_AUDIT'' (parity_json E ?r) 0 ''system:parity_auditor'' s"
    by (simp add: parity_report_def Let_def)
  have one: "appends (e_sha E) s (snd (parity_report E s))"
    unfolding s1 by (rule appends_emit) (simp_all add: parity_report_wf [OF assms])
  have keys: "(g, x) \<in> set (breaches_of ?r) \<Longrightarrow> wf_json (ps_key x)" for g x
    using report_keys [of x "district_mean s" s] by (auto simp: breaches_of_def parity_report_def Let_def)
  have "wf_json (breach_event E (?r\<lparr>pr_breaches := breaches_of ?r\<rparr>))"
    by (rule breach_event_wf [OF assms]) (use keys in simp)
  then show ?thesis using one by (auto simp: run_parity_audit_def case_prod_beta Let_def intro: appends_more)
qed

lemma scheduler_turn_appends:
  assumes "env_ok E2" "e_sha E = sha" "e_sha E2 = sha"
  shows "appends sha s (snd (snd (scheduler_turn E E2 memo setnx (c, t, s))))"
proof -
  let ?s1 = "snd (escalate_pending E memo None s)"
  have one: "appends sha s ?s1" using escalate_pending_appends [of E s memo None] assms(2) by simp
  have two: "appends sha ?s1 (snd (run_parity_audit (shift_env 1 E2) ?s1))"
    using run_parity_appends [of "shift_env 1 E2" ?s1] assms(1,3) by simp
  show ?thesis using one appends_trans [OF two one] by (simp add: scheduler_turn_def run_tick_def Let_def split: prod.split)
qed

section \<open>NIRA\<close>

lemma dict_with_wf: "wf_json (JObj d) \<Longrightarrow> (\<And>k v. (k, v) \<in> set kvs \<Longrightarrow> wf_json v) \<Longrightarrow> wf_json (JObj (dict_with d kvs))"
proof (induction kvs arbitrary: d)
  case (Cons p kvs)
  obtain k v where p: "p = (k, v)" by (cases p)
  have "wf_json v" using Cons.prems(2) [of k v] by (simp add: p)
  then have "wf_json (JObj (dict_put k v d))" using Cons.prems(1) dict_put_wf [of d v k] by simp
  then have "wf_json (JObj (dict_with (dict_put k v d) kvs))"
    by (rule Cons.IH) (use Cons.prems(2) in \<open>auto simp: p\<close>)
  then show ?case by (simp add: dict_with_def p)
qed (simp add: dict_with_def)

lemma wf_nira_dict [simp]: "wf_json (JObj (nira_dict r))"
  by (simp add: nira_dict_def demographics_dict_def)

lemma loaded_dict_wf: "res_bind (json_loads t) as_dict = Inr d \<Longrightarrow> wf_json (JObj d)"
  using json_loads_wf by (cases "json_loads t") (fastforce simp: as_dict_def split: json.splits)+

lemma read_warm_wf:
  assumes "env_ok E" "read_warm E now h s = Inr (Some d, x)"
  shows "wf_json (JObj d)"
proof -
  obtain r where f: "find (\<lambda>r. nv_hash r = h) (nira s) = Some r"
    using assms(2) by (auto simp: read_warm_def split: option.splits)
  obtain j d0 where r: "json_loads (nv_result r) = Inr j" "as_dict j = Inr d0"
    and d: "d = dict_put ''_verified_at'' (jreal E (nv_verified r)) (dict_put ''_source_cache'' (JStr (nv_source r)) d0)"
    using assms(2) by (auto simp: read_warm_def f res_simps)
  have "wf_json (JObj d0)" using r loaded_dict_wf [of "nv_result r"] by simp
  then have "wf_json (JObj (dict_put ''_source_cache'' (JStr (nv_source r)) d0))"
    using dict_put_wf [of d0 "JStr (nv_source r)" "''_source_cache''"] by simp
  then show ?thesis unfolding d using assms(1) dict_put_wf [of _ "jreal E (nv_verified r)" "''_verified_at''"] by simp
qed

lemma warm_fallback_wf:
  assumes "env_ok E" "warm_fallback E h err s = Inr d"
  shows "wf_json (JObj d)"
proof -
  obtain w x where w: "read_warm E (e_now E 3) h s = Inr (w, x)" using assms(2) by (auto simp: warm_fallback_def res_simps)
  show ?thesis
  proof (cases w)
    case None
    then show ?thesis using assms(2) w by (cases err) (auto simp: warm_fallback_def)
  next
    case (Some v)
    then have "wf_json (JObj v)" using read_warm_wf [OF assms(1)] w by simp
    then show ?thesis using assms(2) w Some by (cases err) (auto simp: warm_fallback_def simp del: wf_json.simps(3) intro!: dict_with_wf)
  qed
qed

lemma verify_nin_cached_wf:
  assumes "env_ok E" "verify_nin_cached E st client nin s = (Inr d, s')"
  shows "wf_json (JObj d)"
proof -
  let ?h = "sha256_hex (e_sha E) nin"
  obtain hit c where hit: "cache_get (e_now E 0) (nira_redis_key ?h) (n_cache s) = (hit, c)" by force
  show ?thesis
  proof (cases "hit \<noteq> None \<and> hit \<noteq> Some []")
    case True
    then obtain d0 where d0: "res_bind (json_loads (the hit)) as_dict = Inr d0"
      "d = dict_with d0 [(''stale'', JBool False), (''cache'', JStr ''hot'')]"
      using assms(2) hit by (auto simp: verify_nin_cached_def Let_def res_simps)
    show ?thesis unfolding d0(2) by (rule dict_with_wf [OF loaded_dict_wf [OF d0(1)]]) auto
  next
    case False
    obtain x b u where call: "breaker_call (e_now E 1) (e_now E 2) (\<lambda>u. (client nin, u)) (n_breaker s) () = (x, b, u)"
      by (cases "breaker_call (e_now E 1) (e_now E 2) (\<lambda>u. (client nin, u)) (n_breaker s) ()")
    show ?thesis
    proof (cases x)
      case (Inl e)
      then have "\<exists>err. warm_fallback E ?h err (n_db s) = Inr d"
        using assms(2) hit False call unfolding verify_nin_cached_def by (auto simp: Let_def)
      then show ?thesis using warm_fallback_wf [OF assms(1)] by blast
    next
      case (Inr r)
      then have "d = dict_with (nira_dict r) [(''stale'', JBool False), (''cache'', JStr ''miss'')]"
        using assms(2) hit False call unfolding verify_nin_cached_def by (auto simp: Let_def)
      then show ?thesis by (auto simp del: wf_json.simps(3) intro!: dict_with_wf)
    qed
  qed
qed

lemma verify_nin_cached_logs: "verify_nin_cached E st client nin s = (r, s') \<Longrightarrow> logs (n_db s') = logs (n_db s)"
  using verify_nin_cached_db by fastforce

lemma wf_value: "wf_json (JObj d) \<Longrightarrow> json_get k d = Some j \<Longrightarrow> wf_json j"
  by (auto simp: json_get_def list_all_iff dest: map_of_SomeD)

lemma guarded_appends_nira:
  "(\<And>c. appends sha (n_db s) (n_db (snd (h c s)))) \<Longrightarrow> appends sha (n_db s) (n_db (snd (guarded_by roles ctx h s)))"
  by (cases rule: guarded_by_cases [of roles ctx h s]) simp_all

lemma verify_nin_appends:
  assumes "env_ok E"
  shows "appends (e_sha E) (n_db s) (n_db (snd (verify_nin_endpoint E st client nin ctx s)))"
  unfolding verify_nin_endpoint_def
proof (rule guarded_appends_nira)
  fix c
  obtain r s1 where v: "verify_nin_cached E st client nin s = (r, s1)" by force
  have "logs (n_db s1) = logs (n_db s)" using v by (rule verify_nin_cached_logs)
  then show "appends (e_sha E) (n_db s) (n_db (snd (if \<not> (length nin = 14 \<and> validate_nin nin) then (Inl (HTTPException 422), s)
     else and_then (verify_nin_cached E st client nin s) (\<lambda>result s1. (Inr result,
        n_emit E 6 ''NIRA_VERIFY''
          (JObj [(''nin_hash'', JStr (sha256_hex (e_sha E) nin)),
                 (''matched'', JBool (dict_truth ''matched'' result)),
                 (''stale'', JBool (dict_truth ''stale'' result))])
          (cx_district c) (cx_id c) s1)))))"
    using v by (cases r) (auto simp: n_emit_def appends_logs intro!: appends_emit)
qed

lemma kyc_verify_appends:
  assumes "env_ok E"
  shows "appends (e_sha E) (n_db s) (n_db (snd (kyc_verify E st client w nin ctx s)))"
  unfolding kyc_verify_def
proof (rule guarded_appends_nira)
  fix c
  obtain r s1 where v: "verify_nin_cached E st client nin s = (r, s1)" by force
  have l: "logs (n_db s1) = logs (n_db s)" using v by (rule verify_nin_cached_logs)
  have wf: "json_get k d = Some j \<Longrightarrow> wf_json j" if "r = Inr d" for d k j
    using verify_nin_cached_wf [OF assms] v that wf_value by blast
  show "appends (e_sha E) (n_db s) (n_db (snd (kyc_verify_handler E st client w nin c s)))"
    using v l wf by (cases r) (auto simp: kyc_verify_handler_def Let_def n_emit_def appends_logs
        intro!: appends_emit split: option.split)
qed

section \<open>Steps of the system\<close>

definition system_of :: "db \<Rightarrow> 'c \<Rightarrow> 'c sys" where
  "system_of s c = \<lparr>sy_db = s, sy_chain = c, sy_flights = []\<rparr>"

lemma appends_reach:
  "appends sha s s' \<Longrightarrow> sys_reach sha kec client (system_of s c) \<Longrightarrow> sys_reach sha kec client (system_of s' c)"
proof (induction rule: appends.induct)
  case (same s' s)
  then show ?case using sys_reach.step sys_step.elsewhere [of s' "system_of s c" sha kec client] by (fastforce simp: system_of_def)
next
  case (event s s1 p E k t d a)
  then have r: "sys_reach sha kec client (system_of s1 c)" by blast
  have "sys_step sha kec client (system_of s1 c) ((system_of s1 c)\<lparr>sy_db := emit E k t p d a (sy_db (system_of s1 c))\<rparr>)"
    using event.hyps by (intro sys_step.event)
  then show ?case using sys_reach.step [OF r] by (simp add: system_of_def)
next
  case (elsewhere s s1 s')
  then have r: "sys_reach sha kec client (system_of s1 c)" by blast
  have "sys_step sha kec client (system_of s1 c) ((system_of s1 c)\<lparr>sy_db := s'\<rparr>)"
    using elsewhere.hyps by (intro sys_step.elsewhere) (simp_all add: system_of_def)
  then show ?case using sys_reach.step [OF r] by (simp add: system_of_def)
qed

lemma flush_begin_forget: "flush_begin (forget E) st d force s = flush_begin E st d force s"
  unfolding flush_begin_def forget_sel ..

lemma flush_end_forget: "flush_end (forget E) rec leaves r s = flush_end E rec leaves r s"
  unfolding flush_end_def forget_sel ..

text \<open>A flush is its start, the answer or refusal of the chain, and its finish.\<close>

lemma flush_reach:
  assumes reach: "sys_reach sha kec client (system_of (as_db s) (as_chain s))"
    and env: "e_sha E = sha" "e_kec E = kec"
    and run: "snd (flush_district E st client d force s) = s'"
  shows "sys_reach sha kec client (system_of (as_db s') (as_chain s'))"
proof -
  obtain r db1 where b: "flush_begin E st d force (as_db s) = (r, db1)" by force
  show ?thesis
  proof (cases "\<exists>rec leaves. r = Inr (Started rec leaves)")
    case False
    then have "db1 = as_db s" using flush_begin_other [OF b] by blast
    then have "as_db s' = as_db s \<and> as_chain s' = as_chain s"
      using run b False by (auto simp: flush_district_def split: sum.splits flush_start.splits)
    then show ?thesis using reach by simp
  next
    case True
    then obtain rec leaves where r: "r = Inr (Started rec leaves)" by blast
    let ?clk = "\<lambda>i. e_now E (5 + i)"
    let ?f = "\<lparr>fl_batch = rec, fl_leaves = leaves, fl_answer = None\<rparr>"
    let ?s1 = "\<lparr>sy_db = db1, sy_chain = as_chain s, sy_flights = [?f]\<rparr>"
    have dist: "an_district rec = d" using flush_begin_Started [OF b [unfolded r]] by (simp add: Let_def)
    have "sys_step sha kec client (system_of (as_db s) (as_chain s)) ?s1"
      using sys_step.start [of "forget E" kec st d force "system_of (as_db s) (as_chain s)" rec leaves db1 sha client] b r env
      by (simp add: flush_begin_forget system_of_def)
    then have r1: "sys_reach sha kec client ?s1" using sys_reach.step reach by blast
    obtain x br c where call: "breaker_call (e_now E 2) (e_now E 3)
        (cl_commit client ?clk (an_batch rec) d (an_root rec)) (as_breaker s) (as_chain s) = (x, br, c)"
      by (cases "breaker_call (e_now E 2) (e_now E 3) (cl_commit client ?clk (an_batch rec) d (an_root rec)) (as_breaker s) (as_chain s)")
    have s': "as_db s' = snd (flush_end E rec leaves x db1)" "as_chain s' = c"
      using run by (auto simp: flush_district_started [OF b [unfolded r]] call)
    let ?s2 = "\<lparr>sy_db = db1, sy_chain = c, sy_flights = [?f\<lparr>fl_answer := Some x\<rparr>]\<rparr>"
    have r2: "sys_reach sha kec client ?s2"
    proof (cases "fst (preflight (e_now E 2) (as_breaker s))")
      case (Inl e)
      then have xc: "x = Inl CircuitOpenError" "c = as_chain s"
        using call by (auto simp: breaker_call_def preflight_def Let_def split: if_splits)
      show ?thesis
        using sys_reach.step [OF r1 sys_step.refuse [of ?s1 "[]" ?f "[]"]] by (simp add: xc)
    next
      case (Inr u)
      then have "cl_commit client ?clk (an_batch rec) d (an_root rec) (as_chain s) = (x, c)"
        using call by (auto simp: breaker_call_def split: prod.splits sum.splits)
      then show ?thesis
        using sys_reach.step [OF r1 sys_step.commit [of ?s1 "[]" ?f "[]" client ?clk x c]] by (simp add: dist)
    qed
    obtain out db2 where fin: "flush_end E rec leaves x db1 = (out, db2)" by force
    have "sys_step sha kec client ?s2 (?s2\<lparr>sy_db := db2, sy_flights := [] @ []\<rparr>)"
      by (rule sys_step.finish [of ?s2 "[]" "?f\<lparr>fl_answer := Some x\<rparr>" "[]" x "forget E"])
        (simp_all add: flush_end_forget fin env)
    then show ?thesis using sys_reach.step [OF r2] s' fin by (simp add: system_of_def)
  qed
qed

section \<open>What every run keeps\<close>

text \<open>
  The contract of a property of the tables and the chain that all the backend does keeps: it suffices that
  appended events and flushes keep it.
\<close>

lemma flush_district_forget [simp]: "flush_district (forget E) st client d force s = flush_district E st client d force s"
  unfolding flush_district_def forget_sel flush_begin_forget flush_end_forget ..

locale run_invariant =
  fixes sha kec :: "bytes \<Rightarrow> bytes" and client :: "'c chain_client" and Q :: "db \<Rightarrow> 'c \<Rightarrow> bool"
  assumes after_appends: "Q s c \<Longrightarrow> appends sha s s' \<Longrightarrow> Q s' c"
    and after_flush: "Q (as_db x) (as_chain x) \<Longrightarrow> e_sha (E :: unit env) = sha \<Longrightarrow> e_kec E = kec
      \<Longrightarrow> snd (flush_district E st client d force x) = y \<Longrightarrow> Q (as_db y) (as_chain y)"
begin

lemma flush_keeps:
  "Q (as_db s) (as_chain s) \<Longrightarrow> e_sha E = sha \<Longrightarrow> e_kec E = kec \<Longrightarrow> snd (flush_district E st client d force s) = s'
   \<Longrightarrow> Q (as_db s') (as_chain s')"
  using after_flush [of s "forget E" st d force s'] by simp

lemma round_keeps:
  "Q (as_db s) (as_chain s) \<Longrightarrow> e_sha E = sha \<Longrightarrow> e_kec E = kec
   \<Longrightarrow> Q (as_db (anchor_round E st client ds s)) (as_chain (anchor_round E st client ds s))"
proof (induction ds arbitrary: E s)
  case (Cons d ds)
  show ?case using Cons.IH [OF flush_keeps [OF Cons.prems refl, where st = st and d = d and force = False], of "shift_env 10 E"] Cons.prems(2,3)
    by simp
qed simp

end

interpretation reachable: run_invariant sha kec client "\<lambda>s c. sys_reach sha kec client (system_of s c)" for sha kec client
  by unfold_locales (rule appends_reach, assumption+, rule flush_reach, assumption+)

end
