(* ===== verification/Title_Register.thy ===== *)
theory Title_Register
  imports Backend
begin

text \<open>
  The titles over a run: no request and no task deletes a title or changes the parcel, the district or
  the stored proof of one.  What can change is its revocation.
\<close>

section \<open>Titles that stay\<close>

definition same_title :: "title \<Rightarrow> title \<Rightarrow> bool" where
  "same_title t t' \<longleftrightarrow> ti_no t' = ti_no t \<and> ti_parcel t' = ti_parcel t \<and> ti_district t' = ti_district t \<and> ti_proof t' = ti_proof t"

definition title_grows :: "db \<Rightarrow> db \<Rightarrow> bool" where
  "title_grows s s' \<longleftrightarrow> (\<forall>no t. find_title no s = Some t \<longrightarrow> (\<exists>t'. find_title no s' = Some t' \<and> same_title t t'))"

lemma title_growsD: "title_grows s s' \<Longrightarrow> find_title no s = Some t \<Longrightarrow> \<exists>t'. find_title no s' = Some t' \<and> same_title t t'"
  by (simp add: title_grows_def)

lemma grows_same: "titles s' = titles s \<Longrightarrow> title_grows s s'"
  by (simp add: title_grows_def same_title_def find_title_def)

lemma grows_refl [simp]: "title_grows s s"
  by (rule grows_same) simp

lemma grows_trans: "title_grows s s1 \<Longrightarrow> title_grows s1 s2 \<Longrightarrow> title_grows s s2"
  unfolding title_grows_def same_title_def by metis

lemma grows_then: "title_grows s s1 \<Longrightarrow> titles s2 = titles s1 \<Longrightarrow> title_grows s s2"
  using grows_trans grows_same by blast

lemma grows_insert_title: "title_grows s (snd (insert_title r s))"
  by (auto simp: title_grows_def insert_title_def find_title_def find_append same_title_def split: option.split)

lemma grows_set_revoked: "title_grows s (set_revoked no now reason s)"
  by (auto simp: title_grows_def set_revoked_def find_title_def find_update_where same_title_def)

lemma grows_guarded: "(\<And>c. title_grows s (snd (h c s))) \<Longrightarrow> title_grows s (snd (guarded_by roles ctx h s))"
  by (cases rule: guarded_by_cases [of roles ctx h s]) simp_all

lemma registry_grows: "registry s' = registry s \<Longrightarrow> title_grows s s'"
  by (rule grows_same) (simp add: registry_def)

section \<open>Every handler keeps them\<close>

lemma titles_inserts [simp]:
  "titles (snd (insert_owner r1 s)) = titles s" "titles (snd (insert_parcel r2 s)) = titles s"
  "titles (snd (insert_transfer r3 s)) = titles s" "titles (snd (insert_job r4 s)) = titles s"
  "titles (snd (insert_dispute r5 s)) = titles s" "titles (snd (insert_appeal r6 s)) = titles s"
  "titles (snd (insert_district r7 s)) = titles s" "titles (snd (insert_staff r8 s)) = titles s"
  "titles (set_appeal i h s) = titles s"
  by (simp_all add: insert_row_defs set_appeal_def)

lemma titles_move_parcel [simp]: "titles (snd (move_parcel i w now s)) = titles s"
  by (simp add: move_parcel_def)

lemma titles_freeze [simp]: "titles (snd (freeze_subject E row u n s)) = titles s"
  by (simp add: freeze_subject_def Let_def snd_and_then split: option.split sum.split)

lemma titles_unfreeze [simp]: "titles (unfreeze_subject E a oc s) = titles s"
  by (simp add: unfreeze_subject_def split: option.split)

lemma titles_gate [simp]: "titles (snd (gate_score E i s)) = titles s"
proof -
  obtain r s1 where g: "gate_score E i s = (r, s1)" by force
  then show ?thesis using gate_registry [OF g] by (simp add: registry_def)
qed

text \<open>All handlers but those of the titles themselves leave the table of titles alone.\<close>

lemma titles_handlers:
  "titles (snd (create_district E q1 ctx s)) = titles s" "titles (snd (create_staff E q2 ctx s)) = titles s"
  "titles (snd (create_owner E q3 ctx s)) = titles s" "titles (snd (create_parcel E q4 ctx s)) = titles s"
  "titles (snd (create_transfer E redis q5 ctx s)) = titles s" "titles (snd (approve_transfer E i ctx s)) = titles s"
  "titles (snd (reject_transfer E i reason ctx s)) = titles s" "titles (snd (review_dispute E i ctx s)) = titles s"
  "titles (snd (resolve_dispute E i q6 ctx s)) = titles s" "titles (snd (rescore E redis ty i ctx s)) = titles s"
  "titles (snd (affirm_review E P i n ctx s)) = titles s" "titles (snd (dismiss_review E P i n ctx s)) = titles s"
  "titles (snd (resolve_appeal E i oc n ctx s)) = titles s"
  unfolding create_district_def create_staff_def create_owner_def create_parcel_def create_transfer_def approve_transfer_def
    reject_transfer_def review_dispute_def resolve_dispute_def rescore_def affirm_review_def dismiss_review_def resolve_appeal_def
  by (rule guarded_keeps [where f = titles];
      simp add: create_owner_handler_def create_parcel_handler_def create_transfer_handler_def approve_transfer_handler_def
        reject_transfer_handler_def review_dispute_handler_def resolve_dispute_handler_def affirm_handler_def
        dismiss_handler_def resolve_appeal_handler_def Let_def snd_and_then split: sum.split option.split)+

lemma titles_user_handlers:
  "titles (snd (file_dispute E q1 ctx s)) = titles s" "titles (snd (file_appeal E q2 ctx s)) = titles s"
  by (cases ctx; simp add: file_dispute_def file_dispute_handler_def file_appeal_def file_appeal_handler_def Let_def snd_and_then
      split: sum.split option.split)+

lemma issue_title_grows: "title_grows s (snd (issue_title E redis q ctx s))"
  unfolding issue_title_def
  by (rule grows_guarded)
    (auto simp: issue_title_handler_def Let_def snd_and_then intro!: grows_insert_title grows_then [OF grows_insert_title]
      split: sum.split option.split)

lemma revoke_title_grows: "title_grows s (snd (revoke_title E no reason ctx s))"
  unfolding revoke_title_def
  by (rule grows_guarded) (auto intro: grows_set_revoked grows_then [OF grows_set_revoked] split: option.split)

lemma titles_nira:
  "titles (n_db (snd (verify_nin_cached E st client nin x))) = titles (n_db x)"
proof -
  obtain r x' where r: "verify_nin_cached E st client nin x = (r, x')" by force
  then show ?thesis using verify_nin_cached_db [OF r] by auto
qed

lemma titles_nira_routes:
  "titles (n_db (snd (kyc_verify E st client w nin ctx x))) = titles (n_db x)"
  "titles (n_db (snd (verify_nin_endpoint E st client nin ctx x))) = titles (n_db x)"
proof -
  obtain r x' where r: "verify_nin_cached E st client nin x = (r, x')" by force
  have t: "titles (n_db x') = titles (n_db x)" using titles_nira [of E st client nin x] r by simp
  show "titles (n_db (snd (kyc_verify E st client w nin ctx x))) = titles (n_db x)"
    unfolding kyc_verify_def
    by (rule guarded_keeps [where f = "\<lambda>x. titles (n_db x)"])
      (simp add: kyc_verify_handler_def r t Let_def n_emit_def snd_and_then split: sum.split option.split)
  show "titles (n_db (snd (verify_nin_endpoint E st client nin ctx x))) = titles (n_db x)"
    unfolding verify_nin_endpoint_def
    by (rule guarded_keeps [where f = "\<lambda>x. titles (n_db x)"]) (simp add: r t n_emit_def snd_and_then split: sum.split)
qed

lemma titles_flush: "titles (as_db (snd (flush_district E st client d force x))) = titles (as_db x)"
proof -
  have fin: "titles (snd (flush_end E rec leaves r s)) = titles s" for rec leaves r s
    by (simp add: flush_end_def Let_def update_anchor_def split: sum.split exc.split prod.split)
  have beg: "titles (snd (flush_begin E st d force s)) = titles s" for s
    by (simp add: flush_begin_def Let_def snd_and_then insert_anchor_row_def split: sum.split)
  obtain r db1 where b: "flush_begin E st d force (as_db x) = (r, db1)" by force
  have t: "titles db1 = titles (as_db x)" using beg [of "as_db x"] b by simp
  show ?thesis
  proof (cases "\<exists>rec leaves. r = Inr (Started rec leaves)")
    case True
    then obtain rec leaves where "r = Inr (Started rec leaves)" by blast
    then show ?thesis using flush_district_started [of E st d force x rec leaves db1 client] b fin t
      by (simp split: prod.split)
  next
    case False
    then show ?thesis using b t by (auto simp: flush_district_def split: sum.split flush_start.split)
  qed
qed

lemma titles_round: "titles (as_db (anchor_round E st client ds x)) = titles (as_db x)"
  by (induction ds arbitrary: E x) (simp_all add: titles_flush)

lemma titles_manual_flush: "titles (as_db (snd (manual_flush E st client d ctx x))) = titles (as_db x)"
  unfolding manual_flush_def by (rule guarded_keeps [where f = "\<lambda>x. titles (as_db x)"]) (rule titles_flush)

lemma titles_worker: "titles (wk_db (snd (consumer_turn E E2 setnx read w))) = titles (wk_db w)"
proof -
  have "registry (wk_db (snd (consumer_turn E E2 setnx read w))) = registry (wk_db w)"
    by (simp add: consumer_turn_db split: option.split sum.split)
  then show ?thesis by (simp add: registry_def)
qed

lemma titles_scheduler: "titles (snd (snd (scheduler_turn E E2 n setnx (c, t, s)))) = titles s"
proof -
  have "registry (snd (snd (scheduler_turn E E2 n setnx (c, t, s)))) = registry s"
    by (simp add: scheduler_turn_def run_tick_def Let_def split: prod.split)
  then show ?thesis by (simp add: registry_def)
qed

lemma handle_grows: "title_grows (be_db b) (be_db (handle W E E2 ctx q b))"
proof (cases q)
  case (Issue_Title x)
  then show ?thesis by (simp add: issue_title_grows)
next
  case (Revoke_Title no r)
  then show ?thesis by (simp add: revoke_title_grows)
qed (rule grows_same; simp add: titles_handlers titles_user_handlers titles_nira_routes titles_manual_flush titles_flush
    titles_round titles_worker titles_scheduler on_nira_db on_anchor_db demo_defs anchor_loop_iteration_def Let_def
    case_prod_beta)+

lemma handle_all_grows: "title_grows (be_db b) (be_db (handle_all W evs b))"
proof (induction evs arbitrary: b)
  case (Cons e evs)
  show ?case unfolding handle_all_simps by (rule grows_trans [OF handle_grows Cons.IH])
qed simp

end
