(* ===== verification/Seed.thy ===== *)
theory Seed
  imports Backend_Ledger Title_Register
begin

text \<open>
  The rows a deployment that is not in production starts with: \<open>backend/app/bootstrap/seed.py\<close>.

  \<open>random.Random\<close> is the record \<open>rng\<close> of its three operations; \<open>dash\<close> is the text of the em dash
  (U+2014) in one reason of the watchlist.  Every loop takes the clock and \<open>uuid4\<close> readings from a number
  of its own.  The lemmas show that seeding only appends well-formed events to the ledger and that
  whoever it makes the holder of a parcel is on the register of owners.
\<close>

section \<open>seed_districts\<close>

definition DISTRICTS :: "(int \<times> string \<times> string) list" where
  "DISTRICTS =
     [(1, ''Kampala Central'', ''Central''), (2, ''Wakiso'', ''Central''), (3, ''Mityana'', ''Central''),
      (4, ''Gulu'', ''Northern'')]"

definition DISTRICT_CENTRES :: "int \<Rightarrow> (real \<times> real) option" where
  "DISTRICT_CENTRES = map_of
     [(1, (325825 / 10000, 3476 / 10000)), (2, (324660 / 10000, 4044 / 10000)),
      (3, (320419 / 10000, 4017 / 10000)), (4, (322898 / 10000, 27747 / 10000))]"

definition SUB_COUNTIES :: "int \<Rightarrow> string list option" where
  "SUB_COUNTIES = map_of
     [(1, [''Central Division'', ''Kawempe'', ''Nakawa'', ''Makindye'', ''Lubaga'']),
      (2, [''Kira'', ''Nansana'', ''Wakiso TC'', ''Kakiri'', ''Entebbe'']),
      (3, [''Mityana TC'', ''Bulera'', ''Maanyi'', ''Sekanyonyi'', ''Kakindu'']),
      (4, [''Bardege'', ''Layibi'', ''Pece'', ''Laroo'', ''Awach''])]"

definition PARCELS_PER_DISTRICT :: nat where
  "PARCELS_PER_DISTRICT = 50"

text \<open>\<open>random.Random(seed)\<close>, \<open>random()\<close> and the index below n that \<open>choice\<close> draws.\<close>

record 'r rng =
  rg_seed :: "int \<Rightarrow> 'r"
  rg_random :: "'r \<Rightarrow> real \<times> 'r"
  rg_below :: "nat \<Rightarrow> 'r \<Rightarrow> nat \<times> 'r"

definition rng_uniform :: "'r rng \<Rightarrow> real \<Rightarrow> real \<Rightarrow> 'r \<Rightarrow> real \<times> 'r" where
  "rng_uniform R a b r = (let (u, r') = rg_random R r in (a + (b - a) * u, r'))"

definition rng_choice :: "'r rng \<Rightarrow> 'a list \<Rightarrow> 'r \<Rightarrow> 'a \<times> 'r" where
  "rng_choice R xs r = (let (i, r') = rg_below R (length xs) r in (xs ! i, r'))"

definition point_json :: "'g env \<Rightarrow> real \<times> real \<Rightarrow> json" where
  "point_json E p = JList [jreal E (fst p), jreal E (snd p)]"

definition polygon_json :: "'g env \<Rightarrow> (real \<times> real) list \<Rightarrow> json" where
  "polygon_json E ps = JObj [(''type'', JStr ''Polygon''), (''coordinates'', JList [JList (map (point_json E) ps)])]"

definition synth_polygon :: "'g env \<Rightarrow> 'r rng \<Rightarrow> int \<Rightarrow> int \<Rightarrow> json res" where
  "synth_polygon E R district_id parcel_num =
     (case DISTRICT_CENTRES district_id of
        None \<Rightarrow> Inl KeyError
      | Some (cx, cy) \<Rightarrow>
          let (u, r1) = rg_random R (rg_seed R (district_id * 7919 + parcel_num));
              (v, r2) = rg_random R r1;
              dx = (u - 1 / 2) * (3 / 10); dy = (v - 1 / 2) * (3 / 10);
              x = cx + dx; y = cy + dy;
              (w, _) = rg_random R r2;
              delta = 27 / 100000 + w * (6 / 10000)
          in Inr (polygon_json E
               [(x - delta, y - delta), (x + delta, y - delta), (x + delta, y + delta), (x - delta, y + delta),
                (x - delta, y - delta)]))"

text \<open>\<open>INSERT OR IGNORE\<close>.\<close>

definition ignore_district :: "district \<Rightarrow> db \<Rightarrow> db" where
  "ignore_district r s = (if find_district (di_id r) s \<noteq> None then s else s\<lparr>districts := districts s @ [r]\<rparr>)"

text \<open>One background parcel; the generator and the number of parcels inserted so far go along.\<close>

definition seed_parcel ::
  "'g env \<Rightarrow> 'r rng \<Rightarrow> time \<Rightarrow> int \<times> int \<Rightarrow> nat \<Rightarrow> 'r \<times> nat \<Rightarrow> db \<Rightarrow> ('r \<times> nat, db) outcome" where
  "seed_parcel E R now spot k st s =
     (let (did, parcel_num) = spot; (rng, inserted) = st
      in case make_upi did parcel_num None (e_now E k) of
           Inl e \<Rightarrow> (Inl e, s)
         | Inr upi \<Rightarrow>
             if find_parcel upi s \<noteq> None then (Inr (rng, inserted), s)
             else
               let (area, rng1) = rng_uniform R (5 / 100) 4 rng;
                   (tenure, rng2) = rng_choice R [MAILO, FREEHOLD, LEASEHOLD, CUSTOMARY] rng1
               in case SUB_COUNTIES did of
                    None \<Rightarrow> (Inl KeyError, s)
                  | Some names \<Rightarrow>
                      let (sub, rng3) = rng_choice R names rng2
                      in case synth_polygon E R did parcel_num of
                           Inl e \<Rightarrow> (Inl e, s)
                         | Inr g \<Rightarrow>
                             and_then
                               (insert_parcel
                                  \<lparr>p_id = upi, p_tenure = tenure, p_district = did, p_sub_county = sub,
                                   p_geometry = dumps_plain g, p_area = py_round_to 4 area, p_owner = None,
                                   p_status = P_ACTIVE, p_created = now, p_updated = now\<rparr> s)
                               (\<lambda>_ s1. (Inr (rng3, Suc inserted), s1)))"

fun seed_parcels ::
  "'g env \<Rightarrow> 'r rng \<Rightarrow> time \<Rightarrow> (int \<times> int) list \<Rightarrow> nat \<Rightarrow> 'r \<times> nat \<Rightarrow> db \<Rightarrow> ('r \<times> nat, db) outcome" where
  "seed_parcels E R now [] k st s = (Inr st, s)"
| "seed_parcels E R now (spot # rest) k st s =
     and_then (seed_parcel E R now spot k st s) (\<lambda>st' s'. seed_parcels E R now rest (Suc k) st' s')"

definition background_parcels :: "(int \<times> int) list" where
  "background_parcels =
     concat (map (\<lambda>(did, _, _). map (\<lambda>n. (did, 100 + int n)) [0..<PARCELS_PER_DISTRICT]) DISTRICTS)"

definition seed_districts_and_parcels :: "'g env \<Rightarrow> 'r rng \<Rightarrow> db \<Rightarrow> (nat \<times> nat, db) outcome" where
  "seed_districts_and_parcels E R s =
     (let now = e_now E 0;
          s1 = foldl (\<lambda>s (did, name, region).
                  ignore_district \<lparr>di_id = did, di_name = name, di_region = region, di_created = now\<rparr> s) s DISTRICTS
      in and_then (seed_parcels E R now background_parcels 1 (rg_seed R 20260620, 0) s1)
           (\<lambda>(_, inserted) s2. (Inr (length DISTRICTS, inserted), s2)))"

section \<open>seed_demo\<close>

definition NAKATO_NIN :: string where "NAKATO_NIN = ''CM82010110A4P0''"
definition BWAMBALE_NIN :: string where "BWAMBALE_NIN = ''CM82010110A4P9''"
definition OKELLO_NIN :: string where "OKELLO_NIN = ''CM85030212B7Q1''"
definition NAMATOVU_NIN :: string where "NAMATOVU_NIN = ''CM91070514C9R2''"
definition AUMA_NIN :: string where "AUMA_NIN = ''CM88110316D2S3''"

text \<open>\<open>make_upi(district_id=3, parcel_number=24718, year=2026)\<close>, which does not read the clock.\<close>

definition HERO_PARCEL :: string where
  "HERO_PARCEL = projr (make_upi 3 24718 (Some 2026) 0)"

definition HERO_POLYGON :: "'g env \<Rightarrow> json" where
  "HERO_POLYGON E = polygon_json E
     [(320419 / 10000, 4017 / 10000), (320432 / 10000, 4017 / 10000), (320432 / 10000, 4028 / 10000),
      (320419 / 10000, 4028 / 10000), (320419 / 10000, 4017 / 10000)]"

definition WATCHLIST :: "string \<Rightarrow> (string \<times> string) list" where
  "WATCHLIST dash =
     [(''Patrick Bwambale'', ''Repeat broker '' @ dash @ '' flagged in two prior land-fraud cases (2024).''),
      (''Henry Mwesigwa'', ''Identity-theft conviction 2023.''),
      (''Mukasa Ssekitooleko'', ''Forged signature on three transfers, currently in court.'')]"

definition by_nin :: "'g env \<Rightarrow> string \<Rightarrow> db \<Rightarrow> string option" where
  "by_nin E nin s = map_option o_id (find (\<lambda>r. o_nin_hash r = sha256_hex (e_sha E) nin) (owners s))"

definition upsert_owner ::
  "'g env \<Rightarrow> nat \<Rightarrow> string \<Rightarrow> string \<Rightarrow> string \<Rightarrow> kyc_status \<Rightarrow> db \<Rightarrow> (string, db) outcome" where
  "upsert_owner E k nin full_name dob kyc s =
     (case by_nin E nin s of
        Some i \<Rightarrow> (Inr i, s)
      | None \<Rightarrow>
          let owner_id = e_uuid E k; now = e_now E k
          in and_then
               (insert_owner
                  \<lparr>o_id = owner_id, o_nin_hash = sha256_hex (e_sha E) nin, o_nin_encrypted = e_encrypt E nin,
                   o_name = full_name, o_dob = Some dob, o_phone = None, o_kyc = kyc,
                   o_kyc_at = (if kyc = K_VERIFIED then Some now else None), o_created = now, o_updated = now\<rparr> s)
               (\<lambda>_ s1. (Inr owner_id, s1)))"

definition insert_watch :: "watch_row \<Rightarrow> db \<Rightarrow> (unit, db) outcome" where
  "insert_watch r s =
     (if wl_id r \<in> wl_id ` set (watchlist s) then (Inl IntegrityError, s)
      else (Inr (), s\<lparr>watchlist := watchlist s @ [r]\<rparr>))"

fun seed_watch :: "'g env \<Rightarrow> time \<Rightarrow> nat \<Rightarrow> (string \<times> string) list \<Rightarrow> db \<Rightarrow> (unit, db) outcome" where
  "seed_watch E now k [] s = (Inr (), s)"
| "seed_watch E now k ((name, reason) # rest) s =
     (if find (\<lambda>w. wl_name w = name) (watchlist s) \<noteq> None then seed_watch E now (Suc k) rest s
      else and_then
             (insert_watch \<lparr>wl_id = e_uuid E k, wl_name = name, wl_reason = reason, wl_by = ''seed_demo'', wl_at = now\<rparr> s)
             (\<lambda>_ s1. seed_watch E now (Suc k) rest s1))"

definition STAFF :: "(string \<times> int option \<times> role \<times> string) list" where
  "STAFF =
     [(''demo-surveyor'', Some 3, SURVEYOR, ''Surveyor Otim''), (''demo-officer'', Some 3, LAND_OFFICER, ''Officer Apio''),
      (''demo-registrar'', Some 3, REGISTRAR, ''Registrar Kasozi''), (''demo-auditor'', None, AUDITOR, ''Auditor Mubiru''),
      (''demo-admin'', None, ADMIN, ''Admin Owor''), (''demo-citizen'', None, CITIZEN, ''Sarah Nakato'')]"

fun seed_staff ::
  "'g env \<Rightarrow> time \<Rightarrow> nat \<Rightarrow> (string \<times> int option \<times> role \<times> string) list \<Rightarrow> db \<Rightarrow> (unit, db) outcome" where
  "seed_staff E now k [] s = (Inr (), s)"
| "seed_staff E now k ((ext, did, role, fname) # rest) s =
     (if find (\<lambda>u. st_external u = ext) (staff_users s) \<noteq> None then seed_staff E now (Suc k) rest s
      else and_then
             (insert_staff
                \<lparr>st_id = e_uuid E k, st_external = ext, st_district = did, st_role = role,
                 st_email = Some (ext @ ''@landguard.ug''), st_name = Some fname, st_created = now, st_seen = now\<rparr> s)
             (\<lambda>_ s1. seed_staff E now (Suc k) rest s1))"

text \<open>The hero parcel is inserted, or given back to its owner and set to active.\<close>

definition seed_hero :: "'g env \<Rightarrow> time \<Rightarrow> string \<Rightarrow> db \<Rightarrow> (unit, db) outcome" where
  "seed_hero E now nakato_id s =
     (if find_parcel HERO_PARCEL s = None
      then insert_parcel
             \<lparr>p_id = HERO_PARCEL, p_tenure = MAILO, p_district = 3, p_sub_county = ''Mityana TC'',
              p_geometry = dumps_plain (HERO_POLYGON E), p_area = 145 / 100, p_owner = Some nakato_id,
              p_status = P_ACTIVE, p_created = now, p_updated = now\<rparr> s
      else (Inr (), set_parcel_owner HERO_PARCEL nakato_id now s))"

definition seed_demo_state :: "'g env \<Rightarrow> string \<Rightarrow> db \<Rightarrow> (string \<times> nat \<times> nat, db) outcome" where
  "seed_demo_state E dash s =
     (let now = e_now E 0
      in and_then (upsert_owner E 1 NAKATO_NIN ''Sarah Nakato'' ''1982-01-01'' K_VERIFIED s) (\<lambda>nakato_id s.
         and_then (upsert_owner E 2 OKELLO_NIN ''Joseph Okello'' ''1985-03-02'' K_VERIFIED s) (\<lambda>_ s.
         and_then (upsert_owner E 3 NAMATOVU_NIN ''Aisha Namatovu'' ''1991-07-05'' K_VERIFIED s) (\<lambda>_ s.
         and_then (upsert_owner E 4 AUMA_NIN ''Esther Auma'' ''1988-11-03'' K_VERIFIED s) (\<lambda>_ s.
         and_then (upsert_owner E 5 BWAMBALE_NIN ''Patrick Bwambale'' ''1979-09-12'' K_PENDING s) (\<lambda>_ s.
         and_then (seed_hero E now nakato_id s) (\<lambda>_ s.
         and_then (seed_watch E now 6 (WATCHLIST dash) s) (\<lambda>_ s.
         and_then (seed_staff E now 9 STAFF s) (\<lambda>_ s.
           (Inr (HERO_PARCEL, length (WATCHLIST dash), 6),
            emit E 16 ''KYC_VERIFIED''
              (JObj [(''owner_id'', JStr nakato_id), (''matched'', JBool True), (''source'', JStr ''MOCK'')]) 3 ''seed:demo''
              (emit E 15 ''PARCEL_REGISTERED''
                (JObj [(''parcel_id'', JStr HERO_PARCEL), (''tenure_type'', JStr ''MAILO''), (''owner_id'', JStr nakato_id),
                       (''sub_county'', JStr ''Mityana TC'')]) 3 ''seed:demo'' s)))))))))))"

section \<open>seed_demo_extras\<close>

text \<open>A text that is neither \<open>None\<close> nor empty.\<close>

definition some_text :: "string option \<Rightarrow> bool" where
  "some_text x \<longleftrightarrow> x \<noteq> None \<and> x \<noteq> Some []"

definition background_ids :: "db \<Rightarrow> string list" where
  "background_ids s =
     take 6 (sort_key (\<lambda>i. i) (map p_id (filter (\<lambda>p. p_district p = 3 \<and> p_id p \<noteq> HERO_PARCEL) (parcels s))))"

definition title_plan :: "string list \<Rightarrow> string option \<Rightarrow> string option \<Rightarrow> string option \<Rightarrow> string option
    \<Rightarrow> (string \<times> string option \<times> string) list" where
  "title_plan ids nakato okello namatovu auma =
     (HERO_PARCEL, nakato, ''demo-registrar'')
     # (if 3 \<le> length ids \<and> some_text okello \<and> some_text namatovu \<and> some_text auma
        then [(ids ! 0, okello, ''demo-registrar''), (ids ! 1, namatovu, ''demo-registrar''), (ids ! 2, auma, ''demo-registrar'')]
        else [])"

definition seed_title_no :: "nat \<Rightarrow> string" where
  "seed_title_no idx = ''MITYANA/V1/'' @ int_str (20260000 + int idx + 1)"

fun seed_titles ::
  "'g env \<Rightarrow> time \<Rightarrow> nat \<Rightarrow> (string \<times> string option \<times> string) list \<Rightarrow> nat \<Rightarrow> db \<Rightarrow> (nat, db) outcome" where
  "seed_titles E now idx [] n s = (Inr n, s)"
| "seed_titles E now idx ((parcel_id, owner, registrar) # rest) n s =
     (case owner of
        None \<Rightarrow> seed_titles E now (Suc idx) rest n s
      | Some owner_id \<Rightarrow>
          let title_no = seed_title_no idx
          in if find_title title_no s \<noteq> None then seed_titles E now (Suc idx) rest n s
             else
               let s1 = set_parcel_owner parcel_id owner_id now s;
                   hash = sha256_hex (e_sha E) (json_dumps
                     (JObj [(''title_no'', JStr title_no), (''parcel_id'', JStr parcel_id), (''owner_id'', JStr owner_id),
                            (''issued_at'', jreal E now)]))
               in and_then
                    (insert_title
                       \<lparr>ti_no = title_no, ti_parcel = parcel_id, ti_issued = now, ti_registrar = registrar, ti_district = 3,
                        ti_hash = hash, ti_proof = None, ti_revoked = None, ti_reason = None\<rparr> s1)
                    (\<lambda>_ s2. seed_titles E now (Suc idx) rest (Suc n) s2))"

text \<open>\<open>UPDATE parcels SET current_owner_id = ?, updated_at = ?\<close>: the status stays.\<close>

definition hand_parcel :: "string \<Rightarrow> string \<Rightarrow> time \<Rightarrow> db \<Rightarrow> db" where
  "hand_parcel parcel_id owner_id now s =
     s\<lparr>parcels := update_where (\<lambda>p. p_id p = parcel_id) (\<lambda>p. p\<lparr>p_owner := Some owner_id, p_updated := now\<rparr>) (parcels s)\<rparr>"

definition seed_sale ::
  "'g env \<Rightarrow> time \<Rightarrow> nat \<Rightarrow> string list \<Rightarrow> string option \<Rightarrow> string option \<Rightarrow> db \<Rightarrow> (nat, db) outcome" where
  "seed_sale E now k ids okello namatovu s =
     (if some_text okello \<and> some_text namatovu \<and> ids \<noteq> []
         \<and> find (\<lambda>t. t_parcel t = ids ! 0 \<and> t_status t = T_COMPLETED) (transfers s) = None
      then
        let signed = json_dumps
              (JObj [(''parcel_id'', JStr (ids ! 0)), (''from'', JStr (the okello)), (''to'', JStr (the namatovu)),
                     (''consideration_ugx'', JInt 14500000), (''transfer_type'', JStr ''SALE'')])
        in and_then
             (insert_transfer
                \<lparr>t_id = e_uuid E k, t_parcel = ids ! 0, t_from = okello, t_to = the namatovu, t_type = SALE,
                 t_consideration = Some 14500000, t_status = T_COMPLETED, t_signed = signed, t_initiated = now - 86400,
                 t_completed = Some now, t_district = 3\<rparr> s)
             (\<lambda>_ s1. (Inr 1, hand_parcel (ids ! 0) (the namatovu) now s1))
      else (Inr 0, s))"

definition signal_json :: "'g env \<Rightarrow> string \<Rightarrow> int \<Rightarrow> real \<Rightarrow> string \<Rightarrow> json" where
  "signal_json E name weight score explanation =
     JObj [(''name'', JStr name), (''weight'', JInt weight), (''score'', jreal E score), (''explanation'', JStr explanation)]"

definition REVIEW_PLAN :: "'g env \<Rightarrow> string option \<Rightarrow> (string \<times> string \<times> string \<times> int \<times> fraud_action \<times> json list) list" where
  "REVIEW_PLAN E bwambale =
     [(''review-watchlist-bwambale'', ''owner'', if some_text bwambale then the bwambale else ''bwambale-pending'', 92, BLOCK,
       [signal_json E ''watchlist_name'' 20 1
          (''Owner name matches watchlist entry '' @ [CHR 0x27] @ ''Patrick Bwambale'' @ [CHR 0x27] @ '' at 97% similarity''),
        signal_json E ''nira_kyc'' 25 (88 / 100) ''NIRA returned no match for the supplied NIN'']),
      (''review-rapid-resale'', ''transfer'', ''transfer-rapid-resale-demo'', 71, FLAG,
       [signal_json E ''rapid_retransfer'' 20 (9 / 10) ''Resale 9 days after acquisition'',
        signal_json E ''consideration_anomaly'' 15 (58 / 100) ''0.42x median Mityana Town Council parcel price'']),
      (''review-duplicate-nin'', ''owner'', ''owner-duplicate-nin-demo'', 64, FLAG,
       [signal_json E ''nin_reuse'' 15 1 ''Two parcels filed under the same NIN within 24 h'',
        signal_json E ''geometry_overlap'' 30 (4 / 10) ''Filings from Mityana + Gulu within a 24-hour window''])]"

fun seed_reviews ::
  "time \<Rightarrow> (string \<times> string \<times> string \<times> int \<times> fraud_action \<times> json list) list \<Rightarrow> nat \<Rightarrow> db \<Rightarrow> (nat, db) outcome" where
  "seed_reviews now [] n s = (Inr n, s)"
| "seed_reviews now ((i, typ, subject, risk, action, signals) # rest) n s =
     (if find_review i s \<noteq> None then seed_reviews now rest n s
      else and_then
             (insert_review
                \<lparr>r_id = i, r_type = typ, r_subject = subject, r_district = 3, r_risk = risk, r_action = action,
                 r_signals = dumps_plain (JList signals), r_version = ''isolation-forest-v1+rules-v1'',
                 r_state = R_PENDING_REVIEW, r_created = now, r_reviewed_at = None, r_reviewed_by = None,
                 r_notes = None, r_escalated = None\<rparr> s)
             (\<lambda>_ s1. seed_reviews now rest (Suc n) s1))"

text \<open>The audit events for the titles of the plan, those that existed before included.\<close>

fun emit_titles :: "'g env \<Rightarrow> nat \<Rightarrow> nat \<Rightarrow> (string \<times> string option \<times> string) list \<Rightarrow> db \<Rightarrow> db" where
  "emit_titles E k idx [] s = s"
| "emit_titles E k idx ((parcel_id, owner, registrar) # rest) s =
     emit_titles E (Suc k) (Suc idx) rest
       (case owner of
          None \<Rightarrow> s
        | Some owner_id \<Rightarrow>
            emit E k ''TITLE_ISSUED''
              (JObj [(''title_no'', JStr (seed_title_no idx)), (''parcel_id'', JStr parcel_id),
                     (''owner_id'', JStr owner_id), (''registrar_id'', JStr registrar)]) 3 ''seed:demo'' s)"

definition seed_demo_extras :: "'g env \<Rightarrow> db \<Rightarrow> (nat \<times> nat \<times> nat, db) outcome" where
  "seed_demo_extras E s =
     (let now = e_now E 0;
          nakato = by_nin E NAKATO_NIN s; okello = by_nin E OKELLO_NIN s; namatovu = by_nin E NAMATOVU_NIN s;
          auma = by_nin E AUMA_NIN s; bwambale = by_nin E BWAMBALE_NIN s;
          ids = background_ids s;
          plan = title_plan ids nakato okello namatovu auma
      in and_then (seed_titles E now 0 plan 0 s) (\<lambda>issued_titles s.
         and_then (seed_sale E now 1 ids okello namatovu s) (\<lambda>issued_transfers s.
         and_then (seed_reviews now (REVIEW_PLAN E bwambale) 0 s) (\<lambda>queued_reviews s.
           let s1 = emit_titles E 2 0 plan s;
               s2 = (if issued_transfers \<noteq> 0 \<and> some_text okello \<and> some_text namatovu \<and> ids \<noteq> []
                     then emit E 6 ''TRANSFER_COMPLETED''
                            (JObj [(''parcel_id'', JStr (ids ! 0)), (''from_owner_id'', JStr (the okello)),
                                   (''to_owner_id'', JStr (the namatovu)), (''transfer_type'', JStr ''SALE'')])
                            3 ''seed:demo'' s1
                     else s1)
           in (Inr (issued_titles, issued_transfers, queued_reviews), s2)))))"

section \<open>The start of a process\<close>

definition is_db_empty :: "db \<Rightarrow> bool" where
  "is_db_empty s \<longleftrightarrow> length (districts s) = 0"

definition maybe_seed_on_startup :: "'g env \<Rightarrow> 'r rng \<Rightarrow> string \<Rightarrow> settings \<Rightarrow> db \<Rightarrow> (bool, db) outcome" where
  "maybe_seed_on_startup E R dash st s =
     (if app_env st = Production then (Inr False, s)
      else if \<not> is_db_empty s then (Inr False, s)
      else
        and_then (seed_districts_and_parcels E R s) (\<lambda>_ s.
        and_then (seed_demo_state (shift_env 300 E) dash s) (\<lambda>_ s.
        and_then (seed_demo_extras (shift_env 400 E) s) (\<lambda>_ s. (Inr True, s)))))"

section \<open>Seeding is safe\<close>

text \<open>
  What a statement of the seed keeps: the ledger grows by well-formed events only, whoever holds a parcel
  stays registered, nobody leaves the register of owners, and titles stay.
\<close>

definition safe :: "(bytes \<Rightarrow> bytes) \<Rightarrow> db \<Rightarrow> db \<Rightarrow> bool" where
  "safe sha s s' \<longleftrightarrow> appends sha s s' \<and> (land_ok (land_of s) \<longrightarrow> land_ok (land_of s'))
     \<and> (\<forall>w. find_owner w s \<noteq> None \<longrightarrow> find_owner w s' \<noteq> None)
     \<and> title_grows s s'"

lemma safe_refl [simp]: "safe sha s s"
  by (simp add: safe_def)

lemma safe_trans: "safe sha s s1 \<Longrightarrow> safe sha s1 s2 \<Longrightarrow> safe sha s s2"
  by (auto simp: safe_def intro: appends_trans grows_trans)

lemma safe_bind:
  assumes "safe sha s (snd r)" and "\<And>a. r = (Inr a, snd r) \<Longrightarrow> safe sha (snd r) (snd (k a (snd r)))"
  shows "safe sha s (snd (and_then r k))"
  using assms by (cases r; cases "fst r") (auto intro: safe_trans)

lemma safe_quiet: "logs s' = logs s \<Longrightarrow> titles s' = titles s \<Longrightarrow> land_of s' = land_of s \<Longrightarrow> safe sha s s'"
  using land_known [of _ s] land_unknown [of _ s'] by (fastforce simp: safe_def appends_logs grows_same)

lemma safe_emit: "safe sha s s1 \<Longrightarrow> wf_json p \<Longrightarrow> e_sha E = sha \<Longrightarrow> safe sha s (emit E k t p d a s1)"
  by (auto simp: safe_def appends_more intro: grows_then)

lemma safe_hold:
  assumes "logs s' = logs s" "owners s' = owners s" "land_of s' = hold i w st (land_of s)" "titles s' = titles s"
    and "\<And>x. w = Some x \<Longrightarrow> find_owner x s \<noteq> None"
  shows "safe sha s s'"
  using assms(5) land_known [of _ s] find_row_cong(1) [OF assms(2)] grows_same [OF assms(4)]
  by (auto simp: safe_def appends_logs assms(1,3) land_ok_def split: if_splits)

lemma safe_set_owner:
  assumes "find_owner x s \<noteq> None"
  shows "safe sha s (set_parcel_owner i x now s)"
proof (cases "find_parcel i s")
  case None
  then have "p_id r \<noteq> i" if "r \<in> set (parcels s)" for r
    using that by (auto simp: find_parcel_def find_NoneD)
  then have "parcels (set_parcel_owner i x now s) = parcels s"
    by (simp add: set_parcel_owner_def update_where_none)
  then have "land_of (set_parcel_owner i x now s) = land_of s" by (rule land_eqI) simp
  then show ?thesis by (intro safe_quiet) simp_all
next
  case (Some p)
  have "owners (set_parcel_owner i x now s) = owners s" by simp
  from safe_hold [OF logs_same(6) this land_set_owner [OF Some]] assms show ?thesis by simp
qed

lemma safe_insert_parcel: "safe sha s (snd (insert_parcel r s))"
proof (cases "fst (insert_parcel r s)")
  case (Inl e)
  then show ?thesis by (auto simp: insert_parcel_def split: if_splits)
next
  case (Inr u)
  then have r: "insert_parcel r s = (Inr (), snd (insert_parcel r s))" by (simp add: prod_eq_iff)
  have known: "find_owner x s \<noteq> None" if "p_owner r = Some x" for x
    using land_insert_parcel(3) [OF r that] land_unknown [of x s] by (cases "find_owner x s") simp_all
  have "owners (snd (insert_parcel r s)) = owners s" by (simp add: insert_parcel_def)
  from safe_hold [OF logs_inserts(2) this land_insert_parcel(1) [OF r] titles_inserts(2) known] show ?thesis .
qed

lemma safe_insert_owner: "safe sha s (snd (insert_owner r s))"
proof (cases "fst (insert_owner r s)")
  case (Inl e)
  then show ?thesis by (auto simp: insert_owner_def split: if_splits)
next
  case (Inr u)
  then have r: "insert_owner r s = (Inr (), snd (insert_owner r s))" by (simp add: prod_eq_iff)
  have "appends sha s (snd (insert_owner r s))" by (rule appends_logs) simp
  moreover have "title_grows s (snd (insert_owner r s))" by (rule grows_same) simp
  ultimately show ?thesis
    unfolding safe_def land_insert_owner(1) [OF r]
    by (auto simp: land_ok_def find_owner_def find_append insert_owner_def split: if_splits option.split)
qed

lemma safe_bind_known:
  assumes "find_owner x s \<noteq> None" "safe sha s (snd r)" and "\<And>a s1. find_owner x s1 \<noteq> None \<Longrightarrow> safe sha s1 (snd (k a s1))"
  shows "safe sha s (snd (and_then r k))"
proof (rule safe_bind [OF assms(2)])
  fix a
  have "find_owner x (snd r) \<noteq> None" using assms(1,2) by (auto simp: safe_def)
  then show "safe sha (snd r) (snd (k a (snd r)))" by (rule assms(3))
qed

lemma safe_ignore_district: "safe sha s (ignore_district r s)"
  by (rule safe_quiet) (auto simp: ignore_district_def logs_def intro: land_eqI)

lemma safe_districts:
  "safe sha s (foldl (\<lambda>s (did, name, region). ignore_district \<lparr>di_id = did, di_name = name, di_region = region, di_created = now\<rparr> s) s ds)"
proof (induction ds arbitrary: s)
  case (Cons d ds)
  obtain did name region where d: "d = (did, name, region)" by (cases d)
  show ?case unfolding d foldl_Cons prod.case by (rule safe_trans [OF safe_ignore_district Cons.IH])
qed simp

lemma safe_seed_parcel: "safe sha s (snd (seed_parcel E R now spot k st s))"
  by (cases spot; cases st)
    (simp add: seed_parcel_def Let_def safe_bind [OF safe_insert_parcel] split: sum.split option.split prod.split)

lemma safe_seed_parcels: "safe sha s (snd (seed_parcels E R now ats k st s))"
proof (induction ats arbitrary: k st s)
  case (Cons spot ats)
  show ?case unfolding seed_parcels.simps by (rule safe_bind [OF safe_seed_parcel]) (rule Cons.IH)
qed simp

lemma safe_seed_districts: "safe sha s (snd (seed_districts_and_parcels E R s))"
  unfolding seed_districts_and_parcels_def Let_def
proof (rule safe_trans [OF safe_districts])
  show "safe sha s1 (snd (and_then (seed_parcels E R now ats k st s1) (\<lambda>(_, n) s2. (Inr (l, n), s2))))"
    for s1 now ats k st and l :: nat
    by (rule safe_bind [OF safe_seed_parcels]) (simp split: prod.split)
qed

lemma by_nin_known: "by_nin E nin s = Some i \<Longrightarrow> find_owner i s \<noteq> None"
proof -
  assume "by_nin E nin s = Some i"
  then obtain r where "find (\<lambda>r. o_nin_hash r = sha256_hex (e_sha E) nin) (owners s) = Some r" "o_id r = i"
    by (auto simp: by_nin_def)
  then have "r \<in> set (owners s)" "o_id r = i" using find_SomeD by fast+
  then show ?thesis by (auto simp: find_owner_def find_NoneD)
qed

lemma upsert_known: "upsert_owner E k nin name dob kyc s = (Inr i, s') \<Longrightarrow> find_owner i s' \<noteq> None"
  by (auto simp: upsert_owner_def Let_def res_simps insert_owner_def find_owner_def find_append
      dest: by_nin_known split: option.splits if_splits)

lemma safe_upsert: "safe sha s (snd (upsert_owner E k nin name dob kyc s))"
  by (simp add: upsert_owner_def Let_def safe_bind [OF safe_insert_owner] split: option.split)

lemma safe_insert_watch: "safe sha s (snd (insert_watch r s))"
  by (rule safe_quiet) (auto simp: insert_watch_def logs_def intro: land_eqI)

lemma safe_seed_watch: "safe sha s (snd (seed_watch E now k ws s))"
proof (induction E now k ws s rule: seed_watch.induct)
  case (2 E now k name reason rest s)
  then show ?case by (auto intro!: safe_bind [OF safe_insert_watch])
qed simp

lemma safe_seed_staff: "safe sha s (snd (seed_staff E now k us s))"
proof (induction E now k us s rule: seed_staff.induct)
  case (2 E now k ext did role fname rest s)
  then show ?case by (auto intro!: safe_bind [OF safe_quiet])
qed simp

lemma safe_seed_hero: "find_owner x s \<noteq> None \<Longrightarrow> safe sha s (snd (seed_hero E now x s))"
  by (simp add: seed_hero_def safe_insert_parcel safe_set_owner)

lemma safe_seed_demo_state: "safe (e_sha E) s (snd (seed_demo_state E dash s))"
  unfolding seed_demo_state_def Let_def
proof (rule safe_bind [OF safe_upsert], drule upsert_known)
  fix x s1
  assume x: "find_owner x s1 \<noteq> None"
  have fin: "safe (e_sha E) s1 (emit E 16 t1 (JObj [(''owner_id'', JStr x), (''matched'', JBool True), (''source'', JStr ''MOCK'')]) d1 a1
      (emit E 15 t (JObj [(''parcel_id'', JStr HERO_PARCEL), (''tenure_type'', JStr ''MAILO''), (''owner_id'', JStr x),
                       (''sub_county'', JStr ''Mityana TC'')]) d a s1))" for t1 d1 a1 t d a s1
    by (intro safe_emit) simp_all
  show "safe (e_sha E) s1 (snd (
         and_then (upsert_owner E 2 OKELLO_NIN ''Joseph Okello'' ''1985-03-02'' K_VERIFIED s1) (\<lambda>_ s.
         and_then (upsert_owner E 3 NAMATOVU_NIN ''Aisha Namatovu'' ''1991-07-05'' K_VERIFIED s) (\<lambda>_ s.
         and_then (upsert_owner E 4 AUMA_NIN ''Esther Auma'' ''1988-11-03'' K_VERIFIED s) (\<lambda>_ s.
         and_then (upsert_owner E 5 BWAMBALE_NIN ''Patrick Bwambale'' ''1979-09-12'' K_PENDING s) (\<lambda>_ s.
         and_then (seed_hero E (e_now E 0) x s) (\<lambda>_ s.
         and_then (seed_watch E (e_now E 0) 6 (WATCHLIST dash) s) (\<lambda>_ s.
         and_then (seed_staff E (e_now E 0) 9 STAFF s) (\<lambda>_ s.
           (Inr (HERO_PARCEL, length (WATCHLIST dash), 6),
            emit E 16 ''KYC_VERIFIED''
              (JObj [(''owner_id'', JStr x), (''matched'', JBool True), (''source'', JStr ''MOCK'')]) 3 ''seed:demo''
              (emit E 15 ''PARCEL_REGISTERED''
                (JObj [(''parcel_id'', JStr HERO_PARCEL), (''tenure_type'', JStr ''MAILO''), (''owner_id'', JStr x),
                       (''sub_county'', JStr ''Mityana TC'')]) 3 ''seed:demo'' s)))))))))))"
    by (intro safe_bind_known [OF x safe_upsert] safe_bind_known [OF _ safe_upsert] safe_bind [OF safe_seed_hero]
        safe_bind [OF safe_seed_watch] safe_bind [OF safe_seed_staff]) (simp_all add: fin)
qed

lemma safe_insert_title: "safe sha s (snd (insert_title r s))"
proof -
  have "owners (snd (insert_title r s)) = owners s" by (simp add: insert_title_def)
  then show ?thesis by (simp add: safe_def appends_logs grows_insert_title find_owner_def)
qed

text \<open>A plan whose owners are registered.\<close>

definition plan_known :: "(string \<times> string option \<times> string) list \<Rightarrow> db \<Rightarrow> bool" where
  "plan_known plan s \<longleftrightarrow> list_all (\<lambda>(_, w, _). ref_ok (\<lambda>x. find_owner x s \<noteq> None) w) plan"

lemma plan_known_cong: "owners s' = owners s \<Longrightarrow> plan_known plan s' = plan_known plan s"
  by (simp add: plan_known_def find_owner_def)

lemma owners_insert_title [simp]: "owners (snd (insert_title r s)) = owners s"
  by (simp add: insert_title_def)

lemma safe_seed_titles:
  "plan_known plan s \<Longrightarrow>
   safe sha s (snd (seed_titles E now idx plan n s)) \<and> owners (snd (seed_titles E now idx plan n s)) = owners s"
proof (induction E now idx plan n s rule: seed_titles.induct)
  case (2 E now idx parcel_id w registrar rest n s)
  show ?case
  proof (cases w)
    case None
    then show ?thesis using 2 by (simp add: plan_known_def)
  next
    case (Some x)
    let ?s1 = "set_parcel_owner parcel_id x now s"
    have x: "find_owner x s \<noteq> None" and rest: "plan_known rest s" using "2.prems" Some by (simp_all add: plan_known_def ref_ok_def)
    have step: "safe sha ?s1 (snd (and_then (insert_title t ?s1) (\<lambda>_ s2. seed_titles E now (Suc idx) rest (Suc n) s2)))
        \<and> owners (snd (and_then (insert_title t ?s1) (\<lambda>_ s2. seed_titles E now (Suc idx) rest (Suc n) s2))) = owners s"
      if "find_title (seed_title_no idx) s = None" for t
    proof -
      have ih: "safe sha s2 (snd (seed_titles E now (Suc idx) rest (Suc n) s2))
          \<and> owners (snd (seed_titles E now (Suc idx) rest (Suc n) s2)) = owners s2" if "owners s2 = owners s" for s2
        using "2.IH"(3) [OF Some refl] that \<open>find_title _ _ = None\<close> rest plan_known_cong by blast
      show ?thesis
      proof (cases "fst (insert_title t ?s1)")
        case (Inl e)
        then show ?thesis by (cases "insert_title t ?s1") (auto simp: insert_title_def split: if_splits)
      next
        case (Inr u)
        then have r: "insert_title t ?s1 = (Inr u, snd (insert_title t ?s1))" by (simp add: prod_eq_iff)
        have "safe sha ?s1 (snd (insert_title t ?s1))" by (rule safe_insert_title)
        then show ?thesis
          using ih [of "snd (insert_title t ?s1)"] by (subst (1 2) r) (auto intro: safe_trans)
      qed
    qed
    show ?thesis
    proof (cases "find_title (seed_title_no idx) s = None")
      case True
      then have none: "\<not> find_title (seed_title_no idx) s \<noteq> None" by simp
      show ?thesis
        unfolding seed_titles.simps Some option.case Let_def if_not_P [OF none]
        using step [OF True] safe_trans [OF safe_set_owner [OF x]] by (intro conjI) blast+
    next
      case False
      then show ?thesis using "2.IH"(2) [OF Some refl False] rest by (simp add: Some Let_def)
    qed
  qed
qed simp

lemma hand_parcel_sel [simp]:
  "logs (hand_parcel i x now s) = logs s" "owners (hand_parcel i x now s) = owners s"
  "titles (hand_parcel i x now s) = titles s"
  by (simp_all add: hand_parcel_def logs_def)

lemma find_hand_parcel:
  "find_parcel j (hand_parcel i x now s)
   = map_option (\<lambda>p. if p_id p = i then p\<lparr>p_owner := Some x, p_updated := now\<rparr> else p) (find_parcel j s)"
  by (simp add: hand_parcel_def find_parcel_def find_update_where)

lemma safe_hand_parcel:
  assumes "find_owner x s \<noteq> None"
  shows "safe sha s (hand_parcel i x now s)"
proof (cases "find_parcel i s")
  case None
  have "find_parcel j (hand_parcel i x now s) = find_parcel j s" for j
    using None find_parcel_id [of j s] by (cases "find_parcel j s") (auto simp: find_hand_parcel)
  then have "land_of (hand_parcel i x now s) = land_of s" by (simp add: land_of_def find_owner_def)
  then show ?thesis by (intro safe_quiet) simp_all
next
  case (Some p)
  have "land_of (hand_parcel i x now s) = hold i (Some x) (p_status p) (land_of s)"
  proof (rule land_holdI)
    fix j
    show "map_option (\<lambda>p. (p_owner p, p_status p)) (find_parcel j (hand_parcel i x now s))
        = (if j = i then Some (Some x, p_status p) else map_option (\<lambda>p. (p_owner p, p_status p)) (find_parcel j s))"
      using Some by (cases "find_parcel j s") (auto simp: find_hand_parcel dest: find_parcel_id)
  qed simp
  from safe_hold [OF hand_parcel_sel(1,2) this hand_parcel_sel(3)] assms show ?thesis by blast
qed

lemma safe_insert_transfer: "safe sha s (snd (insert_transfer r s))"
  by (rule safe_quiet) simp_all

lemma owners_insert_transfer [simp]: "owners (snd (insert_transfer r s)) = owners s"
  by (simp add: insert_transfer_def)

lemma safe_seed_sale:
  assumes "\<And>x. namatovu = Some x \<Longrightarrow> find_owner x s \<noteq> None"
  shows "safe sha s (snd (seed_sale E now k ids okello namatovu s))"
proof (cases "some_text namatovu")
  case False
  then show ?thesis by (simp add: seed_sale_def)
next
  case True
  then obtain x where x: "namatovu = Some x" by (auto simp: some_text_def)
  have "find_owner x s1 \<noteq> None" if "owners s1 = owners s" for s1
    using assms [OF x] that by (simp add: find_owner_def)
  then have "safe sha s (snd (and_then (insert_transfer r s) (\<lambda>_ s1. (Inr (1 :: nat), hand_parcel i (the namatovu) now s1))))" for r i
    by (intro safe_bind [OF safe_insert_transfer]) (simp add: x safe_hand_parcel)
  then show ?thesis unfolding seed_sale_def Let_def by (simp del: json_dumps_simps One_nat_def)
qed

lemma safe_seed_reviews: "safe sha s (snd (seed_reviews now plan n s))"
proof (induction now plan n s rule: seed_reviews.induct)
  case (2 now i kind subj risk action signals rest n s)
  have "safe sha s (snd (insert_review r s))" for r
  proof (rule safe_quiet)
    show "land_of (snd (insert_review r s)) = land_of s" by (rule land_eqI) (simp_all add: insert_review_def)
    show "titles (snd (insert_review r s)) = titles s" by (simp add: insert_review_def)
  qed simp
  then show ?case using 2 by (auto intro!: safe_bind)
qed simp

lemma safe_emit_titles: "e_sha E = sha \<Longrightarrow> safe sha s (emit_titles E k idx plan s)"
proof (induction plan arbitrary: k idx s)
  case (Cons p plan)
  obtain i w u where p: "p = (i, w, u)" by (cases p)
  show ?case
    unfolding p emit_titles.simps
    by (rule safe_trans [OF _ Cons.IH [OF Cons.prems]]) (auto intro: safe_emit simp: Cons.prems split: option.split)
qed simp

lemma title_plan_known:
  assumes "ref_ok (\<lambda>x. find_owner x s \<noteq> None) a" "ref_ok (\<lambda>x. find_owner x s \<noteq> None) b"
    "ref_ok (\<lambda>x. find_owner x s \<noteq> None) c" "ref_ok (\<lambda>x. find_owner x s \<noteq> None) d"
  shows "plan_known (title_plan ids a b c d) s"
  using assms by (simp add: plan_known_def title_plan_def)

lemma by_nin_ref: "ref_ok (\<lambda>x. find_owner x s \<noteq> None) (by_nin E nin s)"
  using by_nin_known [of E nin s] by (cases "by_nin E nin s") (auto simp: ref_ok_def)

lemma safe_seed_demo_extras: "safe (e_sha E) s (snd (seed_demo_extras E s))"
proof -
  let ?plan = "title_plan (background_ids s) (by_nin E NAKATO_NIN s) (by_nin E OKELLO_NIN s) (by_nin E NAMATOVU_NIN s) (by_nin E AUMA_NIN s)"
  have known: "plan_known ?plan s" by (intro title_plan_known by_nin_ref)
  note titles = safe_seed_titles [OF known, of "e_sha E" E "e_now E 0" 0 0]
  have nam: "find_owner x s1 \<noteq> None" if "owners s1 = owners s" "by_nin E NAMATOVU_NIN s = Some x" for s1 x
    using by_nin_known [OF that(2)] that(1) by (simp add: find_owner_def)
  have sale: "safe (e_sha E) s1 (snd (seed_sale E now k ids okello (by_nin E NAMATOVU_NIN s) s1))"
    if "owners s1 = owners s" for now k ids okello s1
    using nam [OF that] by (intro safe_seed_sale) simp
  show ?thesis
    unfolding seed_demo_extras_def Let_def
    by (rule safe_bind [OF titles [THEN conjunct1]], rule safe_bind [OF sale [OF titles [THEN conjunct2]]],
        rule safe_bind [OF safe_seed_reviews])
      (simp add: safe_emit_titles safe_emit)
qed

text \<open>The start of a process changes tables only where it may, and keeps what must hold.\<close>

lemma safe_startup: "safe (e_sha E) s (snd (maybe_seed_on_startup E R dash st s))"
proof -
  have state: "safe (e_sha E) s1 (snd (seed_demo_state (shift_env n E) dash s1))" for n s1
    using safe_seed_demo_state [of "shift_env n E" s1 dash] by simp
  have extras: "safe (e_sha E) s1 (snd (seed_demo_extras (shift_env n E) s1))" for n s1
    using safe_seed_demo_extras [of "shift_env n E" s1] by simp
  show ?thesis
    unfolding maybe_seed_on_startup_def
    by (simp add: safe_bind [OF safe_seed_districts] safe_bind [OF state] safe_bind [OF extras])
qed

lemma startup_untouched:
  "app_env st = Production \<or> districts s \<noteq> [] \<Longrightarrow> maybe_seed_on_startup E R dash st s = (Inr False, s)"
  by (auto simp: maybe_seed_on_startup_def is_db_empty_def)

end
