(* ===== verification/Backend_Safety.thy ===== *)
theory Backend_Safety
  imports Backend_Ledger
begin

text \<open>
  What holds in every state the backend can serve its way to: the refinement of the land register, the
  ledger its verifier accepts, and the events a confirmed batch lets anybody check against the chain.
\<close>

section \<open>Every request is a run of the system\<close>

lemma chain_kept [simp]:
  "be_chain (snd (on_db f b)) = be_chain b" "be_chain (snd (on_nira g b)) = be_chain b"
  by (simp_all add: on_db_def on_nira_def case_prod_beta)

lemma on_anchor_chain:
  "be_chain (snd (on_anchor f b)) = as_chain (snd (f \<lparr>as_db = be_db b, as_breaker = be_anchor b, as_chain = be_chain b\<rparr>))"
  by (simp add: on_anchor_def case_prod_beta)

lemmas db_appends = create_owner_appends create_parcel_appends issue_title_appends revoke_title_appends
  create_transfer_appends approve_transfer_appends reject_transfer_appends file_dispute_appends review_dispute_appends
  resolve_dispute_appends affirm_review_appends dismiss_review_appends file_appeal_appends resolve_appeal_appends

lemma quiet_appends:
  "appends sha s (snd (create_district E q ctx s))" "appends sha s (snd (create_staff E q' ctx s))"
  "appends sha s (snd (rescore E redis t i ctx s))"
  unfolding create_district_def create_staff_def rescore_def
  by (rule guarded_appends; simp add: snd_and_then appends_logs split: sum.split option.split)+

definition envs_ok :: "(bytes \<Rightarrow> bytes) \<Rightarrow> (bytes \<Rightarrow> bytes) \<Rightarrow> 'g event \<Rightarrow> bool" where
  "envs_ok sha kec e \<longleftrightarrow> env_ok (ev_env e) \<and> env_ok (ev_env2 e) \<and> e_sha (ev_env e) = sha \<and> e_sha (ev_env2 e) = sha
     \<and> e_kec (ev_env e) = kec"

context run_invariant
begin

lemma db_keeps: "Q (be_db b) (be_chain b) \<Longrightarrow> appends sha (be_db b) (be_db b') \<Longrightarrow> be_chain b' = be_chain b \<Longrightarrow> Q (be_db b') (be_chain b')"
  using after_appends by simp

lemma flush_request_keeps:
  assumes "Q (be_db b) (be_chain b)" "e_sha E = sha" "e_kec E = kec"
  shows "Q (be_db (snd (on_anchor (flush_district E st client d True) b))) (be_chain (snd (on_anchor (flush_district E st client d True) b)))"
  using flush_keeps [of "\<lparr>as_db = be_db b, as_breaker = be_anchor b, as_chain = be_chain b\<rparr>" E st d True] assms
  by (simp add: on_anchor_db on_anchor_chain)

lemma handle_keeps:
  assumes start: "Q (be_db b) (be_chain b)" and client: "w_chain W = client"
    and env: "env_ok E" "env_ok E2" "e_sha E = sha" "e_sha E2 = sha" "e_kec E = kec"
  shows "Q (be_db (handle W E E2 ctx q b)) (be_chain (handle W E E2 ctx q b))"
proof -
  have sha: "sha = e_sha E" using env(3) by simp
  show ?thesis
  proof (cases q)
    case (Kyc_Verify w nin)
    show ?thesis
      by (rule db_keeps [OF start])
        (use env kyc_verify_appends [OF env(1), of "\<lparr>n_db = be_db b, n_breaker = be_nira b, n_cache = be_cache b\<rparr>"]
          in \<open>simp_all add: Kyc_Verify on_nira_db\<close>)
  next
    case (Verify_Nin nin)
    show ?thesis
      by (rule db_keeps [OF start])
        (use env verify_nin_appends [OF env(1), of "\<lparr>n_db = be_db b, n_breaker = be_nira b, n_cache = be_cache b\<rparr>"]
          in \<open>simp_all add: Verify_Nin on_nira_db\<close>)
  next
    case (Manual_Flush d)
    show ?thesis
    proof (cases rule: guarded_by_cases [of "[ADMIN, REGISTRAR]" ctx "\<lambda>_. flush_district E (w_settings W) (w_chain W) d True"
          "\<lparr>as_db = be_db b, as_breaker = be_anchor b, as_chain = be_chain b\<rparr>"])
      case (1 e)
      then show ?thesis using start by (simp add: Manual_Flush manual_flush_def on_anchor_db on_anchor_chain)
    next
      case (2 c)
      then show ?thesis using flush_request_keeps [OF start env(3,5), of "w_settings W" d]
        by (simp add: Manual_Flush manual_flush_def on_anchor_db on_anchor_chain client)
    qed
  next
    case (Demo_Flush d)
    then show ?thesis using start flush_request_keeps [OF start env(3,5), of "w_settings W" d]
      by (simp add: demo_flush_def ensure_enabled_def client)
  next
    case (Worker_Turn read)
    show ?thesis
      by (rule db_keeps [OF start])
        (use consumer_turn_appends [OF env(1-4), of "\<lparr>wk_last = be_sweep b, wk_lock = be_cache b, wk_db = be_db b\<rparr>"
            "w_lock W (e_now E2 0)" read] in \<open>simp_all add: Worker_Turn Let_def\<close>)
  next
    case Scheduler_Turn
    show ?thesis
      by (rule db_keeps [OF start])
        (use scheduler_turn_appends [OF env(2-4), of "be_db b" "w_note W" "w_lock W (e_now E 0)" "be_cache b" "be_parity b"]
          in \<open>simp_all add: Scheduler_Turn case_prod_beta\<close>)
  next
    case Anchor_Turn
    then show ?thesis
      using round_keeps [of "\<lparr>as_db = be_db b, as_breaker = be_anchor b, as_chain = be_chain b\<rparr>" E
          "w_settings W" "list_districts (be_db b)"] start env
      by (simp add: Let_def anchor_loop_iteration_def client)
  qed (rule db_keeps [OF start]; simp add: sha db_appends quiet_appends env(1) demo_defs case_prod_beta)+
qed

lemma handle_all_keeps:
  "Q (be_db b) (be_chain b) \<Longrightarrow> w_chain W = client \<Longrightarrow> list_all (envs_ok sha kec) evs
   \<Longrightarrow> Q (be_db (handle_all W evs b)) (be_chain (handle_all W evs b))"
proof (induction evs arbitrary: b)
  case (Cons e evs)
  then show ?case using handle_keeps [OF Cons.prems(1,2), of "ev_env e" "ev_env2 e"] by (simp add: envs_ok_def)
qed simp

end

lemma handle_all_reach:
  "sys_reach sha kec (w_chain W) (system_of (be_db b) (be_chain b)) \<Longrightarrow> list_all (envs_ok sha kec) evs
   \<Longrightarrow> sys_reach sha kec (w_chain W) (system_of (be_db (handle_all W evs b)) (be_chain (handle_all W evs b)))"
  by (rule reachable.handle_all_keeps [OF _ refl])

lemma served_reach:
  assumes "audit s0 = []" "anchors s0 = []" "list_all (envs_ok sha kec) evs"
  shows "sys_reach sha kec (w_chain W)
    (system_of (be_db (handle_all W evs (new_backend s0 c))) (be_chain (handle_all W evs (new_backend s0 c))))"
  by (rule handle_all_reach [OF _ assms(3)]) (simp add: new_backend_def system_of_def sys_reach.init assms)

section \<open>A run of the backend\<close>

text \<open>A title is issued on an empty ledger and its district flushed to the mock chain.\<close>

lemma demo_env_ok: "env_ok demo_env"
proof -
  have "float_lit (int_str i @ ''.0'')" for i
  proof -
    have "no_digit ''.0''" by (simp add: no_digit_def is_digit_def)
    then have "scan_int_part (int_str i @ ''.0'') = Some (int_str i, ''.0'')"
      using scan_int_part_again [OF scan_int_part_int_str] by blast
    moreover have "scan_frac ''.0'' = (''.0'', [])" "scan_exp [] = ([], [])" by code_simp+
    ultimately show ?thesis by (simp add: float_lit_def scan_number_def)
  qed
  then show ?thesis by (simp add: env_ok_def demo_env_def)
qed

definition demo_world :: "mock_chain world" where
  "demo_world =
     \<lparr>w_settings = run_settings, w_chain = mock_client pad32 pad32, w_nira = mock_verify_nin pad32, w_redis = None,
      w_text = \<lparr>pt_float = (\<lambda>_. None), pt_int = (\<lambda>_. None)\<rparr>, w_note = [], w_lock = cache_setnx\<rparr>"

definition demo_event :: "request \<Rightarrow> unit event" where
  "demo_event q = \<lparr>ev_env = demo_env, ev_env2 = demo_env, ev_ctx = Some (demo_ctx REGISTRAR), ev_request = q\<rparr>"

lemma demo_event_ok [simp]: "envs_ok pad32 pad32 (demo_event q)"
  using demo_env_ok by (simp add: envs_ok_def demo_event_def demo_env_def)

lemma first_event:
  assumes "audit s = []"
  shows "\<exists>e. audit (emit E k t p d a s) = [e] \<and> ae_tenant e = int_str d \<and> ae_seq e = 1 \<and> ae_anchored e = None"
  using assms by (simp add: emit_def audit_emit_def ledger_append_def last_seq_and_hash_def to_row_def tenant_rows_def Let_def)

lemma one_event_flush:
  assumes e: "audit s = [e]" "ae_tenant e = int_str 3" "ae_seq e = 1" "ae_anchored e = None"
    and s: "anchors s = []" "find_district 3 s \<noteq> None"
  shows "\<exists>s' a tail. snd (flush_district demo_env run_settings (mock_client pad32 pad32) 3 True
      \<lparr>as_db = s, as_breaker = ANCHOR_BREAKER, as_chain = new_mock_chain\<rparr>) = s'
    \<and> audit (as_db s') = e\<lparr>ae_anchored := Some (an_batch a)\<rparr> # tail \<and> a \<in> set (anchors (as_db s')) \<and> an_status a = A_CONFIRMED
    \<and> an_batch a \<noteq> [] \<and> (\<forall>x\<in>set tail. ae_type x = ''ANCHOR_COMMITTED'')"
proof -
  let ?st = "\<lparr>as_db = s, as_breaker = ANCHOR_BREAKER, as_chain = new_mock_chain\<rparr>"
  have ev: "unanchored (int_str 3) (anchor_flush_batch_size run_settings * 4) (audit s) = [(1, ae_payload_hash e)]"
    using e by (simp add: unanchored_def run_settings_def prod_settings_def tenant_rows_def)
  obtain rec leaves db1 where b: "flush_begin demo_env run_settings 3 True s = (Inr (Started rec leaves), db1)"
    using ev s by (simp add: flush_begin_def compute_merkle_root_evm_eq insert_anchor_row_def find_anchor_def Let_def)
  obtain q br c where q: "breaker_call (e_now demo_env 2) (e_now demo_env 3)
      (cl_commit (mock_client pad32 pad32) (\<lambda>i. e_now demo_env (5 + i)) (an_batch rec) 3 (an_root rec)) ANCHOR_BREAKER new_mock_chain
      = (Inr q, br, c)" "rc_status q = A_CONFIRMED"
    by (simp add: mock_client_def mock_commit_def breaker_call_def preflight_def maybe_half_open_def
        ANCHOR_BREAKER_def new_breaker_def Let_def)
  have "as_db (snd (flush_district demo_env run_settings (mock_client pad32 pad32) 3 True ?st))
      = snd (flush_end demo_env rec leaves (Inr q) db1)"
    using flush_district_started [of demo_env run_settings 3 True ?st rec leaves db1 "mock_client pad32 pad32"] b q by simp
  then show ?thesis using one_event_anchored [OF e b, of q] q(2) by fastforce
qed

lemma demo_issue_effect:
  obtains e where "audit (snd (issue_title demo_env None demo_title_request (Some (demo_ctx REGISTRAR)) demo_title_db)) = [e]"
    "ae_tenant e = int_str 3" "ae_seq e = 1" "ae_anchored e = None"
    "anchors (snd (issue_title demo_env None demo_title_request (Some (demo_ctx REGISTRAR)) demo_title_db)) = []"
    "find_district 3 (snd (issue_title demo_env None demo_title_request (Some (demo_ctx REGISTRAR)) demo_title_db)) \<noteq> None"
    "map_option (\<lambda>p. (p_owner p, p_status p))
       (find_parcel ''UG-MIT-024718/2026'' (snd (issue_title demo_env None demo_title_request (Some (demo_ctx REGISTRAR)) demo_title_db)))
     = Some (Some ''owner-01'', P_ACTIVE)"
proof -
  let ?c = "demo_ctx REGISTRAR"
  obtain v s' where r: "issue_title demo_env None demo_title_request (Some ?c) demo_title_db = (Inr v, s')"
    using demo_issue_runs by blast
  have "has_role ?c [REGISTRAR]" by (simp add: demo_ctx_def demo_context_def has_role_def cx_role_def)
  then have "issue_title_handler demo_env None demo_title_request ?c demo_title_db = (Inr v, s')" using r by (simp add: issue_title_def)
  then obtain p t pl where p: "find_parcel (tq_parcel demo_title_request) demo_title_db = Some p"
    and s': "s' = emit demo_env 3 ''TITLE_ISSUED'' pl (p_district p) (cx_id ?c)
       (set_parcel_owner (tq_parcel demo_title_request) (tq_owner demo_title_request) (e_now demo_env 2)
         (demo_title_db\<lparr>titles := titles demo_title_db @ [t]\<rparr>))"
    by (rule issue_title_handler_Inr) (auto simp: Let_def)
  let ?s1 = "set_parcel_owner (tq_parcel demo_title_request) (tq_owner demo_title_request) (e_now demo_env 2)
         (demo_title_db\<lparr>titles := titles demo_title_db @ [t]\<rparr>)"
  have d: "p_district p = 3" using p by (auto simp: demo_title_request_def demo_title_db_def find_parcel_def)
  have "audit ?s1 = []" by (simp add: demo_title_db_def demo_db_def empty_db_def)
  then obtain e where e: "audit s' = [e]" "ae_tenant e = int_str 3" "ae_seq e = 1" "ae_anchored e = None"
    unfolding s' using first_event [of ?s1 demo_env 3 "''TITLE_ISSUED''" pl 3 "cx_id ?c"] d by auto
  have rest: "anchors s' = []" "find_district 3 s' \<noteq> None"
    by (simp_all add: s' demo_title_db_def demo_db_def empty_db_def find_district_def)
  have "find_parcel (tq_parcel demo_title_request) (demo_title_db\<lparr>titles := titles demo_title_db @ [t]\<rparr>) = Some p"
    using p by (simp add: find_parcel_def)
  then have "find_parcel ''UG-MIT-024718/2026'' s' = Some (p\<lparr>p_owner := Some ''owner-01'', p_status := P_ACTIVE, p_updated := e_now demo_env 2\<rparr>)"
    unfolding s' find_row_emit find_parcel_set_owner using find_parcel_id [OF p] by (simp add: demo_title_request_def)
  then show thesis using that e rest r by simp
qed

abbreviation demo_start :: "mock_chain backend" where
  "demo_start \<equiv> new_backend demo_title_db new_mock_chain"

definition demo_events :: "unit event list" where
  "demo_events = [demo_event (Issue_Title demo_title_request), demo_event (Manual_Flush 3)]"

lemma demo_start_empty: "audit demo_title_db = []" "anchors demo_title_db = []" "list_all (envs_ok pad32 pad32) demo_events"
  by (simp_all add: demo_title_db_def demo_db_def empty_db_def demo_events_def)

lemma demo_run:
  "\<exists>r a tail. audit (be_db (handle_all demo_world demo_events demo_start)) = r # tail \<and> ae_tenant r = int_str 3 \<and> ae_seq r = 1
     \<and> a \<in> set (anchors (be_db (handle_all demo_world demo_events demo_start)))
     \<and> ae_anchored r = Some (an_batch a) \<and> an_status a = A_CONFIRMED
     \<and> an_batch a \<noteq> [] \<and> (\<forall>x\<in>set tail. ae_type x = ''ANCHOR_COMMITTED'')"
proof -
  let ?s = "snd (issue_title demo_env None demo_title_request (Some (demo_ctx REGISTRAR)) demo_title_db)"
  let ?r = "snd (flush_district demo_env run_settings (mock_client pad32 pad32) 3 True
      \<lparr>as_db = ?s, as_breaker = ANCHOR_BREAKER, as_chain = new_mock_chain\<rparr>)"
  have role: "has_role (demo_ctx REGISTRAR) [ADMIN, REGISTRAR]" by (simp add: demo_ctx_def demo_context_def has_role_def cx_role_def)
  have "be_db (handle_all demo_world demo_events demo_start) = as_db ?r"
    using role by (simp add: demo_events_def demo_event_def demo_world_def new_backend_def manual_flush_def on_anchor_db on_db_def case_prod_beta)
  moreover obtain e where "audit ?s = [e]" "ae_tenant e = int_str 3" "ae_seq e = 1" "ae_anchored e = None" "anchors ?s = []"
    "find_district 3 ?s \<noteq> None"
    by (rule demo_issue_effect)
  ultimately show ?thesis using one_event_flush [of ?s e] by fastforce
qed

section \<open>Properties\<close>

text \<open>
  C2. The handlers implement the land register.  Whatever is asked, by whom, and however it ends, be
  it a route, a turn of the fraud worker, of the scheduler or of the anchor service, what it does to
  parcels and owners is one move of the abstract register: registering a free parcel by a surveyor or
  registrar to nobody or a known owner, a title by a registrar to an owner whose identity is verified
  and only while the parcel is ACTIVE or TRANSFERRED, a sale by a registrar or land officer to a
  known owner, a dispute by a registered owner, a freeze by a land officer or registrar, a release by
  an auditor or registrar, the enrolment and the check of one owner, or nothing.
\<close>

theorem backend_refines_register:
  "land_move ctx (land_of (be_db b)) (land_of (be_db (handle W E E2 ctx q b)))"
  by (rule handle_moves)



text \<open>
  Land belongs to registered owners: from tables without parcels, after any requests and
  background turns in any order, the owner of every parcel is on the register of owners.
\<close>

lemma land_owners_registered:
  assumes "parcels s0 = []" and "find_parcel i (be_db (handle_all W evs (new_backend s0 c))) = Some p" and "p_owner p = Some w"
  shows "find_owner w (be_db (handle_all W evs (new_backend s0 c))) \<noteq> None"
proof -
  let ?s = "be_db (handle_all W evs (new_backend s0 c))"
  have "land_ok (land_of (be_db (new_backend s0 c)))"
    using assms(1) by (simp add: land_ok_def land_of_def find_parcel_def new_backend_def)
  then have "land_ok (land_of ?s)" by (rule handle_all_land_ok)
  moreover have "holding (land_of ?s) i = Some (Some w, p_status p)" using land_holding [OF assms(2)] assms(3) by simp
  ultimately show ?thesis unfolding land_ok_def using land_unknown [of w ?s] by blast
qed

text \<open>
  Whatever the backend serves, its ledger stands: from an empty ledger, after any requests and
  background turns in any order, \<open>verify_chain\<close> reports every district's ledger as verified, with
  all of its events counted, whatever the chain did.
\<close>

lemma served_ledger_verifies:
  assumes "audit s0 = []" "anchors s0 = []" "list_all (envs_ok sha kec) evs" and "w_chain W = mock_client sha kec"
  shows "verify_chain sha t 500 (audit (be_db (handle_all W evs (new_backend s0 c))))
    = Inr \<lparr>vr_tenant = t, vr_total = ledger_count t (audit (be_db (handle_all W evs (new_backend s0 c)))), vr_verified = True,
           vr_corrupt = None, vr_reason = None\<rparr>"
proof -
  have "mock.sys_inv sha kec sha (system_of (be_db (handle_all W evs (new_backend s0 c))) (be_chain (handle_all W evs (new_backend s0 c))))"
    using mock.sys_reach_inv [OF served_reach [OF assms(1-3), of W c, unfolded assms(4)]] .
  then show ?thesis by (intro verify_chain_inv) (simp_all add: mock.sys_inv_def anchor_inv_def system_of_def)
qed

lemma served_ledger_verifies_witness:
  "\<exists>rep. verify_chain pad32 (int_str 3) 500 (audit (be_db (handle_all demo_world demo_events demo_start))) = Inr rep
     \<and> vr_verified rep \<and> audit (be_db (handle_all demo_world demo_events demo_start)) \<noteq> []"
proof -
  have "w_chain demo_world = mock_client pad32 pad32" by (simp add: demo_world_def)
  from served_ledger_verifies [OF demo_start_empty this] show ?thesis using demo_run by auto
qed

text \<open>
  End to end over the whole backend on the mock chain: from an empty ledger, after any requests and
  background turns in any order, every event that is anchored in a batch whose row says CONFIRMED has
  an inclusion proof the service can build, and the chain verifies it.
\<close>

lemma served_event_verifies:
  assumes "audit s0 = []" "anchors s0 = []" "list_all (envs_ok sha kec) evs" and "w_chain W = mock_client sha kec"
    and "b = handle_all W evs (new_backend s0 c)"
    and "r \<in> set (audit (be_db b))" "ae_tenant r = int_str d"
    and "a \<in> set (anchors (be_db b))" "ae_anchored r = Some (an_batch a)" "an_status a = A_CONFIRMED"
  shows "\<exists>p. build_proof_for_event kec d (ae_seq r) (be_db b) = Inr (Some p)
    \<and> cl_verify (mock_client sha kec) (mp_batch p) (mp_leaf p) (mp_siblings p) (be_chain b) = Inr True"
  using mock.confirmed_event_verifies [OF served_reach [OF assms(1-3), of W c, unfolded assms(4)], of r d a] assms(5-)
  by (simp add: system_of_def)

lemma served_event_verifies_witness:
  "\<exists>p. build_proof_for_event pad32 3 1 (be_db (handle_all demo_world demo_events demo_start)) = Inr (Some p)
    \<and> cl_verify (mock_client pad32 pad32) (mp_batch p) (mp_leaf p) (mp_siblings p)
        (be_chain (handle_all demo_world demo_events demo_start)) = Inr True"
proof -
  have w: "w_chain demo_world = mock_client pad32 pad32" by (simp add: demo_world_def)
  obtain r a tail where r: "audit (be_db (handle_all demo_world demo_events demo_start)) = r # tail" "ae_tenant r = int_str 3" "ae_seq r = 1"
    and a: "a \<in> set (anchors (be_db (handle_all demo_world demo_events demo_start)))" "ae_anchored r = Some (an_batch a)" "an_status a = A_CONFIRMED"
    using demo_run by blast
  have "r \<in> set (audit (be_db (handle_all demo_world demo_events demo_start)))" using r(1) by simp
  from served_event_verifies [OF demo_start_empty w refl this r(2) a] show ?thesis using r(3) by simp
qed

definition demo_register :: "unit event list" where
  "demo_register = [demo_event (Create_Parcel (demo_parcel_request\<lparr>pq_owner := Some ''owner-01''\<rparr>))]"

lemma land_owners_registered_witness:
  "\<exists>p. find_parcel ''UG-MIT-024718/2026'' (be_db (handle_all demo_world demo_register (new_backend (demo_title_db\<lparr>parcels := []\<rparr>) new_mock_chain))) = Some p
     \<and> find_owner (the (p_owner p)) (be_db (handle_all demo_world demo_register (new_backend (demo_title_db\<lparr>parcels := []\<rparr>) new_mock_chain))) \<noteq> None"
proof -
  let ?empty = "demo_title_db\<lparr>parcels := []\<rparr>" and ?q = "demo_parcel_request\<lparr>pq_owner := Some ''owner-01''\<rparr>"
  let ?s = "be_db (handle_all demo_world demo_register (new_backend ?empty new_mock_chain))"
  have s: "?s = snd (create_parcel demo_env ?q (Some (demo_ctx REGISTRAR)) ?empty)"
    by (simp add: demo_register_def demo_event_def new_backend_def)
  have "map_option p_owner (find_parcel ''UG-MIT-024718/2026'' (snd (create_parcel demo_env ?q (Some (demo_ctx REGISTRAR)) ?empty))) = Some (Some ''owner-01'')"
    by code_simp
  then obtain p where p: "find_parcel ''UG-MIT-024718/2026'' ?s = Some p" "p_owner p = Some ''owner-01''" unfolding s by auto
  have "parcels ?empty = []" by simp
  from land_owners_registered [OF this p] show ?thesis using p by auto
qed

end
