(* ===== verification/Boot.thy ===== *)
theory Boot
  imports Seed Backend_Safety
begin

text \<open>
  A process from its start: the lifespan of \<open>backend/app/main.py\<close> checks the settings, seeds the
  tables and starts the background tasks, and then requests are served.  A deployment is a sequence of such lives
  over one database and one chain; breakers, cache and clocks of the loops start anew in each.

  The theorems carry what holds of one process over all lives, and say what seeding again does.
\<close>

section \<open>Lives of a deployment\<close>

datatype task = Anchor_Loop | Fraud_Consumer | Scheduler

text \<open>
  \<open>run_fraud_worker\<close> and \<open>run_scheduler\<close> are settings of their own.  An exception of the seeding is
  logged and swallowed; what it wrote stays.
\<close>

definition lifespan ::
  "'g env \<Rightarrow> 'r rng \<Rightarrow> string \<Rightarrow> string \<Rightarrow> bool \<Rightarrow> bool \<Rightarrow> settings \<Rightarrow> db \<Rightarrow> (task list, db) outcome" where
  "lifespan E R dash pii_text run_fraud_worker run_scheduler st s =
     and_then (assert_prod_safety pii_text st, s) (\<lambda>_ s.
       let s1 = snd (maybe_seed_on_startup E R dash st s)
       in (Inr ([Anchor_Loop] @ (if run_fraud_worker then [Fraud_Consumer] else [])
                @ (if run_scheduler then [Scheduler] else [])), s1))"

text \<open>What is the same in every life of a deployment, and one life.\<close>

record ('c, 'r) deployment =
  dp_world :: "'c world"
  dp_rng :: "'r rng"
  dp_dash :: string
  dp_pii_text :: string
  dp_run_fraud_worker :: bool
  dp_run_scheduler :: bool

record 'g life =
  lf_env :: "'g env"
  lf_events :: "'g event list"

definition live :: "('c, 'r) deployment \<Rightarrow> 'g life \<Rightarrow> db \<times> 'c \<Rightarrow> db \<times> 'c" where
  "live D l sc =
     (case lifespan (lf_env l) (dp_rng D) (dp_dash D) (dp_pii_text D) (dp_run_fraud_worker D) (dp_run_scheduler D)
             (w_settings (dp_world D)) (fst sc) of
        (Inl _, s) \<Rightarrow> (s, snd sc)
      | (Inr _, s) \<Rightarrow>
          let b = handle_all (dp_world D) (lf_events l) (new_backend s (snd sc)) in (be_db b, be_chain b))"

definition live_all :: "('c, 'r) deployment \<Rightarrow> 'g life list \<Rightarrow> db \<times> 'c \<Rightarrow> db \<times> 'c" where
  "live_all D ls sc = foldl (\<lambda>sc l. live D l sc) sc ls"

lemma live_all_simps [simp]: "live_all D [] sc = sc" "live_all D (l # ls) sc = live_all D ls (live D l sc)"
  by (simp_all add: live_all_def)

definition life_ok :: "(bytes \<Rightarrow> bytes) \<Rightarrow> (bytes \<Rightarrow> bytes) \<Rightarrow> 'g life \<Rightarrow> bool" where
  "life_ok sha kec l \<longleftrightarrow> e_sha (lf_env l) = sha \<and> list_all (envs_ok sha kec) (lf_events l)"

lemma safe_lifespan: "safe (e_sha E) s (snd (lifespan E R dash pii w1 w2 st s))"
  by (simp add: lifespan_def snd_and_then safe_startup split: sum.split)

text \<open>A life ends where it began, or where its requests lead.\<close>

lemma live_cases:
  obtains (dead) s1 where "safe (e_sha (lf_env l)) (fst sc) s1" "live D l sc = (s1, snd sc)"
  | (served) s1 b where "safe (e_sha (lf_env l)) (fst sc) s1" "b = handle_all (dp_world D) (lf_events l) (new_backend s1 (snd sc))"
      "live D l sc = (be_db b, be_chain b)"
proof -
  obtain r s1 where r: "lifespan (lf_env l) (dp_rng D) (dp_dash D) (dp_pii_text D) (dp_run_fraud_worker D) (dp_run_scheduler D)
             (w_settings (dp_world D)) (fst sc) = (r, s1)" by force
  have s: "safe (e_sha (lf_env l)) (fst sc) s1"
    using safe_lifespan [of "lf_env l" "fst sc" "dp_rng D" "dp_dash D" "dp_pii_text D" "dp_run_fraud_worker D" "dp_run_scheduler D"
        "w_settings (dp_world D)"] r by simp
  show thesis
  proof (cases r)
    case (Inl e)
    then show ?thesis using dead [OF s] r by (simp add: live_def)
  next
    case (Inr ts)
    then show ?thesis using served [OF s refl] r by (simp add: live_def Let_def)
  qed
qed

context run_invariant
begin

lemma live_keeps:
  assumes "Q (fst sc) (snd sc)" "w_chain (dp_world D) = client" "life_ok sha kec l"
  shows "Q (fst (live D l sc)) (snd (live D l sc))"
proof -
  from assms(3) have ok: "e_sha (lf_env l) = sha" "list_all (envs_ok sha kec) (lf_events l)" by (simp_all add: life_ok_def)
  have start: "Q s1 (snd sc)" if "safe sha (fst sc) s1" for s1
    using after_appends [OF assms(1)] that by (simp add: safe_def)
  show ?thesis
  proof (cases rule: live_cases [of l sc D])
    case (dead s1)
    then show ?thesis using start ok(1) by simp
  next
    case (served s1 b)
    have "Q (be_db (new_backend s1 (snd sc))) (be_chain (new_backend s1 (snd sc)))"
      using start [of s1] served(1) ok(1) by (simp add: new_backend_def)
    from handle_all_keeps [OF this assms(2) ok(2)] show ?thesis using served by simp
  qed
qed

lemma live_all_keeps:
  "Q (fst sc) (snd sc) \<Longrightarrow> w_chain (dp_world D) = client \<Longrightarrow> list_all (life_ok sha kec) ls
   \<Longrightarrow> Q (fst (live_all D ls sc)) (snd (live_all D ls sc))"
  by (induction ls arbitrary: sc) (simp_all add: live_keeps)

end

lemma live_all_reach:
  "sys_reach sha kec (w_chain (dp_world D)) (system_of (fst sc) (snd sc)) \<Longrightarrow> list_all (life_ok sha kec) ls
   \<Longrightarrow> sys_reach sha kec (w_chain (dp_world D)) (system_of (fst (live_all D ls sc)) (snd (live_all D ls sc)))"
  by (rule reachable.live_all_keeps [OF _ refl])

lemma live_land_ok: "land_ok (land_of (fst sc)) \<Longrightarrow> land_ok (land_of (fst (live D l sc)))"
proof (cases rule: live_cases [of l sc D])
  case (dead s1)
  then show "land_ok (land_of (fst sc)) \<Longrightarrow> ?thesis" by (simp add: safe_def)
next
  case (served s1 b)
  assume "land_ok (land_of (fst sc))"
  then have "land_ok (land_of (be_db (new_backend s1 (snd sc))))" using served(1) by (simp add: safe_def new_backend_def)
  from handle_all_land_ok [OF this] show ?thesis using served by simp
qed

lemma live_all_land_ok: "land_ok (land_of (fst sc)) \<Longrightarrow> land_ok (land_of (fst (live_all D ls sc)))"
  by (induction ls arbitrary: sc) (simp_all add: live_land_ok)

lemma live_grows: "title_grows (fst sc) (fst (live D l sc))"
proof (cases rule: live_cases [of l sc D])
  case (dead s1)
  then show ?thesis by (simp add: safe_def)
next
  case (served s1 b)
  then have "title_grows s1 (be_db b)"
    using handle_all_grows [of "new_backend s1 (snd sc)" "dp_world D" "lf_events l"] by (simp add: new_backend_def)
  then show ?thesis using served by (auto simp: safe_def intro: grows_trans)
qed

lemma live_all_grows: "title_grows (fst sc) (fst (live_all D ls sc))"
proof (induction ls arbitrary: sc)
  case (Cons l ls)
  show ?case unfolding live_all_simps by (rule grows_trans [OF live_grows Cons.IH])
qed simp

section \<open>Seeding again\<close>

text \<open>The clock enters a UPI by its year only.\<close>

lemma make_upi_year: "year_of t = year_of t' \<Longrightarrow> make_upi d n None t = make_upi d n None t'"
  by (simp add: make_upi_def year_or_now_def split: option.split)

definition seeded :: "time \<Rightarrow> (int \<times> int) list \<Rightarrow> db \<Rightarrow> bool" where
  "seeded t spots s \<longleftrightarrow> list_all (\<lambda>(d, n). \<exists>u. make_upi d n None t = Inr u \<and> find_parcel u s \<noteq> None) spots"

lemma seed_parcel_effect:
  assumes "seed_parcel E R now (d, n) k st s = (Inr st', s')"
  shows "\<exists>u. make_upi d n None (e_now E k) = Inr u \<and> find_parcel u s' \<noteq> None"
    and "find_parcel i s \<noteq> None \<Longrightarrow> find_parcel i s' \<noteq> None" and "find_district di s' = find_district di s"
proof -
  obtain u where u: "make_upi d n None (e_now E k) = Inr u"
    using assms by (cases "make_upi d n None (e_now E k)") (auto simp: seed_parcel_def Let_def split: prod.splits)
  have "(find_parcel u s \<noteq> None \<and> s' = s) \<or> (\<exists>r. p_id r = u \<and> insert_parcel r s = (Inr (), s'))"
    using assms u
    by (cases st, auto simp: seed_parcel_def Let_def res_simps split: prod.splits option.splits sum.splits if_splits)
      (metis parcel.select_convs(1))
  then consider "find_parcel u s \<noteq> None" "s' = s" | r where "p_id r = u" "insert_parcel r s = (Inr (), s')" by blast
  then have e: "find_parcel u s' \<noteq> None \<and> (find_parcel i s \<noteq> None \<longrightarrow> find_parcel i s' \<noteq> None) \<and> find_district di s' = find_district di s"
  proof cases
    case (2 r)
    then show ?thesis by (auto simp: insert_parcel_Inr find_parcel_def find_district_def find_append split: option.split)
  qed simp
  show "\<exists>u. make_upi d n None (e_now E k) = Inr u \<and> find_parcel u s' \<noteq> None" using u e by blast
  show "find_parcel i s \<noteq> None \<Longrightarrow> find_parcel i s' \<noteq> None" using e by blast
  show "find_district di s' = find_district di s" using e by blast
qed

lemma seed_parcels_effect:
  assumes "seed_parcels E R now spots k st s = (Inr st', s')" and "\<And>i. year_of (e_now E i) = year_of t"
  shows "seeded t spots s' \<and> (\<forall>i. find_parcel i s \<noteq> None \<longrightarrow> find_parcel i s' \<noteq> None)
    \<and> (\<forall>d. find_district d s' = find_district d s)"
  using assms(1)
proof (induction spots arbitrary: k st s)
  case (Cons spot spots)
  obtain d n where spot: "spot = (d, n)" by (cases spot)
  from Cons.prems obtain st1 s1 where one: "seed_parcel E R now (d, n) k st s = (Inr st1, s1)"
    and rest: "seed_parcels E R now spots (Suc k) st1 s1 = (Inr st', s')"
    by (auto simp: spot res_simps)
  note ih = Cons.IH [OF rest] and eff = seed_parcel_effect [OF one]
  have "make_upi d n None (e_now E k) = make_upi d n None t" by (rule make_upi_year) (rule assms(2))
  then show ?case using ih eff by (auto simp: spot seeded_def)
qed (simp add: seeded_def)

lemma seed_parcels_again:
  assumes "seeded t spots s" and "\<And>i. year_of (e_now E i) = year_of t"
  shows "seed_parcels E R now spots k st s = (Inr st, s)"
  using assms(1)
proof (induction spots arbitrary: k)
  case (Cons spot spots)
  obtain d n where spot: "spot = (d, n)" by (cases spot)
  have "make_upi d n None (e_now E k) = make_upi d n None t" by (rule make_upi_year) (rule assms(2))
  then have "seed_parcel E R now (d, n) k st s = (Inr st, s)"
    using Cons.prems by (cases st) (auto simp: seed_parcel_def spot seeded_def)
  then show ?case using Cons by (simp add: spot seeded_def)
qed simp

lemma ignore_district_found:
  "find_district (di_id r) (ignore_district r s) \<noteq> None"
  "find_district d s \<noteq> None \<Longrightarrow> find_district d (ignore_district r s) \<noteq> None"
  by (auto simp: ignore_district_def find_district_def find_append)

lemma districts_found:
  "did \<in> fst ` set ds \<or> find_district did s \<noteq> None \<Longrightarrow>
   find_district did (foldl (\<lambda>s (did, name, region). ignore_district \<lparr>di_id = did, di_name = name, di_region = region, di_created = now\<rparr> s) s ds) \<noteq> None"
proof (induction ds arbitrary: s)
  case (Cons d ds)
  obtain i name region where d: "d = (i, name, region)" by (cases d)
  let ?r = "\<lparr>di_id = i, di_name = name, di_region = region, di_created = now\<rparr>"
  have "did \<in> fst ` set ds \<or> find_district did (ignore_district ?r s) \<noteq> None"
    using Cons.prems ignore_district_found(1) [of ?r s] ignore_district_found(2) [of did s ?r] by (auto simp: d)
  from Cons.IH [OF this] show ?case by (simp add: d)
qed simp

lemma districts_again:
  "\<forall>d \<in> set ds. find_district (fst d) s \<noteq> None \<Longrightarrow>
   foldl (\<lambda>s (did, name, region). ignore_district \<lparr>di_id = did, di_name = name, di_region = region, di_created = now\<rparr> s) s ds = s"
proof (induction ds)
  case (Cons d ds)
  then show ?case by (cases d) (simp add: ignore_district_def)
qed simp

text \<open>No background parcel can fail, as its district is there and its number in range.\<close>

definition plantable :: "int \<times> int \<Rightarrow> db \<Rightarrow> bool" where
  "plantable spot s \<longleftrightarrow> DISTRICT_CODES (fst spot) \<noteq> None \<and> 0 < snd spot \<and> snd spot < 1000000 \<and> SUB_COUNTIES (fst spot) \<noteq> None
     \<and> DISTRICT_CENTRES (fst spot) \<noteq> None \<and> find_district (fst spot) s \<noteq> None"

lemma seed_parcel_ok: "plantable spot s \<Longrightarrow> \<exists>st' s'. seed_parcel E R now spot k st s = (Inr st', s')"
  by (cases spot; cases st)
    (auto simp: plantable_def seed_parcel_def make_upi_def synth_polygon_def insert_parcel_def ref_ok_def Let_def
      split: prod.split)

lemma seed_parcels_ok: "list_all (\<lambda>spot. plantable spot s) spots \<Longrightarrow> \<exists>st' s'. seed_parcels E R now spots k st s = (Inr st', s')"
proof (induction spots arbitrary: k st s)
  case (Cons spot spots)
  obtain st1 s1 where one: "seed_parcel E R now spot k st s = (Inr st1, s1)" using seed_parcel_ok Cons.prems by fastforce
  have "plantable x s1 = plantable x s" for x
    using seed_parcel_effect(3) [of E R now "fst spot" "snd spot" k st s st1 s1] one by (simp add: plantable_def)
  then show ?case using Cons one by simp
qed simp

lemma centres_None: "DISTRICT_CENTRES i = None \<longleftrightarrow> i \<notin> {1, 2, 3, 4}"
  by (auto simp: DISTRICT_CENTRES_def map_of_eq_None_iff)

lemma background_plantable: "\<forall>d \<in> set DISTRICTS. find_district (fst d) s \<noteq> None \<Longrightarrow> list_all (\<lambda>spot. plantable spot s) background_parcels"
  by (auto simp: list_all_iff background_parcels_def DISTRICTS_def plantable_def SUB_COUNTIES_def centres_None
      DISTRICT_CODES_def PARCELS_PER_DISTRICT_def)

lemma upsert_by_nin:
  assumes "upsert_owner E k nin name dob kyc s = (Inr i, s')"
  shows "by_nin E nin s' = Some i" and "by_nin E nin' s = Some j \<Longrightarrow> by_nin E nin' s' = Some j"
  using assms
  by (auto simp: upsert_owner_def by_nin_def Let_def res_simps insert_owner_def find_append split: option.splits if_splits)

lemma seed_hero_effect:
  assumes "seed_hero E now x s = (Inr (), s')"
  shows "\<exists>p. find_parcel HERO_PARCEL s' = Some p \<and> p_status p = P_ACTIVE \<and> p_owner p = Some x" and "owners s' = owners s"
  using assms
  by (auto simp: seed_hero_def insert_parcel_Inr find_parcel_def find_append set_parcel_owner_def find_update_where
      split: if_splits option.splits dest: find_SomeD)

lemma seed_watch_keeps: "parcels (snd (seed_watch E now k ws s)) = parcels s \<and> owners (snd (seed_watch E now k ws s)) = owners s"
  by (induction E now k ws s rule: seed_watch.induct) (auto simp: snd_and_then insert_watch_def split: sum.split)

lemma seed_staff_keeps: "parcels (snd (seed_staff E now k us s)) = parcels s \<and> owners (snd (seed_staff E now k us s)) = owners s"
  by (induction E now k us s rule: seed_staff.induct) (auto simp: snd_and_then insert_staff_def split: sum.split)

text \<open>With fresh identifiers and the district of the showcase there, nothing in the seed can fail.\<close>

definition unused :: "'g env \<Rightarrow> nat \<Rightarrow> string set \<Rightarrow> bool" where
  "unused E k ids \<longleftrightarrow> (\<forall>j \<ge> k. e_uuid E j \<notin> ids)"

lemma unused_insert: "inj (e_uuid E) \<Longrightarrow> unused E k ids \<Longrightarrow> unused E (Suc k) (insert (e_uuid E k) ids)"
  by (auto simp: unused_def dest: injD)

lemma unused_mono: "unused E k ids \<Longrightarrow> k \<le> l \<Longrightarrow> unused E l ids"
  by (auto simp: unused_def)

definition rest_of :: "db \<Rightarrow> district list \<times> parcel list \<times> watch_row list \<times> staff list" where
  "rest_of s = (districts s, parcels s, watchlist s, staff_users s)"

lemma pair_fst: "fst r = a \<Longrightarrow> r = (a, snd r)"
  by (cases r) simp

lemma upsert_ok:
  assumes "inj (e_uuid E)" "unused E k (o_id ` set (owners s))" "l = Suc k"
  obtains i s' where "upsert_owner E k nin name dob kyc s = (Inr i, s')" "unused E l (o_id ` set (owners s'))" "rest_of s' = rest_of s"
proof (cases "by_nin E nin s")
  case None
  let ?r = "\<lparr>o_id = e_uuid E k, o_nin_hash = sha256_hex (e_sha E) nin, o_nin_encrypted = e_encrypt E nin,
     o_name = name, o_dob = Some dob, o_phone = None, o_kyc = kyc,
     o_kyc_at = (if kyc = K_VERIFIED then Some (e_now E k) else None), o_created = e_now E k, o_updated = e_now E k\<rparr>"
  have "find_owner (e_uuid E k) s = None" using assms(2) by (force simp: unused_def find_owner_def find_NoneD)
  moreover have "sha256_hex (e_sha E) nin \<notin> o_nin_hash ` set (owners s)" using None by (auto simp: by_nin_def find_NoneD)
  ultimately have "upsert_owner E k nin name dob kyc s = (Inr (e_uuid E k), s\<lparr>owners := owners s @ [?r]\<rparr>)"
    using None by (simp add: upsert_owner_def Let_def insert_owner_def)
  moreover have "unused E l (o_id ` set (owners (s\<lparr>owners := owners s @ [?r]\<rparr>)))" using unused_insert [OF assms(1,2)] assms(3) by simp
  ultimately show ?thesis using that by (simp add: rest_of_def)
next
  case (Some i)
  then show ?thesis using that [of i s] unused_mono [OF assms(2), of l] assms(3) by (simp add: upsert_owner_def)
qed

lemma seed_hero_ok: "find_owner x s \<noteq> None \<Longrightarrow> find_district 3 s \<noteq> None \<Longrightarrow> fst (seed_hero E now x s) = Inr ()"
  by (auto simp: seed_hero_def insert_parcel_def ref_ok_def)

lemma seed_hero_keeps: "(districts (snd (seed_hero E now x s)), watchlist (snd (seed_hero E now x s)), staff_users (snd (seed_hero E now x s)))
   = (districts s, watchlist s, staff_users s)"
  by (simp add: seed_hero_def insert_parcel_def set_parcel_owner_def)

lemma seed_watch_ok:
  "inj (e_uuid E) \<Longrightarrow> unused E k (wl_id ` set (watchlist s)) \<Longrightarrow>
   fst (seed_watch E now k ws s) = Inr () \<and> districts (snd (seed_watch E now k ws s)) = districts s
     \<and> staff_users (snd (seed_watch E now k ws s)) = staff_users s"
proof (induction E now k ws s rule: seed_watch.induct)
  case (2 E now k name reason rest s)
  have "e_uuid E k \<notin> wl_id ` set (watchlist s)" using "2.prems"(2) by (simp add: unused_def)
  then show ?case
    using 2 unused_insert [OF "2.prems"] unused_mono [OF "2.prems"(2), of "Suc k"] by (simp add: insert_watch_def)
qed simp

lemma seed_staff_ok:
  "inj (e_uuid E) \<Longrightarrow> unused E k (st_id ` set (staff_users s)) \<Longrightarrow>
   list_all (\<lambda>(_, did, _, _). ref_ok (\<lambda>d. find_district d s \<noteq> None) did) us \<Longrightarrow> fst (seed_staff E now k us s) = Inr ()"
proof (induction E now k us s rule: seed_staff.induct)
  case (2 E now k ext did role fname rest s)
  have "e_uuid E k \<notin> st_id ` set (staff_users s)" using "2.prems"(2) by (simp add: unused_def)
  moreover have "(did, ext) \<notin> (\<lambda>x. (st_district x, st_external x)) ` set (staff_users s)"
    if "find (\<lambda>u. st_external u = ext) (staff_users s) = None"
    using that by (auto simp: find_NoneD)
  ultimately show ?case
    using 2 unused_insert [OF "2.prems"(1,2)] unused_mono [OF "2.prems"(2), of "Suc k"]
    by (simp add: insert_staff_def find_district_def)
qed simp

lemma seed_demo_state_ok:
  assumes "inj (e_uuid E)" "unused E 1 (o_id ` set (owners s))" "unused E 6 (wl_id ` set (watchlist s))"
    "unused E 9 (st_id ` set (staff_users s))" "find_district 3 s \<noteq> None"
  shows "is_ok (fst (seed_demo_state E dash s))"
proof -
  obtain x s1 where 1: "upsert_owner E 1 NAKATO_NIN ''Sarah Nakato'' ''1982-01-01'' K_VERIFIED s = (Inr x, s1)"
    "unused E 2 (o_id ` set (owners s1))" "rest_of s1 = rest_of s" by (rule upsert_ok [where l = 2, OF assms(1,2)]) simp_all
  obtain i2 s2 where 2: "upsert_owner E 2 OKELLO_NIN ''Joseph Okello'' ''1985-03-02'' K_VERIFIED s1 = (Inr i2, s2)"
    "unused E 3 (o_id ` set (owners s2))" "rest_of s2 = rest_of s1" by (rule upsert_ok [OF assms(1) 1(2)]) simp_all
  obtain i3 s3 where 3: "upsert_owner E 3 NAMATOVU_NIN ''Aisha Namatovu'' ''1991-07-05'' K_VERIFIED s2 = (Inr i3, s3)"
    "unused E 4 (o_id ` set (owners s3))" "rest_of s3 = rest_of s2" by (rule upsert_ok [OF assms(1) 2(2)]) simp_all
  obtain i4 s4 where 4: "upsert_owner E 4 AUMA_NIN ''Esther Auma'' ''1988-11-03'' K_VERIFIED s3 = (Inr i4, s4)"
    "unused E 5 (o_id ` set (owners s4))" "rest_of s4 = rest_of s3" by (rule upsert_ok [OF assms(1) 3(2)]) simp_all
  obtain i5 s5 where 5: "upsert_owner E 5 BWAMBALE_NIN ''Patrick Bwambale'' ''1979-09-12'' K_PENDING s4 = (Inr i5, s5)"
    "unused E 6 (o_id ` set (owners s5))" "rest_of s5 = rest_of s4" by (rule upsert_ok [OF assms(1) 4(2)]) simp_all
  have rest: "rest_of s5 = rest_of s" using 1 2 3 4 5 by simp
  have "by_nin E NAKATO_NIN s5 = Some x"
    using upsert_by_nin(1) [OF 1(1)] upsert_by_nin(2) [OF 2(1)] upsert_by_nin(2) [OF 3(1)] upsert_by_nin(2) [OF 4(1)]
      upsert_by_nin(2) [OF 5(1)] by blast
  then have x: "find_owner x s5 \<noteq> None" by (rule by_nin_known)
  have "fst (seed_hero E (e_now E 0) x s5) = Inr ()"
    using seed_hero_ok [OF x] rest assms(5) by (simp add: rest_of_def find_district_def)
  then obtain s6 where hero: "seed_hero E (e_now E 0) x s5 = (Inr (), s6)" by (auto dest: pair_fst)
  have s6: "districts s6 = districts s" "watchlist s6 = watchlist s" "staff_users s6 = staff_users s"
    using seed_hero_keeps [of E "e_now E 0" x s5] hero rest by (simp_all add: rest_of_def)
  note w = seed_watch_ok [OF assms(1), of 6 s6 "e_now E 0" "WATCHLIST dash", unfolded s6, OF assms(3)]
  then obtain s7 where watch: "seed_watch E (e_now E 0) 6 (WATCHLIST dash) s6 = (Inr (), s7)" by (auto dest: pair_fst)
  have "fst (seed_staff E (e_now E 0) 9 STAFF s7) = Inr ()"
    using seed_staff_ok [OF assms(1), of 9 s7 STAFF "e_now E 0"] assms(4,5) w watch by (simp add: STAFF_def ref_ok_def find_district_def)
  then obtain s8 where staff: "seed_staff E (e_now E 0) 9 STAFF s7 = (Inr (), s8)" by (auto dest: pair_fst)
  show ?thesis
    using 1(1) 2(1) 3(1) 4(1) 5(1) unfolding seed_demo_state_def Let_def by (simp add: hero watch staff)
qed

section \<open>Properties\<close>



text \<open>
  C15. Land belongs to registered owners: from tables without parcels, over any number of lives, the seeding
  of the tables included, and any requests and background turns in any order, the owner of every parcel is
  on the register of owners.
\<close>

theorem lives_land_registered:
  assumes "parcels s0 = []" and "live_all D ls (s0, c0) = (s, c)" and "find_parcel i s = Some p" and "p_owner p = Some w"
  shows "find_owner w s \<noteq> None"
proof -
  have "land_ok (land_of (fst (s0, c0)))"
    using assms(1) by (simp add: land_ok_def land_of_def find_parcel_def)
  from live_all_land_ok [OF this, of D ls] have "land_ok (land_of s)" by (simp add: assms(2))
  moreover have "holding (land_of s) i = Some (Some w, p_status p)" using land_holding [OF assms(3)] assms(4) by simp
  ultimately show ?thesis unfolding land_ok_def using land_unknown [of w s] by blast
qed

text \<open>
  Seeding the districts and the background parcels never fails, and within a year it is idempotent: run
  again on the tables it has left, with another clock and other identifiers, it inserts nothing, reports no parcel
  and leaves the tables as they are.
\<close>

lemma seed_districts_idempotent:
  assumes "\<And>i. year_of (e_now E i) = year_of t" and "\<And>i. year_of (e_now E' i) = year_of t"
  shows "\<exists>n s'. seed_districts_and_parcels E R s = (Inr (4, n), s') \<and> seed_districts_and_parcels E' R s' = (Inr (4, 0), s')"
proof -
  let ?put = "\<lambda>now s. foldl (\<lambda>s (did, name, region).
     ignore_district \<lparr>di_id = did, di_name = name, di_region = region, di_created = now\<rparr> s) s DISTRICTS"
  have found: "find_district (fst d) (?put (e_now E 0) s) \<noteq> None" if "d \<in> set DISTRICTS" for d
    using districts_found [of "fst d" DISTRICTS s "e_now E 0"] that by blast
  then obtain st s' where run: "seed_parcels E R (e_now E 0) background_parcels 1 (rg_seed R 20260620, 0) (?put (e_now E 0) s) = (Inr st, s')"
    using seed_parcels_ok [OF background_plantable] by meson
  note eff = seed_parcels_effect [OF run assms(1)]
  have "?put (e_now E' 0) s' = s'" using eff found by (intro districts_again) simp
  moreover have "seed_parcels E' R (e_now E' 0) background_parcels 1 (rg_seed R 20260620, 0) s' = (Inr (rg_seed R 20260620, 0), s')"
    using seed_parcels_again [OF _ assms(2)] eff by blast
  moreover have "seed_districts_and_parcels E R s = (Inr (4, snd st), s')"
    using run by (cases st) (simp add: seed_districts_and_parcels_def Let_def DISTRICTS_def)
  ultimately show ?thesis by (auto simp: seed_districts_and_parcels_def Let_def DISTRICTS_def)
qed

text \<open>
  Seeding the demonstration again is not without effect: after every successful run, on whatever tables
  it started, the showcase parcel is ACTIVE and belongs to the owner with the showcase NIN.  A sale, a freeze
  or a dispute of that parcel in between is undone.
\<close>

lemma reseed_resets_hero:
  assumes "seed_demo_state E dash s = (Inr r, s')"
  shows "\<exists>p. find_parcel HERO_PARCEL s' = Some p \<and> p_status p = P_ACTIVE \<and> p_owner p = by_nin E NAKATO_NIN s'"
proof -
  from assms obtain x s1 s2 s3 s4 s5 s6 s7 s8 i2 i3 i4 i5 where
    up: "upsert_owner E 1 NAKATO_NIN ''Sarah Nakato'' ''1982-01-01'' K_VERIFIED s = (Inr x, s1)"
      "upsert_owner E 2 OKELLO_NIN ''Joseph Okello'' ''1985-03-02'' K_VERIFIED s1 = (Inr i2, s2)"
      "upsert_owner E 3 NAMATOVU_NIN ''Aisha Namatovu'' ''1991-07-05'' K_VERIFIED s2 = (Inr i3, s3)"
      "upsert_owner E 4 AUMA_NIN ''Esther Auma'' ''1988-11-03'' K_VERIFIED s3 = (Inr i4, s4)"
      "upsert_owner E 5 BWAMBALE_NIN ''Patrick Bwambale'' ''1979-09-12'' K_PENDING s4 = (Inr i5, s5)"
    and hero: "seed_hero E (e_now E 0) x s5 = (Inr (), s6)"
    and rest: "seed_watch E (e_now E 0) 6 (WATCHLIST dash) s6 = (Inr (), s7)"
      "seed_staff E (e_now E 0) 9 STAFF s7 = (Inr (), s8)" "parcels s' = parcels s8" "owners s' = owners s8"
    unfolding seed_demo_state_def Let_def and_then_Inr_iff by auto
  have keep: "parcels s' = parcels s6" "owners s' = owners s6"
    using rest seed_watch_keeps [of E "e_now E 0" 6 "WATCHLIST dash" s6] seed_staff_keeps [of E "e_now E 0" 9 STAFF s7] by simp_all
  have "by_nin E NAKATO_NIN s5 = Some x"
    using upsert_by_nin(1) [OF up(1)] upsert_by_nin(2) [OF up(2)] upsert_by_nin(2) [OF up(3)] upsert_by_nin(2) [OF up(4)]
      upsert_by_nin(2) [OF up(5)] by blast
  then have "by_nin E NAKATO_NIN s' = Some x" using keep(2) seed_hero_effect(2) [OF hero] by (simp add: by_nin_def)
  moreover have "find_parcel HERO_PARCEL s' = find_parcel HERO_PARCEL s6" using keep(1) by (simp add: find_parcel_def)
  ultimately show ?thesis using seed_hero_effect(1) [OF hero] by simp
qed

section \<open>Examples\<close>

text \<open>A staging deployment on the mock chain that lives twice.\<close>

definition demo_rng :: "nat rng" where
  "demo_rng = \<lparr>rg_seed = nat, rg_random = (\<lambda>r. (1 / 2, Suc r)), rg_below = (\<lambda>n r. (r mod n, Suc r))\<rparr>"

definition staging_world :: "mock_chain world" where
  "staging_world = demo_world\<lparr>w_settings := run_settings\<lparr>app_env := Staging\<rparr>\<rparr>"

definition demo_deployment :: "(mock_chain, nat) deployment" where
  "demo_deployment =
     \<lparr>dp_world = staging_world, dp_rng = demo_rng, dp_dash = ''-'', dp_pii_text = [], dp_run_fraud_worker = True,
      dp_run_scheduler = True\<rparr>"

definition demo_life :: "unit event list \<Rightarrow> unit life" where
  "demo_life evs = \<lparr>lf_env = demo_env, lf_events = evs\<rparr>"

lemma demo_life_ok [simp]: "list_all (envs_ok pad32 pad32) evs \<Longrightarrow> life_ok pad32 pad32 (demo_life evs)"
  by (simp add: life_ok_def demo_life_def demo_env_def)

lemma demo_live:
  assumes "districts s \<noteq> []"
  shows "live demo_deployment (demo_life evs) (s, c) =
    (be_db (handle_all staging_world evs (new_backend s c)), be_chain (handle_all staging_world evs (new_backend s c)))"
  using startup_untouched [of "run_settings\<lparr>app_env := Staging\<rparr>" s demo_env demo_rng "''-''"] assms
  by (simp add: live_def lifespan_def demo_deployment_def demo_life_def staging_world_def assert_prod_safety_def Let_def)

lemma staging_runs: "handle_all staging_world demo_events demo_start = handle_all demo_world demo_events demo_start"
proof -
  have "flush_district demo_env (run_settings\<lparr>app_env := Staging\<rparr>) client 3 True = flush_district demo_env run_settings client 3 True"
    for client :: "mock_chain chain_client"
  proof -
    have sel: "anchor_flush_batch_size (run_settings\<lparr>app_env := Staging\<rparr>) = anchor_flush_batch_size run_settings"
      "anchor_flush_interval_seconds (run_settings\<lparr>app_env := Staging\<rparr>) = anchor_flush_interval_seconds run_settings" by simp_all
    show ?thesis unfolding flush_district_def flush_begin_def sel ..
  qed
  then show ?thesis by (simp add: demo_events_def demo_event_def staging_world_def demo_world_def manual_flush_def)
qed

definition demo_lives :: "unit life list" where
  "demo_lives = [demo_life [], demo_life demo_events]"

lemma demo_lives_end:
  "live_all demo_deployment demo_lives (demo_title_db, new_mock_chain)
   = (be_db (handle_all demo_world demo_events demo_start), be_chain (handle_all demo_world demo_events demo_start))"
proof -
  have d: "districts demo_title_db \<noteq> []" by (simp add: demo_title_db_def demo_db_def)
  have "live demo_deployment (demo_life []) (demo_title_db, new_mock_chain) = (demo_title_db, new_mock_chain)"
    using demo_live [OF d, of "[]" new_mock_chain] by (simp add: new_backend_def)
  then show ?thesis using demo_live [OF d, of demo_events new_mock_chain] staging_runs by (simp add: demo_lives_def)
qed

lemma demo_deployment_ok:
  "list_all (life_ok pad32 pad32) demo_lives" "w_chain (dp_world demo_deployment) = mock_client pad32 pad32"
  using demo_start_empty(3) by (simp_all add: demo_lives_def demo_deployment_def staging_world_def demo_world_def)



theorem lives_land_registered_witness:
  "\<exists>s c p. live_all demo_deployment [demo_life demo_register] (demo_title_db\<lparr>parcels := []\<rparr>, new_mock_chain) = (s, c)
     \<and> find_parcel ''UG-MIT-024718/2026'' s = Some p \<and> p_owner p = Some ''owner-01'' \<and> find_owner ''owner-01'' s \<noteq> None"
proof -
  let ?empty = "demo_title_db\<lparr>parcels := []\<rparr>" and ?q = "demo_parcel_request\<lparr>pq_owner := Some ''owner-01''\<rparr>"
  obtain s c where sc: "live_all demo_deployment [demo_life demo_register] (?empty, new_mock_chain) = (s, c)" by force
  have "districts ?empty \<noteq> []" by (simp add: demo_title_db_def demo_db_def)
  from demo_live [OF this, of demo_register new_mock_chain] sc
  have s: "s = snd (create_parcel demo_env ?q (Some (demo_ctx REGISTRAR)) ?empty)"
    by (simp add: demo_register_def demo_event_def new_backend_def)
  have "map_option p_owner (find_parcel ''UG-MIT-024718/2026'' (snd (create_parcel demo_env ?q (Some (demo_ctx REGISTRAR)) ?empty))) = Some (Some ''owner-01'')"
    by code_simp
  then obtain p where p: "find_parcel ''UG-MIT-024718/2026'' s = Some p" "p_owner p = Some ''owner-01''" unfolding s by auto
  have "parcels ?empty = []" by simp
  from lives_land_registered [OF this sc p] show ?thesis using p sc by auto
qed

text \<open>The seeding of the demonstration on tables with the district only.\<close>

lemma demo_seed_runs: "is_ok (fst (seed_demo_state demo_env ''-'' demo_db))"
proof (rule seed_demo_state_ok)
  show "inj (e_uuid demo_env)" by (rule injI) (simp add: demo_env_def, metis digits_val_nat_str)
qed (simp_all add: unused_def demo_db_def empty_db_def find_district_def)

lemma reseed_resets_hero_witness:
  "\<exists>p. find_parcel HERO_PARCEL (snd (seed_demo_state demo_env ''-'' demo_db)) = Some p \<and> p_status p = P_ACTIVE"
  using demo_seed_runs by (rule is_okE) (drule reseed_resets_hero, blast)

lemma seed_districts_idempotent_witness:
  "\<exists>n s'. seed_districts_and_parcels (demo_env\<lparr>e_now := (\<lambda>_. 0)\<rparr>) demo_rng empty_db = (Inr (4, n), s')
     \<and> seed_districts_and_parcels (demo_env\<lparr>e_now := (\<lambda>_. 86400)\<rparr>) demo_rng s' = (Inr (4, 0), s')"
proof -
  have y: "year_of 86400 = year_of 0" by code_simp
  show ?thesis by (rule seed_districts_idempotent [where t = 0]) (simp_all add: y)
qed

end
