(* ===== verification/Verify.thy ===== *)
theory Verify
  imports Titles Anchor_Props
begin

text \<open>
  The public verifier: \<open>backend/app/routers/verify.py\<close> with the models of
  \<open>backend/app/models/verify.py\<close>.  The rate limiter is a library and not modelled.
\<close>

section \<open>Requests and responses\<close>

record verify_request =
  vq_title :: "string option"
  vq_batch :: "string option"
  vq_leaf :: "string option"
  vq_siblings :: "string list option"

definition is_hex_digit :: "char \<Rightarrow> bool" where
  "is_hex_digit c \<longleftrightarrow> hexval c \<noteq> None"

definition leaf_ok :: "string \<Rightarrow> bool" where
  "leaf_ok s \<longleftrightarrow> re_match (replicate 64 is_hex_digit) s
     \<or> re_match ([(=) CHR ''0'', (=) CHR ''x''] @ replicate 64 is_hex_digit) s"

definition verify_request_ok :: "verify_request \<Rightarrow> bool" where
  "verify_request_ok q \<longleftrightarrow>
     ref_ok (\<lambda>t. 4 \<le> length t \<and> length t \<le> 64) (vq_title q) \<and> ref_ok leaf_ok (vq_leaf q)"

record verify_response =
  vs_valid :: bool
  vs_title :: "string option"
  vs_status :: string
  vs_anchored :: "time option"
  vs_batch :: "string option"
  vs_tx :: "string option"
  vs_block :: "int option"
  vs_chain :: "int option"
  vs_reason :: "string option"

section \<open>The lookups\<close>

text \<open>\<open>_read_title\<close>: a stored proof that is not JSON makes the read raise.\<close>

definition read_title :: "string \<Rightarrow> db \<Rightarrow> title option res" where
  "read_title title_no s =
     (case find_title title_no s of
        None \<Rightarrow> Inr None
      | Some t \<Rightarrow>
          if ti_proof t = None \<or> ti_proof t = Some [] then Inr (Some t)
          else res_bind (json_loads (the (ti_proof t))) (\<lambda>_. Inr (Some t)))"

definition no_batch :: "anchor option \<Rightarrow> bool" where
  "no_batch row \<longleftrightarrow> (case row of None \<Rightarrow> True | Some a \<Rightarrow> an_batch a = [])"

definition read_anchor_for_title :: "string \<Rightarrow> string \<Rightarrow> db \<Rightarrow> anchor option" where
  "read_anchor_for_title title_no parcel_id s =
     (let row = event_anchor ''title_no'' title_no s;
          row = (if no_batch row \<and> parcel_id \<noteq> [] then event_anchor ''parcel_id'' parcel_id s else row)
      in if no_batch row then None else row)"

definition read_event_seq :: "string \<Rightarrow> int \<Rightarrow> string \<Rightarrow> db \<Rightarrow> int option" where
  "read_event_seq title_no district_id parcel_id s =
     map_option ae_seq
       (case find (issue_event district_id ''title_no'' title_no) (audit s) of
          Some e \<Rightarrow> Some e
        | None \<Rightarrow> if parcel_id \<noteq> [] then find (issue_event district_id ''parcel_id'' parcel_id) (audit s) else None)"

section \<open>verify_title\<close>

definition no_anchor_response :: "string option \<Rightarrow> string \<Rightarrow> string \<Rightarrow> verify_response" where
  "no_anchor_response title_no status reason =
     \<lparr>vs_valid = False, vs_title = title_no, vs_status = status, vs_anchored = None, vs_batch = None, vs_tx = None,
      vs_block = None, vs_chain = None, vs_reason = Some reason\<rparr>"

definition anchor_response ::
  "string option \<Rightarrow> anchor \<Rightarrow> bool \<Rightarrow> int option \<Rightarrow> string option \<Rightarrow> verify_response" where
  "anchor_response title_no a ok ch reason =
     \<lparr>vs_valid = ok, vs_title = title_no, vs_status = anchor_status_str (an_status a), vs_anchored = Some (an_at a),
      vs_batch = Some (an_batch a), vs_tx = an_tx a, vs_block = an_block a, vs_chain = ch, vs_reason = reason\<rparr>"

definition verify_reason :: "bool \<Rightarrow> string option" where
  "verify_reason ok = (if ok then None else Some ''merkle_verification_failed'')"

definition verify_online ::
  "(bytes \<Rightarrow> bytes) \<Rightarrow> 'c chain_client \<Rightarrow> string \<Rightarrow> db \<Rightarrow> 'c \<Rightarrow> verify_response res" where
  "verify_online kec client title_no s c =
     res_bind (read_title title_no s) (\<lambda>row.
       case row of
         None \<Rightarrow> Inr (no_anchor_response (Some title_no) ''UNKNOWN'' ''title_not_found'')
       | Some t \<Rightarrow>
           (case read_anchor_for_title title_no (ti_parcel t) s of
              None \<Rightarrow> Inr (no_anchor_response (Some title_no) ''PENDING_ANCHOR'' ''title_pending_anchor'')
            | Some a \<Rightarrow>
                (case read_event_seq title_no (ti_district t) (ti_parcel t) s of
                   None \<Rightarrow> Inr (anchor_response (Some title_no) a False None (Some ''audit_event_missing''))
                 | Some seq \<Rightarrow>
                     res_bind (build_proof_for_event kec (ti_district t) seq s) (\<lambda>p.
                       case p of
                         None \<Rightarrow> Inr (anchor_response (Some title_no) a False None (Some ''proof_unavailable''))
                       | Some proof \<Rightarrow>
                           res_bind (cl_verify client (mp_batch proof) (mp_leaf proof) (mp_siblings proof) c) (\<lambda>ok.
                             Inr (anchor_response (Some title_no) a ok (Some (cl_chain_id client)) (verify_reason ok)))))))"

text \<open>A complete bundle: batch id and leaf that are not empty, and siblings.\<close>

definition bundled :: "verify_request \<Rightarrow> bool" where
  "bundled q \<longleftrightarrow> vq_batch q \<noteq> None \<and> vq_batch q \<noteq> Some [] \<and> vq_leaf q \<noteq> None \<and> vq_leaf q \<noteq> Some [] \<and> vq_siblings q \<noteq> None"

definition verify_title ::
  "(bytes \<Rightarrow> bytes) \<Rightarrow> 'c chain_client \<Rightarrow> verify_request \<Rightarrow> db \<Rightarrow> 'c \<Rightarrow> verify_response res" where
  "verify_title kec client q s c =
     (if \<not> verify_request_ok q then Inl (HTTPException 422)
      else if vq_title q \<noteq> None \<and> vq_title q \<noteq> Some [] \<and> \<not> bundled q then verify_online kec client (the (vq_title q)) s c
      else if \<not> bundled q then Inl (HTTPException 422)
      else
        res_bind (cl_verify client (the (vq_batch q)) (the (vq_leaf q)) (the (vq_siblings q)) c) (\<lambda>ok.
          Inr \<lparr>vs_valid = ok, vs_title = vq_title q, vs_status = (if ok then ''ANCHORED'' else ''UNKNOWN''),
               vs_anchored = None, vs_batch = vq_batch q, vs_tx = None, vs_block = None,
               vs_chain = Some (cl_chain_id client), vs_reason = verify_reason ok\<rparr>))"

definition sample_qr_payload :: "(string \<times> string) list" where
  "sample_qr_payload =
     [(''title_no'', ''UG-MIT-T00007/2026''), (''hint'', ''POST to /api/v1/verify/title with this title_no'')]"

section \<open>Lemmas\<close>

text \<open>A proof that was built belongs to the event with that number.\<close>

lemma build_proof_Some:
  assumes inv: "anchor_inv sha kec s" and p: "build_proof_for_event kec d seq s = Inr (Some p)"
  obtains r b a where "r \<in> set (audit s)" "ae_tenant r = int_str d" "ae_seq r = seq" "ae_anchored r = Some b"
    "find_anchor b s = Some a" "mp_batch p = b" "mp_root p = an_root a"
    "mp_leaf p = keccak_hex kec (sha256_hex sha (ae_payload r))"
    "verify_merkle_proof_evm kec (mp_leaf p) (mp_siblings p) (mp_root p) = Inr True"
proof -
  obtain r where r: "find (anchored_row d seq s) (audit s) = Some r"
    using p by (auto simp: build_proof_for_event_def split: option.splits)
  then have row: "r \<in> set (audit s)" "anchored_row d seq s r" by (auto dest: find_SomeD)
  then obtain b where b: "ae_tenant r = int_str d" "ae_seq r = seq" "ae_anchored r = Some b"
    by (auto simp: anchored_row_def split: option.splits)
  from build_proof_sound [OF inv row(1) b(1,3)] obtain a q where q: "find_anchor b s = Some a"
    "build_proof_for_event kec d (ae_seq r) s = Inr (Some q)" "mp_batch q = b" "mp_root q = an_root a"
    "mp_leaf q = keccak_hex kec (sha256_hex sha (ae_payload r))"
    "verify_merkle_proof_evm kec (mp_leaf q) (mp_siblings q) (mp_root q) = Inr True"
    by blast
  have "q = p" using q(2) b(2) p by simp
  then show thesis using that [OF row(1) b q(1)] q by simp
qed

lemma read_event_row:
  assumes "read_event_seq no d parcel s = Some seq"
  shows "\<exists>e\<in>set (audit s). ae_seq e = seq \<and> (issue_event d ''title_no'' no e \<or> issue_event d ''parcel_id'' parcel e)"
  using assms by (auto simp: read_event_seq_def split: option.splits if_splits dest!: find_SomeD)

text \<open>When the lookups hit and the chain verifies the proof, the answer is positive.\<close>

lemma verify_online_valid:
  assumes "verify_request_ok q" "vq_title q = Some no" "\<not> bundled q"
    and "find_title no s = Some t" "ti_proof t = None" "read_anchor_for_title no (ti_parcel t) s = Some a"
    and "find (issue_event (ti_district t) ''title_no'' no) (audit s) = Some e"
    and "build_proof_for_event kec (ti_district t) (ae_seq e) s = Inr (Some p)"
    and "cl_verify client (mp_batch p) (mp_leaf p) (mp_siblings p) c = Inr True"
  shows "verify_title kec client q s c = Inr (anchor_response (Some no) a True (Some (cl_chain_id client)) None)"
proof -
  have "no \<noteq> []" using assms(1,2) by (auto simp: verify_request_ok_def ref_ok_def)
  then show ?thesis using assms
    by (simp add: verify_title_def verify_online_def read_title_def read_event_seq_def verify_reason_def)
qed

lemma reachable_title_verifies:
  assumes reach: "sys_reach sha kec (mock_client sha kec) s"
    and q: "verify_request_ok q" "vq_title q = Some no" "\<not> bundled q"
    and t: "find_title no (sy_db s) = Some t" "ti_proof t = None" "read_anchor_for_title no (ti_parcel t) (sy_db s) = Some x"
    and e: "find (issue_event (ti_district t) ''title_no'' no) (audit (sy_db s)) = Some e"
    and a: "a \<in> set (anchors (sy_db s))" "ae_anchored e = Some (an_batch a)" "an_status a = A_CONFIRMED"
  shows "verify_title kec (mock_client sha kec) q (sy_db s) (sy_chain s)
    = Inr (anchor_response (Some no) x True (Some 0) None)"
proof -
  have mem: "e \<in> set (audit (sy_db s))" "ae_tenant e = int_str (ti_district t)"
    using find_SomeD [OF e] by (simp_all add: issue_event_def)
  obtain p where "build_proof_for_event kec (ti_district t) (ae_seq e) (sy_db s) = Inr (Some p)"
    "cl_verify (mock_client sha kec) (mp_batch p) (mp_leaf p) (mp_siblings p) (sy_chain s) = Inr True"
    using mock.confirmed_event_verifies [OF reach mem a] by blast
  from verify_online_valid [OF q t e this] show ?thesis by (simp add: mock_client_def)
qed

section \<open>Properties\<close>


text \<open>
  The verdict does not depend on the title row: rewriting the stored content hash, the
  registrar, the time of issue or the revocation of any titles leaves every answer as it was.  In
  particular a revoked title still verifies.
\<close>

lemma verify_title_ignores_row:
  "verify_title kec client q
     (s\<lparr>titles := map (\<lambda>t. t\<lparr>ti_hash := h t, ti_registrar := g t, ti_issued := i t, ti_revoked := r t, ti_reason := x t\<rparr>) (titles s)\<rparr>) c
   = verify_title kec client q s c"
proof -
  let ?f = "\<lambda>t. t\<lparr>ti_hash := h t, ti_registrar := g t, ti_issued := i t, ti_revoked := r t, ti_reason := x t\<rparr>"
  let ?s = "s\<lparr>titles := map ?f (titles s)\<rparr>"
  have "find (\<lambda>y. ti_no y = no) (map ?f ts) = map_option ?f (find (\<lambda>y. ti_no y = no) ts)" for no ts
    by (induction ts) auto
  then have t: "find_title no ?s = map_option ?f (find_title no s)" for no by (simp add: find_title_def)
  have e: "event_anchor k v ?s = event_anchor k v s" for k v
    by (simp add: event_anchor_def find_anchor_def cong: option.case_cong)
  have a: "read_anchor_for_title no p ?s = read_anchor_for_title no p s" "read_event_seq no d p ?s = read_event_seq no d p s" for no d p
    by (simp_all add: read_anchor_for_title_def read_event_seq_def e Let_def cong: option.case_cong if_cong)
  have b: "build_proof_for_event kec d n ?s = build_proof_for_event kec d n s" for d n
    by (simp add: build_proof_for_event_def anchored_row_def [abs_def] find_anchor_def cong: option.case_cong)
  have "verify_online kec client no ?s c = verify_online kec client no s c" for no
    by (cases "find_title no s"; cases "json_loads (the (ti_proof (the (find_title no s))))")
      (simp_all add: verify_online_def read_title_def t a b cong: option.case_cong)
  then show ?thesis by (simp add: verify_title_def)
qed

text \<open>
  Offline mode: a request with a full bundle is answered from the chain alone; whatever the
  database holds, the verdict is what the chain says about the supplied batch, leaf and siblings.
\<close>

lemma verify_offline_chain_only:
  assumes "verify_request_ok q" "vq_batch q = Some b" "b \<noteq> []" "vq_leaf q = Some leaf" "vq_siblings q = Some sibs"
  shows "map_sum id vs_valid (verify_title kec client q s c) = cl_verify client b leaf sibs c
    \<and> verify_title kec client q s' c = verify_title kec client q s c"
proof -
  have "leaf \<noteq> []" using assms(1,4) by (auto simp: verify_request_ok_def ref_ok_def leaf_ok_def numeral_eq_Suc)
  then show ?thesis using assms
    by (cases "cl_verify client b leaf sibs c") (simp_all add: verify_title_def bundled_def)
qed

text \<open>
  Completeness: in every reachable state of the interleaved system, a title whose issuing
  event is anchored in a CONFIRMED batch is answered as valid (unless the row carries a proof text
  of its own, which nothing writes, or the lookup of the anchor hits an event that is not anchored).
\<close>

lemma verify_title_complete:
  assumes "sys_reach sha kec (mock_client sha kec) s"
    and "verify_request_ok q" "vq_title q = Some no" "\<not> bundled q"
    and "find_title no (sy_db s) = Some t" "ti_proof t = None" "read_anchor_for_title no (ti_parcel t) (sy_db s) = Some x"
    and "find (issue_event (ti_district t) ''title_no'' no) (audit (sy_db s)) = Some e"
    and "a \<in> set (anchors (sy_db s))" "ae_anchored e = Some (an_batch a)" "an_status a = A_CONFIRMED"
  shows "\<exists>v. verify_title kec (mock_client sha kec) q (sy_db s) (sy_chain s) = Inr v
    \<and> vs_valid v \<and> vs_title v = Some no \<and> vs_batch v = Some (an_batch x) \<and> vs_reason v = None"
  using reachable_title_verifies [OF assms] by (simp add: anchor_response_def)

section \<open>A verified title\<close>

definition run_title :: title where
  "run_title = \<lparr>ti_no = ''T001'', ti_parcel = ''P1'', ti_issued = 0, ti_registrar = ''r'', ti_district = 3,
     ti_hash = [], ti_proof = None, ti_revoked = Some 5, ti_reason = None\<rparr>"

definition run_query :: verify_request where
  "run_query = \<lparr>vq_title = Some ''T001'', vq_batch = None, vq_leaf = None, vq_siblings = None\<rparr>"

lemma run_payload_matches:
  "sql_like (''%'' @ [CHR 0x22] @ ''title_no'' @ [CHR 0x22] @ '': '' @ [CHR 0x22] @ escape_like_value ''T001'' @ [CHR 0x22] @ ''%'')
     run_payload"
  by code_simp

lemma run_title_state:
  "\<exists>s x e a. sys_reach pad32 pad32 (mock_client pad32 pad32) s \<and> find_title ''T001'' (sy_db s) = Some run_title
     \<and> read_anchor_for_title ''T001'' ''P1'' (sy_db s) = Some x
     \<and> find (issue_event 3 ''title_no'' ''T001'') (audit (sy_db s)) = Some e
     \<and> a \<in> set (anchors (sy_db s)) \<and> ae_anchored e = Some (an_batch a) \<and> an_status a = A_CONFIRMED"
proof -
  obtain s e a tail where s: "sys_reach pad32 pad32 (mock_client pad32 pad32) s" "audit (sy_db s) = e # tail"
    and e: "ae_tenant e = int_str 3" "ae_type e = ''TITLE_ISSUED''" "ae_payload e = run_payload"
    and tail: "\<forall>x\<in>set tail. ae_type x = ''ANCHOR_COMMITTED''"
    and a: "a \<in> set (anchors (sy_db s))" "ae_anchored e = Some (an_batch a)" "an_status a = A_CONFIRMED"
    and ne: "an_batch a \<noteq> []"
    using run_reaches by blast
  let ?db = "(sy_db s)\<lparr>titles := [run_title]\<rparr>"
  let ?s = "s\<lparr>sy_db := ?db\<rparr>"
  have reach: "sys_reach pad32 pad32 (mock_client pad32 pad32) ?s"
    by (rule sys_reach.step [OF s(1) sys_step.elsewhere]) simp_all
  have has: "payload_has ''title_no'' ''T001'' e"
    using run_payload_matches e(3) by (simp add: payload_has_def)
  have issue: "find (issue_event 3 ''title_no'' ''T001'') (audit ?db) = Some e"
    using s(2) e has by (simp add: issue_event_def)
  have "filter (\<lambda>x. ae_type x = ''TITLE_ISSUED'' \<and> payload_has ''title_no'' ''T001'' x) tail = []"
    using tail by (auto simp: filter_empty_conv)
  moreover have "distinct (map an_batch (anchors ?db))"
    using mock.sys_reach_inv [OF s(1)] by (simp add: mock.sys_inv_def anchor_inv_def)
  ultimately have anchor: "event_anchor ''title_no'' ''T001'' ?db = Some a"
    using s(2) e has a find_anchor_in [of ?db a] by (simp add: event_anchor_def)
  have "read_anchor_for_title ''T001'' ''P1'' ?db = Some a"
    using anchor ne by (simp add: read_anchor_for_title_def no_batch_def)
  then show ?thesis
    using reach issue a by (intro exI [of _ ?s] exI [of _ a] exI [of _ e]) (simp add: find_title_def run_title_def)
qed

lemma run_query_ok: "verify_request_ok run_query" "vq_title run_query = Some ''T001''" "\<not> bundled run_query"
  by (simp_all add: run_query_def verify_request_ok_def ref_ok_def bundled_def)

lemma run_title_sel: "ti_district run_title = 3" "ti_parcel run_title = ''P1''" "ti_proof run_title = None"
  by (simp_all add: run_title_def)

lemma verify_title_complete_witness:
  "\<exists>s v. sys_reach pad32 pad32 (mock_client pad32 pad32) s
     \<and> verify_title pad32 (mock_client pad32 pad32) run_query (sy_db s) (sy_chain s) = Inr v \<and> vs_valid v"
proof -
  obtain s x e a where s: "sys_reach pad32 pad32 (mock_client pad32 pad32) s"
    "find_title ''T001'' (sy_db s) = Some run_title"
    "read_anchor_for_title ''T001'' (ti_parcel run_title) (sy_db s) = Some x"
    "find (issue_event (ti_district run_title) ''title_no'' ''T001'') (audit (sy_db s)) = Some e"
    "a \<in> set (anchors (sy_db s))" "ae_anchored e = Some (an_batch a)" "an_status a = A_CONFIRMED"
    using run_title_state unfolding run_title_sel by blast
  from verify_title_complete [OF s(1) run_query_ok s(2) run_title_sel(3) s(3-7)] s(1) show ?thesis by blast
qed


lemma verify_offline_chain_only_witness:
  "let q = \<lparr>vq_title = None, vq_batch = Some ''b'', vq_leaf = Some (replicate 64 CHR ''a''), vq_siblings = Some []\<rparr>
   in map_sum id vs_valid (verify_title pad32 (mock_client pad32 pad32) q demo_db new_mock_chain) = Inr False"
proof -
  let ?q = "\<lparr>vq_title = None, vq_batch = Some ''b'', vq_leaf = Some (replicate 64 CHR ''a''), vq_siblings = Some []\<rparr>"
  have "verify_request_ok ?q" by code_simp
  from verify_offline_chain_only [OF this, of "''b''" "replicate 64 CHR ''a''" "[]" pad32 "mock_client pad32 pad32" demo_db new_mock_chain]
  show ?thesis by (simp add: mock_client_def mock_verify_def new_mock_chain_def)
qed

end
