(* ===== verification/Title_Journey.thy ===== *)
theory Title_Journey
  imports Boot Verify
begin

text \<open>
  The journey of a title: what a registrar issues is written to the ledger under its number, stays there
  over all requests, tasks and restarts, is anchored with the other events of its district, and is then
  what the public verifier finds.

  The lemmas say that no step of the backend removes an event (\<open>log_grows\<close>), and that the LIKE pattern of the
  verifier matches the payload under which the title was issued.
\<close>

section \<open>Events that stay\<close>

definition log_grows :: "db \<Rightarrow> db \<Rightarrow> bool" where
  "log_grows s s' \<longleftrightarrow>
     (\<forall>r\<in>set (audit s). \<exists>r'\<in>set (audit s'). ae_tenant r' = ae_tenant r \<and> ae_type r' = ae_type r \<and> ae_payload r' = ae_payload r)"

lemma log_grows_same: "audit s' = audit s \<Longrightarrow> log_grows s s'"
  by (auto simp: log_grows_def)

lemma log_grows_trans: "log_grows s s1 \<Longrightarrow> log_grows s1 s2 \<Longrightarrow> log_grows s s2"
  unfolding log_grows_def by metis

lemma log_grows_emit: "log_grows s (emit E k t p d a s)"
  by (rule emit_audit_cases [of E k t p d a s]) (auto simp: log_grows_def)

lemma log_grows_appends: "appends sha s s' \<Longrightarrow> log_grows s s'"
proof (induction rule: appends.induct)
  case (event s s1 p E k t d a)
  then show ?case using log_grows_trans log_grows_emit by blast
next
  case (elsewhere s s1 s')
  then show ?case using log_grows_trans log_grows_same by blast
qed (rule log_grows_same)

lemma log_grows_map:
  "(\<And>r. ae_tenant (f r) = ae_tenant r \<and> ae_type (f r) = ae_type r \<and> ae_payload (f r) = ae_payload r)
   \<Longrightarrow> log_grows s (s\<lparr>audit := map f (audit s)\<rparr>)"
  by (auto simp: log_grows_def)

lemma log_grows_mark: "mark_anchored bs t i j b rows = (out, rows') \<Longrightarrow> audit s = rows \<Longrightarrow> log_grows s (s\<lparr>audit := rows'\<rparr>)"
  using log_grows_map [of "\<lambda>r. if in_range t i j r \<and> ae_anchored r = None then r\<lparr>ae_anchored := Some b\<rparr> else r" s]
  by (auto simp: mark_anchored_def update_where_def Let_def log_grows_same split: if_splits)

lemma log_grows_flush_end: "log_grows s (snd (flush_end E rec leaves r s))"
proof (cases r)
  case (Inl e)
  then show ?thesis by (simp add: flush_end_error log_grows_same update_anchor_def)
next
  case (Inr x)
  let ?s1 = "update_anchor (an_batch rec)
       (\<lambda>a. a\<lparr>an_tx := Some (rc_tx x), an_block := rc_block x, an_confirmed := rc_confirmed x, an_status := rc_status x\<rparr>) s"
  have s1: "log_grows s ?s1" by (rule log_grows_same) (simp add: update_anchor_def)
  obtain out rows where m: "mark_anchored (map an_batch (anchors ?s1)) (int_str (an_district rec)) (an_first rec) (an_last rec)
      (an_batch rec) (audit ?s1) = (out, rows)" by force
  have "log_grows s (?s1\<lparr>audit := rows\<rparr>)" using log_grows_trans [OF s1 log_grows_mark [OF m refl]] .
  then have "log_grows s (emit E k t p d a (?s1\<lparr>audit := rows\<rparr>))" for k t p d a by (rule log_grows_trans [OF _ log_grows_emit])
  then show ?thesis using s1 m unfolding flush_end_def Inr Let_def by (auto split: sum.split)
qed

lemma log_grows_flush: "log_grows (as_db x) (as_db (snd (flush_district E st client d force x)))"
proof -
  obtain r db1 where b: "flush_begin E st d force (as_db x) = (r, db1)" by force
  have "audit (snd (flush_begin E st d force s)) = audit s" for s
    by (simp add: flush_begin_def Let_def snd_and_then insert_anchor_row_def split: sum.split)
  from this [of "as_db x"] b have one: "log_grows (as_db x) db1" by (simp add: log_grows_same)
  show ?thesis
  proof (cases "\<exists>rec leaves. r = Inr (Started rec leaves)")
    case True
    then obtain rec leaves where "r = Inr (Started rec leaves)" by blast
    then show ?thesis using flush_district_started [of E st d force x rec leaves db1 client] b
      by (auto split: prod.split intro: log_grows_trans [OF one log_grows_flush_end])
  next
    case False
    then show ?thesis using b one by (auto simp: flush_district_def split: sum.split flush_start.split)
  qed
qed

interpretation remembered: run_invariant sha kec client "\<lambda>s c. log_grows s0 s" for sha kec client s0
proof unfold_locales
  fix s s' assume "log_grows s0 s" "appends sha s s'"
  then show "log_grows s0 s'" by (blast intro: log_grows_trans log_grows_appends)
next
  fix x y and E :: "unit env" and st d force
  assume "log_grows s0 (as_db x)" "snd (flush_district E st client d force x) = y"
  then show "log_grows s0 (as_db y)" using log_grows_trans [OF _ log_grows_flush] by blast
qed

section \<open>The payload and the pattern\<close>

definition plain :: "char \<Rightarrow> bool" where
  "plain c \<longleftrightarrow> esc_char c = [c]"

lemma quote_plain: "list_all plain s \<Longrightarrow> quote_str s = QUOTE # s @ [QUOTE]"
proof -
  assume "list_all plain s"
  then have "concat (map esc_char s) = s" by (induction s) (simp_all add: plain_def)
  then show ?thesis by (simp add: quote_str_def)
qed

lemma digit_plain: "is_digit c \<Longrightarrow> plain c"
  by (auto simp: is_digit_def plain_def esc_char_def Let_def)

lemma int_str_plain: "list_all plain (int_str i)"
proof -
  have "plain CHR ''-''" by code_simp
  then show ?thesis by (auto simp: int_str_def list_all_iff intro: digit_plain dest: nat_str_digits)
qed

lemma zfill_plain: "list_all plain s \<Longrightarrow> list_all plain (zfill w s)"
proof -
  have "plain CHR ''0''" by code_simp
  then show "list_all plain s \<Longrightarrow> ?thesis" by (auto simp: zfill_def Let_def list_all_iff split: list.split)
qed

lemma title_no_plain: "list_all plain (make_title_no d n year now)"
proof -
  have "list_all plain (case DISTRICT_CODES d of None \<Rightarrow> ''XXX'' | Some c \<Rightarrow> c)"
    by (simp add: DISTRICT_CODES_def) code_simp
  moreover have "list_all plain ''UG-''" "list_all plain ''-T''" "list_all plain ''/''" by code_simp+
  ultimately show ?thesis
    unfolding make_title_no_def Let_def list_all_append by (simp add: int_str_plain zfill_plain)
qed

lemma join_str_part: "x \<in> set xs \<Longrightarrow> \<exists>a b. join_str sep xs = a @ x @ b"
proof (induction xs)
  case (Cons y ys)
  show ?case
  proof (cases "x = y")
    case True
    then have "join_str sep (y # ys) = [] @ x @ (if ys = [] then [] else sep @ join_str sep ys)" by (simp add: join_str_Cons)
    then show ?thesis by blast
  next
    case False
    then have "x \<in> set ys" using Cons.prems by simp
    then obtain a b where "join_str sep ys = a @ x @ b" "ys \<noteq> []" using Cons.IH by fastforce
    then have "join_str sep (y # ys) = (y @ sep @ a) @ x @ b" by (simp add: join_str_Cons)
    then show ?thesis by blast
  qed
qed simp

text \<open>A member of a dictionary is a part of its text.\<close>

lemma dumps_member:
  assumes "(k, v) \<in> set kvs"
  shows "\<exists>a b. json_dumps (JObj kvs) = a @ quote_str k @ '': '' @ json_dumps v @ b"
proof -
  have "quote_str k @ '': '' @ json_dumps v \<in> set (map (\<lambda>(k, v). quote_str k @ '': '' @ json_dumps v) (sort_key fst kvs))"
    using assms by force
  from join_str_part [OF this, of "'', ''"] obtain a b where
    "join_str '', '' (map (\<lambda>(k, v). quote_str k @ '': '' @ json_dumps v) (sort_key fst kvs)) = a @ (quote_str k @ '': '' @ json_dumps v) @ b"
    by blast
  then have "json_dumps (JObj kvs) = (CHR ''{'' # a) @ quote_str k @ '': '' @ json_dumps v @ (b @ ''}'')" by simp
  then show ?thesis by blast
qed

text \<open>A pattern without wild cards but the underscore matches itself.\<close>

lemma sql_like_self: "list_all (\<lambda>c. c \<noteq> BACKSLASH \<and> c \<noteq> CHR ''%'') l \<Longrightarrow> sql_like p t \<Longrightarrow> sql_like (l @ p) (l @ t)"
  by (induction l) (simp_all add: same_ci_def)

lemma payload_hasI:
  assumes "ae_payload e = a @ (QUOTE # key @ [QUOTE]) @ '': '' @ (QUOTE # v @ [QUOTE]) @ b"
    and "list_all (\<lambda>c. c \<noteq> BACKSLASH \<and> c \<noteq> CHR ''%'') key"
  shows "payload_has key v e"
proof -
  have fin: "sql_like ''%'' b" using sql_like_percent [of "[]" b] by (metis append.right_neutral sql_like.simps(1))
  have "sql_like ([QUOTE] @ ''%'') ([QUOTE] @ b)" by (rule sql_like_self [OF _ fin]) simp
  then have "sql_like (escape_like_value v @ [QUOTE] @ ''%'') (v @ [QUOTE] @ b)" unfolding sql_like_escaped by blast
  then have "sql_like (([QUOTE] @ key @ [QUOTE] @ '': '' @ [QUOTE]) @ escape_like_value v @ [QUOTE] @ ''%'')
      (([QUOTE] @ key @ [QUOTE] @ '': '' @ [QUOTE]) @ v @ [QUOTE] @ b)"
    using assms(2) by (intro sql_like_self) simp_all
  then have "sql_like (CHR ''%'' # ([QUOTE] @ key @ [QUOTE] @ '': '' @ [QUOTE]) @ escape_like_value v @ [QUOTE] @ ''%'')
      (a @ ([QUOTE] @ key @ [QUOTE] @ '': '' @ [QUOTE]) @ v @ [QUOTE] @ b)"
    unfolding sql_like_percent by blast
  then show ?thesis unfolding payload_has_def assms(1) by simp
qed

lemma title_payload_found:
  assumes "ae_payload e = json_dumps (canonical_payload E q no nm u d)" "list_all plain no"
  shows "payload_has ''title_no'' no e"
proof -
  have "(''title_no'', JStr no) \<in> set [(''title_no'', JStr no), (''parcel_id'', JStr (tq_parcel q)), (''owner_id'', JStr (tq_owner q)),
      (''owner_full_name'', JStr nm), (''issued_at'', jreal E (e_now E 1)), (''registrar_id'', JStr u), (''district_id'', JInt d)]"
    by simp
  from dumps_member [OF this] obtain a b where
    "json_dumps (canonical_payload E q no nm u d) = a @ quote_str ''title_no'' @ '': '' @ json_dumps (JStr no) @ b"
    unfolding canonical_payload_def by blast
  moreover have "quote_str ''title_no'' = QUOTE # ''title_no'' @ [QUOTE]" by code_simp
  ultimately show ?thesis
    using quote_plain [OF assms(2)] by (intro payload_hasI [of e a _ _ b]) (simp_all add: assms(1))
qed

section \<open>What issuing leaves behind\<close>

lemma emit_fresh_audit:
  "e_uuid E k \<notin> ae_id ` set (audit s) \<Longrightarrow>
   \<exists>r\<in>set (audit (emit E k t p d a s)). ae_tenant r = int_str d \<and> ae_type r = t \<and> ae_payload r = json_dumps p"
  by (simp add: emit_def audit_emit_def ledger_append_def to_row_def Let_def split: prod.split)

lemma issue_leaves:
  assumes "issue_title E redis q ctx s = (Inr v, s')" "e_uuid E 3 \<notin> ae_id ` set (audit s)"
  shows "find_title (ti_no (tv_row v)) s' = Some (tv_row v)" "ti_proof (tv_row v) = None"
    and "\<exists>r\<in>set (audit s'). issue_event (ti_district (tv_row v)) ''title_no'' (ti_no (tv_row v)) r"
proof -
  obtain c where "ctx = Some c" "has_role c [REGISTRAR]" using issue_route.success_has_role [OF assms(1)] by blast
  then have h: "issue_title_handler E redis q c s = (Inr v, s')" using assms(1) by (simp add: issue_title_def)
  obtain p :: parcel and o' :: owner where e: "let no = make_title_no (p_district p) (int (length (filter (\<lambda>t. ti_district t = p_district p) (titles s))) + 1) None (e_now E 0);
         payload = canonical_payload E q no (o_name o') (cx_id c) (p_district p);
         t = \<lparr>ti_no = no, ti_parcel = tq_parcel q, ti_issued = e_now E 1, ti_registrar = cx_id c,
              ti_district = p_district p, ti_hash = content_hash (e_sha E) payload, ti_proof = None,
              ti_revoked = None, ti_reason = None\<rparr>
     in find_title no s = None \<and> tv_row v = t
        \<and> s' = emit E 3 ''TITLE_ISSUED'' payload (p_district p) (cx_id c)
                 (set_parcel_owner (tq_parcel q) (tq_owner q) (e_now E 2) (s\<lparr>titles := titles s @ [t]\<rparr>))"
    by (rule issue_title_handler_Inr [OF h]) (rule that)
  let ?t = "tv_row v" and ?no = "ti_no (tv_row v)" and ?d = "ti_district (tv_row v)"
  let ?s1 = "set_parcel_owner (tq_parcel q) (tq_owner q) (e_now E 2) (s\<lparr>titles := titles s @ [?t]\<rparr>)"
  let ?p = "canonical_payload E q ?no (o_name o') (cx_id c) ?d"
  have s': "s' = emit E 3 ''TITLE_ISSUED'' ?p ?d (cx_id c) ?s1" and fresh: "find_title ?no s = None"
    using e by (simp_all add: Let_def)
  have plain: "list_all plain ?no" using e title_no_plain by (simp add: Let_def)
  show "ti_proof ?t = None" using e by (simp add: Let_def)
  show "find_title ?no s' = Some ?t" using fresh by (simp add: s' find_title_def find_append)
  have "e_uuid E 3 \<notin> ae_id ` set (audit ?s1)" using assms(2) by simp
  from emit_fresh_audit [OF this, of "''TITLE_ISSUED''" ?p ?d "cx_id c"] obtain r where
    r: "r \<in> set (audit s')" "ae_tenant r = int_str ?d" "ae_type r = ''TITLE_ISSUED''" "ae_payload r = json_dumps ?p"
    unfolding s' by blast
  then show "\<exists>r\<in>set (audit s'). issue_event ?d ''title_no'' ?no r"
    using title_payload_found [OF r(4) plain] by (auto simp: issue_event_def)
qed

lemma issue_event_kept:
  assumes "log_grows s s'" "r \<in> set (audit s)" "issue_event d key v r"
  shows "\<exists>r'\<in>set (audit s'). issue_event d key v r'"
  using assms unfolding log_grows_def issue_event_def payload_has_def by metis

text \<open>When every such event is anchored, the lookups of the verifier find the event and its batch.\<close>

lemma anchored_lookups:
  assumes "r \<in> set (audit s)" "issue_event d ''title_no'' no r"
    and "\<And>x. x \<in> set (audit s) \<Longrightarrow> ae_type x = ''TITLE_ISSUED'' \<Longrightarrow>
        \<exists>a\<in>set (anchors s). ae_anchored x = Some (an_batch a) \<and> an_batch a \<noteq> []"
  shows "\<exists>e. find (issue_event d ''title_no'' no) (audit s) = Some e \<and> e \<in> set (audit s) \<and> ae_type e = ''TITLE_ISSUED''"
    and "\<exists>x. read_anchor_for_title no parcel s = Some x"
proof -
  have "find (issue_event d ''title_no'' no) (audit s) \<noteq> None" using assms(1,2) by (auto simp: find_None_iff)
  then obtain e where e: "find (issue_event d ''title_no'' no) (audit s) = Some e" by blast
  then show "\<exists>e. find (issue_event d ''title_no'' no) (audit s) = Some e \<and> e \<in> set (audit s) \<and> ae_type e = ''TITLE_ISSUED''"
    using find_SomeD [OF e] by (auto simp: issue_event_def)
  let ?hits = "filter (\<lambda>e. ae_type e = ''TITLE_ISSUED'' \<and> payload_has ''title_no'' no e) (audit s)"
  have "r \<in> set ?hits" using assms(1,2) by (simp add: issue_event_def)
  then have "latest_by ae_seq ?hits \<noteq> None" by (auto simp: filter_empty_conv)
  then obtain l where l: "latest_by ae_seq ?hits = Some l" by blast
  then have "l \<in> set (audit s)" "ae_type l = ''TITLE_ISSUED''" using latest_by_in [OF l] by simp_all
  with assms(3) obtain a where a: "a \<in> set (anchors s)" "ae_anchored l = Some (an_batch a)" "an_batch a \<noteq> []" by blast
  then have "find_anchor (an_batch a) s \<noteq> None" by (auto simp: find_anchor_def find_None_iff)
  then obtain x where x: "find_anchor (an_batch a) s = Some x" by blast
  then have "an_batch x = an_batch a" using find_SomeD by (fastforce simp: find_anchor_def)
  then have "event_anchor ''title_no'' no s = Some x" "\<not> no_batch (Some x)" using l a x by (simp_all add: event_anchor_def no_batch_def)
  then show "\<exists>x. read_anchor_for_title no parcel s = Some x" by (simp add: read_anchor_for_title_def)
qed

section \<open>Properties\<close>


lemma demo_title_no:
  "\<exists>v s1. issue_title demo_env None demo_title_request (Some (demo_ctx REGISTRAR)) demo_title_db = (Inr v, s1)
     \<and> ti_no (tv_row v) = ''UG-MIT-T00001/1970''"
proof -
  let ?c = "demo_ctx REGISTRAR"
  obtain v s1 where i: "issue_title demo_env None demo_title_request (Some ?c) demo_title_db = (Inr v, s1)"
    using demo_issue_runs by blast
  have "has_role ?c [REGISTRAR]" by (simp add: demo_ctx_def demo_context_def has_role_def cx_role_def)
  then have h: "issue_title_handler demo_env None demo_title_request ?c demo_title_db = (Inr v, s1)" using i by (simp add: issue_title_def)
  obtain p :: parcel where "find_parcel (tq_parcel demo_title_request) demo_title_db = Some p"
    "ti_no (tv_row v) = make_title_no (p_district p)
       (int (length (filter (\<lambda>t. ti_district t = p_district p) (titles demo_title_db))) + 1) None (e_now demo_env 0)"
    by (rule issue_title_handler_Inr [OF h]) (simp add: Let_def that)
  then have "ti_no (tv_row v) = make_title_no 3 1 None 1000"
    by (auto simp: demo_title_request_def demo_title_db_def demo_db_def empty_db_def demo_env_def find_parcel_def)
  moreover have "make_title_no 3 1 None 1000 = ''UG-MIT-T00001/1970''" by code_simp
  ultimately show ?thesis using i by simp
qed


end
