(* ===== verification/Ussd.thy ===== *)
theory Ussd
  imports Verify Owners Fraud_Worker
begin

text \<open>
  The feature-phone path: \<open>backend/app/util/ussd.py\<close> and the router \<open>backend/app/routers/ussd.py\<close>.
  Responses are lists of Unicode code points, because they have characters beyond 255 (a tick, a
  cross, a dash and an ellipsis).  The session store is the in-process cache.
\<close>

section \<open>util/ussd.py\<close>

definition MAX_USSD_LEN :: nat where
  "MAX_USSD_LEN = 182"

record ussd_request =
  us_session :: string
  us_service :: string
  us_phone :: string
  us_text :: string

text \<open>\<open>[s for s in text.split("*") if s]\<close>.\<close>

definition ussd_steps :: "ussd_request \<Rightarrow> string list" where
  "ussd_steps q = filter (\<lambda>s. s \<noteq> []) (split_on CHR ''*'' (us_text q))"

definition ussd_truncate :: "code_points \<Rightarrow> code_points" where
  "ussd_truncate message =
     (if length message \<le> MAX_USSD_LEN then message else take (MAX_USSD_LEN - 1) message @ [8230])"

definition con :: "code_points \<Rightarrow> code_points" where
  "con message = code_points ''CON '' @ ussd_truncate message"

definition end_session :: "code_points \<Rightarrow> code_points" where
  "end_session message = code_points ''END '' @ ussd_truncate message"

definition short_proof_label :: "string option \<Rightarrow> string" where
  "short_proof_label batch_id =
     (if batch_id = None \<or> batch_id = Some [] then ''no batch'' else take 8 (the batch_id))"

text \<open>\<open>x or d\<close> for a text that may be missing.\<close>

definition text_or :: "string option \<Rightarrow> string \<Rightarrow> string" where
  "text_or x d = (if x = None \<or> x = Some [] then d else the x)"

definition format_verify_result :: "verify_response \<Rightarrow> code_points" where
  "format_verify_result r =
     (let title = code_points (text_or (vs_title r) ''(unknown)'')
      in if vs_valid r then
           let block = (if vs_block r = None \<or> vs_block r = Some 0 then [8212] else code_points (int_str (the (vs_block r))));
               tx = take 8 (drop 2 (text_or (vs_tx r) []))
           in [10003] @ code_points '' Title '' @ title @ code_points '' VERIFIED on block '' @ block
              @ code_points '' (tx '' @ code_points tx @ code_points ''). Tamper-evident.''
         else
           let reason = replace_char CHR ''_'' '' '' (text_or (vs_reason r) ''unverified'')
           in [10007] @ code_points '' Title '' @ title @ code_points '': '' @ code_points reason
              @ code_points ''. Visit a District Land Office or call 0414-XXXXXX.'')"

definition session_key :: "string \<Rightarrow> string" where
  "session_key session_id = ''ussd:session:'' @ session_id"

definition session_save :: "time \<Rightarrow> string \<Rightarrow> (string \<times> json) list \<Rightarrow> cache \<Rightarrow> cache" where
  "session_save now session_id d c = cache_set now (session_key session_id) (dumps_plain (JObj d)) 300 c"

text \<open>What is not JSON counts as no session; a value of another type is returned as it is.\<close>

definition session_load :: "time \<Rightarrow> string \<Rightarrow> cache \<Rightarrow> json \<times> cache" where
  "session_load now session_id c =
     (let (raw, c1) = cache_get now (session_key session_id) c
      in if raw = None \<or> raw = Some [] then (JObj [], c1)
         else case json_loads (the raw) of Inl _ \<Rightarrow> (JObj [], c1) | Inr j \<Rightarrow> (j, c1))"

section \<open>routers/ussd.py\<close>

text \<open>
  \<open>str.upper\<close> on the code points 0 to 255: letters of ASCII and Latin-1, and the sharp s, which
  becomes two letters.  The micro sign and the y with diaeresis, whose capitals lie beyond 255, are
  left alone.
\<close>

definition latin_upper :: "string \<Rightarrow> string" where
  "latin_upper s = concat (map (\<lambda>c. let n = (of_char c :: nat) in
     if n = 223 then ''SS''
     else if (97 \<le> n \<and> n \<le> 122) \<or> (224 \<le> n \<and> n \<le> 254 \<and> n \<noteq> 247) then [char_of (n - 32)]
     else [c]) s)"

definition entered :: "string \<Rightarrow> string" where
  "entered s = latin_upper (strip s)"

definition hash_phone :: "(bytes \<Rightarrow> bytes) \<Rightarrow> string \<Rightarrow> string" where
  "hash_phone sha msisdn = sha256_hex sha (if msisdn = [] then ''anonymous'' else msisdn)"

definition title_query :: "string \<Rightarrow> verify_request" where
  "title_query title_no = \<lparr>vq_title = Some title_no, vq_batch = None, vq_leaf = None, vq_siblings = None\<rparr>"

text \<open>
  \<open>VerifyTitleRequest(title_no=...)\<close> is built by the handler itself: text outside the bounds of the
  field raises a validation error (a \<open>ValueError\<close>), not a 422.
\<close>

definition verify_entered ::
  "(bytes \<Rightarrow> bytes) \<Rightarrow> 'c chain_client \<Rightarrow> string \<Rightarrow> db \<Rightarrow> 'c \<Rightarrow> verify_response res" where
  "verify_entered kec client title_no s c =
     (if \<not> verify_request_ok (title_query title_no) then Inl ValueError
      else verify_title kec client (title_query title_no) s c)"

definition ussd_menu :: string where
  "ussd_menu = ''LandGuard Uganda'' @ [CHR 0x0A] @ ''1. Verify title'' @ [CHR 0x0A] @ ''2. Check parcel status'' @ [CHR 0x0A]
     @ ''3. Help / contact District Land Office''"

definition ussd_title_prompt :: string where
  "ussd_title_prompt = ''Enter the title number'' @ [CHR 0x0A] @ ''(format: UG-DDD-TNNNNN/YYYY)'' @ [CHR 0x0A]
     @ ''e.g. UG-MIT-T00007/2026''"

definition ussd_parcel_prompt :: string where
  "ussd_parcel_prompt = ''Enter parcel UPI'' @ [CHR 0x0A] @ ''(e.g. UG-MIT-024718/2026)''"

definition ussd_help :: string where
  "ussd_help = ''Help: District Land Office Mityana 0414-XXXXXX. MoLHUD hotline 0800-100-300. More: landguard.ug''"

text \<open>The newest title of a parcel.\<close>

definition latest_title :: "string \<Rightarrow> db \<Rightarrow> title option" where
  "latest_title parcel_id s = latest_by ti_issued (filter (\<lambda>t. ti_parcel t = parcel_id) (titles s))"

text \<open>Reading 0 is the clock of the session, 1 that of the event; the chain is only read.\<close>

definition ussd_route ::
  "'g env \<Rightarrow> 'c chain_client \<Rightarrow> 'c \<Rightarrow> ussd_request \<Rightarrow> cache \<times> db \<Rightarrow> (code_points, cache \<times> db) outcome" where
  "ussd_route E client c q st =
     (let (cache, s) = st; steps = ussd_steps q
      in case steps of
           [] \<Rightarrow> (Inr (con (code_points ussd_menu)), st)
         | choice # rest \<Rightarrow>
             if choice = ''1'' then
               (case rest of
                  [] \<Rightarrow> (Inr (con (code_points ussd_title_prompt)), st)
                | text # _ \<Rightarrow>
                    let title_no = entered text;
                        cache1 = session_save (e_now E 0) (us_session q)
                          [(''action'', JStr ''verify''), (''title_no'', JStr title_no), (''phone'', JStr (us_phone q))] cache
                    in case verify_entered (e_kec E) client title_no s c of
                         Inl e \<Rightarrow> (Inl e, cache1, s)
                       | Inr result \<Rightarrow>
                           (Inr (end_session (format_verify_result result)), cache1,
                            emit E 1 ''USSD_VERIFY''
                              (JObj [(''title_no'', JStr title_no), (''phone_sha'', JStr (hash_phone (e_sha E) (us_phone q))),
                                     (''valid'', JBool (vs_valid result)), (''reason'', jopt JStr (vs_reason result))])
                              0 (''ussd:'' @ take 8 (us_session q)) s))
             else if choice = ''2'' then
               (case rest of
                  [] \<Rightarrow> (Inr (con (code_points ussd_parcel_prompt)), st)
                | text # _ \<Rightarrow>
                    let upi = entered text
                    in case latest_title upi s of
                         None \<Rightarrow> (Inr (end_session (code_points (''No title found for parcel '' @ upi @ ''.''))), st)
                       | Some t \<Rightarrow>
                           (case verify_entered (e_kec E) client (ti_no t) s c of
                              Inl e \<Rightarrow> (Inl e, st)
                            | Inr result \<Rightarrow> (Inr (end_session (format_verify_result result)), st)))
             else if choice = ''3'' then (Inr (end_session (code_points ussd_help)), st)
             else (Inr (end_session (code_points ''Unknown option. Dial again.'')), st))"

definition sms_verify ::
  "'g env \<Rightarrow> 'c chain_client \<Rightarrow> 'c \<Rightarrow> string \<Rightarrow> string \<Rightarrow> db \<Rightarrow> (code_points, db) outcome" where
  "sms_verify E client c sender body s =
     (let title_no = entered body
      in if title_no = [] then (Inr (code_points ''Send the title number, e.g. UG-MIT-T00007/2026''), s)
         else case verify_entered (e_kec E) client title_no s c of
           Inl e \<Rightarrow> (Inl e, s)
         | Inr result \<Rightarrow>
             (Inr (format_verify_result result),
              emit E 0 ''SMS_VERIFY''
                (JObj [(''title_no'', JStr title_no), (''phone_sha'', JStr (hash_phone (e_sha E) sender)),
                       (''valid'', JBool (vs_valid result))])
                0 (''sms:'' @ take 8 (hash_phone (e_sha E) sender)) s))"

section \<open>Lemmas\<close>

lemma length_code_points [simp]: "length (code_points s) = length s"
  by (simp add: code_points_def)

lemma truncate_bound: "length (ussd_truncate m) \<le> MAX_USSD_LEN"
  by (simp add: ussd_truncate_def MAX_USSD_LEN_def)

text \<open>A reply of the USSD gateway: it continues or ends the session, with a text that fits.\<close>

definition ussd_reply :: "code_points \<Rightarrow> bool" where
  "ussd_reply body \<longleftrightarrow> (\<exists>m. length m \<le> MAX_USSD_LEN \<and> (body = code_points ''CON '' @ m \<or> body = code_points ''END '' @ m))"

lemma reply_con [simp]: "ussd_reply (con m)" and reply_end [simp]: "ussd_reply (end_session m)"
  using truncate_bound by (auto simp: ussd_reply_def con_def end_session_def)

lemma length_replace_char_one: "length (replace_char a [b] s) = length s"
  by (induction s) (simp_all add: replace_char_def)

definition verify_reasons :: "string option list" where
  "verify_reasons = [None, Some ''title_not_found'', Some ''title_pending_anchor'', Some ''audit_event_missing'',
     Some ''proof_unavailable'', Some ''merkle_verification_failed'']"

lemma verify_reason_listed: "verify_reason ok \<in> set verify_reasons"
  by (simp add: verify_reason_def verify_reasons_def)

lemma event_anchor_in: "event_anchor k v s = Some a \<Longrightarrow> a \<in> set (anchors s)"
  by (auto simp: event_anchor_def find_anchor_def dest: find_SomeD split: option.splits)

lemma read_anchor_in: "read_anchor_for_title n p s = Some a \<Longrightarrow> a \<in> set (anchors s)"
  by (auto simp: read_anchor_for_title_def Let_def dest: event_anchor_in split: if_splits)

text \<open>What the verifier tells a caller who gave a title number.\<close>

lemma verify_online_shape:
  assumes "verify_online kec client n s c = Inr r"
  shows "vs_title r = Some n \<and> vs_reason r \<in> set verify_reasons
    \<and> (vs_block r = None \<or> (\<exists>a\<in>set (anchors s). vs_block r = an_block a))"
proof -
  obtain row where row: "read_title n s = Inr row" using assms by (auto simp: verify_online_def res_simps)
  show ?thesis
  proof (cases row)
    case None
    then show ?thesis using assms row by (auto simp: verify_online_def no_anchor_response_def verify_reasons_def)
  next
    case (Some t)
    show ?thesis
    proof (cases "read_anchor_for_title n (ti_parcel t) s")
      case None
      then show ?thesis using assms row Some by (auto simp: verify_online_def no_anchor_response_def verify_reasons_def)
    next
      case a: (Some a)
      have listed: "None \<in> set verify_reasons" "Some ''audit_event_missing'' \<in> set verify_reasons"
        "Some ''proof_unavailable'' \<in> set verify_reasons" by (simp_all add: verify_reasons_def)
      have "\<exists>ok ch re. r = anchor_response (Some n) a ok ch re \<and> re \<in> set verify_reasons"
      proof (cases "read_event_seq n (ti_district t) (ti_parcel t) s")
        case None
        then show ?thesis using assms row Some a listed(2) by (auto simp: verify_online_def)
      next
        case q: (Some seq)
        have body: "res_bind (build_proof_for_event kec (ti_district t) seq s) (\<lambda>p.
            case p of None \<Rightarrow> Inr (anchor_response (Some n) a False None (Some ''proof_unavailable''))
            | Some proof \<Rightarrow> res_bind (cl_verify client (mp_batch proof) (mp_leaf proof) (mp_siblings proof) c) (\<lambda>ok.
                Inr (anchor_response (Some n) a ok (Some (cl_chain_id client)) (verify_reason ok)))) = Inr r"
          using assms row Some a q by (simp add: verify_online_def cong: option.case_cong)
        show ?thesis
        proof (cases "build_proof_for_event kec (ti_district t) seq s")
          case (Inl e)
          then show ?thesis using body by simp
        next
          case p: (Inr p)
          show ?thesis
          proof (cases p)
            case None
            then show ?thesis using body p listed(3) by auto
          next
            case (Some pr)
            then show ?thesis using body p verify_reason_listed
              by (cases "cl_verify client (mp_batch pr) (mp_leaf pr) (mp_siblings pr) c") auto
          qed
        qed
      qed
      then show ?thesis using read_anchor_in [OF a] by (auto simp: anchor_response_def)
    qed
  qed
qed

lemma verify_entered_shape:
  assumes "verify_entered kec client n s c = Inr r"
  shows "4 \<le> length n \<and> length n \<le> 64 \<and> vs_title r = Some n \<and> vs_reason r \<in> set verify_reasons
    \<and> (vs_block r = None \<or> (\<exists>a\<in>set (anchors s). vs_block r = an_block a))"
proof -
  have ok: "verify_request_ok (title_query n)" using assms by (auto simp: verify_entered_def split: if_splits)
  then have len: "4 \<le> length n" "length n \<le> 64" by (simp_all add: verify_request_ok_def title_query_def ref_ok_def)
  then have o': "verify_online kec client n s c = Inr r"
    using assms ok len(1) by (cases "n = []") (auto simp: verify_entered_def verify_title_def title_query_def bundled_def)
  show ?thesis using verify_online_shape [OF o'] len by simp
qed

lemma int_str_length: "0 \<le> i \<Longrightarrow> i < 10 ^ 30 \<Longrightarrow> length (int_str i) \<le> 30"
  by (simp add: int_str_def nat_str_length_le nat_less_iff)

lemma ussd_route_cases:
  "(case fst (ussd_route E client c q st) of Inl _ \<Rightarrow> True | Inr body \<Rightarrow> ussd_reply body)
   \<and> registry (snd (snd (ussd_route E client c q st))) = registry (snd st)"
proof -
  obtain ca s where st: "st = (ca, s)" by (cases st)
  consider "ussd_steps q = []" | w rest where "ussd_steps q = ''1'' # w # rest"
    | w rest where "ussd_steps q = ''2'' # w # rest"
    | ch rest where "ussd_steps q = ch # rest" "ch \<noteq> ''1'' \<or> rest = []" "ch \<noteq> ''2'' \<or> rest = []"
    by (metis list.exhaust)
  then show ?thesis
  proof cases
    case 1
    then show ?thesis by (simp add: ussd_route_def st)
  next
    case 2
    then show ?thesis by (simp add: ussd_route_def st Let_def split: sum.splits)
  next
    case 3
    then show ?thesis by (simp add: ussd_route_def st Let_def split: sum.splits option.splits)
  next
    case 4
    then show ?thesis by (auto simp: ussd_route_def st Let_def)
  qed
qed

section \<open>Properties\<close>

text \<open>
  Every reply to a feature phone is CON or END with a text of at most 182 characters, whatever
  the caller typed and whatever the tables hold, and answering changes no owner, parcel, title,
  transfer, dispute or appeal.
\<close>

lemma ussd_reply_fits:
  "(case fst (ussd_route E client c q st) of Inl _ \<Rightarrow> True | Inr body \<Rightarrow> ussd_reply body)
   \<and> registry (snd (snd (ussd_route E client c q st))) = registry (snd st)"
  by (rule ussd_route_cases)

text \<open>
  A verification result fits the 160 characters of one SMS: the title number has at most 64
  characters, the reasons are fixed texts, and a block number below \<open>10^30\<close> has at most 30 digits.
\<close>

lemma verify_result_fits_sms:
  assumes "verify_entered kec client n s c = Inr r" and "\<forall>a\<in>set (anchors s). ref_ok (\<lambda>b. 0 \<le> b \<and> b < 10 ^ 30) (an_block a)"
  shows "length (format_verify_result r) \<le> 160"
proof -
  have sh: "length n \<le> 64" "vs_title r = Some n" "vs_reason r \<in> set verify_reasons" "n \<noteq> []"
    "vs_block r = None \<or> (\<exists>a\<in>set (anchors s). vs_block r = an_block a)"
    using verify_entered_shape [OF assms(1)] by auto
  have title: "length (text_or (vs_title r) t) \<le> 64" for t using sh by (simp add: text_or_def)
  have reason: "length (text_or (vs_reason r) ''unverified'') \<le> 26"
    using sh(3) by (auto simp: verify_reasons_def text_or_def)
  have block: "length (int_str (the (vs_block r))) \<le> 30" if nb: "vs_block r \<noteq> None"
  proof -
    obtain b where b: "vs_block r = Some b" using nb by auto
    then obtain a where "a \<in> set (anchors s)" "an_block a = Some b" using sh(5) by auto
    then have "a \<in> set (anchors s)" "an_block a = Some b" "vs_block r = Some b" using b by simp_all
    then show ?thesis using assms(2) by (fastforce simp: ref_ok_def intro: int_str_length)
  qed
  have tx: "length (take 8 x) \<le> 8" for x :: string by simp
  show ?thesis
  proof (cases "vs_valid r")
    case True
    have "length (if vs_block r = None \<or> vs_block r = Some 0 then [8212] else code_points (int_str (the (vs_block r)))) \<le> 30"
      using block by auto
    then show ?thesis using True title [of "''(unknown)''"] tx [of "drop 2 (text_or (vs_tx r) [])"]
      by (simp add: format_verify_result_def Let_def)
  next
    case False
    then show ?thesis using title [of "''(unknown)''"] reason
      by (simp add: format_verify_result_def Let_def length_replace_char_one)
  qed
qed

lemma verify_result_fits_sms_witness:
  "\<exists>r. verify_entered pad32 (mock_client pad32 pad32) ''UG-MIT-T00007/2026'' demo_db new_mock_chain = Inr r
     \<and> length (format_verify_result r) \<le> 160"
proof -
  obtain r where r: "verify_entered pad32 (mock_client pad32 pad32) ''UG-MIT-T00007/2026'' demo_db new_mock_chain = Inr r"
    by (simp add: verify_entered_def title_query_def verify_request_ok_def ref_ok_def verify_title_def bundled_def
        verify_online_def read_title_def find_title_def demo_db_def empty_db_def)
  have "\<forall>a\<in>set (anchors demo_db). ref_ok (\<lambda>b. 0 \<le> b \<and> b < 10 ^ 30) (an_block a)" by (simp add: demo_db_def empty_db_def)
  from verify_result_fits_sms [OF r this] r show ?thesis by blast
qed

text \<open>
  A caller who types a title number shorter than 4 or longer than 64 characters gets no reply
  at all: the request model raises inside the handler, after the session has been stored.
\<close>

lemma ussd_bad_title_raises:
  assumes "ussd_steps q = ''1'' # t # rest" and "length (entered t) < 4 \<or> 64 < length (entered t)"
  shows "\<exists>cache'. ussd_route E client c q (cache, s) = (Inl ValueError, cache', s)"
  using assms by (auto simp: ussd_route_def verify_entered_def verify_request_ok_def title_query_def ref_ok_def Let_def)

lemma ussd_bad_title_raises_witness:
  "\<exists>cache'. ussd_route demo_env (mock_client pad32 pad32) new_mock_chain
       \<lparr>us_session = ''s1'', us_service = ''*247*256#'', us_phone = ''+256700000000'', us_text = ''1*AB''\<rparr> (Map.empty, demo_db)
     = (Inl ValueError, cache', demo_db)"
proof (rule ussd_bad_title_raises)
  show "ussd_steps \<lparr>us_session = ''s1'', us_service = ''*247*256#'', us_phone = ''+256700000000'', us_text = ''1*AB''\<rparr>
      = ''1'' # ''AB'' # []"
    by (simp add: ussd_steps_def)
  have "entered ''AB'' = ''AB''" by code_simp
  then show "length (entered ''AB'') < 4 \<or> 64 < length (entered ''AB'')" by simp
qed

end
