(* ===== verification/Contracts.thy ===== *)
theory Contracts
  imports Merkle
begin

text \<open>
  The two Solidity contracts under \<open>contracts/src\<close>: \<open>LandRegistryAnchor\<close>, which stores one Merkle
  root per batch and verifies proofs, and \<open>MultiSigRegistrar\<close>, the k-of-n wrapper around it.

  A \<open>bytes32\<close> is a word of 256 bits, an \<open>address\<close> one of 160, a mapping a total function whose
  default is zero.  A call that reverts is an error and leaves no state.  \<open>keccak256\<close> is the
  argument \<open>kec\<close>.  AccessControl and Pausable of OpenZeppelin are not in the repository: what the
  contract uses of them is the argument \<open>oz\<close>, operations on a state of their own.

  The lemmas show that \<open>verifyProof\<close> gives the verdict of the Python mirror on 32-byte strings
  (the order on \<open>bytes32\<close> is the order on byte strings), and that under the wrapper a root is
  stored only after as many different signers as the threshold says have confirmed it.
\<close>

section \<open>bytes32\<close>

type_synonym b32 = "256 word"
type_synonym address = "160 word"

text \<open>Big-endian, as \<open>abi.encodePacked\<close> and the ABI decoder have it.\<close>

definition be_nat :: "bytes \<Rightarrow> nat" where
  "be_nat bs = foldl (\<lambda>n b. 256 * n + unat b) 0 bs"

fun be_bytes :: "nat \<Rightarrow> nat \<Rightarrow> bytes" where
  "be_bytes 0 n = []"
| "be_bytes (Suc k) n = be_bytes k (n div 256) @ [word_of_nat n]"

definition b32_of :: "bytes \<Rightarrow> b32" where
  "b32_of bs = word_of_nat (be_nat bs)"

definition b32_bytes :: "b32 \<Rightarrow> bytes" where
  "b32_bytes w = be_bytes 32 (unat w)"

section \<open>LandRegistryAnchor\<close>

datatype evm_error =
  EmptyRoot | DuplicateBatch b32 | Unauthorized | EnforcedPause
| NotASigner | AlreadyConfirmed | AlreadyExecuted | InvalidThreshold | InsufficientSigners

type_synonym 'a sol = "evm_error + 'a"

datatype oz_role = DEFAULT_ADMIN_ROLE | REGISTRAR_ROLE

record 'z open_zeppelin =
  oz_has_role :: "oz_role \<Rightarrow> address \<Rightarrow> 'z \<Rightarrow> bool"
  oz_grant :: "oz_role \<Rightarrow> address \<Rightarrow> 'z \<Rightarrow> 'z"
  oz_paused :: "'z \<Rightarrow> bool"
  oz_pause :: "'z \<Rightarrow> 'z"
  oz_unpause :: "'z \<Rightarrow> 'z"

text \<open>\<open>msg.sender\<close> and \<open>block.timestamp\<close>.\<close>

record call_info =
  ci_sender :: address
  ci_time :: "256 word"

record root_anchor =
  ra_root :: b32
  ra_district :: "16 word"
  ra_time :: "64 word"
  ra_registrar :: address

record 'z anchor_contract =
  ac_anchors :: "b32 \<Rightarrow> root_anchor"
  ac_total :: "256 word"
  ac_access :: 'z

definition no_anchor :: root_anchor where
  "no_anchor = \<lparr>ra_root = 0, ra_district = 0, ra_time = 0, ra_registrar = 0\<rparr>"

definition new_anchor_contract :: "'z open_zeppelin \<Rightarrow> 'z \<Rightarrow> address \<Rightarrow> 'z anchor_contract" where
  "new_anchor_contract oz z admin =
     \<lparr>ac_anchors = (\<lambda>_. no_anchor), ac_total = 0,
      ac_access = oz_grant oz REGISTRAR_ROLE admin (oz_grant oz DEFAULT_ADMIN_ROLE admin z)\<rparr>"

definition commit_batch_sol ::
  "'z open_zeppelin \<Rightarrow> call_info \<Rightarrow> 16 word \<Rightarrow> b32 \<Rightarrow> b32 \<Rightarrow> 'z anchor_contract \<Rightarrow> 'z anchor_contract sol" where
  "commit_batch_sol oz m district batch rt k =
     (if \<not> oz_has_role oz REGISTRAR_ROLE (ci_sender m) (ac_access k) then Inl Unauthorized
      else if oz_paused oz (ac_access k) then Inl EnforcedPause
      else if rt = 0 then Inl EmptyRoot
      else if ra_time (ac_anchors k batch) \<noteq> 0 then Inl (DuplicateBatch batch)
      else Inr (k\<lparr>ac_anchors := (ac_anchors k)(batch :=
                     \<lparr>ra_root = rt, ra_district = district, ra_time = ucast (ci_time m), ra_registrar = ci_sender m\<rparr>),
                  ac_total := ac_total k + 1\<rparr>))"

definition keccak_pair_sol :: "(bytes \<Rightarrow> bytes) \<Rightarrow> b32 \<Rightarrow> b32 \<Rightarrow> b32" where
  "keccak_pair_sol kec computed sibling =
     b32_of (kec (if computed \<le> sibling then b32_bytes computed @ b32_bytes sibling
                  else b32_bytes sibling @ b32_bytes computed))"

definition verify_proof_sol :: "(bytes \<Rightarrow> bytes) \<Rightarrow> b32 \<Rightarrow> b32 \<Rightarrow> b32 list \<Rightarrow> 'z anchor_contract \<Rightarrow> bool" where
  "verify_proof_sol kec batch leaf proof k =
     (let rt = ra_root (ac_anchors k batch)
      in if rt = 0 then False else foldl (keccak_pair_sol kec) leaf proof = rt)"

definition pause_sol :: "'z open_zeppelin \<Rightarrow> call_info \<Rightarrow> 'z anchor_contract \<Rightarrow> 'z anchor_contract sol" where
  "pause_sol oz m k =
     (if \<not> oz_has_role oz DEFAULT_ADMIN_ROLE (ci_sender m) (ac_access k) then Inl Unauthorized
      else Inr (k\<lparr>ac_access := oz_pause oz (ac_access k)\<rparr>))"

definition unpause_sol :: "'z open_zeppelin \<Rightarrow> call_info \<Rightarrow> 'z anchor_contract \<Rightarrow> 'z anchor_contract sol" where
  "unpause_sol oz m k =
     (if \<not> oz_has_role oz DEFAULT_ADMIN_ROLE (ci_sender m) (ac_access k) then Inl Unauthorized
      else Inr (k\<lparr>ac_access := oz_unpause oz (ac_access k)\<rparr>))"

section \<open>MultiSigRegistrar\<close>

record ms_proposal =
  sp_district :: "16 word"
  sp_batch_id :: b32
  sp_merkle :: b32
  sp_confirmations :: "8 word"
  sp_executed :: bool
  sp_at :: "64 word"

record multisig =
  mg_threshold :: "8 word"
  mg_signers :: "address list"
  mg_is_signer :: "address \<Rightarrow> bool"
  mg_proposals :: "b32 \<Rightarrow> ms_proposal"
  mg_confirmed :: "b32 \<Rightarrow> address \<Rightarrow> bool"

definition no_proposal :: ms_proposal where
  "no_proposal = \<lparr>sp_district = 0, sp_batch_id = 0, sp_merkle = 0, sp_confirmations = 0, sp_executed = False, sp_at = 0\<rparr>"

fun seat_signers :: "address list \<Rightarrow> multisig \<Rightarrow> multisig sol" where
  "seat_signers [] g = Inr g"
| "seat_signers (s # rest) g =
     (if s = 0 \<or> mg_is_signer g s then Inl InvalidThreshold
      else seat_signers rest (g\<lparr>mg_is_signer := (mg_is_signer g)(s := True), mg_signers := mg_signers g @ [s]\<rparr>))"

definition new_multisig :: "address list \<Rightarrow> 8 word \<Rightarrow> multisig sol" where
  "new_multisig signers threshold =
     (if length signers < unat threshold \<or> threshold = 0 then Inl InvalidThreshold
      else if length signers < 3 then Inl InsufficientSigners
      else seat_signers signers
        \<lparr>mg_threshold = threshold, mg_signers = [], mg_is_signer = (\<lambda>_. False),
         mg_proposals = (\<lambda>_. no_proposal), mg_confirmed = (\<lambda>_ _. False)\<rparr>)"

text \<open>\<open>keccak256(abi.encode(districtId, batchId, merkleRoot))\<close>: three words of 32 bytes.\<close>

definition proposal_id_of :: "(bytes \<Rightarrow> bytes) \<Rightarrow> 16 word \<Rightarrow> b32 \<Rightarrow> b32 \<Rightarrow> b32" where
  "proposal_id_of kec district batch rt =
     b32_of (kec (b32_bytes (ucast district) @ b32_bytes batch @ b32_bytes rt))"

text \<open>\<open>self\<close> is the address of the wrapper, the sender of its call of \<open>commitBatch\<close>.\<close>

definition propose_and_confirm ::
  "'z open_zeppelin \<Rightarrow> (bytes \<Rightarrow> bytes) \<Rightarrow> address \<Rightarrow> call_info \<Rightarrow> 16 word \<Rightarrow> b32 \<Rightarrow> b32
   \<Rightarrow> multisig \<times> 'z anchor_contract \<Rightarrow> (multisig \<times> 'z anchor_contract) sol" where
  "propose_and_confirm oz kec self m district batch rt gk =
     (let (g, k) = gk; who = ci_sender m
      in if \<not> mg_is_signer g who then Inl NotASigner
         else
           let pid = proposal_id_of kec district batch rt;
               p = mg_proposals g pid
           in if sp_executed p then Inl AlreadyExecuted
              else if mg_confirmed g pid who then Inl AlreadyConfirmed
              else
                let p1 = (if sp_at p = 0
                          then p\<lparr>sp_district := district, sp_batch_id := batch, sp_merkle := rt, sp_at := ucast (ci_time m)\<rparr>
                          else p);
                    p2 = p1\<lparr>sp_confirmations := sp_confirmations p1 + 1\<rparr>;
                    g1 = g\<lparr>mg_confirmed := (mg_confirmed g)(pid := (mg_confirmed g pid)(who := True))\<rparr>
                in if mg_threshold g \<le> sp_confirmations p2
                   then (case commit_batch_sol oz \<lparr>ci_sender = self, ci_time = ci_time m\<rparr> district batch rt k of
                           Inl e \<Rightarrow> Inl e
                         | Inr k' \<Rightarrow> Inr (g1\<lparr>mg_proposals := (mg_proposals g)(pid := p2\<lparr>sp_executed := True\<rparr>)\<rparr>, k'))
                   else Inr (g1\<lparr>mg_proposals := (mg_proposals g)(pid := p2)\<rparr>, k))"

section \<open>Byte order\<close>

lemma be_nat_Nil [simp]: "be_nat [] = 0"
  by (simp add: be_nat_def)

lemma be_nat_snoc [simp]: "be_nat (bs @ [b]) = 256 * be_nat bs + unat b"
  by (simp add: be_nat_def)

lemma be_nat_Cons: "be_nat (b # bs) = unat b * 256 ^ length bs + be_nat bs"
proof (induction bs rule: rev_induct)
  case Nil
  then show ?case by (simp add: be_nat_def)
next
  case (snoc c cs)
  have "be_nat ((b # cs) @ [c]) = 256 * be_nat (b # cs) + unat c" by (rule be_nat_snoc)
  then show ?case using snoc by (simp add: algebra_simps)
qed

lemma be_nat_less: "be_nat bs < 256 ^ length bs"
proof (induction bs)
  case (Cons b bs)
  have "unat b * 256 ^ length bs + be_nat bs < (unat b + 1) * 256 ^ length bs" using Cons by (simp add: algebra_simps)
  also have "\<dots> \<le> 256 * 256 ^ length bs" using unat_byte_bound [of b] by (intro mult_le_mono1) simp
  finally show ?case by (simp add: be_nat_Cons)
qed simp

lemma length_be_bytes [simp]: "length (be_bytes k n) = k"
  by (induction k arbitrary: n) simp_all

lemma be_bytes_be_nat: "length bs = k \<Longrightarrow> be_bytes k (be_nat bs) = bs"
proof (induction bs arbitrary: k rule: rev_induct)
  case (snoc b bs)
  then obtain j where k: "k = Suc j" "length bs = j" by auto
  have "(256 * be_nat bs + unat b) div 256 = be_nat bs" using unat_byte_bound [of b] by simp
  moreover have "(word_of_nat (256 * be_nat bs + unat b) :: 8 word) = b"
  proof -
    have "(word_of_nat (256 * be_nat bs) :: 8 word) = 0" by (simp only: word_of_nat_eq_0_iff) simp
    then show ?thesis by (simp only: of_nat_add of_nat_unat add_0) simp
  qed
  ultimately show ?case using snoc.IH [OF k(2)] by (simp add: k(1))
qed simp

lemma be_nat_be_bytes: "be_nat (be_bytes k n) = n mod 256 ^ k"
proof (induction k arbitrary: n)
  case (Suc k)
  have "unat (word_of_nat n :: 8 word) = n mod 256" by (simp add: unsigned_of_nat take_bit_eq_mod)
  then show ?case using Suc by (simp add: mod_mult2_eq)
qed simp

text \<open>Strings of equal length compare as the numbers they spell.\<close>

lemma be_nat_le_iff: "length a = length b \<Longrightarrow> be_nat a \<le> be_nat b \<longleftrightarrow> a \<le> b"
proof (induction a b rule: list_induct2)
  case (Cons x xs y ys)
  have b: "be_nat xs < 256 ^ length ys" "be_nat ys < 256 ^ length ys"
    using be_nat_less [of xs] be_nat_less [of ys] Cons.hyps by simp_all
  have less: "unat u * P + i \<le> unat v * P + j \<longleftrightarrow> unat u < unat v \<or> (unat u = unat v \<and> i \<le> j)"
    if "i < P" "j < P" for u v :: "8 word" and P i j :: nat
  proof -
    have *: "unat w * P + k \<le> unat z * P + l" if "unat w < unat z" "k < P" for w z :: "8 word" and k l
    proof -
      have "unat w * P + k < (unat w + 1) * P" using that by (simp add: algebra_simps)
      also have "\<dots> \<le> unat z * P" using that by (intro mult_le_mono1) simp
      finally show ?thesis by simp
    qed
    have "\<not> unat u * P + i \<le> unat v * P + j" if "unat v < unat u"
    proof -
      have "unat v * P + j < (unat v + 1) * P" using \<open>j < P\<close> by (simp add: algebra_simps)
      also have "\<dots> \<le> unat u * P" using that by (intro mult_le_mono1) simp
      finally show ?thesis by simp
    qed
    then show ?thesis using * [of u v i j] \<open>i < P\<close> by (cases "unat u" "unat v" rule: linorder_cases) auto
  qed
  have "be_nat (x # xs) \<le> be_nat (y # ys) \<longleftrightarrow> unat x < unat y \<or> (unat x = unat y \<and> be_nat xs \<le> be_nat ys)"
    using less [OF b] Cons.hyps by (simp add: be_nat_Cons)
  then show ?case using Cons.IH by (auto simp: word_less_nat_alt word_unat_eq_iff)
qed simp

lemma length_b32_bytes [simp]: "length (b32_bytes w) = 32"
  by (simp add: b32_bytes_def)

lemma unat_b32_of: "length bs = 32 \<Longrightarrow> unat (b32_of bs) = be_nat bs"
  using be_nat_less [of bs] by (simp add: b32_of_def unsigned_of_nat take_bit_eq_mod)

lemma b32_bytes_of [simp]: "length bs = 32 \<Longrightarrow> b32_bytes (b32_of bs) = bs"
  by (simp add: b32_bytes_def unat_b32_of be_bytes_be_nat)

lemma b32_of_bytes [simp]: "b32_of (b32_bytes w) = w"
proof -
  have "unat w < 256 ^ 32" using unsigned_less [of w] by simp
  then show ?thesis by (simp add: b32_of_def b32_bytes_def be_nat_be_bytes)
qed

lemma b32_of_eq_iff: "length a = 32 \<Longrightarrow> length b = 32 \<Longrightarrow> b32_of a = b32_of b \<longleftrightarrow> a = b"
  by (metis b32_bytes_of)

lemma b32_of_le_iff: "length a = 32 \<Longrightarrow> length b = 32 \<Longrightarrow> b32_of a \<le> b32_of b \<longleftrightarrow> a \<le> b"
  by (simp add: word_le_nat_alt unat_b32_of be_nat_le_iff)

section \<open>verifyProof and its mirror\<close>

lemma keccak_pair_sol_mirror:
  assumes "digest32 kec" "length a = 32" "length b = 32"
  shows "keccak_pair_sorted kec (hex0x a) (hex0x b) = Inr (hex0x (b32_bytes (keccak_pair_sol kec (b32_of a) (b32_of b))))"
  using assms by (simp add: keccak_pair_sorted_hex0x keccak_pair_sol_def b32_of_le_iff digest32_def)

lemma climb_sorted_sol:
  "digest32 kec \<Longrightarrow> length l = 32 \<Longrightarrow> list_all (\<lambda>b. length b = 32) ps
   \<Longrightarrow> climb_sorted kec (hex0x l) (map hex0x ps) = Inr (hex0x (b32_bytes (foldl (keccak_pair_sol kec) (b32_of l) (map b32_of ps))))"
proof (induction ps arbitrary: l)
  case (Cons p ps)
  have "climb_sorted kec (hex0x (b32_bytes (keccak_pair_sol kec (b32_of l) (b32_of p)))) (map hex0x ps)
     = Inr (hex0x (b32_bytes (foldl (keccak_pair_sol kec) (keccak_pair_sol kec (b32_of l) (b32_of p)) (map b32_of ps))))"
    using Cons.IH [of "b32_bytes (keccak_pair_sol kec (b32_of l) (b32_of p))"] Cons.prems by simp
  then show ?case using Cons.prems by (simp add: keccak_pair_sol_mirror)
qed simp

lemma verify_proof_sol_mirror:
  assumes "digest32 kec" "length l = 32" "list_all (\<lambda>b. length b = 32) ps" "length rt = 32"
    and "ra_root (ac_anchors k batch) = b32_of rt" "b32_of rt \<noteq> 0"
  shows "verify_merkle_proof_evm kec (hex0x l) (map hex0x ps) (hex0x rt) = Inr (verify_proof_sol kec batch (b32_of l) (map b32_of ps) k)"
proof -
  let ?h = "foldl (keccak_pair_sol kec) (b32_of l) (map b32_of ps)"
  have "b32_bytes ?h = rt \<longleftrightarrow> ?h = b32_of rt" using assms(4) by (metis b32_bytes_of b32_of_bytes)
  then show ?thesis
    using climb_sorted_sol [OF assms(1-3)] assms(5,6) by (simp add: verify_merkle_proof_evm_def verify_proof_sol_def hex_simps)
qed

section \<open>Custody\<close>

text \<open>
  What can happen to the two contracts: anybody calls the wrapper or calls \<open>commitBatch\<close>,
  \<open>pause\<close> or \<open>unpause\<close> directly.  Only the wrapper's own code sends as \<open>self\<close>.  The registrar role
  is not granted anew in these steps.
\<close>

inductive custody_step ::
  "'z open_zeppelin \<Rightarrow> (bytes \<Rightarrow> bytes) \<Rightarrow> address \<Rightarrow> multisig \<times> 'z anchor_contract \<Rightarrow> multisig \<times> 'z anchor_contract \<Rightarrow> bool"
  for oz kec self where
  confirm: "propose_and_confirm oz kec self m d b rt gk = Inr gk' \<Longrightarrow> custody_step oz kec self gk gk'"
| direct: "ci_sender m \<noteq> self \<Longrightarrow> commit_batch_sol oz m d b rt k = Inr k' \<Longrightarrow> custody_step oz kec self (g, k) (g, k')"
| pause: "pause_sol oz m k = Inr k' \<Longrightarrow> custody_step oz kec self (g, k) (g, k')"
| unpause: "unpause_sol oz m k = Inr k' \<Longrightarrow> custody_step oz kec self (g, k) (g, k')"

inductive custody_reach ::
  "'z open_zeppelin \<Rightarrow> (bytes \<Rightarrow> bytes) \<Rightarrow> address \<Rightarrow> multisig \<times> 'z anchor_contract \<Rightarrow> multisig \<times> 'z anchor_contract \<Rightarrow> bool"
  for oz kec self gk0 where
  start: "custody_reach oz kec self gk0 gk0"
| step: "custody_reach oz kec self gk0 gk \<Longrightarrow> custody_step oz kec self gk gk' \<Longrightarrow> custody_reach oz kec self gk0 gk'"

text \<open>OpenZeppelin's documented behaviour: pausing touches no role.\<close>

definition pausing_keeps_roles :: "'z open_zeppelin \<Rightarrow> bool" where
  "pausing_keeps_roles oz \<longleftrightarrow> (\<forall>r a z. oz_has_role oz r a (oz_pause oz z) = oz_has_role oz r a z
     \<and> oz_has_role oz r a (oz_unpause oz z) = oz_has_role oz r a z)"

definition confirmers :: "multisig \<Rightarrow> b32 \<Rightarrow> address set" where
  "confirmers g pid = {a. mg_confirmed g pid a}"

text \<open>A root is backed when enough of the signers have confirmed its proposal.\<close>

definition backed :: "(bytes \<Rightarrow> bytes) \<Rightarrow> multisig \<Rightarrow> b32 \<Rightarrow> root_anchor \<Rightarrow> bool" where
  "backed kec g batch a \<longleftrightarrow> unat (mg_threshold g) \<le> card (confirmers g (proposal_id_of kec (ra_district a) batch (ra_root a)))"

definition seated :: "multisig \<Rightarrow> bool" where
  "seated g \<longleftrightarrow> (\<forall>a. mg_is_signer g a \<longleftrightarrow> a \<in> set (mg_signers g)) \<and> distinct (mg_signers g) \<and> 0 < unat (mg_threshold g)
     \<and> (\<forall>pid. confirmers g pid \<subseteq> set (mg_signers g)
          \<and> (\<not> sp_executed (mg_proposals g pid) \<longrightarrow>
               unat (sp_confirmations (mg_proposals g pid)) = card (confirmers g pid)
               \<and> card (confirmers g pid) < unat (mg_threshold g)))"

definition custody_inv :: "'z open_zeppelin \<Rightarrow> (bytes \<Rightarrow> bytes) \<Rightarrow> address \<Rightarrow> multisig \<times> 'z anchor_contract \<Rightarrow> bool" where
  "custody_inv oz kec self gk \<longleftrightarrow> seated (fst gk)
     \<and> (\<forall>a. oz_has_role oz REGISTRAR_ROLE a (ac_access (snd gk)) \<longrightarrow> a = self)
     \<and> (\<forall>b. ra_root (ac_anchors (snd gk) b) \<noteq> 0 \<longrightarrow> backed kec (fst gk) b (ac_anchors (snd gk) b))"

lemma commit_batch_sol_Inr:
  "commit_batch_sol oz m d b rt k = Inr k' \<longleftrightarrow>
     oz_has_role oz REGISTRAR_ROLE (ci_sender m) (ac_access k) \<and> \<not> oz_paused oz (ac_access k) \<and> rt \<noteq> 0
     \<and> ra_time (ac_anchors k b) = 0
     \<and> k' = k\<lparr>ac_anchors := (ac_anchors k)(b := \<lparr>ra_root = rt, ra_district = d, ra_time = ucast (ci_time m), ra_registrar = ci_sender m\<rparr>),
              ac_total := ac_total k + 1\<rparr>"
  by (auto simp: commit_batch_sol_def)

text \<open>A call of the wrapper that does not revert adds one confirmation, and commits when that is enough.\<close>

lemma propose_and_confirm_Inr:
  assumes "propose_and_confirm oz kec self m d b rt (g, k) = Inr (g', k')"
  defines "pid \<equiv> proposal_id_of kec d b rt"
  shows "mg_is_signer g (ci_sender m)" "\<not> sp_executed (mg_proposals g pid)" "\<not> mg_confirmed g pid (ci_sender m)"
    "mg_threshold g' = mg_threshold g" "mg_signers g' = mg_signers g" "mg_is_signer g' = mg_is_signer g"
    "confirmers g' pid = insert (ci_sender m) (confirmers g pid)"
    "q \<noteq> pid \<Longrightarrow> confirmers g' q = confirmers g q \<and> mg_proposals g' q = mg_proposals g q"
    "sp_confirmations (mg_proposals g' pid) = sp_confirmations (mg_proposals g pid) + 1"
    "sp_executed (mg_proposals g' pid) \<longleftrightarrow> mg_threshold g \<le> sp_confirmations (mg_proposals g pid) + 1"
    "if mg_threshold g \<le> sp_confirmations (mg_proposals g pid) + 1
     then commit_batch_sol oz \<lparr>ci_sender = self, ci_time = ci_time m\<rparr> d b rt k = Inr k' else k' = k"
  using assms(1)
  by (auto simp: propose_and_confirm_def pid_def [symmetric] confirmers_def Let_def split: if_splits sum.splits)

lemma propose_seated:
  assumes "propose_and_confirm oz kec self m d b rt (g, k) = Inr (g', k')" and "seated g"
  shows "seated g'"
proof -
  let ?pid = "proposal_id_of kec d b rt"
  note e = propose_and_confirm_Inr [OF assms(1)]
  let ?n = "sp_confirmations (mg_proposals g ?pid)"
  have n: "unat ?n = card (confirmers g ?pid)" "card (confirmers g ?pid) < unat (mg_threshold g)"
    using assms(2) e(2) by (auto simp: seated_def)
  have fin: "finite (confirmers g ?pid)" using assms(2) by (auto simp: seated_def intro: finite_subset)
  have card: "card (confirmers g' ?pid) = Suc (card (confirmers g ?pid))"
    unfolding e(7) using e(3) fin by (subst card_insert_disjoint) (auto simp: confirmers_def)
  have "unat ?n + 1 < 256" using n unat_byte_bound [of "mg_threshold g"] by simp
  then have suc: "unat (?n + 1) = Suc (unat ?n)" by (simp add: unat_word_ariths)
  have "unat (sp_confirmations (mg_proposals g' ?pid)) = card (confirmers g' ?pid)
     \<and> card (confirmers g' ?pid) < unat (mg_threshold g')" if "\<not> sp_executed (mg_proposals g' ?pid)"
    using that suc n card by (simp add: e(4,9,10) word_le_nat_alt)
  moreover have "confirmers g' ?pid \<subseteq> set (mg_signers g')" using assms(2) e(1) by (auto simp: e(5,7) seated_def)
  ultimately have "confirmers g' q \<subseteq> set (mg_signers g')
      \<and> (\<not> sp_executed (mg_proposals g' q) \<longrightarrow> unat (sp_confirmations (mg_proposals g' q)) = card (confirmers g' q)
          \<and> card (confirmers g' q) < unat (mg_threshold g'))" for q
    using assms(2) e(8) [of q] by (cases "q = ?pid") (auto simp: seated_def e(4,5))
  then show ?thesis using assms(2) by (simp add: seated_def e(4,5,6))
qed

lemma backed_mono:
  assumes "backed kec g b a" "\<And>q. confirmers g q \<subseteq> confirmers g' q" "mg_threshold g' = mg_threshold g" "\<And>q. finite (confirmers g' q)"
  shows "backed kec g' b a"
  using assms(1,3) order_trans card_mono [OF assms(4) assms(2)] unfolding backed_def by metis

lemma custody_confirm:
  assumes run: "propose_and_confirm oz kec self m d b rt (g, k) = Inr (g', k')" and inv: "custody_inv oz kec self (g, k)"
  shows "custody_inv oz kec self (g', k')"
proof -
  let ?pid = "proposal_id_of kec d b rt"
  note e = propose_and_confirm_Inr [OF run]
  have seat: "seated g" "seated g'" using propose_seated [OF run] inv by (simp_all add: custody_inv_def)
  have fin: "finite (confirmers g' q)" for q using seat(2) by (auto simp: seated_def intro: finite_subset)
  have grow: "confirmers g q \<subseteq> confirmers g' q" for q using e(7,8) by (cases "q = ?pid") auto
  have old: "ra_root (ac_anchors k c) \<noteq> 0 \<Longrightarrow> backed kec g' c (ac_anchors k c)" for c
    using inv backed_mono [OF _ grow e(4) fin] by (simp add: custody_inv_def)
  show ?thesis
  proof (cases "mg_threshold g \<le> sp_confirmations (mg_proposals g ?pid) + 1")
    case False
    then have "k' = k" using e(11) by simp
    then show ?thesis using inv seat old by (simp add: custody_inv_def)
  next
    case True
    let ?a = "\<lparr>ra_root = rt, ra_district = d, ra_time = ucast (ci_time m), ra_registrar = self\<rparr>"
    have k': "ac_access k' = ac_access k" "ac_anchors k' = (ac_anchors k)(b := ?a)"
      using True e(11) by (simp_all add: commit_batch_sol_Inr)
    have "unat (mg_threshold g) \<le> unat (sp_confirmations (mg_proposals g ?pid) + 1)" using True by (simp add: word_le_nat_alt)
    also have "\<dots> \<le> Suc (unat (sp_confirmations (mg_proposals g ?pid)))" by (simp add: unat_word_ariths)
    also have "\<dots> = Suc (card (confirmers g ?pid))" using seat(1) e(2) by (simp add: seated_def)
    also have "\<dots> = card (confirmers g' ?pid)"
      using e(3) fin [of ?pid] unfolding e(7) by (subst card_insert_disjoint) (auto simp: confirmers_def)
    finally have "backed kec g' b ?a" by (simp add: backed_def e(4))
    then show ?thesis using inv seat(2) old by (simp add: custody_inv_def k')
  qed
qed

lemma custody_step_inv:
  "custody_step oz kec self gk gk' \<Longrightarrow> pausing_keeps_roles oz \<Longrightarrow> custody_inv oz kec self gk \<Longrightarrow> custody_inv oz kec self gk'"
proof (induction rule: custody_step.induct)
  case (confirm m d b rt gk gk')
  then show ?case using custody_confirm by (cases gk; cases gk') blast
next
  case (direct m d b rt k k' g)
  then show ?case by (auto simp: custody_inv_def commit_batch_sol_Inr)
next
  case (pause m k k' g)
  then show ?case by (auto simp: custody_inv_def pause_sol_def pausing_keeps_roles_def split: if_splits)
next
  case (unpause m k k' g)
  then show ?case by (auto simp: custody_inv_def unpause_sol_def pausing_keeps_roles_def split: if_splits)
qed

lemma custody_reach_inv:
  "custody_reach oz kec self gk0 gk \<Longrightarrow> pausing_keeps_roles oz \<Longrightarrow> custody_inv oz kec self gk0 \<Longrightarrow> custody_inv oz kec self gk"
  by (induction rule: custody_reach.induct) (auto intro: custody_step_inv)

lemma custody_step_frame:
  "custody_step oz kec self gk gk' \<Longrightarrow> mg_threshold (fst gk') = mg_threshold (fst gk) \<and> mg_signers (fst gk') = mg_signers (fst gk)"
  by (induction rule: custody_step.induct) (auto dest: propose_and_confirm_Inr)

lemma custody_reach_frame:
  "custody_reach oz kec self gk0 gk \<Longrightarrow> mg_threshold (fst gk) = mg_threshold (fst gk0) \<and> mg_signers (fst gk) = mg_signers (fst gk0)"
  by (induction rule: custody_reach.induct) (auto dest: custody_step_frame)

lemma seat_signers_Inr:
  "seat_signers ss g = Inr g' \<Longrightarrow>
     mg_signers g' = mg_signers g @ ss \<and> (\<forall>a. mg_is_signer g' a \<longleftrightarrow> mg_is_signer g a \<or> a \<in> set ss)
     \<and> mg_threshold g' = mg_threshold g \<and> mg_proposals g' = mg_proposals g \<and> mg_confirmed g' = mg_confirmed g
     \<and> distinct ss \<and> (\<forall>a\<in>set ss. \<not> mg_is_signer g a)"
proof (induction ss arbitrary: g)
  case (Cons s ss)
  let ?g = "g\<lparr>mg_is_signer := (mg_is_signer g)(s := True), mg_signers := mg_signers g @ [s]\<rparr>"
  have s: "\<not> mg_is_signer g s" "seat_signers ss ?g = Inr g'" using Cons.prems by (simp_all split: if_splits)
  show ?case using Cons.IH [OF s(2)] s(1) by (auto split: if_splits)
qed simp

lemma new_multisig_seated:
  assumes "new_multisig signers thr = Inr g"
  shows "seated g" "mg_signers g = signers" "mg_threshold g = thr"
proof -
  have s: "thr \<noteq> 0" "mg_signers g = signers \<and> (\<forall>a. mg_is_signer g a \<longleftrightarrow> a \<in> set signers) \<and> mg_threshold g = thr
      \<and> mg_proposals g = (\<lambda>_. no_proposal) \<and> mg_confirmed g = (\<lambda>_ _. False) \<and> distinct signers"
    using assms seat_signers_Inr by (fastforce simp: new_multisig_def split: if_splits)+
  have "0 < unat thr" using s(1) by (simp add: unat_gt_0)
  then show "seated g" "mg_signers g = signers" "mg_threshold g = thr"
    using s(2) by (simp_all add: seated_def confirmers_def no_proposal_def)
qed

section \<open>Properties\<close>

text \<open>
  C13. The contract's \<open>verifyProof\<close> and the Python mirror are the same function: for a digest of 32
  bytes, a leaf, siblings and a stored root that is not zero, \<open>verify_merkle_proof_evm\<close> on their
  \<open>0x\<close> texts never raises and returns what the contract returns on the \<open>bytes32\<close> values.
\<close>

theorem contract_matches_mirror:
  assumes "digest32 kec" "length l = 32" "list_all (\<lambda>b. length b = 32) ps" "length rt = 32"
    and "ra_root (ac_anchors k batch) = b32_of rt" "b32_of rt \<noteq> 0"
  shows "verify_merkle_proof_evm kec (hex0x l) (map hex0x ps) (hex0x rt) = Inr (verify_proof_sol kec batch (b32_of l) (map b32_of ps) k)"
  using assms by (rule verify_proof_sol_mirror)

text \<open>
  C20. No signer anchors alone: once the registrar role is the wrapper's only, every root the
  contract stores, after any sequence of calls by anybody of the functions the two contracts declare,
  belongs to a proposal that at least the threshold's number of different signers has confirmed.
  The functions inherited from AccessControl are not among the calls: what the administrator of the
  roles can do with them is shown in \<open>Deploy\<close>.
\<close>

theorem multisig_threshold:
  assumes "new_multisig signers thr = Inr g0" and "pausing_keeps_roles oz"
    and "\<And>b. ra_root (ac_anchors k0 b) = 0" and "\<And>a. oz_has_role oz REGISTRAR_ROLE a (ac_access k0) \<Longrightarrow> a = self"
    and "custody_reach oz kec self (g0, k0) (g, k)" and "ra_root (ac_anchors k batch) \<noteq> 0"
  shows "let pid = proposal_id_of kec (ra_district (ac_anchors k batch)) batch (ra_root (ac_anchors k batch))
    in {a. mg_confirmed g pid a} \<subseteq> set signers \<and> unat thr \<le> card {a. mg_confirmed g pid a}"
proof -
  note n = new_multisig_seated [OF assms(1)]
  have "custody_inv oz kec self (g0, k0)" using n(1) assms(3,4) by (simp add: custody_inv_def)
  then have "custody_inv oz kec self (g, k)" using custody_reach_inv assms(2,5) by blast
  moreover have "mg_threshold g = thr" "mg_signers g = signers" using custody_reach_frame [OF assms(5)] n by simp_all
  ultimately show ?thesis using assms(6) by (simp add: custody_inv_def seated_def backed_def confirmers_def)
qed

section \<open>Witnesses\<close>

text \<open>Roles as a set, with the flag of Pausable: enough of OpenZeppelin to run the contracts.\<close>

definition role_oz :: "((oz_role \<times> address) set \<times> bool) open_zeppelin" where
  "role_oz = \<lparr>oz_has_role = (\<lambda>r a z. (r, a) \<in> fst z), oz_grant = (\<lambda>r a z. (insert (r, a) (fst z), snd z)),
     oz_paused = snd, oz_pause = (\<lambda>z. (fst z, True)), oz_unpause = (\<lambda>z. (fst z, False))\<rparr>"

definition anchored_contract :: "address \<Rightarrow> b32 \<Rightarrow> ((oz_role \<times> address) set \<times> bool) anchor_contract" where
  "anchored_contract self rt =
     \<lparr>ac_anchors = (\<lambda>_. no_anchor\<lparr>ra_root := rt\<rparr>), ac_total = 0, ac_access = ({(REGISTRAR_ROLE, self)}, False)\<rparr>"

theorem contract_matches_mirror_witness:
  "verify_merkle_proof_evm pad32 (hex0x (replicate 32 1)) [hex0x (replicate 32 2)] (hex0x (3 # replicate 31 3))
   = Inr (verify_proof_sol pad32 0 (b32_of (replicate 32 1)) [b32_of (replicate 32 2)] (anchored_contract 9 (b32_of (3 # replicate 31 3))))"
proof -
  define l p rt :: bytes where d: "l = replicate 32 1" "p = replicate 32 2" "rt = 3 # replicate 31 3"
  have len: "length l = 32" "list_all (\<lambda>b. length b = 32) [p]" "length rt = 32" by (simp_all add: d)
  have "be_nat rt \<noteq> 0" by (simp add: d be_nat_Cons)
  then have nz: "b32_of rt \<noteq> 0" using unat_b32_of [OF len(3)] by auto
  have "ra_root (ac_anchors (anchored_contract 9 (b32_of rt)) 0) = b32_of rt" by (simp add: anchored_contract_def no_anchor_def)
  from contract_matches_mirror [OF digest32_pad32 len this nz] show ?thesis unfolding d by (simp only: list.map)
qed

definition demo_multisig :: multisig where
  "demo_multisig = \<lparr>mg_threshold = 2, mg_signers = [1, 2, 3], mg_is_signer = (\<lambda>_. False)(1 := True, 2 := True, 3 := True),
     mg_proposals = (\<lambda>_. no_proposal), mg_confirmed = (\<lambda>_ _. False)\<rparr>"

lemma demo_multisig_new: "new_multisig [1, 2, 3] 2 = Inr demo_multisig"
  by (simp add: new_multisig_def demo_multisig_def)

lemma demo_multisig_run:
  "\<exists>g k. custody_reach role_oz pad32 9 (demo_multisig, anchored_contract 9 0) (g, k) \<and> ra_root (ac_anchors k 6) = 7"
proof -
  let ?pid = "proposal_id_of pad32 5 6 7"
  let ?p = "no_proposal\<lparr>sp_district := 5, sp_batch_id := 6, sp_merkle := 7, sp_at := 1, sp_confirmations := 1\<rparr>"
  let ?k0 = "anchored_contract 9 0"
  let ?g1 = "demo_multisig\<lparr>mg_confirmed := (\<lambda>_ _. False)(?pid := (\<lambda>_. False)(1 := True)), mg_proposals := (\<lambda>_. no_proposal)(?pid := ?p)\<rparr>"
  have one: "propose_and_confirm role_oz pad32 9 \<lparr>ci_sender = 1, ci_time = 1\<rparr> 5 6 7 (demo_multisig, ?k0) = Inr (?g1, ?k0)"
    by (simp add: propose_and_confirm_def demo_multisig_def no_proposal_def Let_def word_le_nat_alt)
  obtain g k where two: "propose_and_confirm role_oz pad32 9 \<lparr>ci_sender = 2, ci_time = 1\<rparr> 5 6 7 (?g1, ?k0) = Inr (g, k)"
    and root: "ra_root (ac_anchors k 6) = 7"
    by (simp add: propose_and_confirm_def demo_multisig_def no_proposal_def Let_def commit_batch_sol_def role_oz_def
        anchored_contract_def no_anchor_def)
  have "custody_reach role_oz pad32 9 (demo_multisig, ?k0) (g, k)"
    by (rule custody_reach.step [OF custody_reach.step [OF custody_reach.start custody_step.confirm [OF one]] custody_step.confirm [OF two]])
  then show ?thesis using root by blast
qed

theorem multisig_threshold_witness:
  "\<exists>g k pid. custody_reach role_oz pad32 9 (demo_multisig, anchored_contract 9 0) (g, k) \<and> ra_root (ac_anchors k 6) = 7
     \<and> {a. mg_confirmed g pid a} \<subseteq> {1, 2, 3} \<and> 2 \<le> card {a. mg_confirmed g pid a}"
proof -
  obtain g k where r: "custody_reach role_oz pad32 9 (demo_multisig, anchored_contract 9 0) (g, k)" "ra_root (ac_anchors k 6) = 7"
    using demo_multisig_run by blast
  have "pausing_keeps_roles role_oz" by (simp add: pausing_keeps_roles_def role_oz_def)
  from multisig_threshold [OF demo_multisig_new this _ _ r(1), of 6] r show ?thesis
    by (auto simp: Let_def anchored_contract_def no_anchor_def role_oz_def)
qed

end
