(* ===== verification/Chain_Evm.thy ===== *)
theory Chain_Evm
  imports Anchor_Props Contracts
begin

text \<open>
  The clients that speak to a node: \<open>backend/app/blockchain/anvil_client.py\<close>,
  \<open>sepolia_client.py\<close>, \<open>multisig_client.py\<close> and the co-signer \<open>backend/scripts/co_sign_daemon.py\<close>.

  Web3, eth-account and hexbytes are not in the repository.  What the clients call of them is the
  record \<open>web3\<close> of operations on the state of a node.  The locale \<open>evm_node\<close> states their documented
  behaviour over the Solidity code of \<open>Contracts\<close>: the node runs the contract, a receipt with
  status 1 means that the call ran without reverting.  Under it both single-signer clients provide
  the interface \<open>chain_contract\<close>, so all that the anchor service proves over it holds for them.
\<close>

section \<open>The libraries\<close>

datatype evm_call =
    Commit_batch int bytes bytes
  | Propose_and_confirm int bytes bytes

datatype evm_fees = Gas_price int | Max_fees int int

record evm_tx =
  tx_from :: string
  tx_to :: string
  tx_call :: evm_call
  tx_nonce :: int
  tx_gas :: int
  tx_fees :: evm_fees
  tx_chain :: int

text \<open>The status of a receipt as a truth value, and its block.\<close>

record tx_receipt =
  er_ok :: bool
  er_block :: int

record created_log =
  lg_proposal :: bytes
  lg_district :: int
  lg_batch :: bytes
  lg_root :: bytes

text \<open>
  \<open>w_send\<close> encodes, signs and sends and gives \<open>tx_hash.hex()\<close>; \<open>w_wait\<close> is None when the time given
  runs out; \<open>w_stored_at\<close> is the timestamp of \<open>anchors(batch)\<close>, \<open>w_executed\<close> the flag of
  \<open>proposals(id)\<close>; \<open>w_sleep\<close> is what others do to the chain meanwhile.
\<close>

record 'n web3 =
  w_hexbytes :: "string \<Rightarrow> bytes res"
  w_checksum :: "string \<Rightarrow> string res"
  w_nonce :: "string \<Rightarrow> 'n \<Rightarrow> int res"
  w_gas_price :: "'n \<Rightarrow> int res"
  w_base_fee :: "'n \<Rightarrow> int option res"
  w_chain_id :: "'n \<Rightarrow> int res"
  w_block :: "'n \<Rightarrow> int res"
  w_send :: "evm_tx \<Rightarrow> 'n \<Rightarrow> (string, 'n) outcome"
  w_wait :: "nat option \<Rightarrow> string \<Rightarrow> 'n \<Rightarrow> (tx_receipt option, 'n) outcome"
  w_verify :: "string \<Rightarrow> bytes \<Rightarrow> bytes \<Rightarrow> bytes list \<Rightarrow> 'n \<Rightarrow> bool res"
  w_stored_at :: "string \<Rightarrow> bytes \<Rightarrow> 'n \<Rightarrow> int res"
  w_executed :: "string \<Rightarrow> bytes \<Rightarrow> 'n \<Rightarrow> bool res"
  w_created :: "string \<Rightarrow> int \<Rightarrow> int \<Rightarrow> 'n \<Rightarrow> created_log list res"
  w_sleep :: "'n \<Rightarrow> 'n"

section \<open>anvil_client.py\<close>

text \<open>\<open>str(x or "").lower() or None\<close>.\<close>

definition address_text :: "json option \<Rightarrow> string option" where
  "address_text x =
     (case x of None \<Rightarrow> None
      | Some j \<Rightarrow> if truthy j then (let t = lower_str (py_str j) in if t = [] then None else Some t) else None)"

text \<open>The file may be missing; whatever goes wrong in reading it counts as no address.\<close>

definition read_contract_address :: "string option \<Rightarrow> string option" where
  "read_contract_address file =
     (case file of None \<Rightarrow> None
      | Some t \<Rightarrow> (case json_loads t of Inr (JObj d) \<Rightarrow> address_text (json_get ''address'' d) | _ \<Rightarrow> None))"

definition to_bytes32 :: "(string \<Rightarrow> bytes res) \<Rightarrow> string \<Rightarrow> bytes res" where
  "to_bytes32 hexbytes hex_or_str =
     (let s = removeprefix ''0x'' (lower_str hex_or_str);
          s = (if length s < 64 then zfill 64 s else if 64 < length s then take 64 s else s)
      in hexbytes (''0x'' @ s))"

text \<open>A client: its libraries, key and chain, and the contents of the address file at the moment.\<close>

record 'n evm_config =
  ec_web3 :: "'n web3"
  ec_sha :: "bytes \<Rightarrow> bytes"
  ec_account :: string
  ec_chain :: int
  ec_file :: "string option"
  ec_exc :: "exc \<Rightarrow> string"

record 'n evm_state =
  ev_node :: 'n
  ev_address :: "string option"

definition on_node :: "('n \<Rightarrow> ('a, 'n) outcome) \<Rightarrow> 'n evm_state \<Rightarrow> ('a, 'n evm_state) outcome" where
  "on_node f st = (let (r, n) = f (ev_node st) in (r, st\<lparr>ev_node := n\<rparr>))"

definition new_anvil :: "'n evm_config \<Rightarrow> 'n \<Rightarrow> 'n evm_state" where
  "new_anvil cfg n = \<lparr>ev_node = n, ev_address = read_contract_address (ec_file cfg)\<rparr>"

definition anvil_address :: "'n evm_config \<Rightarrow> 'n evm_state \<Rightarrow> (string, 'n evm_state) outcome" where
  "anvil_address cfg st =
     (let st = (if ev_address st = None \<or> ev_address st = Some []
                then st\<lparr>ev_address := read_contract_address (ec_file cfg)\<rparr> else st)
      in case ev_address st of None \<Rightarrow> (Inl RuntimeError, st) | Some a \<Rightarrow> (Inr a, st))"

definition anvil_contract :: "'n evm_config \<Rightarrow> 'n evm_state \<Rightarrow> (string, 'n evm_state) outcome" where
  "anvil_contract cfg st = and_then (anvil_address cfg st) (\<lambda>a st. (w_checksum (ec_web3 cfg) a, st))"

text \<open>The two words of the call.\<close>

definition commit_words :: "'n evm_config \<Rightarrow> string \<Rightarrow> string \<Rightarrow> (bytes \<times> bytes) res" where
  "commit_words cfg batch_id merkle_root_hex =
     res_bind (to_bytes32 (w_hexbytes (ec_web3 cfg)) (sha256_hex (ec_sha cfg) batch_id)) (\<lambda>b.
     res_bind (to_bytes32 (w_hexbytes (ec_web3 cfg)) merkle_root_hex) (\<lambda>r. Inr (b, r)))"

definition anvil_tx :: "'n evm_config \<Rightarrow> string \<Rightarrow> int \<Rightarrow> bytes \<Rightarrow> bytes \<Rightarrow> 'n \<Rightarrow> evm_tx res" where
  "anvil_tx cfg addr district_id b r n =
     res_bind (w_nonce (ec_web3 cfg) (ec_account cfg) n) (\<lambda>nonce.
     res_bind (w_gas_price (ec_web3 cfg) n) (\<lambda>gas_price.
     Inr \<lparr>tx_from = ec_account cfg, tx_to = addr, tx_call = Commit_batch district_id b r, tx_nonce = nonce,
          tx_gas = 250000, tx_fees = Gas_price gas_price, tx_chain = ec_chain cfg\<rparr>))"

text \<open>The receipt of a transaction; None when the wait for it has run out.\<close>

definition settled ::
  "int \<Rightarrow> (nat \<Rightarrow> time) \<Rightarrow> string \<Rightarrow> int \<Rightarrow> string \<Rightarrow> string \<Rightarrow> tx_receipt option \<Rightarrow> anchor_receipt" where
  "settled chain clk batch_id district_id root_hex tx_hash receipt =
     (case receipt of
        None \<Rightarrow>
          \<lparr>rc_batch = batch_id, rc_district = district_id, rc_root = root_hex, rc_tx = tx_hash, rc_block = None,
           rc_chain = chain, rc_submitted = clk 0, rc_confirmed = None, rc_status = A_SUBMITTED\<rparr>
      | Some rc \<Rightarrow>
          \<lparr>rc_batch = batch_id, rc_district = district_id, rc_root = root_hex, rc_tx = tx_hash, rc_block = Some (er_block rc),
           rc_chain = chain, rc_submitted = clk 0, rc_confirmed = Some (clk 1),
           rc_status = (if er_ok rc then A_CONFIRMED else A_FAILED)\<rparr>)"

text \<open>
  The two single-signer clients differ in how they find the contract, in the fees and in the time
  they wait.
\<close>

definition evm_commit ::
  "('n evm_state \<Rightarrow> (string, 'n evm_state) outcome) \<Rightarrow> (string \<Rightarrow> int \<Rightarrow> bytes \<Rightarrow> bytes \<Rightarrow> 'n \<Rightarrow> evm_tx res) \<Rightarrow> nat option
   \<Rightarrow> 'n evm_config \<Rightarrow> (nat \<Rightarrow> time) \<Rightarrow> string \<Rightarrow> int \<Rightarrow> string \<Rightarrow> 'n evm_state \<Rightarrow> (anchor_receipt, 'n evm_state) outcome" where
  "evm_commit contract tx_of timeout cfg clk batch_id district_id merkle_root_hex st =
     and_then (contract st) (\<lambda>addr st.
     and_then (commit_words cfg batch_id merkle_root_hex, st) (\<lambda>(b, r) st.
     and_then (tx_of addr district_id b r (ev_node st), st) (\<lambda>tx st.
     and_then (on_node (w_send (ec_web3 cfg) tx) st) (\<lambda>tx_hash st.
     and_then (on_node (w_wait (ec_web3 cfg) timeout tx_hash) st) (\<lambda>receipt st.
       (Inr (settled (ec_chain cfg) clk batch_id district_id merkle_root_hex tx_hash receipt), st))))))"

definition anvil_commit ::
  "'n evm_config \<Rightarrow> (nat \<Rightarrow> time) \<Rightarrow> string \<Rightarrow> int \<Rightarrow> string \<Rightarrow> 'n evm_state \<Rightarrow> (anchor_receipt, 'n evm_state) outcome" where
  "anvil_commit cfg = evm_commit (anvil_contract cfg) (anvil_tx cfg) (Some 60) cfg"

definition contract_verify :: "'n evm_config \<Rightarrow> string \<Rightarrow> string \<Rightarrow> string \<Rightarrow> string list \<Rightarrow> 'n \<Rightarrow> bool res" where
  "contract_verify cfg addr batch_id leaf_hex proof_hex n =
     res_bind (to_bytes32 (w_hexbytes (ec_web3 cfg)) (sha256_hex (ec_sha cfg) batch_id)) (\<lambda>b.
     res_bind (to_bytes32 (w_hexbytes (ec_web3 cfg)) leaf_hex) (\<lambda>leaf.
     res_bind (map_res (to_bytes32 (w_hexbytes (ec_web3 cfg))) proof_hex) (\<lambda>ps.
       w_verify (ec_web3 cfg) addr b leaf ps n)))"

definition anvil_verify :: "'n evm_config \<Rightarrow> string \<Rightarrow> string \<Rightarrow> string list \<Rightarrow> 'n evm_state \<Rightarrow> bool res" where
  "anvil_verify cfg batch_id leaf_hex proof_hex st =
     res_bind (fst (anvil_contract cfg st)) (\<lambda>addr. contract_verify cfg addr batch_id leaf_hex proof_hex (ev_node st))"

definition evm_health :: "string \<Rightarrow> 'n evm_config \<Rightarrow> 'n evm_state \<Rightarrow> (string \<times> json) list" where
  "evm_health name cfg st =
     (case w_block (ec_web3 cfg) (ev_node st) of
        Inr block \<Rightarrow> [(''provider'', JStr name), (''ok'', JBool True), (''chain_id'', JInt (ec_chain cfg)),
                      (''block'', JInt block), (''contract'', jopt JStr (ev_address st))]
      | Inl e \<Rightarrow> [(''provider'', JStr name), (''ok'', JBool False), (''error'', JStr (ec_exc cfg e))])"

definition anvil_client :: "'n evm_config \<Rightarrow> 'n evm_state chain_client" where
  "anvil_client cfg =
     \<lparr>cl_chain_id = ec_chain cfg, cl_commit = anvil_commit cfg, cl_verify = anvil_verify cfg, cl_health = evm_health ''anvil'' cfg\<rparr>"

section \<open>sepolia_client.py\<close>

text \<open>Here a file that cannot be read raises.\<close>

definition read_sepolia_address :: "string option \<Rightarrow> string option res" where
  "read_sepolia_address file =
     (case file of None \<Rightarrow> Inr None
      | Some t \<Rightarrow> res_bind (json_loads t) (\<lambda>j.
          case j of
            JObj d \<Rightarrow> Inr (address_text (if (case json_get ''sepolia'' d of None \<Rightarrow> False | Some x \<Rightarrow> truthy x)
                                       then json_get ''sepolia'' d else json_get ''address'' d))
          | _ \<Rightarrow> Inl AttributeError))"

definition new_sepolia :: "string \<Rightarrow> 'n evm_config \<Rightarrow> 'n \<Rightarrow> 'n evm_state res" where
  "new_sepolia url cfg n =
     (if url = [] then Inl RuntimeError
      else res_bind (read_sepolia_address (ec_file cfg)) (\<lambda>a. Inr \<lparr>ev_node = n, ev_address = a\<rparr>))"

definition sepolia_address :: "'n evm_config \<Rightarrow> 'n evm_state \<Rightarrow> (string, 'n evm_state) outcome" where
  "sepolia_address cfg st =
     (if ev_address st = None \<or> ev_address st = Some []
      then and_then (read_sepolia_address (ec_file cfg), st) (\<lambda>a st.
             let st = st\<lparr>ev_address := a\<rparr> in case a of None \<Rightarrow> (Inl RuntimeError, st) | Some x \<Rightarrow> (Inr x, st))
      else (Inr (the (ev_address st)), st))"

definition sepolia_contract :: "'n evm_config \<Rightarrow> 'n evm_state \<Rightarrow> (string, 'n evm_state) outcome" where
  "sepolia_contract cfg st = and_then (sepolia_address cfg st) (\<lambda>a st. (w_checksum (ec_web3 cfg) a, st))"

definition sepolia_tx :: "'n evm_config \<Rightarrow> string \<Rightarrow> int \<Rightarrow> bytes \<Rightarrow> bytes \<Rightarrow> 'n \<Rightarrow> evm_tx res" where
  "sepolia_tx cfg addr district_id b r n =
     res_bind (w_nonce (ec_web3 cfg) (ec_account cfg) n) (\<lambda>nonce.
     res_bind (w_base_fee (ec_web3 cfg) n) (\<lambda>fee.
     let base = (if fee = None \<or> fee = Some 0 then 1000000000 else the fee); priority = 2000000000
     in Inr \<lparr>tx_from = ec_account cfg, tx_to = addr, tx_call = Commit_batch district_id b r, tx_nonce = nonce,
             tx_gas = 250000, tx_fees = Max_fees (base * 2 + priority) priority, tx_chain = ec_chain cfg\<rparr>))"

definition sepolia_commit ::
  "'n evm_config \<Rightarrow> (nat \<Rightarrow> time) \<Rightarrow> string \<Rightarrow> int \<Rightarrow> string \<Rightarrow> 'n evm_state \<Rightarrow> (anchor_receipt, 'n evm_state) outcome" where
  "sepolia_commit cfg = evm_commit (sepolia_contract cfg) (sepolia_tx cfg) (Some 180) cfg"

definition sepolia_verify :: "'n evm_config \<Rightarrow> string \<Rightarrow> string \<Rightarrow> string list \<Rightarrow> 'n evm_state \<Rightarrow> bool res" where
  "sepolia_verify cfg batch_id leaf_hex proof_hex st =
     res_bind (fst (sepolia_contract cfg st)) (\<lambda>addr. contract_verify cfg addr batch_id leaf_hex proof_hex (ev_node st))"

definition sepolia_client :: "'n evm_config \<Rightarrow> 'n evm_state chain_client" where
  "sepolia_client cfg =
     \<lparr>cl_chain_id = ec_chain cfg, cl_commit = sepolia_commit cfg, cl_verify = sepolia_verify cfg, cl_health = evm_health ''sepolia'' cfg\<rparr>"

section \<open>The node\<close>

text \<open>
  What happens to the contract between two looks at it: commits, in blocks whose time is not zero,
  and changes of roles and pauses.
\<close>

inductive contract_step :: "'z open_zeppelin \<Rightarrow> 'z anchor_contract \<Rightarrow> 'z anchor_contract \<Rightarrow> bool"
  for oz where
  commit: "commit_batch_sol oz m d b rt k = Inr k' \<Longrightarrow> (ucast (ci_time m) :: 64 word) \<noteq> 0 \<Longrightarrow> contract_step oz k k'"
| access: "ac_anchors k' = ac_anchors k \<Longrightarrow> contract_step oz k k'"

definition contract_runs :: "'z open_zeppelin \<Rightarrow> 'z anchor_contract \<Rightarrow> 'z anchor_contract \<Rightarrow> bool" where
  "contract_runs oz = (contract_step oz)\<^sup>*\<^sup>*"

lemma contract_runs_refl [simp, intro]: "contract_runs oz k k"
  by (simp add: contract_runs_def)

lemma contract_runs_trans: "contract_runs oz a b \<Longrightarrow> contract_runs oz b c \<Longrightarrow> contract_runs oz a c"
  by (simp add: contract_runs_def)

text \<open>A stored root is there for good.\<close>

lemma contract_step_keeps:
  "contract_step oz k k' \<Longrightarrow> ra_time (ac_anchors k b) \<noteq> 0 \<Longrightarrow> ac_anchors k' b = ac_anchors k b"
  by (induction rule: contract_step.induct) (auto simp: commit_batch_sol_Inr)

lemma contract_runs_keeps:
  assumes "contract_runs oz k k'" "ra_time (ac_anchors k b) \<noteq> 0"
  shows "ac_anchors k' b = ac_anchors k b"
proof -
  have "(contract_step oz)\<^sup>*\<^sup>* k k'" using assms(1) by (simp add: contract_runs_def)
  then show ?thesis by (induction rule: rtranclp_induct) (use assms(2) in \<open>auto simp: contract_step_keeps\<close>)
qed

locale evm_node =
  fixes cfg :: "'n evm_config" and oz :: "'z open_zeppelin" and kec :: "bytes \<Rightarrow> bytes"
    and contract :: "string \<Rightarrow> 'n \<Rightarrow> 'z anchor_contract"
  assumes digests: "digest32 kec" "digest32 (ec_sha cfg)"
    and hexbytes: "length bs = 32 \<Longrightarrow> w_hexbytes (ec_web3 cfg) (hex0x bs) = Inr bs"
    and called: "length b = 32 \<Longrightarrow> length leaf = 32 \<Longrightarrow> list_all (\<lambda>x. length x = 32) ps \<Longrightarrow>
      w_verify (ec_web3 cfg) a b leaf ps n = Inr (verify_proof_sol kec (b32_of b) (b32_of leaf) (map b32_of ps) (contract a n))"
    and sent: "w_send (ec_web3 cfg) tx n = (x, n') \<Longrightarrow> contract_runs oz (contract a n) (contract a n')"
    and waited: "w_wait (ec_web3 cfg) t h n = (y, n') \<Longrightarrow> contract_runs oz (contract a n) (contract a n')"
    and mined: "w_send (ec_web3 cfg) tx n = (Inr h, n1) \<Longrightarrow> tx_call tx = Commit_batch d b r
      \<Longrightarrow> w_wait (ec_web3 cfg) t h n1 = (Inr (Some rc), n2) \<Longrightarrow> er_ok rc
      \<Longrightarrow> \<exists>ka kb m. contract_runs oz (contract (tx_to tx) n) ka
           \<and> commit_batch_sol oz m (word_of_int d) (b32_of b) (b32_of r) ka = Inr kb
           \<and> (ucast (ci_time m) :: 64 word) \<noteq> 0 \<and> contract_runs oz kb (contract (tx_to tx) n2)"
begin

text \<open>The texts that are the hexadecimal form of 32 bytes.\<close>

definition word_text :: "string \<Rightarrow> bool" where
  "word_text h \<longleftrightarrow> (\<exists>bs. length bs = 32 \<and> h = hex0x bs)"

definition batch_key :: "string \<Rightarrow> b32" where
  "batch_key batch_id = b32_of (ec_sha cfg (utf8 batch_id))"

text \<open>The address a client uses does not depend on the node and does not change.\<close>

definition steady :: "('n evm_state \<Rightarrow> (string, 'n evm_state) outcome) \<Rightarrow> bool" where
  "steady get \<longleftrightarrow> (\<forall>st n. ev_node (snd (get st)) = ev_node st \<and> fst (get (snd (get st)\<lparr>ev_node := n\<rparr>)) = fst (get st))"

definition commits :: "(string \<Rightarrow> int \<Rightarrow> bytes \<Rightarrow> bytes \<Rightarrow> 'n \<Rightarrow> evm_tx res) \<Rightarrow> bool" where
  "commits tx_of \<longleftrightarrow> (\<forall>a d b r n tx. tx_of a d b r n = Inr tx \<longrightarrow> tx_to tx = a \<and> tx_call tx = Commit_batch d b r)"

definition unstored :: "('n evm_state \<Rightarrow> (string, 'n evm_state) outcome) \<Rightarrow> string \<Rightarrow> 'n evm_state \<Rightarrow> bool" where
  "unstored get batch_id st \<longleftrightarrow>
     (case fst (get st) of Inl _ \<Rightarrow> True | Inr a \<Rightarrow> ra_time (ac_anchors (contract a (ev_node st)) (batch_key batch_id)) = 0)"

lemma to_bytes32_hex0x: "length bs = 32 \<Longrightarrow> to_bytes32 (w_hexbytes (ec_web3 cfg)) (hex0x bs) = Inr bs"
  using hexbytes [of bs] by (simp add: to_bytes32_def hex_simps Let_def) (simp add: hex0x_def)

lemma map_to_bytes32:
  "list_all (\<lambda>b. length b = 32) ps \<Longrightarrow> map_res (to_bytes32 (w_hexbytes (ec_web3 cfg))) (map hex0x ps) = Inr ps"
  by (induction ps) (simp_all add: to_bytes32_hex0x)

lemma to_bytes32_digest: "to_bytes32 (w_hexbytes (ec_web3 cfg)) (sha256_hex (ec_sha cfg) x) = Inr (ec_sha cfg (utf8 x))"
proof -
  have len: "length (ec_sha cfg (utf8 x)) = 32" using digests(2) by (simp add: digest32_def)
  show ?thesis using hexbytes [OF len] len
    by (simp add: to_bytes32_def sha256_hex_def hex_simps removeprefix_hex_str Let_def) (simp add: hex0x_def)
qed

lemma commit_words_eq:
  "commit_words cfg b rt = res_bind (to_bytes32 (w_hexbytes (ec_web3 cfg)) rt) (\<lambda>r. Inr (ec_sha cfg (utf8 b), r))"
  by (simp add: commit_words_def to_bytes32_digest)

text \<open>A commit moves the node along the runs of the contract and leaves the address alone.\<close>

lemma commit_cases:
  assumes get: "steady get" and tx: "commits tx_of" and run: "evm_commit get tx_of t cfg clk b d rt st = (x, st')"
  shows "fst (get st') = fst (get st) \<and> contract_runs oz (contract a (ev_node st)) (contract a (ev_node st'))
    \<and> (\<forall>q. x = Inr q \<longrightarrow> rc_status q = A_CONFIRMED \<longrightarrow>
         (\<exists>addr r ka kb m. fst (get st) = Inr addr \<and> to_bytes32 (w_hexbytes (ec_web3 cfg)) rt = Inr r
            \<and> commit_batch_sol oz m (word_of_int d) (batch_key b) (b32_of r) ka = Inr kb
            \<and> (ucast (ci_time m) :: 64 word) \<noteq> 0 \<and> contract_runs oz kb (contract addr (ev_node st'))))"
proof -
  obtain g st1 where g: "get st = (g, st1)" by (cases "get st")
  then have st1: "ev_node st1 = ev_node st" "fst (get (st1\<lparr>ev_node := n\<rparr>)) = g" for n
    using get by (auto simp: steady_def dest: spec [of _ st])
  have same: "fst (get st1) = g" using st1(2) [of "ev_node st1"] by simp
  show ?thesis
  proof (cases "\<exists>addr r tx. g = Inr addr \<and> to_bytes32 (w_hexbytes (ec_web3 cfg)) rt = Inr r
      \<and> tx_of addr d (ec_sha cfg (utf8 b)) r (ev_node st1) = Inr tx")
    case False
    then have "st' = st1 \<and> (\<exists>e. x = Inl e)" using run
      by (cases g; cases "to_bytes32 (w_hexbytes (ec_web3 cfg)) rt"; cases "tx_of (projr g) d (ec_sha cfg (utf8 b)) (projr (to_bytes32 (w_hexbytes (ec_web3 cfg)) rt)) (ev_node st1)")
        (auto simp: evm_commit_def g commit_words_eq)
    then show ?thesis using st1(1) same g by auto
  next
    case True
    then obtain addr r tr where t: "g = Inr addr" "to_bytes32 (w_hexbytes (ec_web3 cfg)) rt = Inr r"
      "tx_of addr d (ec_sha cfg (utf8 b)) r (ev_node st1) = Inr tr" by blast
    note t' = t(1,2) t(3) [unfolded st1(1)]
    have tr: "tx_to tr = addr" "tx_call tr = Commit_batch d (ec_sha cfg (utf8 b)) r" using tx t(3) by (auto simp: commits_def)
    obtain h n1 where h: "w_send (ec_web3 cfg) tr (ev_node st) = (h, n1)" by (cases "w_send (ec_web3 cfg) tr (ev_node st)")
    show ?thesis
    proof (cases h)
      case (Inl e)
      then have "st' = st1\<lparr>ev_node := n1\<rparr> \<and> x = Inl e"
        using run by (auto simp: evm_commit_def g t' commit_words_eq on_node_def st1(1) h)
      then show ?thesis using sent [OF h] st1 g by auto
    next
      case hash: (Inr txh)
      obtain y n2 where y: "w_wait (ec_web3 cfg) t txh n1 = (y, n2)" by (cases "w_wait (ec_web3 cfg) t txh n1")
      have st': "st' = st1\<lparr>ev_node := n2\<rparr>" and x: "x = (case y of Inl e \<Rightarrow> Inl e | Inr rc \<Rightarrow> Inr (settled (ec_chain cfg) clk b d rt txh rc))"
        using run by (cases y; auto simp: evm_commit_def g t' commit_words_eq on_node_def st1(1) h hash y)+
      have "contract_runs oz (contract a (ev_node st)) (contract a (ev_node st'))"
        using contract_runs_trans [OF sent [OF h] waited [OF y]] by (simp add: st')
      moreover have "\<exists>ka kb m. commit_batch_sol oz m (word_of_int d) (batch_key b) (b32_of r) ka = Inr kb
            \<and> (ucast (ci_time m) :: 64 word) \<noteq> 0 \<and> contract_runs oz kb (contract addr (ev_node st'))"
        if q: "x = Inr q" "rc_status q = A_CONFIRMED" for q
      proof -
        obtain rc where "y = Inr (Some rc)" "er_ok rc"
          using q x by (auto simp: settled_def split: sum.splits option.splits if_splits)
        then show ?thesis
          using mined [OF h [unfolded hash] tr(2), of t rc n2] y by (auto simp: tr(1) batch_key_def st')
      qed
      ultimately show ?thesis using st1(2) g t st' by auto
    qed
  qed
qed

lemma word_texts: "list_all word_text sibs \<Longrightarrow> \<exists>ps. list_all (\<lambda>b. length b = 32) ps \<and> sibs = map hex0x ps"
proof (induction sibs)
  case (Cons s sibs)
  then obtain p ps where "list_all (\<lambda>b. length b = 32) ps" "sibs = map hex0x ps" "length p = 32" "s = hex0x p"
    by (auto simp: word_text_def)
  then show ?case by (intro exI [of _ "p # ps"]) simp
qed simp

text \<open>What the client asks of the contract.\<close>

lemma contract_verify_sol:
  assumes "length l = 32" "list_all (\<lambda>b. length b = 32) ps"
  shows "contract_verify cfg addr b (hex0x l) (map hex0x ps) n
    = Inr (verify_proof_sol kec (batch_key b) (b32_of l) (map b32_of ps) (contract addr n))"
proof -
  have key: "length (ec_sha cfg (utf8 b)) = 32" using digests(2) by (simp add: digest32_def)
  show ?thesis using called [OF key assms]
    by (simp add: contract_verify_def to_bytes32_digest to_bytes32_hex0x map_to_bytes32 assms batch_key_def)
qed

lemma verify_hex0x:
  assumes "word_text leaf" "list_all word_text sibs"
    and stored: "ra_root (ac_anchors (contract addr n) (batch_key b)) = b32_of r" "b32_of r \<noteq> 0" "length r = 32"
  shows "contract_verify cfg addr b leaf sibs n = verify_merkle_proof_evm kec leaf sibs (hex0x r)"
proof -
  obtain l where l: "length l = 32" "leaf = hex0x l" using assms(1) by (auto simp: word_text_def)
  obtain ps where ps: "list_all (\<lambda>b. length b = 32) ps" "sibs = map hex0x ps" using word_texts assms(2) by blast
  show ?thesis
    using verify_proof_sol_mirror [OF digests(1) l(1) ps(1) stored(3,1,2)] contract_verify_sol [OF l(1) ps(1)] by (simp add: l ps)
qed

lemma same_verdict:
  assumes "word_text leaf" "list_all word_text sibs"
    and "ac_anchors (contract addr n') (batch_key b) = ac_anchors (contract addr n) (batch_key b)"
  shows "contract_verify cfg addr b leaf sibs n' = contract_verify cfg addr b leaf sibs n"
proof -
  obtain l where l: "length l = 32" "leaf = hex0x l" using assms(1) by (auto simp: word_text_def)
  obtain ps where ps: "list_all (\<lambda>b. length b = 32) ps" "sibs = map hex0x ps" using word_texts assms(2) by blast
  show ?thesis using contract_verify_sol [OF l(1) ps(1)] assms(3) by (simp add: l ps verify_proof_sol_def)
qed

text \<open>Both clients find the address in the same way every time, and call \<open>commitBatch\<close>.\<close>

lemma steady_anvil: "steady (anvil_contract cfg)"
  by (auto simp: steady_def anvil_contract_def anvil_address_def Let_def split: option.splits)

lemma steady_sepolia: "steady (sepolia_contract cfg)"
proof -
  have "ev_node (snd (sepolia_contract cfg st)) = ev_node st
     \<and> fst (sepolia_contract cfg (snd (sepolia_contract cfg st)\<lparr>ev_node := n\<rparr>)) = fst (sepolia_contract cfg st)" for st n
  proof (cases "ev_address st = None \<or> ev_address st = Some []")
    case False
    then show ?thesis by (auto simp: sepolia_contract_def sepolia_address_def)
  next
    case True
    show ?thesis
    proof (cases "read_sepolia_address (ec_file cfg)")
      case (Inl e)
      then show ?thesis using True by (auto simp: sepolia_contract_def sepolia_address_def)
    next
      case (Inr a)
      then show ?thesis using True by (cases a) (auto simp: sepolia_contract_def sepolia_address_def)
    qed
  qed
  then show ?thesis by (simp add: steady_def)
qed

lemma commits_anvil: "commits (anvil_tx cfg)" and commits_sepolia: "commits (sepolia_tx cfg)"
  by (auto simp: commits_def anvil_tx_def sepolia_tx_def Let_def res_bind_def split: sum.splits)

text \<open>A client over a steady address, with \<open>verifyProof\<close> called through it, provides the interface.\<close>

lemma client_contract:
  assumes get: "steady get" and tx: "commits tx_of"
    and cl: "cl_commit client = evm_commit get tx_of t cfg"
      "cl_verify client = (\<lambda>b leaf sibs st. res_bind (fst (get st)) (\<lambda>addr. contract_verify cfg addr b leaf sibs (ev_node st)))"
  shows "chain_contract client kec (unstored get) word_text"
proof
  fix clk b d rt c r c' leaf sibs
  assume run: "cl_commit client clk b d rt c = (Inr r, c')" and conf: "rc_status r = A_CONFIRMED"
  note cs = commit_cases [OF get tx run [unfolded cl]]
  obtain addr w ka kb m where k: "fst (get c) = Inr addr" "to_bytes32 (w_hexbytes (ec_web3 cfg)) rt = Inr w"
      "commit_batch_sol oz m (word_of_int d) (batch_key b) (b32_of w) ka = Inr kb"
      "(ucast (ci_time m) :: 64 word) \<noteq> 0" "contract_runs oz kb (contract addr (ev_node c'))"
    using cs conf by blast
  have get': "fst (get c') = Inr addr" using cs k(1) by simp
  have kb: "ra_time (ac_anchors kb (batch_key b)) \<noteq> 0" "ra_root (ac_anchors kb (batch_key b)) = b32_of w" "b32_of w \<noteq> 0"
    using k(3,4) by (auto simp: commit_batch_sol_Inr)
  note kept = contract_runs_keeps [OF k(5) kb(1)]
  show "\<not> unstored get b c'" using kept kb(1) by (simp add: unstored_def get')
  assume rt: "word_text rt" and args: "word_text leaf" "list_all word_text sibs"
  obtain q where q: "length q = 32" "rt = hex0x q" using rt by (auto simp: word_text_def)
  then have "w = q" using k(2) to_bytes32_hex0x by simp
  then show "cl_verify client b leaf sibs c' = verify_merkle_proof_evm kec leaf sibs rt"
    using verify_hex0x [OF args, where r = q and addr = addr and n = "ev_node c'" and b = b] kept kb q
    by (simp add: cl get')
next
  fix clk b d rt c x c' b'
  assume run: "cl_commit client clk b d rt c = (x, c')" and "b' \<noteq> b" and old: "\<not> unstored get b' c"
  note cs = commit_cases [OF get tx run [unfolded cl]]
  obtain addr where a: "fst (get c) = Inr addr" "ra_time (ac_anchors (contract addr (ev_node c)) (batch_key b')) \<noteq> 0"
    using old by (auto simp: unstored_def split: sum.splits)
  have get': "fst (get c') = Inr addr" using cs a(1) by simp
  have runs: "contract_runs oz (contract addr (ev_node c)) (contract addr (ev_node c'))" using cs by blast
  note keep = contract_runs_keeps [OF runs a(2)]
  show "\<not> unstored get b' c'" using a(2) keep by (simp add: unstored_def get')
  fix leaf sibs
  assume args: "word_text leaf" "list_all word_text sibs"
  show "cl_verify client b' leaf sibs c' = cl_verify client b' leaf sibs c"
    using same_verdict [OF args keep] by (simp add: cl a(1) get')
next
  fix bs
  show "word_text (hex0x (kec bs))" using digests(1) by (auto simp: word_text_def digest32_def)
qed

lemma anvil_provides: "chain_contract (anvil_client cfg) kec (unstored (anvil_contract cfg)) word_text"
  by (rule client_contract [OF steady_anvil commits_anvil, where t = "Some 60"])
    (simp_all add: anvil_client_def anvil_commit_def anvil_verify_def fun_eq_iff)

lemma sepolia_provides: "chain_contract (sepolia_client cfg) kec (unstored (sepolia_contract cfg)) word_text"
  by (rule client_contract [OF steady_sepolia commits_sepolia, where t = "Some 180"])
    (simp_all add: sepolia_client_def sepolia_commit_def sepolia_verify_def fun_eq_iff)

end

sublocale evm_node \<subseteq> anvil: chain_contract "anvil_client cfg" kec "unstored (anvil_contract cfg)" word_text
  by (rule anvil_provides)

sublocale evm_node \<subseteq> sepolia: chain_contract "sepolia_client cfg" kec "unstored (sepolia_contract cfg)" word_text
  by (rule sepolia_provides)

section \<open>multisig_client.py\<close>

definition read_address_for_multisig :: "string option \<Rightarrow> string option res" where
  "read_address_for_multisig file =
     (case file of None \<Rightarrow> Inr None
      | Some t \<Rightarrow> res_bind (json_loads t) (\<lambda>j.
          case j of JObj d \<Rightarrow> Inr (address_text (json_get ''multisig_address'' d)) | _ \<Rightarrow> Inl AttributeError))"

text \<open>The wrapper's own state is its address; the inner client's state is kept beside it.\<close>

record 'n multisig_state =
  ms_inner :: "'n evm_state"
  ms_address :: "string option"

definition multisig_address :: "'n evm_config \<Rightarrow> 'n multisig_state \<Rightarrow> (string, 'n multisig_state) outcome" where
  "multisig_address cfg st =
     (if ms_address st = None \<or> ms_address st = Some []
      then and_then (read_address_for_multisig (ec_file cfg), st) (\<lambda>a st.
             let st = st\<lparr>ms_address := a\<rparr> in case a of None \<Rightarrow> (Inl RuntimeError, st) | Some x \<Rightarrow> (Inr x, st))
      else (Inr (the (ms_address st)), st))"

definition on_inner :: "('n \<Rightarrow> ('a, 'n) outcome) \<Rightarrow> 'n multisig_state \<Rightarrow> ('a, 'n multisig_state) outcome" where
  "on_inner f st = (let (r, inner) = on_node f (ms_inner st) in (r, st\<lparr>ms_inner := inner\<rparr>))"

definition multisig_tx :: "'n evm_config \<Rightarrow> string \<Rightarrow> int \<Rightarrow> bytes \<Rightarrow> bytes \<Rightarrow> 'n \<Rightarrow> evm_tx res" where
  "multisig_tx cfg addr district_id b r n =
     res_bind (w_nonce (ec_web3 cfg) (ec_account cfg) n) (\<lambda>nonce.
     res_bind (w_gas_price (ec_web3 cfg) n) (\<lambda>gas_price.
     Inr \<lparr>tx_from = ec_account cfg, tx_to = addr, tx_call = Propose_and_confirm district_id b r, tx_nonce = nonce,
          tx_gas = 300000, tx_fees = Gas_price gas_price, tx_chain = ec_chain cfg\<rparr>))"

text \<open>
  \<open>_wait_for_execution\<close>: reading i of the clock is compared with the deadline before every poll, a
  poll that raises counts as not executed, and half a second passes between polls.  None: the fuel
  is used up.  The second result is the number of readings made.
\<close>

fun poll_executed :: "nat \<Rightarrow> 'n web3 \<Rightarrow> (nat \<Rightarrow> time) \<Rightarrow> time \<Rightarrow> nat \<Rightarrow> string \<Rightarrow> bytes \<Rightarrow> 'n \<Rightarrow> (bool \<times> nat \<times> 'n) option" where
  "poll_executed 0 w clk deadline i addr b n = None"
| "poll_executed (Suc k) w clk deadline i addr b n =
     (if \<not> clk i < deadline then Some (False, Suc i, n)
      else case w_stored_at w addr b n of
             Inr t \<Rightarrow> if t \<noteq> 0 then Some (True, Suc i, n) else poll_executed k w clk deadline (Suc i) addr b (w_sleep w n)
           | Inl _ \<Rightarrow> poll_executed k w clk deadline (Suc i) addr b (w_sleep w n))"

text \<open>
  The inner client's address is a property that may raise; \<open>get\<close> is that of the client at hand.
  \<open>getattr(..., None)\<close> only catches a missing attribute, and neither class lacks it.
\<close>

definition wait_for_execution ::
  "nat \<Rightarrow> ('n evm_state \<Rightarrow> (string, 'n evm_state) outcome) \<Rightarrow> 'n evm_config \<Rightarrow> (nat \<Rightarrow> time) \<Rightarrow> nat \<Rightarrow> bytes \<Rightarrow> 'n multisig_state
   \<Rightarrow> ((bool \<times> nat) res \<times> 'n multisig_state) option" where
  "wait_for_execution fuel get cfg clk i b st =
     (let deadline = clk i + 10; (a, inner) = get (ms_inner st); st = st\<lparr>ms_inner := inner\<rparr>
      in case a of Inl e \<Rightarrow> Some (Inl e, st)
         | Inr addr \<Rightarrow>
             (case w_checksum (ec_web3 cfg) addr of Inl e \<Rightarrow> Some (Inl e, st)
              | Inr ca \<Rightarrow>
                  map_option (\<lambda>(done, j, n). (Inr (done, j), st\<lparr>ms_inner := (ms_inner st)\<lparr>ev_node := n\<rparr>\<rparr>))
                    (poll_executed fuel (ec_web3 cfg) clk deadline (Suc i) ca b (ev_node (ms_inner st)))))"

text \<open>The part up to the receipt of the first confirmation.\<close>

definition multisig_send ::
  "'n evm_config \<Rightarrow> string \<Rightarrow> int \<Rightarrow> string \<Rightarrow> 'n multisig_state
   \<Rightarrow> (bytes \<times> string \<times> tx_receipt option, 'n multisig_state) outcome" where
  "multisig_send cfg batch_id district_id merkle_root_hex st =
     and_then (multisig_address cfg st) (\<lambda>a st.
     and_then (w_checksum (ec_web3 cfg) a, st) (\<lambda>addr st.
     and_then (commit_words cfg batch_id merkle_root_hex, st) (\<lambda>(b, r) st.
     and_then (multisig_tx cfg addr district_id b r (ev_node (ms_inner st)), st) (\<lambda>tx st.
     and_then (on_inner (w_send (ec_web3 cfg) tx) st) (\<lambda>tx_hash st.
     and_then (on_inner (w_wait (ec_web3 cfg) (Some 60) tx_hash) st) (\<lambda>receipt st.
       (Inr (b, tx_hash, receipt), st)))))))"

definition multisig_commit ::
  "nat \<Rightarrow> ('n evm_state \<Rightarrow> (string, 'n evm_state) outcome) \<Rightarrow> 'n evm_config \<Rightarrow> (nat \<Rightarrow> time) \<Rightarrow> string \<Rightarrow> int \<Rightarrow> string
   \<Rightarrow> 'n multisig_state \<Rightarrow> (anchor_receipt, 'n multisig_state) outcome option" where
  "multisig_commit fuel get cfg clk batch_id district_id merkle_root_hex st =
     (case multisig_send cfg batch_id district_id merkle_root_hex st of
        (Inl e, st) \<Rightarrow> Some (Inl e, st)
      | (Inr (b, tx_hash, receipt), st) \<Rightarrow>
          (case receipt of
             None \<Rightarrow> Some (Inr (settled (ec_chain cfg) clk batch_id district_id merkle_root_hex tx_hash None), st)
           | Some rc \<Rightarrow>
               (case wait_for_execution fuel get cfg clk 1 b st of
                  None \<Rightarrow> None
                | Some (waited, st) \<Rightarrow>
                    (case waited of
                       Inl e \<Rightarrow> Some (Inl e, st)
                     | Inr (executed, j) \<Rightarrow>
                         Some (Inr \<lparr>rc_batch = batch_id, rc_district = district_id, rc_root = merkle_root_hex, rc_tx = tx_hash,
                                    rc_block = Some (er_block rc), rc_chain = ec_chain cfg, rc_submitted = clk 0,
                                    rc_confirmed = (if executed then Some (clk j) else None),
                                    rc_status = (if executed then A_CONFIRMED else A_SUBMITTED)\<rparr>, st)))))"

text \<open>Proofs are checked by the inner client.\<close>

definition multisig_verify :: "'n evm_state chain_client \<Rightarrow> string \<Rightarrow> string \<Rightarrow> string list \<Rightarrow> 'n multisig_state \<Rightarrow> bool res" where
  "multisig_verify inner batch_id leaf_hex proof_hex st = cl_verify inner batch_id leaf_hex proof_hex (ms_inner st)"

definition multisig_health :: "'n evm_state chain_client \<Rightarrow> 'n multisig_state \<Rightarrow> (string \<times> json) list" where
  "multisig_health inner st =
     [(''provider'', JStr ''multisig''), (''inner'', JObj (cl_health inner (ms_inner st))),
      (''multisig_address'', jopt JStr (ms_address st)), (''threshold'', JStr ''3-of-5'')]"

section \<open>co_sign_daemon.py\<close>

text \<open>
  \<open>_confirm\<close>: each account in turn, until the proposal is executed; whatever raises is logged and
  the next account tried.  The transaction is the one of the account.
\<close>

definition cosign_tx :: "'n web3 \<Rightarrow> string \<Rightarrow> string \<Rightarrow> created_log \<Rightarrow> 'n \<Rightarrow> evm_tx res" where
  "cosign_tx w addr account ev n =
     res_bind (w_nonce w account n) (\<lambda>nonce.
     res_bind (w_gas_price w n) (\<lambda>gas_price.
     res_bind (w_chain_id w n) (\<lambda>chain.
     Inr \<lparr>tx_from = account, tx_to = addr, tx_call = Propose_and_confirm (lg_district ev) (lg_batch ev) (lg_root ev),
          tx_nonce = nonce, tx_gas = 250000, tx_fees = Gas_price gas_price, tx_chain = chain\<rparr>)))"

fun co_sign :: "'n web3 \<Rightarrow> string \<Rightarrow> string list \<Rightarrow> created_log \<Rightarrow> 'n \<Rightarrow> 'n" where
  "co_sign w addr [] ev n = n"
| "co_sign w addr (acct # accounts) ev n =
     (if w_executed w addr (lg_proposal ev) n = Inr True then n
      else
        let (_, n') = and_then (cosign_tx w addr acct ev n, n) (\<lambda>tx n. and_then (w_send w tx n) (\<lambda>h n. w_wait w None h n))
        in co_sign w addr accounts ev n')"

text \<open>One round of the polling loop: the new proposals since the last block it saw.\<close>

definition daemon_round :: "'n web3 \<Rightarrow> string \<Rightarrow> string list \<Rightarrow> int \<Rightarrow> 'n \<Rightarrow> int \<times> 'n" where
  "daemon_round w addr accounts last_block n =
     (case w_block w n of
        Inl _ \<Rightarrow> (last_block, n)
      | Inr current \<Rightarrow>
          if last_block < current
          then (case w_created w addr (last_block + 1) current n of
                  Inl _ \<Rightarrow> (last_block, n)
                | Inr events \<Rightarrow> (current, fold (co_sign w addr accounts) events n))
          else (last_block, n))"

section \<open>Choosing a client\<close>

text \<open>\<open>get_blockchain_client\<close>: the client for the provider, and whether it is wrapped.\<close>

definition get_blockchain_client :: "settings \<Rightarrow> chain_provider \<times> bool" where
  "get_blockchain_client st =
     (blockchain_provider st, multisig_enabled st \<and> blockchain_provider st \<noteq> Chain_Mock)"

section \<open>Lemmas\<close>

text \<open>Twenty-one polls are enough: half a second each, for ten seconds.\<close>

lemma poll_executed_returns:
  "\<forall>j\<ge>i. clk j + 1 / 2 \<le> clk (Suc j) \<Longrightarrow> deadline \<le> clk i + real k / 2
   \<Longrightarrow> poll_executed (Suc k) w clk deadline i addr b n \<noteq> None"
proof (induction k arbitrary: i n)
  case 0
  then show ?case by simp
next
  case (Suc k)
  have rest: "poll_executed (Suc k) w clk deadline (Suc i) addr b (w_sleep w n) \<noteq> None"
  proof (rule Suc.IH)
    show "\<forall>j\<ge>Suc i. clk j + 1 / 2 \<le> clk (Suc j)" using Suc.prems(1) by simp
    have "clk i + 1 / 2 \<le> clk (Suc i)" using Suc.prems(1) by simp
    then show "deadline \<le> clk (Suc i) + real k / 2" using Suc.prems(2) by (simp add: field_simps)
  qed
  show ?case
    by (subst poll_executed.simps) (use rest in \<open>auto simp del: poll_executed.simps split: sum.splits\<close>)
qed

text \<open>An answer of True comes from a poll that saw a timestamp.\<close>

lemma poll_executed_True:
  "poll_executed k w clk deadline i addr b n = Some (True, j, n') \<Longrightarrow> \<exists>t. w_stored_at w addr b n' = Inr t \<and> t \<noteq> 0"
  by (induction k w clk deadline i addr b n rule: poll_executed.induct) (auto split: if_splits sum.splits)

lemma wait_for_execution_returns:
  assumes "clk i \<le> clk (Suc i)" "\<forall>j\<ge>Suc i. clk j + 1 / 2 \<le> clk (Suc j)" "21 \<le> fuel"
  shows "wait_for_execution fuel get cfg clk i b st \<noteq> None"
proof -
  obtain k where k: "fuel = Suc k" "20 \<le> k" using assms(3) by (cases fuel) auto
  have "poll_executed fuel (ec_web3 cfg) clk (clk i + 10) (Suc i) addr b n \<noteq> None" for addr n
    unfolding k(1) by (rule poll_executed_returns) (use assms(1,2) k(2) in \<open>auto simp: field_simps\<close>)
  then show ?thesis
    by (simp add: wait_for_execution_def Let_def split: prod.split sum.split)
qed

lemma wait_for_execution_True:
  assumes "wait_for_execution fuel get cfg clk i b st = Some (Inr (True, j), st')"
  shows "\<exists>a t. w_stored_at (ec_web3 cfg) a b (ev_node (ms_inner st')) = Inr t \<and> t \<noteq> 0"
  using assms poll_executed_True
  by (fastforce simp: wait_for_execution_def Let_def split: prod.splits sum.splits)

lemma multisig_send_word:
  assumes "multisig_send cfg b d rt st = (Inr (w, h, rc), st')"
  shows "to_bytes32 (w_hexbytes (ec_web3 cfg)) (sha256_hex (ec_sha cfg) b) = Inr w"
proof -
  have "\<exists>r. commit_words cfg b rt = Inr (w, r)" using assms by (auto simp: multisig_send_def and_then_Inr_iff)
  then show ?thesis by (auto simp: commit_words_def res_simps)
qed

text \<open>
  A text longer than 64 digits is cut: the client keeps its head, the mirror its tail.
\<close>

lemma to_bytes32_keeps_head:
  assumes "32 < length bs"
  shows "to_bytes32 hexbytes (hex0x bs) = hexbytes (hex0x (take 32 bs))" "hex_to_bytes32 (hex0x bs) = Inr (drop (length bs - 32) bs)"
proof -
  have "take (2 * n) (hex_str cs) = hex_str (take n cs)" for n and cs :: bytes
  proof (induction n arbitrary: cs)
    case (Suc n)
    then show ?case by (cases cs) auto
  qed simp
  from this [of 32 bs] show "to_bytes32 hexbytes (hex0x bs) = hexbytes (hex0x (take 32 bs))"
    using assms by (simp add: to_bytes32_def hex_simps Let_def) (simp add: hex0x_def)
qed (use assms in \<open>simp add: fit32_def\<close>)

section \<open>A node to run the clients on\<close>

text \<open>A development node: every transaction is mined at once, with the block number for its time.\<close>

record devnet =
  dn_contract :: "string \<Rightarrow> ((oz_role \<times> address) set \<times> bool) anchor_contract"
  dn_receipts :: "string \<Rightarrow> tx_receipt option"
  dn_block :: nat

definition devnet_send :: "evm_tx \<Rightarrow> devnet \<Rightarrow> (string, devnet) outcome" where
  "devnet_send tx n =
     (let h = ''0x'' @ nat_str (dn_block n);
          done = (case tx_call tx of
              Commit_batch d b r \<Rightarrow>
                commit_batch_sol role_oz \<lparr>ci_sender = 1, ci_time = 1\<rparr> (word_of_int d) (b32_of b) (b32_of r) (dn_contract n (tx_to tx))
            | Propose_and_confirm d b r \<Rightarrow> Inl Unauthorized)
      in (Inr h, n\<lparr>dn_contract := (case done of Inl _ \<Rightarrow> dn_contract n | Inr k \<Rightarrow> (dn_contract n)(tx_to tx := k)),
                   dn_receipts := (dn_receipts n)(h \<mapsto> \<lparr>er_ok = (case done of Inl _ \<Rightarrow> False | Inr _ \<Rightarrow> True), er_block = int (dn_block n)\<rparr>),
                   dn_block := Suc (dn_block n)\<rparr>))"

definition devnet_web3 :: "devnet web3" where
  "devnet_web3 =
     \<lparr>w_hexbytes = (\<lambda>s. fromhex (removeprefix ''0x'' s)), w_checksum = Inr, w_nonce = (\<lambda>_ n. Inr (int (dn_block n))),
      w_gas_price = (\<lambda>_. Inr 1), w_base_fee = (\<lambda>_. Inr None), w_chain_id = (\<lambda>_. Inr 31337),
      w_block = (\<lambda>n. Inr (int (dn_block n))), w_send = devnet_send, w_wait = (\<lambda>_ h n. (Inr (dn_receipts n h), n)),
      w_verify = (\<lambda>a b leaf ps n. Inr (verify_proof_sol pad32 (b32_of b) (b32_of leaf) (map b32_of ps) (dn_contract n a))),
      w_stored_at = (\<lambda>a b n. Inr (uint (ra_time (ac_anchors (dn_contract n a) (b32_of b))))),
      w_executed = (\<lambda>_ _ _. Inr False), w_created = (\<lambda>_ _ _ _. Inr []), w_sleep = (\<lambda>n. n)\<rparr>"

definition devnet_config :: "devnet evm_config" where
  "devnet_config =
     \<lparr>ec_web3 = devnet_web3, ec_sha = pad32, ec_account = ''0x01'', ec_chain = 31337,
      ec_file = Some (dumps_plain (JObj [(''address'', JStr ''0xabc'')])), ec_exc = (\<lambda>_. ''error'')\<rparr>"

lemma mined_now: "commit_batch_sol oz \<lparr>ci_sender = a, ci_time = 1\<rparr> d b r k = Inr k' \<Longrightarrow> contract_step oz k k'"
  by (erule contract_step.commit) simp

interpretation devnet: evm_node devnet_config role_oz pad32 "\<lambda>a n. dn_contract n a"
proof
  fix tx :: evm_tx and n n' :: devnet and x a
  assume "w_send (ec_web3 devnet_config) tx n = (x, n')"
  then have s: "devnet_send tx n = (x, n')" by (simp add: devnet_config_def devnet_web3_def)
  have "dn_contract n' a = dn_contract n a \<or> contract_step role_oz (dn_contract n a) (dn_contract n' a)"
  proof (cases "tx_call tx")
    case (Commit_batch d b r)
    let ?done = "commit_batch_sol role_oz \<lparr>ci_sender = 1, ci_time = 1\<rparr> (word_of_int d) (b32_of b) (b32_of r) (dn_contract n (tx_to tx))"
    show ?thesis
    proof (cases ?done)
      case (Inl e)
      then show ?thesis using s Commit_batch by (auto simp: devnet_send_def Let_def)
    next
      case (Inr k)
      then show ?thesis using s Commit_batch mined_now [OF Inr] by (auto simp: devnet_send_def Let_def)
    qed
  next
    case (Propose_and_confirm d b r)
    then show ?thesis using s by (auto simp: devnet_send_def Let_def)
  qed
  then show "contract_runs role_oz (dn_contract n a) (dn_contract n' a)" by (auto simp: contract_runs_def)
next
  fix tx h and n n1 n2 :: devnet and d b r t rc
  assume s: "w_send (ec_web3 devnet_config) tx n = (Inr h, n1)" "tx_call tx = Commit_batch d b r"
    "w_wait (ec_web3 devnet_config) t h n1 = (Inr (Some rc), n2)" "er_ok rc"
  let ?m = "\<lparr>ci_sender = 1, ci_time = 1\<rparr>"
  obtain k where "commit_batch_sol role_oz ?m (word_of_int d) (b32_of b) (b32_of r) (dn_contract n (tx_to tx)) = Inr k"
    "dn_contract n2 (tx_to tx) = k"
    using s by (auto simp: devnet_config_def devnet_web3_def devnet_send_def Let_def split: sum.splits)
  then show "\<exists>ka kb m. contract_runs role_oz (dn_contract n (tx_to tx)) ka
      \<and> commit_batch_sol role_oz m (word_of_int d) (b32_of b) (b32_of r) ka = Inr kb
      \<and> (ucast (ci_time m) :: 64 word) \<noteq> 0 \<and> contract_runs role_oz kb (dn_contract n2 (tx_to tx))"
    by (intro exI [of _ "dn_contract n (tx_to tx)"] exI [of _ k] exI [of _ ?m]) simp
qed (auto simp: devnet_config_def devnet_web3_def hex_simps)

definition devnet_start :: devnet where
  "devnet_start = \<lparr>dn_contract = (\<lambda>_. anchored_contract 1 0), dn_receipts = Map.empty, dn_block = 0\<rparr>"

lemma devnet_file: "read_contract_address (ec_file devnet_config) = Some ''0xabc''"
  unfolding devnet_config_def by code_simp

lemma run_root: "evm_root pad32 [run_leaf] = hex0x (pad32 (utf8 run_leaf))"
  by (simp add: evm_root_def sha256_leaves_to_keccak_def run_leaf_def sha256_hex_def keccak_hex_hex0x hex_simps
      removeprefix_hex_str root_loop.simps)

lemma run_root_head: "hd (pad32 (utf8 run_leaf)) \<noteq> 0"
  by code_simp

lemma be_nat_head: "bs \<noteq> [] \<Longrightarrow> hd bs \<noteq> 0 \<Longrightarrow> be_nat bs \<noteq> 0"
  by (cases bs) (simp_all add: be_nat_Cons unat_eq_0)

lemma devnet_confirms:
  "\<exists>q c. cl_commit (anvil_client devnet_config) (\<lambda>_. 0) b 3 (evm_root pad32 [run_leaf]) (new_anvil devnet_config devnet_start) = (Inr q, c)
     \<and> rc_status q = A_CONFIRMED"
proof -
  define r where "r = pad32 (utf8 run_leaf)"
  have len: "length r = 32" using digest32_pad32 by (simp add: r_def digest32_def)
  then have "r \<noteq> []" by auto
  then have "be_nat r \<noteq> 0" using run_root_head by (intro be_nat_head) (simp_all add: r_def)
  then have nz: "b32_of r \<noteq> 0" using unat_b32_of [OF len] by auto
  have w: "commit_words devnet_config b (hex0x r) = Inr (pad32 (utf8 b), r)"
    using devnet.commit_words_eq [of b "hex0x r"] devnet.to_bytes32_hex0x [OF len] by (simp add: devnet_config_def)
  define c0 where "c0 = new_anvil devnet_config devnet_start"
  have a: "anvil_contract devnet_config c0 = (Inr ''0xabc'', c0)"
    by (simp add: c0_def anvil_contract_def anvil_address_def new_anvil_def devnet_file Let_def) (simp add: devnet_config_def devnet_web3_def)
  have node: "ev_node c0 = devnet_start" by (simp add: c0_def new_anvil_def)
  have "\<exists>q c. anvil_commit devnet_config (\<lambda>_. 0) b 3 (hex0x r) c0 = (Inr q, c) \<and> rc_status q = A_CONFIRMED"
    using nz
    by (simp add: anvil_commit_def evm_commit_def a w anvil_tx_def on_node_def node)
      (simp add: devnet_config_def devnet_web3_def devnet_send_def devnet_start_def commit_batch_sol_def role_oz_def
        anchored_contract_def no_anchor_def settled_def node Let_def)
  then show ?thesis by (simp add: anvil_client_def run_root r_def c0_def)
qed

section \<open>Properties\<close>

text \<open>
  C8. End to end on a real chain.  With the Anvil or the Sepolia client on any node that runs the
  Solidity contract, whatever else is committed there, in every reachable state of the
  interleaved system an event anchored in a batch whose row says CONFIRMED has an inclusion proof,
  and the contract's \<open>verifyProof\<close>, called through the client, accepts it.
\<close>

theorem event_verifies_on_contract:
  assumes "evm_node cfg oz kec contract" and "client = anvil_client cfg \<or> client = sepolia_client cfg"
    and "sys_reach sha kec client s"
    and "r \<in> set (audit (sy_db s))" "ae_tenant r = int_str d"
    and "a \<in> set (anchors (sy_db s))" "ae_anchored r = Some (an_batch a)" "an_status a = A_CONFIRMED"
  shows "\<exists>p. build_proof_for_event kec d (ae_seq r) (sy_db s) = Inr (Some p)
    \<and> cl_verify client (mp_batch p) (mp_leaf p) (mp_siblings p) (sy_chain s) = Inr True"
proof -
  note anvil = chain_contract.confirmed_event_verifies [OF evm_node.anvil_provides [OF assms(1)] _ assms(4-8)]
  note sepolia = chain_contract.confirmed_event_verifies [OF evm_node.sepolia_provides [OF assms(1)] _ assms(4-8)]
  show ?thesis using assms(2,3) anvil sepolia by blast
qed

theorem event_verifies_on_contract_witness:
  "\<exists>s p. sys_reach pad32 pad32 (anvil_client devnet_config) s \<and> build_proof_for_event pad32 3 1 (sy_db s) = Inr (Some p)
     \<and> cl_verify (anvil_client devnet_config) (mp_batch p) (mp_leaf p) (mp_siblings p) (sy_chain s) = Inr True"
proof -
  obtain s r a tail where s: "sys_reach pad32 pad32 (anvil_client devnet_config) s" "audit (sy_db s) = r # tail"
    "ae_tenant r = int_str 3" and seq: "ae_seq r = 1" and
    a: "a \<in> set (anchors (sy_db s))" "ae_anchored r = Some (an_batch a)" "an_status a = A_CONFIRMED"
    using run_reaches_on [OF devnet_confirms] by blast
  have mem: "r \<in> set (audit (sy_db s))" using s(2) by simp
  have "evm_node devnet_config role_oz pad32 (\<lambda>a n. dn_contract n a)" by (rule devnet.evm_node_axioms)
  from event_verifies_on_contract [OF this _ s(1) mem s(3) a] s(1) seq show ?thesis by auto
qed

text \<open>
  C24. A commit through the k-of-n wrapper always comes back: with a clock that advances by half a
  second from poll to poll, twenty-one polls are enough, whatever the node answers, and a receipt
  that says CONFIRMED means that the anchor contract shows a timestamp for the batch.
\<close>

theorem multisig_commit_returns:
  assumes "21 \<le> fuel" and "clk 1 \<le> clk 2" and "\<forall>j\<ge>2. clk j + 1 / 2 \<le> clk (Suc j)"
  shows "\<exists>r st'. multisig_commit fuel get cfg clk b d rt st = Some (r, st')
    \<and> (\<forall>q. r = Inr q \<longrightarrow> rc_status q = A_CONFIRMED \<longrightarrow>
         (\<exists>a w t. to_bytes32 (w_hexbytes (ec_web3 cfg)) (sha256_hex (ec_sha cfg) b) = Inr w
            \<and> w_stored_at (ec_web3 cfg) a w (ev_node (ms_inner st')) = Inr t \<and> t \<noteq> 0))"
proof -
  obtain x st1 where x: "multisig_send cfg b d rt st = (x, st1)" by (cases "multisig_send cfg b d rt st")
  show ?thesis
  proof (cases x)
    case (Inl e)
    then show ?thesis using x by (simp add: multisig_commit_def)
  next
    case (Inr y)
    obtain w h rc where y: "y = (w, h, rc)" by (cases y)
    note word = multisig_send_word [OF x [unfolded Inr y]]
    show ?thesis
    proof (cases rc)
      case None
      then show ?thesis using x Inr y by (simp add: multisig_commit_def settled_def)
    next
      case (Some q)
      obtain z st2 where z: "wait_for_execution fuel get cfg clk 1 w st1 = Some (z, st2)"
        using wait_for_execution_returns [of clk 1 fuel get cfg w st1] assms by (auto simp: numeral_2_eq_2)
      show ?thesis
      proof (cases z)
        case (Inl e)
        then show ?thesis using x Inr y Some z by (simp add: multisig_commit_def)
      next
        case zr: (Inr p)
        obtain fired j where p: "p = (fired, j)" by (cases p)
        show ?thesis
          using x Inr y Some z zr p word wait_for_execution_True [of fuel get cfg clk 1 w st1 j st2]
          by (cases fired) (auto simp: multisig_commit_def)
      qed
    qed
  qed
qed

theorem multisig_commit_returns_witness:
  "\<exists>r st'. multisig_commit 21 (anvil_contract devnet_config) devnet_config (\<lambda>i. of_nat i) ''b'' 3 ''00''
     \<lparr>ms_inner = new_anvil devnet_config devnet_start, ms_address = Some ''0xdef''\<rparr> = Some (r, st')"
  using multisig_commit_returns [of 21 "\<lambda>i. of_nat i" "anvil_contract devnet_config" devnet_config "''b''" 3 "''00''"
      "\<lparr>ms_inner = new_anvil devnet_config devnet_start, ms_address = Some ''0xdef''\<rparr>"] by auto

end
