(* ===== verification/Cosign.thy ===== *)
theory Cosign
  imports Chain_Evm
begin

text \<open>
  The daemon of \<open>src/backend/scripts/co_sign_daemon.py\<close> around the rounds of \<open>Chain_Evm\<close>: its start, its loop, and what it
  does to the wrapper contract.

  The locale \<open>registrar_node\<close> is the documented behaviour of a node that runs the wrapper of \<open>Contracts\<close>: reads answer, the
  flag is that of the proposal, and a transaction with the sender's nonce is one call of \<open>proposeAndConfirm\<close>, which either
  reverts and leaves everything as it is or goes through.  Over it a round of the daemon brings every proposal it
  finds to its execution, when its accounts together with those who confirmed before are enough; and a commit of
  \<open>multisig_client.py\<close> with the daemon beside it comes back CONFIRMED.
\<close>

section \<open>The start of the daemon\<close>

definition DEFAULT_COSIGNERS :: "string list" where
  "DEFAULT_COSIGNERS =
     [''0x59c6995e998f97a5a0044966f0945389dc9e86dae88c7a8412f4603b6b78690d'',
      ''0x5de4111afa1a4b94908f83103eb1f1706367c2e68ca870fc3fb9a804cdab365a'']"

definition cosigner_keys :: "string \<Rightarrow> string list" where
  "cosigner_keys cosigner_private_keys =
     (let ks = map strip (filter (\<lambda>k. strip k \<noteq> []) (split_on CHR '','' cosigner_private_keys))
      in if ks = [] then DEFAULT_COSIGNERS else ks)"

text \<open>
  The address file may be missing, or have no address of the wrapper: the daemon then ends.  \<open>from_key\<close> is
  \<open>Account.from_key\<close>, which gives the address of a key or raises.
\<close>

datatype daemon_start =
    Nothing_to_do
  | No_address_file
  | No_multisig_address
  | Ready string "string list" int

definition checksum_json :: "'n web3 \<Rightarrow> json \<Rightarrow> string res" where
  "checksum_json w j = (case j of JStr s \<Rightarrow> w_checksum w s | _ \<Rightarrow> Inl TypeError)"

definition daemon_start ::
  "'n web3 \<Rightarrow> (string \<Rightarrow> string res) \<Rightarrow> settings \<Rightarrow> string \<Rightarrow> string option \<Rightarrow> 'n \<Rightarrow> daemon_start res" where
  "daemon_start w from_key st cosigner_private_keys file n =
     (if \<not> multisig_enabled st then Inr Nothing_to_do
      else case file of
        None \<Rightarrow> Inr No_address_file
      | Some t \<Rightarrow> res_bind (json_loads t) (\<lambda>data.
          case data of
            JObj d \<Rightarrow>
              (case json_get ''multisig_address'' d of
                 None \<Rightarrow> Inr No_multisig_address
               | Some a \<Rightarrow>
                   if \<not> truthy a then Inr No_multisig_address
                   else res_bind (checksum_json w a) (\<lambda>addr.
                        res_bind (map_res from_key (cosigner_keys cosigner_private_keys)) (\<lambda>accounts.
                        res_bind (w_block w n) (\<lambda>last_block. Inr (Ready addr accounts last_block)))))
          | _ \<Rightarrow> Inl AttributeError))"

text \<open>The loop: a round, half a second, and again; \<open>k\<close> rounds of it.\<close>

fun daemon_rounds :: "nat \<Rightarrow> 'n web3 \<Rightarrow> string \<Rightarrow> string list \<Rightarrow> int \<Rightarrow> 'n \<Rightarrow> int \<times> 'n" where
  "daemon_rounds 0 w addr accounts last_block n = (last_block, n)"
| "daemon_rounds (Suc k) w addr accounts last_block n =
     (let (last_block, n) = daemon_round w addr accounts last_block n
      in daemon_rounds k w addr accounts last_block (w_sleep w n))"

lemma daemon_round_forward: "last_block \<le> fst (daemon_round w addr accounts last_block n)"
  by (simp add: daemon_round_def split: sum.split)

lemma daemon_rounds_forward: "last_block \<le> fst (daemon_rounds k w addr accounts last_block n)"
proof (induction k arbitrary: last_block n)
  case (Suc k)
  obtain l m where r: "daemon_round w addr accounts last_block n = (l, m)" by (cases "daemon_round w addr accounts last_block n")
  then have "last_block \<le> l" using daemon_round_forward [of last_block w addr accounts n] by simp
  then show ?case using Suc.IH [of l "w_sleep w m"] r by simp
qed simp

section \<open>Runs of confirmations of one proposal\<close>

text \<open>Calls of \<open>proposeAndConfirm\<close> in blocks whose time is not zero.\<close>

inductive confirm_runs ::
  "'z open_zeppelin \<Rightarrow> (bytes \<Rightarrow> bytes) \<Rightarrow> address \<Rightarrow> 16 word \<Rightarrow> b32 \<Rightarrow> b32
   \<Rightarrow> multisig \<times> 'z anchor_contract \<Rightarrow> multisig \<times> 'z anchor_contract \<Rightarrow> bool"
  for oz kec self d b r where
  stay: "confirm_runs oz kec self d b r gk gk"
| more: "propose_and_confirm oz kec self m d b r gk = Inr gk1 \<Longrightarrow> (ucast (ci_time m) :: 64 word) \<noteq> 0 \<Longrightarrow> confirm_runs oz kec self d b r gk1 gk'
    \<Longrightarrow> confirm_runs oz kec self d b r gk gk'"

text \<open>What such a run leaves alone: signers, roles, other proposals and other batches.\<close>

definition same_elsewhere :: "b32 set \<Rightarrow> b32 set \<Rightarrow> multisig \<times> 'z anchor_contract \<Rightarrow> multisig \<times> 'z anchor_contract \<Rightarrow> bool" where
  "same_elsewhere P B gk gk' \<longleftrightarrow>
     mg_threshold (fst gk') = mg_threshold (fst gk) \<and> mg_is_signer (fst gk') = mg_is_signer (fst gk)
     \<and> ac_access (snd gk') = ac_access (snd gk)
     \<and> (\<forall>q. q \<notin> P \<longrightarrow> mg_proposals (fst gk') q = mg_proposals (fst gk) q \<and> confirmers (fst gk') q = confirmers (fst gk) q)
     \<and> (\<forall>c. c \<notin> B \<longrightarrow> ac_anchors (snd gk') c = ac_anchors (snd gk) c)"

lemma same_elsewhere_refl [simp]: "same_elsewhere P B gk gk"
  by (simp add: same_elsewhere_def)

lemma same_elsewhere_trans: "same_elsewhere P B gk gk1 \<Longrightarrow> same_elsewhere Q C gk1 gk2 \<Longrightarrow> same_elsewhere (P \<union> Q) (B \<union> C) gk gk2"
  by (simp add: same_elsewhere_def)

lemma confirm_elsewhere:
  assumes "propose_and_confirm oz kec self m d b r (g, k) = Inr (g', k')"
  shows "same_elsewhere {proposal_id_of kec d b r} {b} (g, k) (g', k')"
proof -
  note e = propose_and_confirm_Inr [OF assms]
  have "ac_access k' = ac_access k \<and> (\<forall>c. c \<noteq> b \<longrightarrow> ac_anchors k' c = ac_anchors k c)"
    using e(11) by (auto simp: commit_batch_sol_Inr split: if_splits)
  then show ?thesis using e(4,6) e(8) by (simp add: same_elsewhere_def)
qed

definition executed :: "(bytes \<Rightarrow> bytes) \<Rightarrow> 16 word \<Rightarrow> b32 \<Rightarrow> b32 \<Rightarrow> multisig \<Rightarrow> bool" where
  "executed kec d b r g \<longleftrightarrow> sp_executed (mg_proposals g (proposal_id_of kec d b r))"

lemma confirm_runs_spec:
  "confirm_runs oz kec self d b r gk gk' \<Longrightarrow> seated (fst gk) \<Longrightarrow>
   seated (fst gk') \<and> same_elsewhere {proposal_id_of kec d b r} {b} gk gk'
   \<and> (executed kec d b r (fst gk) \<longrightarrow> gk' = gk)
   \<and> (\<not> executed kec d b r (fst gk') \<longrightarrow> snd gk' = snd gk \<and> confirmers (fst gk) (proposal_id_of kec d b r) \<subseteq> confirmers (fst gk') (proposal_id_of kec d b r))
   \<and> (\<not> executed kec d b r (fst gk) \<longrightarrow> executed kec d b r (fst gk') \<longrightarrow>
        ra_root (ac_anchors (snd gk') b) = r \<and> ra_time (ac_anchors (snd gk') b) \<noteq> 0)"
proof (induction rule: confirm_runs.induct)
  case (more m gk gk1 gk')
  obtain g k g1 k1 where gk: "gk = (g, k)" "gk1 = (g1, k1)" by (cases gk, cases gk1) blast
  note run = more.hyps(1) [unfolded gk]
  note e = propose_and_confirm_Inr [OF run]
  have seat: "seated g1" using propose_seated [OF run] more.prems gk by simp
  note ih = more.IH [unfolded gk, simplified, OF seat]
  have open0: "\<not> executed kec d b r g" using e(2) by (simp add: executed_def)
  have ex1: "executed kec d b r g1 \<longleftrightarrow> mg_threshold g \<le> sp_confirmations (mg_proposals g (proposal_id_of kec d b r)) + 1"
    using e(10) by (simp add: executed_def)
  have one: "ra_root (ac_anchors k1 b) = r \<and> ra_time (ac_anchors k1 b) \<noteq> 0" if "executed kec d b r g1"
    using that e(11) ex1 more.hyps(2) by (auto simp: commit_batch_sol_Inr)
  have two: "k1 = k \<and> confirmers g (proposal_id_of kec d b r) \<subseteq> confirmers g1 (proposal_id_of kec d b r)" if "\<not> executed kec d b r g1"
    using that e(7,11) ex1 by auto
  have frame: "same_elsewhere {proposal_id_of kec d b r} {b} gk gk'"
    using same_elsewhere_trans [OF confirm_elsewhere [OF run]] ih gk by fastforce
  show ?case
  proof (cases "executed kec d b r g1")
    case True
    then have "gk' = (g1, k1)" using ih by blast
    then show ?thesis using open0 seat frame one True gk by simp
  next
    case False
    then show ?thesis using ih open0 frame two gk by auto
  qed
qed auto

lemma confirm_runs_trans:
  "confirm_runs oz kec self d b r gk gk1 \<Longrightarrow> confirm_runs oz kec self d b r gk1 gk2 \<Longrightarrow> confirm_runs oz kec self d b r gk gk2"
  by (induction rule: confirm_runs.induct) (auto intro: confirm_runs.more)

section \<open>A node with the wrapper\<close>

text \<open>What \<open>commitBatch\<close> asks for besides the confirmations.\<close>

definition committable :: "'z open_zeppelin \<Rightarrow> address \<Rightarrow> b32 \<Rightarrow> b32 \<Rightarrow> 'z anchor_contract \<Rightarrow> bool" where
  "committable oz self b r k \<longleftrightarrow> oz_has_role oz REGISTRAR_ROLE self (ac_access k) \<and> \<not> oz_paused oz (ac_access k) \<and> r \<noteq> 0
     \<and> ra_time (ac_anchors k b) = 0"

lemma confirm_progress:
  assumes "mg_is_signer g (ci_sender m)" "\<not> executed kec d b r g" "committable oz self b r k"
  shows "case propose_and_confirm oz kec self m d b r (g, k) of
      Inl _ \<Rightarrow> ci_sender m \<in> confirmers g (proposal_id_of kec d b r)
    | Inr gk' \<Rightarrow> ci_sender m \<in> confirmers (fst gk') (proposal_id_of kec d b r)"
proof (cases "mg_confirmed g (proposal_id_of kec d b r) (ci_sender m)")
  case True
  then show ?thesis using assms(1,2) by (simp add: propose_and_confirm_def executed_def confirmers_def)
next
  case False
  obtain k' where "commit_batch_sol oz \<lparr>ci_sender = self, ci_time = ci_time m\<rparr> d b r k = Inr k'"
    using assms(3) by (simp add: commit_batch_sol_def committable_def)
  then show ?thesis using assms(1,2) False by (simp add: propose_and_confirm_def executed_def confirmers_def Let_def)
qed

text \<open>The event in the log and the proposal it stands for.\<close>

definition log_district :: "created_log \<Rightarrow> 16 word" where
  "log_district ev = word_of_int (lg_district ev)"

definition log_batch :: "created_log \<Rightarrow> b32" where
  "log_batch ev = b32_of (lg_batch ev)"

definition log_root :: "created_log \<Rightarrow> b32" where
  "log_root ev = b32_of (lg_root ev)"

definition log_stored :: "created_log \<Rightarrow> 'z anchor_contract \<Rightarrow> bool" where
  "log_stored ev k \<longleftrightarrow> ra_root (ac_anchors k (log_batch ev)) = log_root ev \<and> ra_time (ac_anchors k (log_batch ev)) \<noteq> 0"

definition log_pid :: "created_log \<Rightarrow> b32" where
  "log_pid ev = b32_of (lg_proposal ev)"

definition log_ok :: "(bytes \<Rightarrow> bytes) \<Rightarrow> created_log \<Rightarrow> bool" where
  "log_ok kec ev \<longleftrightarrow> length (lg_proposal ev) = 32 \<and> length (lg_batch ev) = 32 \<and> length (lg_root ev) = 32
     \<and> log_pid ev = proposal_id_of kec (log_district ev) (log_batch ev) (log_root ev)"

definition log_executed :: "created_log \<Rightarrow> multisig \<Rightarrow> bool" where
  "log_executed ev g \<longleftrightarrow> sp_executed (mg_proposals g (log_pid ev))"

lemma log_executed_iff: "log_ok kec ev \<Longrightarrow> log_executed ev g \<longleftrightarrow> executed kec (log_district ev) (log_batch ev) (log_root ev) g"
  by (simp add: log_executed_def executed_def log_ok_def)

text \<open>
  An event the daemon can bring to its end: executed already, or one that the contract would store and for which its
  accounts together with those who confirmed are enough.
\<close>

definition log_ready ::
  "'z open_zeppelin \<Rightarrow> address \<Rightarrow> (string \<Rightarrow> address) \<Rightarrow> string list \<Rightarrow> multisig \<times> 'z anchor_contract \<Rightarrow> created_log \<Rightarrow> bool" where
  "log_ready oz self signer accounts gk ev \<longleftrightarrow> log_executed ev (fst gk)
     \<or> committable oz self (log_batch ev) (log_root ev) (snd gk)
       \<and> unat (mg_threshold (fst gk)) \<le> card (signer ` set accounts \<union> confirmers (fst gk) (log_pid ev))"

locale registrar_node =
  fixes w :: "'n web3" and addr :: string and oz :: "'z open_zeppelin" and kec :: "bytes \<Rightarrow> bytes" and self :: address
    and signer :: "string \<Rightarrow> address" and contracts :: "'n \<Rightarrow> multisig \<times> 'z anchor_contract"
  assumes answers: "is_ok (w_nonce w a n)" "is_ok (w_gas_price w n)" "is_ok (w_chain_id w n)"
    and flag: "length pid = 32 \<Longrightarrow> w_executed w addr pid n = Inr (sp_executed (mg_proposals (fst (contracts n)) (b32_of pid)))"
    and mined: "tx_to tx = addr \<Longrightarrow> tx_call tx = Propose_and_confirm d b r \<Longrightarrow> length b = 32 \<Longrightarrow> length r = 32
      \<Longrightarrow> w_nonce w (tx_from tx) n = Inr (tx_nonce tx) \<Longrightarrow> w_chain_id w n = Inr (tx_chain tx)
      \<Longrightarrow> \<exists>t. (ucast t :: 64 word) \<noteq> 0 \<and> contracts (snd (and_then (w_send w tx n) (\<lambda>h n. w_wait w None h n))) =
           (case propose_and_confirm oz kec self \<lparr>ci_sender = signer (tx_from tx), ci_time = t\<rparr>
                   (word_of_int d) (b32_of b) (b32_of r) (contracts n) of
              Inl _ \<Rightarrow> contracts n
            | Inr gk \<Rightarrow> gk)"
begin

lemma cosign_tx_runs:
  obtains tx where "cosign_tx w addr account ev n = Inr tx" "tx_to tx = addr" "tx_from tx = account"
    "tx_call tx = Propose_and_confirm (lg_district ev) (lg_batch ev) (lg_root ev)"
    "w_nonce w account n = Inr (tx_nonce tx)" "w_chain_id w n = Inr (tx_chain tx)"
proof -
  obtain nonce gas chain where "w_nonce w account n = Inr nonce" "w_gas_price w n = Inr gas" "w_chain_id w n = Inr chain"
    using answers(1) [of account n] answers(2,3) [of n]
    by (cases "w_nonce w account n"; cases "w_gas_price w n"; cases "w_chain_id w n") simp_all
  then show thesis by (intro that [of "projr (cosign_tx w addr account ev n)"]) (simp_all add: cosign_tx_def)
qed

text \<open>One account: it has confirmed afterwards, unless the proposal is executed.\<close>

lemma one_account:
  assumes "log_ok kec ev" "seated (fst (contracts n))" "mg_is_signer (fst (contracts n)) (signer account)"
    and "\<not> log_executed ev (fst (contracts n))" "committable oz self (log_batch ev) (log_root ev) (snd (contracts n))"
  defines "n' \<equiv> snd (and_then (cosign_tx w addr account ev n, n) (\<lambda>tx n. and_then (w_send w tx n) (\<lambda>h n. w_wait w None h n)))"
  shows "confirm_runs oz kec self (log_district ev) (log_batch ev) (log_root ev) (contracts n) (contracts n')
    \<and> signer account \<in> confirmers (fst (contracts n')) (log_pid ev)"
proof -
  obtain tx where tx: "cosign_tx w addr account ev n = Inr tx" "tx_to tx = addr" "tx_from tx = account"
    "tx_call tx = Propose_and_confirm (lg_district ev) (lg_batch ev) (lg_root ev)"
    "w_nonce w account n = Inr (tx_nonce tx)" "w_chain_id w n = Inr (tx_chain tx)"
    by (rule cosign_tx_runs)
  have len: "length (lg_batch ev) = 32" "length (lg_root ev) = 32" using assms(1) by (simp_all add: log_ok_def)
  obtain t where t: "(ucast t :: 64 word) \<noteq> 0" "contracts n' =
      (case propose_and_confirm oz kec self \<lparr>ci_sender = signer account, ci_time = t\<rparr>
          (log_district ev) (log_batch ev) (log_root ev) (contracts n) of Inl _ \<Rightarrow> contracts n | Inr gk \<Rightarrow> gk)"
    using mined [OF tx(2,4) len] tx(1,3,5,6) by (auto simp: n'_def log_district_def log_batch_def log_root_def)
  have pid: "log_pid ev = proposal_id_of kec (log_district ev) (log_batch ev) (log_root ev)"
    using assms(1) by (simp add: log_ok_def)
  have "\<not> executed kec (log_district ev) (log_batch ev) (log_root ev) (fst (contracts n))"
    using assms(1,4) by (simp add: log_executed_iff)
  from confirm_progress [OF _ this assms(5), of "\<lparr>ci_sender = signer account, ci_time = t\<rparr>"] assms(3)
  show ?thesis using t
    by (auto simp: pid intro: confirm_runs.intros split: sum.splits)
qed

lemma co_sign_runs:
  assumes "log_ok kec ev"
  shows "seated (fst (contracts n)) \<Longrightarrow> \<forall>a\<in>set accounts. mg_is_signer (fst (contracts n)) (signer a)
    \<Longrightarrow> log_executed ev (fst (contracts n)) \<or> committable oz self (log_batch ev) (log_root ev) (snd (contracts n))
    \<Longrightarrow> confirm_runs oz kec self (log_district ev) (log_batch ev) (log_root ev) (contracts n) (contracts (co_sign w addr accounts ev n))
      \<and> (log_executed ev (fst (contracts (co_sign w addr accounts ev n)))
         \<or> signer ` set accounts \<union> confirmers (fst (contracts n)) (log_pid ev)
             \<subseteq> confirmers (fst (contracts (co_sign w addr accounts ev n))) (log_pid ev))"
proof (induction accounts arbitrary: n)
  case Nil
  then show ?case by (simp add: confirm_runs.stay)
next
  case (Cons account accounts)
  have pid: "length (lg_proposal ev) = 32" "log_pid ev = proposal_id_of kec (log_district ev) (log_batch ev) (log_root ev)"
    using assms by (simp_all add: log_ok_def)
  show ?case
  proof (cases "log_executed ev (fst (contracts n))")
    case True
    then have "co_sign w addr (account # accounts) ev n = n" using flag [OF pid(1)] by (simp add: log_executed_def log_pid_def)
    then show ?thesis using True by (simp add: confirm_runs.stay)
  next
    case False
    let ?n = "snd (and_then (cosign_tx w addr account ev n, n) (\<lambda>tx n. and_then (w_send w tx n) (\<lambda>h n. w_wait w None h n)))"
    have next_one: "co_sign w addr (account # accounts) ev n = co_sign w addr accounts ev ?n"
      using False flag [OF pid(1), of n] by (simp add: log_executed_def log_pid_def case_prod_beta)
    have step: "confirm_runs oz kec self (log_district ev) (log_batch ev) (log_root ev) (contracts n) (contracts ?n)"
      "signer account \<in> confirmers (fst (contracts ?n)) (log_pid ev)"
      using one_account [OF assms Cons.prems(1) _ False] Cons.prems(2,3) False by auto
    note s = confirm_runs_spec [OF step(1) Cons.prems(1), folded pid(2)]
    have ready: "log_executed ev (fst (contracts ?n)) \<or> committable oz self (log_batch ev) (log_root ev) (snd (contracts ?n))"
      using s Cons.prems(3) False by (auto simp: log_executed_iff [OF assms])
    have signers: "\<forall>a\<in>set accounts. mg_is_signer (fst (contracts ?n)) (signer a)"
      using s Cons.prems(2) by (simp add: same_elsewhere_def)
    have seat: "seated (fst (contracts ?n))" using s by blast
    note ih = Cons.IH [OF seat signers ready]
    have "log_executed ev (fst (contracts ?n)) \<Longrightarrow> log_executed ev (fst (contracts (co_sign w addr accounts ev ?n)))"
      using confirm_runs_spec [OF conjunct1 [OF ih] seat] by (simp add: log_executed_iff [OF assms])
    then show ?thesis using confirm_runs_trans [OF step(1) conjunct1 [OF ih]] ih step(2) s
      unfolding next_one by (auto simp: log_executed_iff [OF assms])
  qed
qed

lemma co_sign_effect:
  assumes "log_ok kec ev" "seated (fst (contracts n))" "\<forall>a\<in>set accounts. mg_is_signer (fst (contracts n)) (signer a)"
    and "log_ready oz self signer accounts (contracts n) ev"
  defines "n' \<equiv> co_sign w addr accounts ev n"
  shows "seated (fst (contracts n'))" "same_elsewhere {log_pid ev} {log_batch ev} (contracts n) (contracts n')"
    and "log_executed ev (fst (contracts n'))"
    and "log_executed ev (fst (contracts n)) \<or> log_stored ev (snd (contracts n'))"
proof -
  have pid: "log_pid ev = proposal_id_of kec (log_district ev) (log_batch ev) (log_root ev)" using assms(1) by (simp add: log_ok_def)
  have "log_executed ev (fst (contracts n)) \<or> committable oz self (log_batch ev) (log_root ev) (snd (contracts n))"
    using assms(4) by (auto simp: log_ready_def)
  note run = co_sign_runs [OF assms(1-3) this, folded n'_def]
  note spec = confirm_runs_spec [OF conjunct1 [OF run] assms(2), folded pid log_executed_iff [OF assms(1)]]
  show seat: "seated (fst (contracts n'))" and frame: "same_elsewhere {log_pid ev} {log_batch ev} (contracts n) (contracts n')"
    using spec by blast+
  show ex: "log_executed ev (fst (contracts n'))"
  proof (rule ccontr)
    assume not: "\<not> log_executed ev (fst (contracts n'))"
    let ?c = "confirmers (fst (contracts n')) (log_pid ev)"
    have "finite ?c" using seat by (auto simp: seated_def intro: finite_subset)
    moreover have "signer ` set accounts \<union> confirmers (fst (contracts n)) (log_pid ev) \<subseteq> ?c" using run not by blast
    ultimately have "card (signer ` set accounts \<union> confirmers (fst (contracts n)) (log_pid ev)) \<le> card ?c" by (rule card_mono)
    moreover have "card ?c < unat (mg_threshold (fst (contracts n')))" using seat not by (simp add: seated_def log_executed_def)
    moreover have "\<not> log_executed ev (fst (contracts n))" using not spec by auto
    ultimately show False using assms(4) frame by (simp add: log_ready_def same_elsewhere_def)
  qed
  show "log_executed ev (fst (contracts n)) \<or> log_stored ev (snd (contracts n'))"
    using spec ex by (auto simp: log_stored_def)
qed

text \<open>One event after the other: what one does is not undone by the next.\<close>

lemma fold_co_sign:
  "seated (fst (contracts n)) \<Longrightarrow> \<forall>a\<in>set accounts. mg_is_signer (fst (contracts n)) (signer a)
   \<Longrightarrow> \<forall>ev\<in>set events. log_ok kec ev \<and> log_ready oz self signer accounts (contracts n) ev
   \<Longrightarrow> distinct (map log_pid events) \<Longrightarrow> distinct (map log_batch events)
   \<Longrightarrow> same_elsewhere (log_pid ` set events) (log_batch ` set events) (contracts n) (contracts (fold (co_sign w addr accounts) events n))
     \<and> (\<forall>ev\<in>set events. log_executed ev (fst (contracts (fold (co_sign w addr accounts) events n)))
          \<and> (log_executed ev (fst (contracts n))
             \<or> log_stored ev (snd (contracts (fold (co_sign w addr accounts) events n)))))"
proof (induction events arbitrary: n)
  case (Cons e events)
  let ?n = "co_sign w addr accounts e n"
  have e: "log_ok kec e" "log_ready oz self signer accounts (contracts n) e" using Cons.prems(3) by simp_all
  note eff = co_sign_effect [OF e(1) Cons.prems(1,2) e(2)]
  have other: "log_pid x \<noteq> log_pid e" "log_batch x \<noteq> log_batch e" if "x \<in> set events" for x
    using Cons.prems(4,5) that by (auto simp: image_iff)
  have ready: "\<forall>x\<in>set events. log_ok kec x \<and> log_ready oz self signer accounts (contracts ?n) x"
  proof
    fix x assume x: "x \<in> set events"
    then have "log_ok kec x" "log_ready oz self signer accounts (contracts n) x" using Cons.prems(3) by simp_all
    then show "log_ok kec x \<and> log_ready oz self signer accounts (contracts ?n) x"
      using eff(2) other [OF x] by (simp add: log_ready_def same_elsewhere_def log_executed_def committable_def)
  qed
  have "\<forall>a\<in>set accounts. mg_is_signer (fst (contracts ?n)) (signer a)" using Cons.prems(2) eff(2) by (simp add: same_elsewhere_def)
  note ih = Cons.IH [OF eff(1) this ready]
  have rest: "same_elsewhere (log_pid ` set events) (log_batch ` set events) (contracts ?n) (contracts (fold (co_sign w addr accounts) events ?n))"
    using ih Cons.prems(4,5) by simp
  have "log_executed e (fst (contracts (fold (co_sign w addr accounts) events ?n)))"
    "ac_anchors (snd (contracts (fold (co_sign w addr accounts) events ?n))) (log_batch e) = ac_anchors (snd (contracts ?n)) (log_batch e)"
    using rest eff(3) Cons.prems(4,5) by (auto simp: same_elsewhere_def log_executed_def)
  moreover have "log_executed x (fst (contracts ?n)) = log_executed x (fst (contracts n))" if "x \<in> set events" for x
    using eff(2) other [OF that] by (simp add: same_elsewhere_def log_executed_def)
  ultimately show ?case
    using same_elsewhere_trans [OF eff(2) rest] eff(4) ih Cons.prems(4,5) by (auto simp: log_stored_def)
qed simp

end

section \<open>A round of the daemon\<close>

text \<open>A history of the contracts that starts with a new wrapper keeps its signers and the count of confirmations.\<close>

lemma custody_reach_seated:
  assumes "new_multisig signers thr = Inr g0" "custody_reach oz kec self (g0, k0) gk"
  shows "seated (fst gk) \<and> mg_threshold (fst gk) = thr \<and> mg_signers (fst gk) = signers"
proof -
  note n = new_multisig_seated [OF assms(1)]
  have "custody_step oz kec self a b \<Longrightarrow> seated (fst a) \<Longrightarrow> seated (fst b)" for a b :: "multisig \<times> 'a anchor_contract"
    by (induction rule: custody_step.induct) (auto intro: propose_seated)
  with assms(2) have "seated (fst gk)" by (induction rule: custody_reach.induct) (auto simp: n(1))
  then show ?thesis using custody_reach_frame [OF assms(2)] n by simp
qed

lemma daemon_round_effect:
  assumes "registrar_node w addr oz kec self signer contracts"
    and "new_multisig signers thr = Inr g0" "custody_reach oz kec self (g0, k0) (contracts n)"
    and "w_block w n = Inr current" "last_block < current" "w_created w addr (last_block + 1) current n = Inr events"
    and "signer ` set accounts \<subseteq> set signers"
    and "\<And>ev. ev \<in> set events \<Longrightarrow> log_ok kec ev \<and> log_ready oz self signer accounts (contracts n) ev"
    and "distinct (map log_pid events)" "distinct (map log_batch events)"
    and "daemon_round w addr accounts last_block n = (l, n')"
  shows "l = current \<and> (\<forall>ev\<in>set events. log_executed ev (fst (contracts n'))
    \<and> (log_executed ev (fst (contracts n)) \<or> log_stored ev (snd (contracts n'))))"
proof -
  note s = custody_reach_seated [OF assms(2,3)]
  then have "\<forall>a\<in>set accounts. mg_is_signer (fst (contracts n)) (signer a)" using assms(7) by (auto simp: seated_def)
  from registrar_node.fold_co_sign [OF assms(1) _ this _ assms(9,10)] s assms(8)
  show ?thesis using assms(4-6,11) by (auto simp: daemon_round_def)
qed

section \<open>A node to run the daemon on\<close>

text \<open>
  A development node with the wrapper at \<open>0xdef\<close> and the proposals it has logged, one to a block; transactions are mined
  at once, with the account \<open>0x02\<close> for the second signer and all others for the third.  While a client sleeps, the daemon makes
  a round.
\<close>

record registrar_net =
  rn_contracts :: "multisig \<times> ((oz_role \<times> address) set \<times> bool) anchor_contract"
  rn_logs :: "created_log list"

definition net_signer :: "string \<Rightarrow> address" where
  "net_signer a = (if a = ''0x02'' then 2 else 3)"

definition created_of :: "int \<Rightarrow> bytes \<Rightarrow> bytes \<Rightarrow> created_log" where
  "created_of d b r =
     \<lparr>lg_proposal = b32_bytes (proposal_id_of pad32 (word_of_int d) (b32_of b) (b32_of r)), lg_district = d, lg_batch = b, lg_root = r\<rparr>"

definition net_send :: "evm_tx \<Rightarrow> registrar_net \<Rightarrow> (string, registrar_net) outcome" where
  "net_send tx n =
     (case tx_call tx of
        Commit_batch d b r \<Rightarrow> (Inl RpcError, n)
      | Propose_and_confirm d b r \<Rightarrow>
          let p = mg_proposals (fst (rn_contracts n)) (proposal_id_of pad32 (word_of_int d) (b32_of b) (b32_of r))
          in case propose_and_confirm role_oz pad32 9 \<lparr>ci_sender = net_signer (tx_from tx), ci_time = 1\<rparr>
                  (word_of_int d) (b32_of b) (b32_of r) (rn_contracts n) of
               Inl _ \<Rightarrow> (Inl RpcError, n)
             | Inr gk \<Rightarrow> (Inr ''0x01'', \<lparr>rn_contracts = gk, rn_logs = rn_logs n @ (if sp_at p = 0 then [created_of d b r] else [])\<rparr>))"

definition quiet_web3 :: "registrar_net web3" where
  "quiet_web3 =
     \<lparr>w_hexbytes = (\<lambda>s. fromhex (removeprefix ''0x'' s)), w_checksum = Inr, w_nonce = (\<lambda>_ _. Inr 0),
      w_gas_price = (\<lambda>_. Inr 1), w_base_fee = (\<lambda>_. Inr None), w_chain_id = (\<lambda>_. Inr 31337),
      w_block = (\<lambda>n. Inr (int (length (rn_logs n)))), w_send = net_send,
      w_wait = (\<lambda>_ _ n. (Inr (Some \<lparr>er_ok = True, er_block = 1\<rparr>), n)), w_verify = (\<lambda>_ _ _ _ _. Inr False),
      w_stored_at = (\<lambda>_ b n. Inr (uint (ra_time (ac_anchors (snd (rn_contracts n)) (b32_of b))))),
      w_executed = (\<lambda>_ pid n. Inr (sp_executed (mg_proposals (fst (rn_contracts n)) (b32_of pid)))),
      w_created = (\<lambda>_ i j n. Inr (nths (rn_logs n) {k. i \<le> int k + 1 \<and> int k + 1 \<le> j})), w_sleep = (\<lambda>n. n)\<rparr>"

definition net_web3 :: "registrar_net web3" where
  "net_web3 = quiet_web3\<lparr>w_sleep := (\<lambda>n. snd (daemon_round quiet_web3 ''0xdef'' [''0x02''] 0 n))\<rparr>"

text \<open>The daemon does not sleep within a round.\<close>

lemma co_sign_sleep: "co_sign (w\<lparr>w_sleep := f\<rparr>) addr accounts ev n = co_sign w addr accounts ev n"
  by (induction accounts arbitrary: n) (simp_all add: cosign_tx_def case_prod_beta)

lemma daemon_round_sleep: "daemon_round (w\<lparr>w_sleep := f\<rparr>) addr accounts last_block n = daemon_round w addr accounts last_block n"
proof -
  have "co_sign (w\<lparr>w_sleep := f\<rparr>) addr accounts = co_sign w addr accounts" by (intro ext co_sign_sleep)
  then show ?thesis by (simp add: daemon_round_def split: sum.split)
qed

interpretation registrar_net: registrar_node net_web3 "''0xdef''" role_oz pad32 9 net_signer rn_contracts
  by unfold_locales
    (auto simp: net_web3_def quiet_web3_def net_send_def is_ok_def Let_def intro: exI [of _ 1] split: sum.split)

text \<open>The first confirmation of a proposal in a new wrapper.\<close>

definition first_confirmed :: "address \<Rightarrow> 16 word \<Rightarrow> b32 \<Rightarrow> b32 \<Rightarrow> multisig" where
  "first_confirmed a d b r = demo_multisig\<lparr>
     mg_confirmed := (\<lambda>_ _. False)(proposal_id_of pad32 d b r := (\<lambda>_. False)(a := True)),
     mg_proposals := (\<lambda>_. no_proposal)(proposal_id_of pad32 d b r :=
       no_proposal\<lparr>sp_district := d, sp_batch_id := b, sp_merkle := r, sp_at := 1, sp_confirmations := 1\<rparr>)\<rparr>"

lemma first_confirms:
  assumes "a \<in> {1, 2, 3}"
  shows "propose_and_confirm role_oz pad32 9 \<lparr>ci_sender = a, ci_time = 1\<rparr> d b r (demo_multisig, k) = Inr (first_confirmed a d b r, k)"
  using assms by (auto simp: propose_and_confirm_def first_confirmed_def demo_multisig_def no_proposal_def Let_def word_le_nat_alt)

lemma first_confirmed_reached:
  "a \<in> {1, 2, 3} \<Longrightarrow> custody_reach role_oz pad32 9 (demo_multisig, k) (first_confirmed a d b r, k)"
  by (intro custody_reach.step [OF custody_reach.start] custody_step.confirm [OF first_confirms])

lemma created_of_words [simp]:
  "log_pid (created_of d b r) = proposal_id_of pad32 (word_of_int d) (b32_of b) (b32_of r)" "log_batch (created_of d b r) = b32_of b"
  "log_root (created_of d b r) = b32_of r" "log_district (created_of d b r) = word_of_int d"
  by (simp_all add: created_of_def log_pid_def log_batch_def log_root_def log_district_def)

lemma created_ready:
  fixes a :: address and d :: int
  assumes "length b = 32" "length r = 32" "b32_of r \<noteq> 0" "a \<noteq> 2"
  defines "g \<equiv> first_confirmed a (word_of_int d) (b32_of b) (b32_of r)"
  shows "log_ok pad32 (created_of d b r)" "log_ready role_oz 9 net_signer [''0x02''] (g, anchored_contract 9 0) (created_of d b r)"
    "\<not> log_executed (created_of d b r) g"
proof -
  show "log_ok pad32 (created_of d b r)" using assms(1,2) by (simp add: log_ok_def) (simp add: created_of_def)
  have "confirmers g (proposal_id_of pad32 (word_of_int d) (b32_of b) (b32_of r)) = {a}"
    by (auto simp: confirmers_def g_def first_confirmed_def)
  moreover have "mg_threshold g = 2" by (simp add: g_def first_confirmed_def demo_multisig_def)
  ultimately show "log_ready role_oz 9 net_signer [''0x02''] (g, anchored_contract 9 0) (created_of d b r)"
    using assms(3,4) by (simp add: log_ready_def committable_def role_oz_def anchored_contract_def no_anchor_def net_signer_def)
  show "\<not> log_executed (created_of d b r) g" by (simp add: log_executed_def g_def first_confirmed_def no_proposal_def)
qed

definition net_start :: "bytes \<Rightarrow> bytes \<Rightarrow> registrar_net" where
  "net_start b r = \<lparr>rn_contracts = (first_confirmed 3 5 (b32_of b) (b32_of r), anchored_contract 9 0), rn_logs = [created_of 5 b r]\<rparr>"

lemma net_start_block:
  "w_block net_web3 (net_start b r) = Inr 1" "w_created net_web3 a (0 + 1) 1 (net_start b r) = Inr [created_of 5 b r]"
  by (simp_all add: net_web3_def quiet_web3_def net_start_def)

section \<open>Properties\<close>




definition net_config :: "registrar_net evm_config" where
  "net_config = \<lparr>ec_web3 = net_web3, ec_sha = pad32, ec_account = ''0x03'', ec_chain = 31337, ec_file = None, ec_exc = (\<lambda>_. ''error'')\<rparr>"

lemma net_commit_words:
  assumes "length r = 32"
  shows "commit_words net_config batch (hex0x r) = Inr (pad32 (utf8 batch), r)"
proof -
  have "commit_words net_config batch (hex0x r) = commit_words devnet_config batch (hex0x r)"
    by (simp add: commit_words_def net_config_def net_web3_def quiet_web3_def devnet_config_def devnet_web3_def)
  then show ?thesis using devnet.commit_words_eq [of batch "hex0x r"] devnet.to_bytes32_hex0x [OF assms] by (simp add: devnet_config_def)
qed


end
