(* ===== verification/Middleware.thy ===== *)
theory Middleware
  imports Auth Json_Roundtrip
begin

text \<open>
  The HTTP middleware of \<open>backend/app/middleware\<close>: the idempotency cache, the request id and the
  security headers, and how \<open>backend/app/main.py\<close> stacks them around the routes.

  A middleware is a function on handlers.  Starlette's \<open>JSONResponse\<close> is not in the repository: it
  is the argument \<open>json_response\<close> (it may raise, on a NaN).  The body of a response is its text
  together with what \<open>.decode("utf-8")\<close> and \<open>json.loads\<close> make of it.
\<close>

section \<open>Requests and responses\<close>

record http_request =
  hq_method :: string
  hq_path :: string
  hq_headers :: "(string \<times> string) list"
  hq_auth :: "string option"

record http_response =
  hr_status :: int
  hr_headers :: "(string \<times> string) list"
  hr_media :: "string option"
  hr_body :: string

type_synonym 's handler = "http_request \<Rightarrow> 's \<Rightarrow> (http_response, 's) outcome"

text \<open>Names of headers compare without regard to case; setting one replaces it where it stands.\<close>

definition same_name :: "string \<Rightarrow> string \<Rightarrow> bool" where
  "same_name a b \<longleftrightarrow> lower_str a = lower_str b"

definition header :: "string \<Rightarrow> (string \<times> string) list \<Rightarrow> string option" where
  "header k hs = map_option snd (find (\<lambda>(n, _). same_name n k) hs)"

fun set_header :: "string \<Rightarrow> string \<Rightarrow> (string \<times> string) list \<Rightarrow> (string \<times> string) list" where
  "set_header k v [] = [(k, v)]"
| "set_header k v ((n, w) # hs) =
     (if same_name n k then (n, v) # filter (\<lambda>(m, _). \<not> same_name m k) hs else (n, w) # set_header k v hs)"

section \<open>idempotency.py\<close>

definition HEADER :: string where
  "HEADER = ''Idempotency-Key''"

definition MUTATING :: "string list" where
  "MUTATING = [''POST'', ''PUT'', ''PATCH'', ''DELETE'']"

definition EXEMPT :: "string list" where
  "EXEMPT = [''/healthz'', ''/readyz'', ''/metrics'', ''/api/v1/verify'']"

text \<open>\<open>^[0-9a-fA-F-]{8,64}$\<close>: \<open>$\<close> also matches before a final line feed.\<close>

definition uuid_char :: "char \<Rightarrow> bool" where
  "uuid_char c \<longleftrightarrow> (let n = (of_char c :: nat) in
     (48 \<le> n \<and> n \<le> 57) \<or> (97 \<le> n \<and> n \<le> 102) \<or> (65 \<le> n \<and> n \<le> 70) \<or> c = CHR ''-'')"

definition uuid_like :: "string \<Rightarrow> bool" where
  "uuid_like s \<longleftrightarrow> (let shape = (\<lambda>t. 8 \<le> length t \<and> length t \<le> 64 \<and> list_all uuid_char t)
     in shape s \<or> (s \<noteq> [] \<and> last s = CHR 0x0A \<and> shape (butlast s)))"

definition idem_key :: "http_request \<Rightarrow> string \<Rightarrow> string" where
  "idem_key q supplied =
     ''idem:'' @ (case hq_auth q of None \<Rightarrow> ''anon'' | Some u \<Rightarrow> u) @ '':'' @ hq_path q @ '':'' @ supplied"

text \<open>
  The stored envelope read back; whatever is wrong with it is one error.  \<open>int(...)\<close> of a text or a
  float is left out: only this middleware writes these keys, and it writes an integer.
\<close>

definition read_envelope :: "string \<Rightarrow> (int \<times> json) res" where
  "read_envelope raw =
     res_bind (json_loads raw) (\<lambda>j.
       case j of
         JObj d \<Rightarrow>
           (case (json_get ''status'' d, json_get ''body'' d) of
              (Some (JInt st), Some b) \<Rightarrow> Inr (st, b)
            | (Some (JBool st), Some b) \<Rightarrow> Inr (if st then 1 else 0, b)
            | _ \<Rightarrow> Inl KeyError)
       | _ \<Rightarrow> Inl TypeError)"

definition envelope :: "int \<Rightarrow> json \<Rightarrow> string" where
  "envelope st b = dumps_plain (JObj [(''status'', JInt st), (''body'', b)])"

definition body_json :: "string \<Rightarrow> json res" where
  "body_json t = (if t = [] then Inr JNull else json_loads t)"

text \<open>
  The response of the routes, stored when it is JSON and no server error.  When its text is not
  JSON, or it cannot be rendered again, it is returned with its body already consumed.
\<close>

definition store_response ::
  "(int \<Rightarrow> json \<Rightarrow> (string \<times> string) list \<Rightarrow> http_response res) \<Rightarrow> time \<Rightarrow> string \<Rightarrow> http_response \<Rightarrow> cache \<Rightarrow> http_response \<times> cache" where
  "store_response json_response now key r c =
     (if hr_status r < 500 \<and> hr_media r = Some ''application/json'' then
        (case body_json (hr_body r) of
           Inl _ \<Rightarrow> (r\<lparr>hr_body := []\<rparr>, c)
         | Inr b \<Rightarrow>
             let c' = cache_set now key (envelope (hr_status r) b) 86400 c
             in case json_response (hr_status r) b (filter (\<lambda>(k, _). lower_str k \<noteq> ''content-length'') (hr_headers r)) of
                  Inl _ \<Rightarrow> (r\<lparr>hr_body := []\<rparr>, c')
                | Inr r' \<Rightarrow> (r', c'))
      else (r, c))"

definition replay ::
  "(int \<Rightarrow> json \<Rightarrow> (string \<times> string) list \<Rightarrow> http_response res) \<Rightarrow> string option \<Rightarrow> http_response option" where
  "replay json_response cached =
     (if cached = None \<or> cached = Some [] then None
      else case res_bind (read_envelope (the cached)) (\<lambda>(st, b). json_response st b [(''X-Idempotent-Replay'', ''true'')]) of
             Inl _ \<Rightarrow> None | Inr r \<Rightarrow> Some r)"

text \<open>Readings 0 and 1 of the clock are those of the cache; the 422 is a response, not an exception.\<close>

definition idempotency ::
  "(int \<Rightarrow> json \<Rightarrow> (string \<times> string) list \<Rightarrow> http_response res) \<Rightarrow> (nat \<Rightarrow> time)
   \<Rightarrow> (cache \<times> 's) handler \<Rightarrow> (cache \<times> 's) handler" where
  "idempotency json_response clk call_next q st =
     (let supplied = header HEADER (hq_headers q)
      in if hq_method q \<notin> set MUTATING then call_next q st
         else if list_ex (\<lambda>p. prefix p (hq_path q)) EXEMPT then call_next q st
         else if supplied = None \<or> supplied = Some [] then call_next q st
         else if \<not> uuid_like (the supplied)
         then (json_response 422 (JObj [(''detail'', JStr ''Idempotency-Key must match UUID-like shape'')]) [], st)
         else
           let key = idem_key q (the supplied); (cached, c) = cache_get (clk 0) key (fst st)
           in case replay json_response cached of
                Some r \<Rightarrow> (Inr r, (c, snd st))
              | None \<Rightarrow>
                  and_then (call_next q (c, snd st)) (\<lambda>r st'.
                    let (r', c') = store_response json_response (clk 1) key r (fst st') in (Inr r', (c', snd st'))))"

section \<open>request_id.py\<close>

definition HEADER_NAME :: string where
  "HEADER_NAME = ''X-Request-Id''"

text \<open>\<open>fresh\<close> is \<open>uuid.uuid4().hex\<close>.\<close>

definition request_id :: "string \<Rightarrow> 's handler \<Rightarrow> 's handler" where
  "request_id fresh call_next q st =
     (let rid = (case header HEADER_NAME (hq_headers q) of None \<Rightarrow> fresh | Some v \<Rightarrow> if v = [] then fresh else v)
      in and_then (call_next q st) (\<lambda>r st'. (Inr (r\<lparr>hr_headers := set_header HEADER_NAME rid (hr_headers r)\<rparr>), st')))"

section \<open>security_headers.py\<close>

definition STATIC_HEADERS :: "(string \<times> string) list" where
  "STATIC_HEADERS =
     [(''Strict-Transport-Security'', ''max-age=31536000; includeSubDomains; preload''),
      (''X-Content-Type-Options'', ''nosniff''),
      (''X-Frame-Options'', ''DENY''),
      (''Referrer-Policy'', ''strict-origin-when-cross-origin''),
      (''Permissions-Policy'', ''camera=(self), microphone=(), geolocation=(self)''),
      (''Cross-Origin-Opener-Policy'', ''same-origin''),
      (''Server'', ''landguard'')]"

definition CSP_PROD :: string where
  "CSP_PROD = ''default-src 'self'; frame-ancestors 'none'; base-uri 'none'; form-action 'self'' @ [CHR 0x27]"

definition CSP_DEV :: string where
  "CSP_DEV = ''default-src 'self'; img-src 'self' data: https://fastapi.tiangolo.com; script-src 'self' https://cdn.jsdelivr.net; ''
     @ ''style-src 'self' 'unsafe-inline' https://cdn.jsdelivr.net; font-src 'self' data:; connect-src 'self'; ''
     @ ''frame-ancestors 'none'; base-uri 'none'' @ [CHR 0x27]"

definition csp_of :: "settings \<Rightarrow> string" where
  "csp_of st = (if app_env st = Production then CSP_PROD else CSP_DEV)"

definition wants_csp :: "http_request \<Rightarrow> http_response \<Rightarrow> bool" where
  "wants_csp q r \<longleftrightarrow> (let ct = (case header ''content-type'' (hr_headers r) of None \<Rightarrow> [] | Some v \<Rightarrow> v)
     in contains ''text/html'' ct \<or> contains ''application/json'' ct \<or> hq_path q \<in> {''/docs'', ''/redoc''})"

definition security_headers :: "settings \<Rightarrow> 's handler \<Rightarrow> 's handler" where
  "security_headers st call_next q s =
     and_then (call_next q s) (\<lambda>r s'.
       let r1 = r\<lparr>hr_headers := fold (\<lambda>(k, v). set_header k v) STATIC_HEADERS (hr_headers r)\<rparr>
       in (Inr (if wants_csp q r1 then r1\<lparr>hr_headers := set_header ''Content-Security-Policy'' (csp_of st) (hr_headers r1)\<rparr> else r1), s'))"

section \<open>main.py\<close>

text \<open>
  Middleware added later runs further out.  Cross-origin handling is Starlette's and is an argument.
\<close>

definition app_stack ::
  "settings \<Rightarrow> (int \<Rightarrow> json \<Rightarrow> (string \<times> string) list \<Rightarrow> http_response res) \<Rightarrow> (nat \<Rightarrow> time) \<Rightarrow> string
   \<Rightarrow> ((cache \<times> 's) handler \<Rightarrow> (cache \<times> 's) handler) \<Rightarrow> (cache \<times> 's) handler \<Rightarrow> (cache \<times> 's) handler" where
  "app_stack st json_response clk fresh cors routes =
     security_headers st (request_id fresh (idempotency json_response clk (cors routes)))"

text \<open>
  Starlette's \<open>ServerErrorMiddleware\<close> stands outside of them all: what nobody caught becomes a 500
  that the stack has not seen.
\<close>

definition serve ::
  "settings \<Rightarrow> (int \<Rightarrow> json \<Rightarrow> (string \<times> string) list \<Rightarrow> http_response res) \<Rightarrow> (nat \<Rightarrow> time) \<Rightarrow> string
   \<Rightarrow> ((cache \<times> 's) handler \<Rightarrow> (cache \<times> 's) handler) \<Rightarrow> (cache \<times> 's) handler \<Rightarrow> (cache \<times> 's) handler" where
  "serve st json_response clk fresh cors routes q s =
     (case app_stack st json_response clk fresh cors routes q s of
        (Inr r, s') \<Rightarrow> (Inr r, s')
      | (Inl _, s') \<Rightarrow>
          let rid = (case header HEADER_NAME (hq_headers q) of None \<Rightarrow> fresh | Some v \<Rightarrow> if v = [] then fresh else v)
          in (json_response 500 (JObj [(''detail'', JStr ''internal server error''), (''request_id'', JStr rid)]) [], s'))"

section \<open>Lemmas\<close>

lemma same_name_eq: "same_name a c \<Longrightarrow> same_name a b \<longleftrightarrow> same_name c b"
  by (simp add: same_name_def)

lemma header_set [simp]: "header k (set_header k v hs) = Some v"
  by (induction hs rule: set_header.induct) (auto simp: header_def same_name_def)

lemma header_set_other:
  assumes "\<not> same_name k l"
  shows "header l (set_header k v hs) = header l hs"
proof -
  have drop: "find (\<lambda>(n, _). same_name n l) (filter (\<lambda>(m, _). \<not> same_name m k) hs) = find (\<lambda>(n, _). same_name n l) hs" for hs :: "(string \<times> string) list"
    by (induction hs) (use assms in \<open>auto simp: same_name_def\<close>)
  show ?thesis
  proof (induction hs)
    case Nil
    then show ?case using assms by (simp add: header_def)
  next
    case (Cons p hs)
    obtain n w where p: "p = (n, w)" by (cases p)
    show ?case
    proof (cases "same_name n k")
      case True
      then have "\<not> same_name n l" using assms by (simp add: same_name_def)
      then show ?thesis using True drop [of hs] by (simp add: header_def p)
    next
      case False
      then show ?thesis using Cons by (simp add: header_def p)
    qed
  qed
qed

lemma header_fold_set:
  "distinct (map (lower_str \<circ> fst) kvs) \<Longrightarrow> (k, v) \<in> set kvs \<Longrightarrow> header k (fold (\<lambda>(k, v). set_header k v) kvs hs) = Some v"
proof (induction kvs arbitrary: hs rule: rev_induct)
  case (snoc p kvs)
  obtain a b where p: "p = (a, b)" by (cases p)
  show ?case
  proof (cases "(k, v) = p")
    case True
    then show ?thesis by (simp add: p)
  next
    case False
    then have "(k, v) \<in> set kvs" using snoc.prems(2) by auto
    moreover from this have "\<not> same_name a k" using snoc.prems(1) by (force simp: p same_name_def)
    ultimately show ?thesis using snoc by (simp add: p header_set_other)
  qed
qed simp

lemma static_distinct: "distinct (map (lower_str \<circ> fst) STATIC_HEADERS)"
  by code_simp

lemma csp_not_static: "(k, v) \<in> set STATIC_HEADERS \<Longrightarrow> \<not> same_name ''Content-Security-Policy'' k"
proof -
  have "list_all (\<lambda>(k, _). \<not> same_name ''Content-Security-Policy'' k) STATIC_HEADERS" by code_simp
  then show "(k, v) \<in> set STATIC_HEADERS \<Longrightarrow> \<not> same_name ''Content-Security-Policy'' k" by (auto simp: list_all_iff)
qed

lemma security_headers_set:
  assumes "security_headers st call_next q s = (Inr r, s')" and "(k, v) \<in> set STATIC_HEADERS"
  shows "header k (hr_headers r) = Some v"
  using assms header_fold_set [OF static_distinct assms(2)] csp_not_static [OF assms(2)]
  by (auto simp: security_headers_def Let_def res_simps header_set_other split: if_splits)

lemma cache_get_live: "t \<le> now + ttl \<Longrightarrow> cache_get t k (cache_set now k v ttl c) = (Some v, cache_set now k v ttl c)"
  by (simp add: cache_get_def cache_set_def)

lemma read_envelope_envelope: "wf_json b \<Longrightarrow> read_envelope (envelope st b) = Inr (st, b)"
  using json_loads_plain [of "JObj [(''status'', JInt st), (''body'', b)]"] by (simp add: read_envelope_def envelope_def json_get_def)

lemma idem_key_anon: "hq_path q = hq_path p \<Longrightarrow> hq_auth q = hq_auth p \<Longrightarrow> idem_key q k = idem_key p k"
  by (simp add: idem_key_def)

section \<open>Properties\<close>

text \<open>What a request needs for its answer to be stored or replayed.\<close>

definition keyed :: "http_request \<Rightarrow> string \<Rightarrow> bool" where
  "keyed q k \<longleftrightarrow> hq_method q \<in> set MUTATING \<and> \<not> list_ex (\<lambda>p. prefix p (hq_path q)) EXEMPT
     \<and> header HEADER (hq_headers q) = Some k \<and> k \<noteq> [] \<and> uuid_like k"

lemma idempotency_keyed:
  "keyed q k \<Longrightarrow> idempotency json_response clk call_next q st =
     (let (cached, c) = cache_get (clk 0) (idem_key q k) (fst st)
      in case replay json_response cached of
           Some r \<Rightarrow> (Inr r, (c, snd st))
         | None \<Rightarrow>
             and_then (call_next q (c, snd st)) (\<lambda>r st'.
               let (r', c') = store_response json_response (clk 1) (idem_key q k) r (fst st') in (Inr r', (c', snd st'))))"
  by (simp add: idempotency_def keyed_def Let_def)

text \<open>
  A keyed request is answered once.  After a first request whose answer was JSON and no server
  error, any mutating request to the same path with the same key within a day, whatever its method,
  its body and its bearer, gets the stored status and body back, and its handler does not run:
  neither the tables nor the cache change.  The user is no part of this, because the key is made
  before anybody is authenticated.
\<close>

lemma idempotent_replay:
  assumes "keyed q k" "keyed q' k" "hq_path q' = hq_path q" "hq_auth q = None" "hq_auth q' = None"
    and "cache_get (clk 0) (idem_key q k) c0 = (None, c1)" and "call_next q (c1, s0) = (Inr r, (c2, s2))"
    and "hr_status r < 500" "hr_media r = Some ''application/json''" "body_json (hr_body r) = Inr b" "wf_json b"
    and "\<And>hs. \<exists>x. json_response (hr_status r) b hs = Inr x" and "clk' 0 \<le> clk 1 + 86400"
  shows "\<exists>r1 r2 c. idempotency json_response clk call_next q (c0, s0) = (Inr r1, (c, s2))
    \<and> idempotency json_response clk' other q' (c, s3) = (Inr r2, (c, s3))
    \<and> json_response (hr_status r) b (filter (\<lambda>(k, _). lower_str k \<noteq> ''content-length'') (hr_headers r)) = Inr r1
    \<and> json_response (hr_status r) b [(''X-Idempotent-Replay'', ''true'')] = Inr r2"
proof -
  let ?key = "idem_key q k" and ?env = "envelope (hr_status r) b"
  let ?c = "cache_set (clk 1) ?key ?env 86400 c2"
  obtain r1 where r1: "json_response (hr_status r) b (filter (\<lambda>(k, _). lower_str k \<noteq> ''content-length'') (hr_headers r)) = Inr r1"
    using assms(12) by blast
  obtain r2 where r2: "json_response (hr_status r) b [(''X-Idempotent-Replay'', ''true'')] = Inr r2" using assms(12) by blast
  have "store_response json_response (clk 1) ?key r c2 = (r1, ?c)" using assms(8-10) r1 by (simp add: store_response_def Let_def)
  then have first: "idempotency json_response clk call_next q (c0, s0) = (Inr r1, (?c, s2))"
    using assms(6,7) by (simp add: idempotency_keyed [OF assms(1)] replay_def)
  have "?env \<noteq> []" by (simp add: envelope_def)
  then have "replay json_response (Some ?env) = Some r2" using read_envelope_envelope [OF assms(11)] r2 by (simp add: replay_def)
  moreover have "cache_get (clk' 0) (idem_key q' k) ?c = (Some ?env, ?c)"
    using assms(3-5,13) by (simp add: idem_key_def cache_get_live)
  ultimately have "idempotency json_response clk' other q' (?c, s3) = (Inr r2, (?c, s3))"
    by (simp add: idempotency_keyed [OF assms(2)])
  then show ?thesis using first r1 r2 by blast
qed

definition demo_json_response :: "int \<Rightarrow> json \<Rightarrow> (string \<times> string) list \<Rightarrow> http_response res" where
  "demo_json_response st b hs =
     Inr \<lparr>hr_status = st, hr_headers = hs @ [(''content-type'', ''application/json'')], hr_media = Some ''application/json'', hr_body = dumps_plain b\<rparr>"

definition demo_request :: "string \<Rightarrow> http_request" where
  "demo_request m = \<lparr>hq_method = m, hq_path = ''/api/v1/transfers'', hq_headers = [(''idempotency-key'', ''0123abcd'')], hq_auth = None\<rparr>"

definition demo_handler :: "int \<Rightarrow> json \<Rightarrow> (cache \<times> nat) handler" where
  "demo_handler n b q st = (demo_json_response n b [], (fst st, Suc (snd st)))"

lemma idempotent_replay_witness:
  "\<exists>r1 r2 c. idempotency demo_json_response (\<lambda>_. 0) (demo_handler 201 (JObj [(''id'', JStr ''t1'')])) (demo_request ''POST'') (Map.empty, 0) = (Inr r1, (c, 1))
    \<and> idempotency demo_json_response (\<lambda>_. 60) (demo_handler 500 JNull) (demo_request ''DELETE'') (c, 1) = (Inr r2, (c, 1))
    \<and> hr_status r2 = 201"
proof -
  define b where "b = JObj [(''id'', JStr ''t1'')]"
  define r where "r = projr (demo_json_response 201 b [])"
  have wf: "wf_json b" by (simp add: b_def)
  have r: "hr_status r = 201" "hr_media r = Some ''application/json''" "hr_body r = dumps_plain b"
    by (simp_all add: r_def demo_json_response_def)
  have k: "keyed (demo_request ''POST'') ''0123abcd''" "keyed (demo_request ''DELETE'') ''0123abcd''" by code_simp+
  have q: "hq_path (demo_request ''DELETE'') = hq_path (demo_request ''POST'')" "hq_auth (demo_request m) = None" for m
    by (simp_all add: demo_request_def)
  have run: "demo_handler 201 b (demo_request ''POST'') (Map.empty, 0) = (Inr r, (Map.empty, 1))"
    by (simp add: demo_handler_def r_def demo_json_response_def)
  have miss: "cache_get 0 key Map.empty = (None, Map.empty)" for key by (simp add: cache_get_def)
  have body: "body_json (hr_body r) = Inr b" using json_loads_plain [OF wf] by (simp add: r body_json_def b_def)
  have any: "\<exists>x. demo_json_response (hr_status r) b hs = Inr x" for hs by (simp add: demo_json_response_def)
  have st: "demo_json_response (hr_status r) b hs = Inr x \<Longrightarrow> hr_status x = 201" for hs x
    by (auto simp: demo_json_response_def r)
  have lt: "hr_status r < 500" by (simp add: r)
  show ?thesis
    using idempotent_replay [OF k q(1) q(2) q(2), of "\<lambda>_. 0" Map.empty Map.empty "demo_handler 201 b" 0 r Map.empty 1 b
        demo_json_response "\<lambda>_. 60" "demo_handler 500 JNull" 1, OF miss run lt r(2) body wf any] st
    unfolding b_def [symmetric] by (simp, blast)
qed

text \<open>
  Every answer of the stack carries the security headers with exactly their values, over whatever the
  routes had set.
\<close>

lemma security_headers_on_every_answer:
  assumes "app_stack st json_response clk fresh cors routes q s = (Inr r, s')"
  shows "\<forall>(k, v)\<in>set STATIC_HEADERS. header k (hr_headers r) = Some v"
  using security_headers_set assms by (auto simp: app_stack_def)

end
