(* ===== verification/Offline.thy ===== *)
theory Offline
  imports Auth Json_Parse
begin

text \<open>
  The verifier a citizen runs without the backend, \<open>scripts/verify_offline.py\<close>, and the script that
  writes the fixture all implementations of the proof check are tested against,
  \<open>backend/scripts/emit_merkle_vectors.py\<close>.

  The verifier reads files and exits with a code: files are a map from paths to texts, the arguments are
  what \<open>argparse\<close> makes of the command line.  What it prints on the way is not modelled, nor is
  a file that exists and cannot be read as UTF-8.  The emitter's two comments with an em dash (U+2014)
  take the text of that character as the argument \<open>dash\<close>.

  The lemmas show that the inlined check is the one of \<open>app/audit/merkle.py\<close> on texts, that a bundle
  is accepted exactly when that check accepts it, and that the emitted file is accepted whatever
  the two hash functions are.
\<close>

section \<open>The inlined check\<close>

text \<open>Values come from a JSON file, so each may be of the wrong type.\<close>

definition py_lower :: "json \<Rightarrow> string res" where
  "py_lower value = (case value of JStr s \<Rightarrow> Inr (lower_str s) | _ \<Rightarrow> Inl AttributeError)"

definition off_hex_to_bytes32 :: "json \<Rightarrow> bytes res" where
  "off_hex_to_bytes32 value =
     res_bind (py_lower value) (\<lambda>v.
       let s = removeprefix ''0x'' v;
           s = (if length s < 64 then zfill 64 s
                else if 64 < length s then drop (length s - 64) s
                else s)
       in fromhex s)"

definition off_keccak_pair_sorted :: "(bytes \<Rightarrow> bytes) \<Rightarrow> json \<Rightarrow> json \<Rightarrow> string res" where
  "off_keccak_pair_sorted kec left_hex right_hex =
     res_bind (off_hex_to_bytes32 left_hex) (\<lambda>a.
     res_bind (off_hex_to_bytes32 right_hex) (\<lambda>b.
     let (lo, hi) = (if a \<le> b then (a, b) else (b, a))
     in Inr (''0x'' @ hex_str (kec (lo @ hi)))))"

text \<open>\<open>for x in value\<close> over a list, the characters of a text, or the keys of an object.\<close>

definition py_iter :: "json \<Rightarrow> json list res" where
  "py_iter value =
     (case value of
        JList xs \<Rightarrow> Inr xs
      | JStr s \<Rightarrow> Inr (map (\<lambda>c. JStr [c]) s)
      | JObj kvs \<Rightarrow> Inr (map (JStr \<circ> fst) kvs)
      | _ \<Rightarrow> Inl TypeError)"

fun off_climb :: "(bytes \<Rightarrow> bytes) \<Rightarrow> json \<Rightarrow> json list \<Rightarrow> json res" where
  "off_climb kec h [] = Inr h"
| "off_climb kec h (sibling # siblings) =
     res_bind (off_keccak_pair_sorted kec h sibling) (\<lambda>h'. off_climb kec (JStr h') siblings)"

definition off_verify :: "(bytes \<Rightarrow> bytes) \<Rightarrow> json \<Rightarrow> json \<Rightarrow> json \<Rightarrow> bool res" where
  "off_verify kec leaf_hex siblings root_hex =
     res_bind (py_iter siblings) (\<lambda>ss.
     res_bind (off_climb kec leaf_hex ss) (\<lambda>h.
     res_bind (py_lower h) (\<lambda>a.
     res_bind (py_lower root_hex) (\<lambda>b. Inr (a = b)))))"

section \<open>Loaders\<close>

text \<open>The ways to leave: \<open>SystemExit\<close> with a message, \<open>parser.error\<close>, and an exception nobody catches.\<close>

datatype halt =
    File_not_found string
  | Invalid_JSON string
  | Bad_bundle
  | Unsupported_schema json
  | Usage
  | Uncaught exc

type_synonym 'a exits = "halt + 'a"

definition exit_bind :: "'a exits \<Rightarrow> ('a \<Rightarrow> 'b exits) \<Rightarrow> 'b exits" where
  "exit_bind r k = (case r of Inl e \<Rightarrow> Inl e | Inr a \<Rightarrow> k a)"

definition raising :: "'a res \<Rightarrow> 'a exits" where
  "raising r = (case r of Inl e \<Rightarrow> Inl (Uncaught e) | Inr a \<Rightarrow> Inr a)"

lemma exit_bind_simps [simp]: "exit_bind (Inl e) k = Inl e" "exit_bind (Inr a) k = k a"
  by (simp_all add: exit_bind_def)

lemma raising_simps [simp]: "raising (Inl e) = Inl (Uncaught e)" "raising (Inr a) = Inr a"
  by (simp_all add: raising_def)

type_synonym files = "string \<Rightarrow> string option"

definition load_json :: "files \<Rightarrow> string \<Rightarrow> json exits" where
  "load_json fs path =
     (case fs path of
        None \<Rightarrow> Inl (File_not_found path)
      | Some text_of_file \<Rightarrow>
          (case json_loads text_of_file of Inl _ \<Rightarrow> Inl (Invalid_JSON path) | Inr j \<Rightarrow> Inr j))"

text \<open>\<open>value.get(k, dflt)\<close> and \<open>value[k]\<close>.\<close>

definition py_get :: "string \<Rightarrow> json \<Rightarrow> json \<Rightarrow> json res" where
  "py_get k dflt value =
     (case value of
        JObj kvs \<Rightarrow> Inr (case json_get k kvs of None \<Rightarrow> dflt | Some j \<Rightarrow> j)
      | _ \<Rightarrow> Inl AttributeError)"

definition py_item :: "string \<Rightarrow> json \<Rightarrow> json res" where
  "py_item k value =
     (case value of
        JObj kvs \<Rightarrow> (case json_get k kvs of None \<Rightarrow> Inl KeyError | Some j \<Rightarrow> Inr j)
      | _ \<Rightarrow> Inl TypeError)"

definition verify_bundle :: "(bytes \<Rightarrow> bytes) \<Rightarrow> files \<Rightarrow> string \<Rightarrow> string option \<Rightarrow> bool exits" where
  "verify_bundle kec fs bundle_path override_root =
     exit_bind (load_json fs bundle_path) (\<lambda>bundle.
     exit_bind (raising (py_get ''leaf'' JNull bundle)) (\<lambda>leaf.
     exit_bind (raising (py_get ''siblings'' JNull bundle)) (\<lambda>siblings.
     exit_bind (if override_root \<noteq> None \<and> override_root \<noteq> Some [] then Inr (JStr (the override_root))
                else raising (py_get ''root'' JNull bundle)) (\<lambda>rt.
       case (leaf, siblings, rt) of
         (JStr _, JList _, JStr _) \<Rightarrow> raising (off_verify kec leaf siblings rt)
       | _ \<Rightarrow> Inl Bad_bundle))))"

text \<open>
  \<open>fixture.get("schema_version") != 1\<close>: \<open>True\<close> is equal to 1, and so is a float that reads as one;
  \<open>float_one\<close> says which literals do.
\<close>

definition py_is_one :: "(string \<Rightarrow> bool) \<Rightarrow> json \<Rightarrow> bool" where
  "py_is_one float_one value =
     (case value of JInt i \<Rightarrow> i = 1 | JBool b \<Rightarrow> b | JFloat t \<Rightarrow> float_one t | _ \<Rightarrow> False)"

text \<open>What counts as false in \<open>x or y\<close> and \<open>bool(x)\<close>; \<open>float_zero\<close> says which literals of a float are zero.\<close>

definition py_falsy :: "(string \<Rightarrow> bool) \<Rightarrow> json \<Rightarrow> bool" where
  "py_falsy float_zero value =
     (case value of
        JNull \<Rightarrow> True | JBool b \<Rightarrow> \<not> b | JInt i \<Rightarrow> i = 0 | JFloat t \<Rightarrow> float_zero t
      | JStr s \<Rightarrow> s = [] | JList xs \<Rightarrow> xs = [] | JObj kvs \<Rightarrow> kvs = [])"

text \<open>The verdicts on the proofs, in the order they are checked.\<close>

fun parity_proofs :: "(bytes \<Rightarrow> bytes) \<Rightarrow> json list \<Rightarrow> bool list res" where
  "parity_proofs kec [] = Inr []"
| "parity_proofs kec (proof # rest) =
     res_bind (py_item ''leaf'' proof) (\<lambda>leaf.
     res_bind (py_item ''siblings'' proof) (\<lambda>siblings.
     res_bind (py_item ''root'' proof) (\<lambda>rt.
     res_bind (off_verify kec leaf siblings rt) (\<lambda>ok.
     res_bind (parity_proofs kec rest) (\<lambda>oks. Inr (ok # oks))))))"

fun parity_cases :: "(bytes \<Rightarrow> bytes) \<Rightarrow> json list \<Rightarrow> bool list res" where
  "parity_cases kec [] = Inr []"
| "parity_cases kec (c # rest) =
     res_bind (py_get ''name'' (JStr ''<unnamed>'') c) (\<lambda>_.
     res_bind (py_get ''evm'' (JObj []) c) (\<lambda>evm.
     res_bind (py_get ''proofs'' (JList []) evm) (\<lambda>proofs.
     res_bind (py_iter proofs) (\<lambda>ps.
     res_bind (parity_proofs kec ps) (\<lambda>oks.
     res_bind (parity_cases kec rest) (\<lambda>oks'. Inr (oks @ oks')))))))"

definition verify_parity :: "(bytes \<Rightarrow> bytes) \<Rightarrow> (string \<Rightarrow> bool) \<Rightarrow> files \<Rightarrow> string \<Rightarrow> bool exits" where
  "verify_parity kec float_one fs parity_path =
     exit_bind (load_json fs parity_path) (\<lambda>fixture.
     exit_bind (raising (py_get ''schema_version'' JNull fixture)) (\<lambda>version.
       if \<not> py_is_one float_one version then Inl (Unsupported_schema version)
       else raising
         (res_bind (py_get ''cases'' (JList []) fixture) (\<lambda>cases.
          res_bind (py_iter cases) (\<lambda>cs.
          res_bind (parity_cases kec cs) (\<lambda>oks.
            let total = length oks; failed = length (filter Not oks) in Inr (failed = 0)))))))"

section \<open>The entry point\<close>

text \<open>
  The parser has a required group of two exclusive options: none or both of them is a usage error, as is
  \<open>--root\<close> with \<open>--parity\<close>.
\<close>

record off_args =
  oa_bundle :: "string option"
  oa_parity :: "string option"
  oa_root :: "string option"

definition off_main :: "(bytes \<Rightarrow> bytes) \<Rightarrow> (string \<Rightarrow> bool) \<Rightarrow> files \<Rightarrow> off_args \<Rightarrow> int exits" where
  "off_main kec float_one fs args =
     (if (oa_bundle args = None) = (oa_parity args = None) then Inl Usage
      else
        exit_bind
          (case oa_parity args of
             Some path \<Rightarrow> if oa_root args \<noteq> None then Inl Usage else verify_parity kec float_one fs path
           | None \<Rightarrow> verify_bundle kec fs (the (oa_bundle args)) (oa_root args))
          (\<lambda>ok. Inr (if ok then 0 else 1)))"

text \<open>The exit code of the process: an uncaught exception and a message are 1, a usage error is 2.\<close>

definition exit_code :: "int exits \<Rightarrow> int" where
  "exit_code r = (case r of Inr n \<Rightarrow> n | Inl Usage \<Rightarrow> 2 | Inl _ \<Rightarrow> 1)"

section \<open>The emitter\<close>

definition empty_block :: json where
  "empty_block = JObj [(''leaves'', JList []), (''root'', JStr []), (''proofs'', JList [])]"

definition jstrs :: "string list \<Rightarrow> json" where
  "jstrs xs = JList (map JStr xs)"

definition proof_entry :: "nat \<Rightarrow> string \<Rightarrow> string list \<Rightarrow> string \<Rightarrow> json" where
  "proof_entry idx leaf siblings rt =
     JObj [(''index'', JInt (int idx)), (''leaf'', JStr leaf), (''siblings'', jstrs siblings), (''root'', JStr rt)]"

definition sha256_block :: "(bytes \<Rightarrow> bytes) \<Rightarrow> string list \<Rightarrow> json res" where
  "sha256_block sha inputs =
     (let leaves = map (sha256_hex sha) inputs
      in if leaves = [] then Inr empty_block
         else
           let rt = compute_merkle_root sha leaves
           in res_bind
                (map_res (\<lambda>idx.
                   res_bind (merkle_proof sha leaves (int idx)) (\<lambda>siblings.
                     if verify_merkle_proof sha (leaves ! idx) siblings rt (int idx)
                     then Inr (proof_entry idx (leaves ! idx) siblings rt)
                     else Inl AssertionError)) [0..<length leaves])
                (\<lambda>proofs. Inr (JObj [(''leaves'', jstrs leaves), (''root'', JStr rt), (''proofs'', JList proofs)])))"

definition evm_block :: "(bytes \<Rightarrow> bytes) \<Rightarrow> (bytes \<Rightarrow> bytes) \<Rightarrow> string list \<Rightarrow> json res" where
  "evm_block sha kec inputs =
     (let sha_leaves = map (sha256_hex sha) inputs
      in if sha_leaves = [] then Inr empty_block
         else
           let keccak_leaves = sha256_leaves_to_keccak kec sha_leaves
           in res_bind (compute_merkle_root_evm kec sha_leaves) (\<lambda>rt.
              res_bind
                (map_res (\<lambda>idx.
                   res_bind (merkle_proof_evm kec sha_leaves (int idx)) (\<lambda>p.
                   res_bind (verify_merkle_proof_evm kec (ep_leaf p) (ep_siblings p) (ep_root p)) (\<lambda>ok.
                     if ok then Inr (proof_entry idx (ep_leaf p) (ep_siblings p) (ep_root p))
                     else Inl AssertionError))) [0..<length sha_leaves])
                (\<lambda>proofs. Inr (JObj [(''leaves'', jstrs keccak_leaves), (''root'', JStr rt), (''proofs'', JList proofs)]))))"

definition make_case ::
  "(bytes \<Rightarrow> bytes) \<Rightarrow> (bytes \<Rightarrow> bytes) \<Rightarrow> string \<Rightarrow> string list \<Rightarrow> string option \<Rightarrow> (string \<times> json) list res" where
  "make_case sha kec name inputs comment =
     res_bind (sha256_block sha inputs) (\<lambda>b1.
     res_bind (evm_block sha kec inputs) (\<lambda>b2.
       Inr ([(''name'', JStr name), (''inputs'', jstrs inputs), (''sha256'', b1), (''evm'', b2),
             (''skip_solidity'', JBool (length inputs = 0))]
            @ (if comment \<noteq> None \<and> comment \<noteq> Some [] then [(''_comment'', JStr (the comment))] else []))))"

abbreviation NEWLINE :: char where "NEWLINE \<equiv> CHR 0x0A"

definition quoted :: "string \<Rightarrow> string" where
  "quoted s = [CHR 0x27] @ s @ [CHR 0x27]"

definition hand_derived_two_leaf_case ::
  "(bytes \<Rightarrow> bytes) \<Rightarrow> (bytes \<Rightarrow> bytes) \<Rightarrow> (string \<times> json) list res" where
  "hand_derived_two_leaf_case sha kec =
     (let inputs = [''alpha'', ''beta''];
          sha_a = sha256_hex sha ''alpha''; sha_b = sha256_hex sha ''beta'';
          k_a = keccak_hex kec sha_a; k_b = keccak_hex kec sha_b;
          (lo, hi) = (if k_b < k_a then (k_b, k_a) else (k_a, k_b))
      in res_bind (make_case sha kec ''two-leaves-hand-derived'' inputs None) (\<lambda>c.
         res_bind (py_item ''evm'' (JObj c)) (\<lambda>evm.
         res_bind (py_item ''root'' evm) (\<lambda>rt.
           Inr (dict_put ''_comment''
             (JStr (''Hand-derivation:'' @ [NEWLINE]
                @ ''  sha256('' @ quoted ''alpha'' @ '')                = '' @ sha_a @ [NEWLINE]
                @ ''  sha256('' @ quoted ''beta'' @ '')                 = '' @ sha_b @ [NEWLINE]
                @ ''  keccak(UTF8 of sha256-hex '' @ quoted ''alpha'' @ '') = '' @ k_a @ [NEWLINE]
                @ ''  keccak(UTF8 of sha256-hex '' @ quoted ''beta'' @ '')  = '' @ k_b @ [NEWLINE]
                @ ''  sorted pair concat (lo,hi)     = ('' @ lo @ '', '' @ hi @ '')'' @ [NEWLINE]
                @ ''  root = keccak(lo || hi)        = '' @ py_str rt @ [NEWLINE]
                @ ''Any panellist with a keccak primitive can reproduce this in 30 seconds.'')) c)))))"

definition build_cases :: "(bytes \<Rightarrow> bytes) \<Rightarrow> (bytes \<Rightarrow> bytes) \<Rightarrow> string \<Rightarrow> (string \<times> json) list list res" where
  "build_cases sha kec dash =
     map_res (\<lambda>c. c)
       [make_case sha kec ''empty'' []
          (Some (''Empty input yields the empty string root in both regimes '' @ dash @ '' the ''
             @ ''Solidity verifyProof never sees this state (commitBatch rejects ''
             @ ''zero roots); included for Python/TS exhaustiveness.'')),
        make_case sha kec ''single-leaf'' [''only'']
          (Some ''Single leaf: root == leaf. Verifier accepts empty proof.''),
        hand_derived_two_leaf_case sha kec,
        make_case sha kec ''three-leaves-odd'' [''alpha'', ''beta'', ''gamma'']
          (Some (''Odd leaf count exercises duplicate-last semantics at level 0. ''
             @ ''Mirrors contracts/test/LandRegistryAnchor.t.sol::test_VerifyProof_ThreeLeaves.'')),
        make_case sha kec ''four-leaves'' [''a'', ''b'', ''c'', ''d''] None,
        make_case sha kec ''eight-leaves'' [''p0'', ''p1'', ''p2'', ''p3'', ''p4'', ''p5'', ''p6'', ''p7'']
          (Some ''Balanced binary tree, no duplicate-last anywhere.''),
        make_case sha kec ''sixteen-leaves'' (map (\<lambda>i. ''event-'' @ zfill 2 (nat_str i)) [0..<16])
          (Some ''Real-world batch shape (~16 events per anchor under normal load).''),
        make_case sha kec ''five-leaves-odd'' [''q0'', ''q1'', ''q2'', ''q3'', ''q4'']
          (Some (''Odd count at multiple levels '' @ dash @ '' duplicate-last fires twice.'')),
        make_case sha kec ''permuted-order'' [''b'', ''c'', ''a'', ''d'']
          (Some (''Input ordering matters: this produces a different root than ''
             @ quoted ''a'' @ '','' @ quoted ''b'' @ '','' @ quoted ''c'' @ '','' @ quoted ''d''
             @ ''. The verifier MUST NOT accept a proof generated ''
             @ ''against the sorted-input tree if the leaves are out of order.'')),
        make_case sha kec ''real-uganda-batch''
          [''TITLE_ISSUED:UG-MIT-T00007/2026'', ''TRANSFER_INITIATED:UG-MIT-T00012/2026'',
           ''FRAUD_HUMAN_AFFIRMED:UG-MIT-T00003/2026'', ''ANCHOR_COMMITTED:0x1234...'',
           ''USSD_VERIFY:UG-MIT-T00007/2026'']
          (Some (''Five realistic audit-event leaves drawn from Mityana pilot scope. ''
             @ ''Hashes the event-type:id form, not raw PII (per project invariant #2).''))]"

definition emit_payload :: "(string \<times> json) list list \<Rightarrow> json" where
  "emit_payload cases =
     JObj [(''schema_version'', JInt 1),
           (''regimes'', jstrs [''sha256_index_ordered'', ''keccak_sorted_pair'']),
           (''generated_by'', JStr ''backend/scripts/emit_merkle_vectors.py''),
           (''_note'', JStr (''Single source of truth for cross-language Merkle parity. Loaded by ''
              @ ''frontend/src/__tests__/merkle.parity.test.ts, ''
              @ ''contracts/test/MerkleParity.t.sol, and ''
              @ ''scripts/verify_offline.py. Regenerate via the command in this file'' @ [CHR 0x27]
              @ ''s module docstring.'')),
           (''cases'', JList (map JObj cases))]"

text \<open>\<open>json.dumps(x, indent=n)\<close> at depth d.\<close>

definition indent_line :: "nat \<Rightarrow> nat \<Rightarrow> string" where
  "indent_line n d = NEWLINE # replicate (n * d) CHR '' ''"

fun dumps_indent :: "nat \<Rightarrow> nat \<Rightarrow> json \<Rightarrow> string" where
  "dumps_indent n d (JList xs) =
     (if xs = [] then ''[]''
      else ''['' @ indent_line n (Suc d) @ join_str (CHR '','' # indent_line n (Suc d)) (map (dumps_indent n (Suc d)) xs)
             @ indent_line n d @ '']'')"
| "dumps_indent n d (JObj kvs) =
     (if kvs = [] then ''{}''
      else ''{'' @ indent_line n (Suc d) @ join_str (CHR '','' # indent_line n (Suc d))
                 (map (\<lambda>(k, v). quote_str k @ '': '' @ dumps_indent n (Suc d) v) kvs)
             @ indent_line n d @ ''}'')"
| "dumps_indent n d j = dumps_plain j"

text \<open>The text \<open>main\<close> writes.\<close>

definition emitted_text :: "(bytes \<Rightarrow> bytes) \<Rightarrow> (bytes \<Rightarrow> bytes) \<Rightarrow> string \<Rightarrow> string res" where
  "emitted_text sha kec dash =
     res_bind (build_cases sha kec dash) (\<lambda>cases. Inr (dumps_indent 2 0 (emit_payload cases) @ [NEWLINE]))"

section \<open>The check is the one of the backend\<close>

lemma off_hex_str [simp]: "off_hex_to_bytes32 (JStr s) = hex_to_bytes32 s"
  by (simp add: off_hex_to_bytes32_def py_lower_def hex_to_bytes32_def)

lemma off_pair_str [simp]: "off_keccak_pair_sorted kec (JStr a) (JStr b) = keccak_pair_sorted kec a b"
  by (simp add: off_keccak_pair_sorted_def keccak_pair_sorted_def)

lemma off_climb_strs: "off_climb kec (JStr h) (map JStr ss) = res_bind (climb_sorted kec h ss) (\<lambda>x. Inr (JStr x))"
proof (induction ss arbitrary: h)
  case (Cons x ss)
  then show ?case by (cases "keccak_pair_sorted kec h x") simp_all
qed simp

lemma off_verify_strs:
  "off_verify kec (JStr leaf) (jstrs siblings) (JStr rt) = verify_merkle_proof_evm kec leaf siblings rt"
  by (cases "climb_sorted kec leaf siblings")
    (simp_all add: off_verify_def py_iter_def jstrs_def off_climb_strs py_lower_def verify_merkle_proof_evm_def)

section \<open>The file is read back\<close>

lemma indent_line_ws: "list_all json_ws (indent_line n d)"
  by (simp add: indent_line_def json_ws_def list_all_iff)

interpretation indented: printer "dumps_indent n" "\<lambda>j. j" "\<lambda>kvs. kvs" "indent_line n" "indent_line n" "'' ''" for n
  by unfold_locales (simp_all add: indent_line_ws json_ws_def case_prod_unfold)

lemma load_printed:
  "wf_json j \<Longrightarrow> load_json (fs(path \<mapsto> dumps_plain j)) path = Inr j"
  "wf_json j \<Longrightarrow> load_json (fs(path \<mapsto> dumps_indent n 0 j @ [NEWLINE])) path = Inr j"
  using indented.loads_prn_ws [of j "[NEWLINE]" n 0]
  by (simp_all add: load_json_def json_loads_plain json_ws_def)

lemma wf_jstrs [simp]: "wf_json (jstrs xs)"
  by (simp add: jstrs_def list_all_iff)

section \<open>The emitter never fails its own check\<close>

lemma map_res_total:
  assumes "\<And>x. x \<in> set xs \<Longrightarrow> \<exists>y. f x = Inr y \<and> P x y"
  shows "\<exists>ys. map_res f xs = Inr ys \<and> list_all2 P xs ys"
  using assms
proof (induction xs)
  case (Cons x xs)
  obtain y where y: "f x = Inr y" "P x y" using Cons.prems by auto
  obtain ys where "map_res f xs = Inr ys" "list_all2 P xs ys" using Cons by auto
  then show ?case using y by simp
qed simp

text \<open>An entry that the verifier accepts.\<close>

definition accepted :: "(bytes \<Rightarrow> bytes) \<Rightarrow> json \<Rightarrow> bool" where
  "accepted kec e \<longleftrightarrow> wf_json e \<and> parity_proofs kec [e] = Inr [True]"

lemma wf_proof_entry [simp]: "wf_json (proof_entry i leaf siblings rt)"
  by (simp add: proof_entry_def)

lemma accepted_entry:
  "verify_merkle_proof_evm kec leaf siblings rt = Inr True \<Longrightarrow> accepted kec (proof_entry i leaf siblings rt)"
  by (simp add: accepted_def) (simp add: proof_entry_def py_item_def json_get_def off_verify_strs)

lemma parity_proofs_Cons: "parity_proofs kec [e] = Inr [ok] \<Longrightarrow> parity_proofs kec (e # es) = res_bind (parity_proofs kec es) (\<lambda>oks. Inr (ok # oks))"
  by (auto simp: res_simps)

lemma parity_proofs_accepted:
  "list_all (accepted kec) es \<Longrightarrow> parity_proofs kec es = Inr (replicate (length es) True)"
proof (induction es)
  case (Cons e es)
  then have "parity_proofs kec [e] = Inr [True]" by (simp add: accepted_def)
  from parity_proofs_Cons [OF this] Cons show ?case by (simp del: parity_proofs.simps)
qed simp

lemma sha256_block_total: "\<exists>b. sha256_block sha inputs = Inr b \<and> wf_json b"
proof (cases "inputs = []")
  case True
  then show ?thesis by (simp add: sha256_block_def empty_block_def)
next
  case False
  let ?leaves = "map (sha256_hex sha) inputs"
  let ?rt = "compute_merkle_root sha ?leaves"
  let ?one = "\<lambda>idx. res_bind (merkle_proof sha ?leaves (int idx)) (\<lambda>siblings.
     if verify_merkle_proof sha (?leaves ! idx) siblings ?rt (int idx)
     then Inr (proof_entry idx (?leaves ! idx) siblings ?rt) else Inl AssertionError)"
  have "\<exists>e. ?one idx = Inr e \<and> wf_json e" if "idx \<in> set [0..<length ?leaves]" for idx
    using that merkle_proof_accepted [of "int idx" ?leaves sha] by auto
  from map_res_total [of "[0..<length ?leaves]" ?one "\<lambda>_. wf_json", OF this]
  obtain ps where "map_res ?one [0..<length ?leaves] = Inr ps" "list_all wf_json ps"
    by (auto simp: list_all2_conv_all_nth list_all_length)
  then show ?thesis using False by (simp add: sha256_block_def Let_def)
qed

lemma evm_block_total:
  "\<exists>b ps. evm_block sha kec inputs = Inr b \<and> wf_json b \<and> py_get ''proofs'' (JList []) b = Inr (JList ps)
     \<and> (\<exists>rt. py_item ''root'' b = Inr rt) \<and> length ps = length inputs \<and> list_all (accepted kec) ps"
proof (cases "inputs = []")
  case True
  then show ?thesis by (simp add: evm_block_def empty_block_def py_get_def py_item_def json_get_def)
next
  case False
  let ?leaves = "map (sha256_hex sha) inputs"
  let ?one = "\<lambda>idx. res_bind (merkle_proof_evm kec ?leaves (int idx)) (\<lambda>p.
     res_bind (verify_merkle_proof_evm kec (ep_leaf p) (ep_siblings p) (ep_root p)) (\<lambda>ok.
       if ok then Inr (proof_entry idx (ep_leaf p) (ep_siblings p) (ep_root p)) else Inl AssertionError))"
  have "\<exists>e. ?one idx = Inr e \<and> accepted kec e" if "idx \<in> set [0..<length ?leaves]" for idx
    using that merkle_proof_evm_accepted [of "int idx" ?leaves kec] by (auto simp: accepted_entry)
  from map_res_total [of "[0..<length ?leaves]" ?one "\<lambda>_. accepted kec", OF this]
  obtain ps where ps: "map_res ?one [0..<length ?leaves] = Inr ps" "list_all2 (\<lambda>_. accepted kec) [0..<length ?leaves] ps"
    by auto
  then have all: "list_all (accepted kec) ps" "length ps = length inputs"
    by (auto simp: list_all2_conv_all_nth list_all_length)
  then have "list_all wf_json ps" by (auto simp: accepted_def list_all_iff)
  then show ?thesis using False ps(1) all
    by (simp add: evm_block_def Let_def compute_merkle_root_evm_eq py_get_def py_item_def json_get_def)
qed

text \<open>A case of n inputs that is written without an error and whose n proofs are accepted.\<close>

definition good_case :: "(bytes \<Rightarrow> bytes) \<Rightarrow> nat \<Rightarrow> (string \<times> json) list res \<Rightarrow> bool" where
  "good_case kec n r \<longleftrightarrow> (\<exists>c. r = Inr c \<and> wf_json (JObj c) \<and> parity_cases kec [JObj c] = Inr (replicate n True))"

lemma make_case_shape:
  obtains b1 b2 ps where "make_case sha kec name inputs comment =
      Inr ([(''name'', JStr name), (''inputs'', jstrs inputs), (''sha256'', b1), (''evm'', b2),
            (''skip_solidity'', JBool (length inputs = 0))]
           @ (if comment \<noteq> None \<and> comment \<noteq> Some [] then [(''_comment'', JStr (the comment))] else []))"
    "wf_json b1" "wf_json b2" "py_get ''proofs'' (JList []) b2 = Inr (JList ps)" "\<exists>rt. py_item ''root'' b2 = Inr rt"
    "length ps = length inputs" "list_all (accepted kec) ps"
  using sha256_block_total [of sha inputs] evm_block_total [of sha kec inputs] by (auto simp: make_case_def)

lemma make_case_good: "good_case kec (length inputs) (make_case sha kec name inputs comment)"
proof -
  obtain b1 b2 ps where c: "make_case sha kec name inputs comment =
      Inr ([(''name'', JStr name), (''inputs'', jstrs inputs), (''sha256'', b1), (''evm'', b2),
            (''skip_solidity'', JBool (length inputs = 0))]
           @ (if comment \<noteq> None \<and> comment \<noteq> Some [] then [(''_comment'', JStr (the comment))] else []))"
    "wf_json b1" "wf_json b2" "py_get ''proofs'' (JList []) b2 = Inr (JList ps)" "length ps = length inputs"
    "list_all (accepted kec) ps"
    by (rule make_case_shape)
  then show ?thesis
    using parity_proofs_accepted [of kec ps] by (simp add: good_case_def py_get_def json_get_def py_iter_def)
qed

lemma hand_derived_good: "good_case kec 2 (hand_derived_two_leaf_case sha kec)"
proof -
  obtain b1 b2 ps where c: "make_case sha kec ''two-leaves-hand-derived'' [''alpha'', ''beta''] None =
      Inr ([(''name'', JStr ''two-leaves-hand-derived''), (''inputs'', jstrs [''alpha'', ''beta'']), (''sha256'', b1), (''evm'', b2),
            (''skip_solidity'', JBool (length [''alpha'', ''beta''] = 0))]
           @ (if (None :: string option) \<noteq> None \<and> (None :: string option) \<noteq> Some [] then [(''_comment'', JStr (the None))] else []))"
    "wf_json b1" "wf_json b2" "py_get ''proofs'' (JList []) b2 = Inr (JList ps)" "\<exists>rt. py_item ''root'' b2 = Inr rt"
    "length ps = length [''alpha'', ''beta'']" "list_all (accepted kec) ps"
    by (rule make_case_shape [where sha = sha and kec = kec and name = "''two-leaves-hand-derived''"
        and inputs = "[''alpha'', ''beta'']" and comment = None])
  have "py_get ''proofs'' (JList []) b2 = Inr (JList ps) \<Longrightarrow> parity_proofs kec ps = Inr [True, True]"
    using parity_proofs_accepted [OF c(7)] c(6) by (simp add: numeral_2_eq_2)
  then show ?thesis
    using c by (auto simp: hand_derived_two_leaf_case_def good_case_def py_get_def py_item_def json_get_def py_iter_def
        Let_def numeral_2_eq_2)
qed

lemma good_cases:
  "list_all2 (good_case kec) ns rs \<Longrightarrow>
   \<exists>cs. map_res (\<lambda>c. c) rs = Inr cs \<and> list_all (\<lambda>c. wf_json (JObj c)) cs
     \<and> parity_cases kec (map JObj cs) = Inr (replicate (sum_list ns) True)"
proof (induction rule: list_all2_induct)
  case (Cons n ns r rs)
  then obtain c cs where c: "r = Inr c" "wf_json (JObj c)" "parity_cases kec [JObj c] = Inr (replicate n True)"
    and cs: "map_res (\<lambda>c. c) rs = Inr cs" "list_all (\<lambda>c. wf_json (JObj c)) cs"
      "parity_cases kec (map JObj cs) = Inr (replicate (sum_list ns) True)"
    by (auto simp: good_case_def simp del: wf_json.simps parity_cases.simps)
  have "parity_cases kec (JObj c # map JObj cs) = Inr (replicate n True @ replicate (sum_list ns) True)"
    using c(3) cs(3) by (auto simp: res_simps)
  then show ?case using c cs by (simp add: replicate_add del: wf_json.simps parity_cases.simps)
qed simp

lemma build_cases_good:
  "\<exists>cs. build_cases sha kec dash = Inr cs \<and> list_all (\<lambda>c. wf_json (JObj c)) cs
     \<and> parity_cases kec (map JObj cs) = Inr (replicate 48 True)"
proof -
  have g: "length inputs = n \<Longrightarrow> good_case kec n (make_case sha kec name inputs comment)" for n name inputs comment
    using make_case_good by blast
  have total: "(48 :: nat) = sum_list [0, 1, 2, 3, 4, 8, 16, 5, 4, 5]" by simp
  show ?thesis
    unfolding build_cases_def total
    by (rule good_cases) (simp only: list_all2_Cons list_all2_Nil simp_thms, intro conjI g hand_derived_good, simp_all)
qed

section \<open>Properties\<close>

text \<open>The bundle of \<open>--bundle\<close>.\<close>

definition bundle_json :: "string \<Rightarrow> string list \<Rightarrow> string \<Rightarrow> json" where
  "bundle_json leaf siblings rt = JObj [(''leaf'', JStr leaf), (''siblings'', jstrs siblings), (''root'', JStr rt)]"

lemma verify_bundle_printed:
  "verify_bundle kec (fs(path \<mapsto> dumps_plain (bundle_json leaf siblings rt))) path trusted
   = raising (verify_merkle_proof_evm kec leaf siblings
       (if trusted = None \<or> trusted = Some [] then rt else the trusted))"
proof -
  have "wf_json (bundle_json leaf siblings rt)" by (simp add: bundle_json_def)
  from load_printed(1) [OF this] show ?thesis
    by (simp add: verify_bundle_def del: fun_upd_apply)
      (auto simp: bundle_json_def py_get_def json_get_def jstrs_def off_verify_strs [unfolded jstrs_def])
qed

text \<open>
  C16. The offline verifier and the backend agree on every proof: run on the file of a bundle, with or
  without a trusted root on the command line, the script exits with 0 exactly when
  \<open>verify_merkle_proof_evm\<close> of the backend accepts the leaf, the siblings and that root, and with 1
  when it refuses them or raises.  The leaf, the siblings and the roots are arbitrary texts.
\<close>

theorem offline_bundle_exact:
  "exit_code (off_main kec float_one (fs(path \<mapsto> dumps_plain (bundle_json leaf siblings rt)))
      \<lparr>oa_bundle = Some path, oa_parity = None, oa_root = trusted\<rparr>)
   = (if verify_merkle_proof_evm kec leaf siblings (if trusted = None \<or> trusted = Some [] then rt else the trusted) = Inr True
      then 0 else 1)"
proof -
  define u where "u = verify_merkle_proof_evm kec leaf siblings (if trusted = None \<or> trusted = Some [] then rt else the trusted)"
  have "verify_bundle kec (fs(path \<mapsto> dumps_plain (bundle_json leaf siblings rt))) path trusted = raising u"
    unfolding u_def by (rule verify_bundle_printed)
  then show ?thesis
    unfolding u_def [symmetric] by (cases u) (auto simp: off_main_def exit_code_def)
qed

text \<open>
  The parity fixture holds together: whatever the two hash functions are, the emitter passes its own
  checks and writes a file on which the offline verifier exits with 0, having checked 48 proofs, one for
  every leaf of the ten cases.
\<close>

lemma parity_fixture_accepted:
  "\<exists>cases file. build_cases sha kec dash = Inr cases \<and> emitted_text sha kec dash = Inr file
     \<and> parity_cases kec (map JObj cases) = Inr (replicate 48 True)
     \<and> exit_code (off_main kec float_one (fs(path \<mapsto> file)) \<lparr>oa_bundle = None, oa_parity = Some path, oa_root = None\<rparr>) = 0"
proof -
  obtain cs where cs: "build_cases sha kec dash = Inr cs" "list_all (\<lambda>c. wf_json (JObj c)) cs"
      "parity_cases kec (map JObj cs) = Inr (replicate 48 True)"
    using build_cases_good by blast
  then have "wf_json (emit_payload cs)" by (simp add: emit_payload_def list_all_iff)
  from load_printed(2) [OF this, of fs path 2] cs show ?thesis
    by (simp add: emitted_text_def off_main_def verify_parity_def exit_code_def del: fun_upd_apply)
      (simp add: emit_payload_def py_get_def json_get_def py_is_one_def py_iter_def)
qed

end
