(* ===== verification/Deploy.thy ===== *)
theory Deploy
  imports Contracts Auth
begin

text \<open>
  The deployment of the two contracts, \<open>backend/scripts/deploy_contract.py\<close>: the anchor contract with the
  deployer as its administrator, and with \<open>MULTISIG_ENABLED\<close> the wrapper and the rotation of
  \<open>REGISTRAR_ROLE\<close> to it.  Web3 and the compiled artifacts are outside: the addresses the chain
  gives the contracts and the number of the last block are arguments.

  \<open>grantRole\<close> and \<open>revokeRole\<close> are functions the anchor contract inherits from AccessControl of
  OpenZeppelin, which is not in the repository; they are the record \<open>access_control\<close>, and what is used
  of their documentation is \<open>access_laws\<close>.  The lemmas show what the rotation reaches and what it does not.
\<close>

section \<open>AccessControl\<close>

text \<open>The sender, the role and the account; \<open>None\<close> is a revert.\<close>

record 'z access_control =
  ax_oz :: "'z open_zeppelin"
  ax_grant_role :: "address \<Rightarrow> oz_role \<Rightarrow> address \<Rightarrow> 'z \<Rightarrow> 'z option"
  ax_revoke_role :: "address \<Rightarrow> oz_role \<Rightarrow> address \<Rightarrow> 'z \<Rightarrow> 'z option"

text \<open>
  The documented behaviour: a role is held after it was granted, granting and revoking touch nothing else,
  and both are for holders of the administrator's role, which administers every role by default.
\<close>

definition granting_adds :: "'z access_control \<Rightarrow> bool" where
  "granting_adds ax \<longleftrightarrow>
     (\<forall>r a r' b z. oz_has_role (ax_oz ax) r a (oz_grant (ax_oz ax) r' b z) \<longleftrightarrow> (r = r' \<and> a = b) \<or> oz_has_role (ax_oz ax) r a z)
     \<and> (\<forall>r b z. oz_paused (ax_oz ax) (oz_grant (ax_oz ax) r b z) = oz_paused (ax_oz ax) z)"

definition admin_grants :: "'z access_control \<Rightarrow> bool" where
  "admin_grants ax \<longleftrightarrow>
     (\<forall>who r b z. ax_grant_role ax who r b z =
        (if oz_has_role (ax_oz ax) DEFAULT_ADMIN_ROLE who z then Some (oz_grant (ax_oz ax) r b z) else None))"

definition admin_revokes :: "'z access_control \<Rightarrow> bool" where
  "admin_revokes ax \<longleftrightarrow>
     (\<forall>who r b z. case ax_revoke_role ax who r b z of
        None \<Rightarrow> \<not> oz_has_role (ax_oz ax) DEFAULT_ADMIN_ROLE who z
      | Some z' \<Rightarrow> oz_has_role (ax_oz ax) DEFAULT_ADMIN_ROLE who z \<and> oz_paused (ax_oz ax) z' = oz_paused (ax_oz ax) z
          \<and> (\<forall>r' a. oz_has_role (ax_oz ax) r' a z' \<longleftrightarrow> oz_has_role (ax_oz ax) r' a z \<and> \<not> (r' = r \<and> a = b)))"

definition access_laws :: "'z access_control \<Rightarrow> bool" where
  "access_laws ax \<longleftrightarrow> granting_adds ax \<and> admin_grants ax \<and> admin_revokes ax"

definition grant_role_sol ::
  "'z access_control \<Rightarrow> address \<Rightarrow> oz_role \<Rightarrow> address \<Rightarrow> 'z anchor_contract \<Rightarrow> 'z anchor_contract sol" where
  "grant_role_sol ax who r target k =
     (case ax_grant_role ax who r target (ac_access k) of
        None \<Rightarrow> Inl Unauthorized
      | Some z \<Rightarrow> Inr (k\<lparr>ac_access := z\<rparr>))"

definition revoke_role_sol ::
  "'z access_control \<Rightarrow> address \<Rightarrow> oz_role \<Rightarrow> address \<Rightarrow> 'z anchor_contract \<Rightarrow> 'z anchor_contract sol" where
  "revoke_role_sol ax who r target k =
     (case ax_revoke_role ax who r target (ac_access k) of
        None \<Rightarrow> Inl Unauthorized
      | Some z \<Rightarrow> Inr (k\<lparr>ac_access := z\<rparr>))"

section \<open>deploy_contract.py\<close>

definition ANVIL_COSIGNERS :: "(string \<times> string) list" where
  "ANVIL_COSIGNERS =
     [(''0x70997970C51812dc3A010C7d01b50e0d17dc79C8'', ''MoLHUD Commissioner''),
      (''0x3C44CdDdB6a900fa2b585dd299e03d12FA4293BC'', ''NITA-U Security Lead''),
      (''0x90F79bf6EB2c4f870365E785982E1f101E93b906'', ''District Land Board''),
      (''0x15d34AAf54267DB7D7c367839AAf71A00a2C6A65'', ''Independent Auditor'')]"

definition ANVIL_BACKEND_SIGNER :: string where
  "ANVIL_BACKEND_SIGNER = ''0xf39Fd6e51aad88F6F4ce6aB8827279cffFb92266''"

text \<open>The address a text of forty hexadecimal digits names.\<close>

definition address_of :: "string \<Rightarrow> address" where
  "address_of s = (case fromhex (lower_str (drop 2 s)) of Inl _ \<Rightarrow> 0 | Inr bs \<Rightarrow> word_of_nat (be_nat bs))"

text \<open>The script waits for a receipt and does not look at its status: a transaction that reverts changes nothing.\<close>

definition mined :: "('k \<Rightarrow> 'k sol) \<Rightarrow> 'k \<Rightarrow> 'k" where
  "mined tx k = (case tx k of Inl _ \<Rightarrow> k | Inr k' \<Rightarrow> k')"

definition custody_signers :: "address list" where
  "custody_signers = map address_of (ANVIL_BACKEND_SIGNER # map fst ANVIL_COSIGNERS)"

definition deploy_contracts ::
  "'z access_control \<Rightarrow> 'z \<Rightarrow> settings \<Rightarrow> address \<Rightarrow> address \<Rightarrow> 'z anchor_contract \<times> multisig sol option" where
  "deploy_contracts ax z st deployer multisig_address =
     (let k = new_anchor_contract (ax_oz ax) z deployer
      in if multisig_enabled st then
           (mined (revoke_role_sol ax deployer REGISTRAR_ROLE deployer)
              (mined (grant_role_sol ax deployer REGISTRAR_ROLE multisig_address) k),
            Some (new_multisig custody_signers 3))
         else (k, None))"

text \<open>\<open>contract_address.json\<close>.\<close>

definition deploy_payload :: "settings \<Rightarrow> string \<Rightarrow> string \<Rightarrow> string option \<Rightarrow> int \<Rightarrow> json" where
  "deploy_payload st rpc anchor_address multisig_address block =
     JObj ([(''address'', JStr (lower_str anchor_address)), (''chain_id'', JInt (chain_id st)), (''block'', JInt block),
            (''rpc_url'', JStr rpc), (''multisig_enabled'', JBool (multisig_enabled st)),
            (''multisig_address'', case multisig_address of None \<Rightarrow> JNull | Some a \<Rightarrow> if a = [] then JNull else JStr (lower_str a)),
            (''custody_signers'',
               if multisig_address = None \<or> multisig_address = Some [] then JNull
               else JList (map (\<lambda>(a, r). JObj [(''address'', JStr a), (''role'', JStr r)])
                      ((ANVIL_BACKEND_SIGNER, ''LandGuard backend'') # ANVIL_COSIGNERS)))]
           @ (if blockchain_provider st = Chain_Sepolia then [(''sepolia'', JStr (lower_str anchor_address))] else []))"

section \<open>Lemmas\<close>

lemma address_inj:
  assumes "length a = 20" "length b = 20" "(word_of_nat (be_nat a) :: address) = word_of_nat (be_nat b)"
  shows "a = b"
proof -
  have u: "unat (word_of_nat (be_nat bs) :: address) = be_nat bs" if "length bs = 20" for bs
    using be_nat_less [of bs] that by (simp add: unsigned_of_nat take_bit_eq_mod)
  have "be_nat a = be_nat b" using arg_cong [OF assms(3), of unat] unfolding u [OF assms(1)] u [OF assms(2)] .
  then have "be_bytes 20 (be_nat a) = be_bytes 20 (be_nat b)" by (rule arg_cong)
  with be_bytes_be_nat [OF assms(1)] be_bytes_be_nat [OF assms(2)] show ?thesis by metis
qed

text \<open>The bytes of the five addresses.\<close>

definition signer_bytes :: "bytes list" where
  "signer_bytes =
     [[0xf3, 0x9f, 0xd6, 0xe5, 0x1a, 0xad, 0x88, 0xf6, 0xf4, 0xce, 0x6a, 0xb8, 0x82, 0x72, 0x79, 0xcf, 0xff, 0xb9, 0x22, 0x66],
      [0x70, 0x99, 0x79, 0x70, 0xc5, 0x18, 0x12, 0xdc, 0x3a, 0x01, 0x0c, 0x7d, 0x01, 0xb5, 0x0e, 0x0d, 0x17, 0xdc, 0x79, 0xc8],
      [0x3c, 0x44, 0xcd, 0xdd, 0xb6, 0xa9, 0x00, 0xfa, 0x2b, 0x58, 0x5d, 0xd2, 0x99, 0xe0, 0x3d, 0x12, 0xfa, 0x42, 0x93, 0xbc],
      [0x90, 0xf7, 0x9b, 0xf6, 0xeb, 0x2c, 0x4f, 0x87, 0x03, 0x65, 0xe7, 0x85, 0x98, 0x2e, 0x1f, 0x10, 0x1e, 0x93, 0xb9, 0x06],
      [0x15, 0xd3, 0x4a, 0xaf, 0x54, 0x26, 0x7d, 0xb7, 0xd7, 0xc3, 0x67, 0x83, 0x9a, 0xaf, 0x71, 0xa0, 0x0a, 0x2c, 0x6a, 0x65]]"

lemma custody_signers_bytes: "custody_signers = map (\<lambda>bs. word_of_nat (be_nat bs)) signer_bytes"
proof -
  have "map (\<lambda>s. fromhex (lower_str (drop 2 s))) (ANVIL_BACKEND_SIGNER # map fst ANVIL_COSIGNERS) = map Inr signer_bytes"
    by code_simp
  then show ?thesis
    by (auto simp: custody_signers_def address_of_def ANVIL_COSIGNERS_def signer_bytes_def)
qed

lemma custody_signers_distinct: "distinct custody_signers \<and> 0 \<notin> set custody_signers \<and> length custody_signers = 5"
proof -
  have "distinct (replicate 20 0 # signer_bytes) \<and> list_all (\<lambda>bs. length bs = 20) (replicate 20 0 # signer_bytes)" by code_simp
  moreover have "inj_on (\<lambda>bs. word_of_nat (be_nat bs) :: address) (set bss)" if "list_all (\<lambda>bs. length bs = 20) bss" for bss
    using that by (intro inj_onI address_inj) (simp_all add: list_all_iff)
  ultimately have "distinct (map (\<lambda>bs. word_of_nat (be_nat bs) :: address) (replicate 20 0 # signer_bytes))"
    by (simp only: distinct_map simp_thms)
  moreover have "be_nat (replicate n 0) = 0" for n by (induction n) (simp_all add: be_nat_Cons be_nat_def)
  ultimately show ?thesis by (simp add: custody_signers_bytes) (simp add: signer_bytes_def)
qed

lemma custody_signers_seated: "\<exists>g. new_multisig custody_signers 3 = Inr g \<and> mg_threshold g = 3 \<and> mg_signers g = custody_signers"
proof -
  have "\<exists>g'. seat_signers ss g = Inr g' \<and> mg_threshold g' = mg_threshold g \<and> mg_signers g' = mg_signers g @ ss"
    if "distinct ss" "0 \<notin> set ss" "\<And>s. s \<in> set ss \<Longrightarrow> \<not> mg_is_signer g s" for ss g
    using that
  proof (induction ss arbitrary: g)
    case (Cons a ss)
    let ?g = "g\<lparr>mg_is_signer := (mg_is_signer g)(a := True), mg_signers := mg_signers g @ [a]\<rparr>"
    have "\<not> mg_is_signer ?g s" if "s \<in> set ss" for s using that Cons.prems by auto
    then have "\<exists>g'. seat_signers ss ?g = Inr g' \<and> mg_threshold g' = mg_threshold ?g \<and> mg_signers g' = mg_signers ?g @ ss"
      using Cons.IH [of ?g] Cons.prems by simp
    moreover have "seat_signers (a # ss) g = seat_signers ss ?g" using Cons.prems by simp
    ultimately show ?case by simp
  qed simp
  from this [of custody_signers "\<lparr>mg_threshold = 3, mg_signers = [], mg_is_signer = (\<lambda>_. False),
         mg_proposals = (\<lambda>_. no_proposal), mg_confirmed = (\<lambda>_ _. False)\<rparr>"] custody_signers_distinct
  show ?thesis by (simp add: new_multisig_def)
qed

lemma granted:
  assumes "access_laws ax"
  shows "oz_has_role (ax_oz ax) r a (oz_grant (ax_oz ax) r' b z) \<longleftrightarrow> (r = r' \<and> a = b) \<or> oz_has_role (ax_oz ax) r a z"
    and "oz_paused (ax_oz ax) (oz_grant (ax_oz ax) r b z) = oz_paused (ax_oz ax) z"
    and "oz_has_role (ax_oz ax) DEFAULT_ADMIN_ROLE who z \<Longrightarrow> ax_grant_role ax who r b z = Some (oz_grant (ax_oz ax) r b z)"
  using assms by (simp_all add: access_laws_def granting_adds_def admin_grants_def)

lemma revoked:
  assumes "access_laws ax" "oz_has_role (ax_oz ax) DEFAULT_ADMIN_ROLE who z"
  obtains z' where "ax_revoke_role ax who r b z = Some z'" "oz_paused (ax_oz ax) z' = oz_paused (ax_oz ax) z"
    "\<And>r' a. oz_has_role (ax_oz ax) r' a z' \<longleftrightarrow> oz_has_role (ax_oz ax) r' a z \<and> \<not> (r' = r \<and> a = b)"
proof -
  have law: "case ax_revoke_role ax who r b z of
        None \<Rightarrow> \<not> oz_has_role (ax_oz ax) DEFAULT_ADMIN_ROLE who z
      | Some z' \<Rightarrow> oz_has_role (ax_oz ax) DEFAULT_ADMIN_ROLE who z \<and> oz_paused (ax_oz ax) z' = oz_paused (ax_oz ax) z
          \<and> (\<forall>r' a. oz_has_role (ax_oz ax) r' a z' \<longleftrightarrow> oz_has_role (ax_oz ax) r' a z \<and> \<not> (r' = r \<and> a = b))"
    using assms(1) by (simp only: access_laws_def admin_revokes_def)
  show thesis
  proof (cases "ax_revoke_role ax who r b z")
    case None
    then show ?thesis using law assms(2) by simp
  next
    case (Some z')
    then show ?thesis using law that [of z'] by simp
  qed
qed

text \<open>After the constructor and the rotation.\<close>

lemma rotated:
  assumes laws: "access_laws ax" and fresh: "\<And>r a. \<not> oz_has_role (ax_oz ax) r a z" and "multisig_enabled st"
    and "multisig_address \<noteq> deployer" and "deploy_contracts ax z st deployer multisig_address = (k, ms)"
  shows "oz_has_role (ax_oz ax) REGISTRAR_ROLE a (ac_access k) \<longleftrightarrow> a = multisig_address"
    and "oz_has_role (ax_oz ax) DEFAULT_ADMIN_ROLE a (ac_access k) \<longleftrightarrow> a = deployer"
    and "oz_paused (ax_oz ax) (ac_access k) = oz_paused (ax_oz ax) z" and "ac_anchors k = (\<lambda>_. no_anchor)"
    and "ms = Some (new_multisig custody_signers 3)"
proof -
  let ?oz = "ax_oz ax" and ?k0 = "new_anchor_contract (ax_oz ax) z deployer"
  note has = granted(1) [OF laws] and still = granted(2) [OF laws] and grants = granted(3) [OF laws]
  let ?z1 = "oz_grant ?oz REGISTRAR_ROLE multisig_address (ac_access ?k0)"
  have admin: "oz_has_role ?oz DEFAULT_ADMIN_ROLE deployer (ac_access ?k0)" by (simp add: new_anchor_contract_def has)
  then have grant: "mined (grant_role_sol ax deployer REGISTRAR_ROLE multisig_address) ?k0 = ?k0\<lparr>ac_access := ?z1\<rparr>"
    by (simp add: mined_def grant_role_sol_def grants)
  have "oz_has_role ?oz DEFAULT_ADMIN_ROLE deployer ?z1" using admin by (simp add: has)
  from revoked [OF laws this] obtain z2 where z2: "ax_revoke_role ax deployer REGISTRAR_ROLE deployer ?z1 = Some z2"
    "oz_paused ?oz z2 = oz_paused ?oz ?z1"
    "\<And>r' a. oz_has_role ?oz r' a z2 \<longleftrightarrow> oz_has_role ?oz r' a ?z1 \<and> \<not> (r' = REGISTRAR_ROLE \<and> a = deployer)"
    by metis
  then have "mined (revoke_role_sol ax deployer REGISTRAR_ROLE deployer) (?k0\<lparr>ac_access := ?z1\<rparr>) = ?k0\<lparr>ac_access := z2\<rparr>"
    by (simp add: mined_def revoke_role_sol_def)
  then have k: "k = ?k0\<lparr>ac_access := z2\<rparr>" and ms: "ms = Some (new_multisig custody_signers 3)"
    using assms(3,5) unfolding deploy_contracts_def Let_def grant by simp_all
  show "oz_has_role ?oz REGISTRAR_ROLE a (ac_access k) \<longleftrightarrow> a = multisig_address"
    using assms(4) by (auto simp: k z2 has new_anchor_contract_def fresh)
  show "oz_has_role ?oz DEFAULT_ADMIN_ROLE a (ac_access k) \<longleftrightarrow> a = deployer"
    by (auto simp: k z2 has new_anchor_contract_def fresh)
  show "oz_paused ?oz (ac_access k) = oz_paused ?oz z" by (simp add: k z2 still new_anchor_contract_def)
  show "ac_anchors k = (\<lambda>_. no_anchor)" by (simp add: k new_anchor_contract_def)
  show "ms = Some (new_multisig custody_signers 3)" by (rule ms)
qed

section \<open>Properties\<close>

text \<open>
  What the rotation reaches: deployed with \<open>MULTISIG_ENABLED\<close>, the wrapper has five different signers and
  the threshold three, it is the only holder of \<open>REGISTRAR_ROLE\<close>, and a batch the deployer's key commits
  directly is refused.
\<close>

lemma rotation_seats_multisig:
  assumes "access_laws ax" and "\<And>r a. \<not> oz_has_role (ax_oz ax) r a z" and "multisig_enabled st"
    and "multisig_address \<noteq> deployer" and "deploy_contracts ax z st deployer multisig_address = (k, ms)"
  shows "(oz_has_role (ax_oz ax) REGISTRAR_ROLE a (ac_access k) \<longleftrightarrow> a = multisig_address)
    \<and> commit_batch_sol (ax_oz ax) \<lparr>ci_sender = deployer, ci_time = t\<rparr> d batch rt k = Inl Unauthorized
    \<and> (\<exists>g. ms = Some (Inr g) \<and> mg_threshold g = 3 \<and> mg_signers g = custody_signers \<and> length (mg_signers g) = 5)"
  using rotated [OF assms] custody_signers_seated custody_signers_distinct assms(4) by (auto simp: commit_batch_sol_def)

text \<open>
  C23. What the rotation leaves: the deployer keeps the administrator's role.  With two transactions of this one
  key, \<open>grantRole\<close> to itself and \<open>commitBatch\<close>, any root is stored for any batch that has none, and
  no signer of the wrapper has confirmed anything.
\<close>

theorem deployer_key_still_anchors:
  assumes "access_laws ax" and "\<And>r a. \<not> oz_has_role (ax_oz ax) r a z" and "multisig_enabled st"
    and "multisig_address \<noteq> deployer" and "deploy_contracts ax z st deployer multisig_address = (k, ms)"
    and "\<not> oz_paused (ax_oz ax) z" and "rt \<noteq> 0"
  shows "\<exists>k1 k2. grant_role_sol ax deployer REGISTRAR_ROLE deployer k = Inr k1
    \<and> commit_batch_sol (ax_oz ax) \<lparr>ci_sender = deployer, ci_time = t\<rparr> d batch rt k1 = Inr k2
    \<and> ra_root (ac_anchors k2 batch) = rt \<and> ra_registrar (ac_anchors k2 batch) = deployer"
proof -
  note r = rotated [OF assms(1-5)]
  let ?k1 = "k\<lparr>ac_access := oz_grant (ax_oz ax) REGISTRAR_ROLE deployer (ac_access k)\<rparr>"
  have "grant_role_sol ax deployer REGISTRAR_ROLE deployer k = Inr ?k1"
    using granted(3) [OF assms(1)] r(2) [of deployer] by (simp add: grant_role_sol_def)
  moreover have "oz_has_role (ax_oz ax) REGISTRAR_ROLE deployer (ac_access ?k1)" "\<not> oz_paused (ax_oz ax) (ac_access ?k1)"
    using granted(1,2) [OF assms(1)] assms(6) r(3) by simp_all
  ultimately show ?thesis using assms(7) r(4) by (simp add: commit_batch_sol_def no_anchor_def)
qed

section \<open>Witnesses\<close>

definition role_access :: "((oz_role \<times> address) set \<times> bool) access_control" where
  "role_access =
     \<lparr>ax_oz = role_oz,
      ax_grant_role = (\<lambda>who r a z. if (DEFAULT_ADMIN_ROLE, who) \<in> fst z then Some (insert (r, a) (fst z), snd z) else None),
      ax_revoke_role = (\<lambda>who r a z. if (DEFAULT_ADMIN_ROLE, who) \<in> fst z then Some (fst z - {(r, a)}, snd z) else None)\<rparr>"

lemma role_access_laws: "access_laws role_access"
  by (auto simp: access_laws_def granting_adds_def admin_grants_def admin_revokes_def role_access_def role_oz_def)

lemma rotation_seats_multisig_witness:
  "\<exists>k g. deploy_contracts role_access ({}, False) prod_settings 7 9 = (k, Some (Inr g)) \<and> mg_threshold g = 3
     \<and> commit_batch_sol role_oz \<lparr>ci_sender = 7, ci_time = 1\<rparr> 3 1 5 k = Inl Unauthorized"
proof -
  obtain k ms where d: "deploy_contracts role_access ({}, False) prod_settings 7 9 = (k, ms)" by force
  have s: "\<not> oz_has_role (ax_oz role_access) r a ({}, False)" "multisig_enabled prod_settings" "(9 :: address) \<noteq> 7" for r a
    by (simp_all add: role_access_def role_oz_def prod_settings_def)
  have oz: "ax_oz role_access = role_oz" by (simp add: role_access_def)
  from rotation_seats_multisig [OF role_access_laws s d, unfolded oz, of 9 1 3 1 5] d show ?thesis by blast
qed

theorem deployer_key_still_anchors_witness:
  "\<exists>k k1 k2. k = fst (deploy_contracts role_access ({}, False) prod_settings 7 9)
    \<and> grant_role_sol role_access 7 REGISTRAR_ROLE 7 k = Inr k1
    \<and> commit_batch_sol role_oz \<lparr>ci_sender = 7, ci_time = 1\<rparr> 3 1 5 k1 = Inr k2 \<and> ra_root (ac_anchors k2 1) = 5"
proof -
  obtain k ms where d: "deploy_contracts role_access ({}, False) prod_settings 7 9 = (k, ms)" by force
  have s: "\<not> oz_has_role (ax_oz role_access) r a ({}, False)" "multisig_enabled prod_settings" "(9 :: address) \<noteq> 7"
    "\<not> oz_paused (ax_oz role_access) ({}, False)" "(5 :: b32) \<noteq> 0" for r a
    by (simp_all add: role_access_def role_oz_def prod_settings_def)
  from deployer_key_still_anchors [OF role_access_laws s(1-3) d s(4,5), of 1 3 1] d show ?thesis by (auto simp: role_access_def)
qed

end
