(* ===== verification/Migrations.thy ===== *)
theory Migrations
  imports Auth
begin

text \<open>
  The migration runner of \<open>backend/app/database.py\<close>: \<open>get_connection\<close>, \<open>apply_migrations\<close> and the line-based
  splitter \<open>_split_statements\<close>.

  The SQL engine is a parameter: it executes one statement on a database of any type and reports the text of
  the exception, if it raised one.  The directory is a list of file names with their contents.  Pragmas, the
  log and the reading of the files are not modelled.

  The lemmas show that the splitter loses and repeats no line but the comments, that every statement but the
  last ends with a semicolon, and that applying the migrations a second time changes nothing.
\<close>

section \<open>The splitter\<close>

text \<open>\<open>str.splitlines\<close> for the code points 0 to 255; \<open>\r\n\<close> is one break.\<close>

definition line_break :: "char \<Rightarrow> bool" where
  "line_break c = (let n = (of_char c :: nat) in (10 \<le> n \<and> n \<le> 13) \<or> (28 \<le> n \<and> n \<le> 30) \<or> n = 133)"

definition after_break :: "string \<Rightarrow> string" where
  "after_break s =
     (case s of
        [] \<Rightarrow> []
      | c # cs \<Rightarrow> if c = CHR 0x0D \<and> prefix [CHR 0x0A] cs then tl cs else cs)"

lemma length_after_break: "length (after_break s) \<le> length s - 1"
  by (auto simp: after_break_def split: list.split)

function splitlines :: "string \<Rightarrow> string list" where
  "splitlines s =
     (if s = [] then []
      else takeWhile (\<lambda>c. \<not> line_break c) s # splitlines (after_break (dropWhile (\<lambda>c. \<not> line_break c) s)))"
  by pat_completeness auto
termination
proof (relation "measure length")
  fix s :: string
  assume "s \<noteq> []"
  then show "(after_break (dropWhile (\<lambda>c. \<not> line_break c) s), s) \<in> measure length"
    using length_after_break [of "dropWhile (\<lambda>c. \<not> line_break c) s"] length_dropWhile_le [of "\<lambda>c. \<not> line_break c" s]
    by (cases s) auto
qed simp

declare splitlines.simps [simp del]

definition join_lines :: "string list \<Rightarrow> string" where
  "join_lines = join_str [CHR 0x0A]"

definition comment_line :: "string \<Rightarrow> bool" where
  "comment_line line = prefix ''--'' (strip line)"

record split_state =
  sp_out :: "string list"
  sp_buf :: "string list"
  sp_in_dollar :: bool

definition split_step :: "string \<Rightarrow> split_state \<Rightarrow> split_state" where
  "split_step line st =
     (if comment_line line then st
      else
        let in_dollar = (if contains ''$$'' line then \<not> sp_in_dollar st else sp_in_dollar st);
            buf = sp_buf st @ [line]
        in if \<not> in_dollar \<and> suffix '';'' (strip line)
           then \<lparr>sp_out = sp_out st @ [join_lines buf], sp_buf = [], sp_in_dollar = in_dollar\<rparr>
           else \<lparr>sp_out = sp_out st, sp_buf = buf, sp_in_dollar = in_dollar\<rparr>)"

definition split_start :: split_state where
  "split_start = \<lparr>sp_out = [], sp_buf = [], sp_in_dollar = False\<rparr>"

definition split_statements :: "string \<Rightarrow> string list" where
  "split_statements script =
     (let st = fold split_step (splitlines script) split_start
      in sp_out st @ (if sp_buf st \<noteq> [] then [join_lines (sp_buf st)] else []))"

section \<open>The runner\<close>

datatype db_backend = Sqlite | Postgres

record 'z sql_engine =
  sq_execute :: "string \<Rightarrow> 'z \<Rightarrow> string option \<times> 'z"
  sq_commit :: "'z \<Rightarrow> 'z"
  sq_close :: "'z \<Rightarrow> 'z"

type_synonym migration = "string \<times> string"

text \<open>Leaving \<open>get_connection\<close>: SQLite keeps its thread-local connection, Postgres closes.\<close>

definition leave_connection :: "db_backend \<Rightarrow> 'z sql_engine \<Rightarrow> 'z \<Rightarrow> 'z" where
  "leave_connection b q z = (case b of Sqlite \<Rightarrow> z | Postgres \<Rightarrow> sq_close q z)"

definition tolerated :: "string \<Rightarrow> bool" where
  "tolerated msg = (contains ''already exists'' (lower_str msg) \<or> contains ''duplicate'' (lower_str msg))"

fun run_statements :: "'z sql_engine \<Rightarrow> string list \<Rightarrow> 'z \<Rightarrow> (string + unit) \<times> 'z" where
  "run_statements q [] z = (Inr (), z)"
| "run_statements q (stmt # rest) z =
     (if strip stmt = [] then run_statements q rest z
      else case sq_execute q stmt z of
        (None, z') \<Rightarrow> run_statements q rest z'
      | (Some msg, z') \<Rightarrow> if tolerated msg then run_statements q rest z' else (Inl msg, z'))"

fun run_scripts :: "'z sql_engine \<Rightarrow> string list \<Rightarrow> 'z \<Rightarrow> (string + unit) \<times> 'z" where
  "run_scripts q [] z = (Inr (), z)"
| "run_scripts q (script # rest) z =
     (case run_statements q (split_statements script) z of
        (Inl msg, z') \<Rightarrow> (Inl msg, z')
      | (Inr _, z') \<Rightarrow> run_scripts q rest z')"

definition migration_scripts :: "migration list \<Rightarrow> string list" where
  "migration_scripts dir = map snd (sort_key fst (filter (\<lambda>f. suffix ''.sql'' (fst f)) dir))"

text \<open>\<open>None\<close> is a directory that does not exist.\<close>

definition apply_migrations :: "db_backend \<Rightarrow> 'z sql_engine \<Rightarrow> migration list option \<Rightarrow> 'z \<Rightarrow> (string + unit) \<times> 'z" where
  "apply_migrations b q migrations_dir z =
     (case migrations_dir of
        None \<Rightarrow> (Inr (), z)
      | Some dir \<Rightarrow>
          (case run_scripts q (migration_scripts dir) z of
             (Inl msg, z') \<Rightarrow> (Inl msg, leave_connection b q z')
           | (Inr _, z') \<Rightarrow> (Inr (), leave_connection b q (sq_commit q z'))))"

section \<open>What the splitter keeps\<close>

lemma join_str_append:
  "join_str sep (xs @ ys) = (if xs = [] then join_str sep ys else if ys = [] then join_str sep xs else join_str sep xs @ sep @ join_str sep ys)"
proof (induction xs)
  case (Cons x xs)
  then show ?case by (cases xs; cases ys) (simp_all add: join_str_Cons)
qed simp

text \<open>The state of the loop after some lines: groups of lines that are closed, and the open one.\<close>

definition split_inv :: "string list \<Rightarrow> split_state \<Rightarrow> bool" where
  "split_inv ls st \<longleftrightarrow>
     (\<exists>groups. sp_out st = map join_lines groups \<and> concat groups @ sp_buf st = filter (Not \<circ> comment_line) ls
        \<and> (\<forall>g\<in>set groups. g \<noteq> [] \<and> suffix '';'' (strip (last g))))"

lemma split_inv_start: "split_inv [] split_start"
  by (simp add: split_inv_def split_start_def)

lemma split_inv_step:
  assumes "split_inv ls st"
  shows "split_inv (ls @ [line]) (split_step line st)"
proof -
  obtain groups where g: "sp_out st = map join_lines groups" "concat groups @ sp_buf st = filter (Not \<circ> comment_line) ls"
    "\<forall>g\<in>set groups. g \<noteq> [] \<and> suffix '';'' (strip (last g))"
    using assms by (auto simp: split_inv_def)
  show ?thesis
  proof (cases "comment_line line \<or> \<not> (\<not> (if contains ''$$'' line then \<not> sp_in_dollar st else sp_in_dollar st) \<and> suffix '';'' (strip line))")
    case True
    then show ?thesis using g unfolding split_inv_def split_step_def by (intro exI [of _ groups]) (auto simp: Let_def)
  next
    case False
    then show ?thesis using g unfolding split_inv_def split_step_def
      by (intro exI [of _ "groups @ [sp_buf st @ [line]]"]) (auto simp: Let_def)
  qed
qed

lemma split_inv_fold: "split_inv ls st \<Longrightarrow> split_inv (ls @ ms) (fold split_step ms st)"
proof (induction ms arbitrary: ls st)
  case (Cons m ms)
  from Cons.IH [OF split_inv_step [OF Cons.prems]] show ?case by simp
qed simp

lemma split_groups:
  obtains groups rest where "split_statements script = map join_lines (groups @ (if rest \<noteq> [] then [rest] else []))"
    "concat groups @ rest = filter (Not \<circ> comment_line) (splitlines script)"
    "\<forall>g\<in>set groups. g \<noteq> [] \<and> suffix '';'' (strip (last g))"
proof -
  let ?st = "fold split_step (splitlines script) split_start"
  have "split_inv (splitlines script) ?st" using split_inv_fold [OF split_inv_start] by simp
  then obtain groups where g: "sp_out ?st = map join_lines groups"
    "concat groups @ sp_buf ?st = filter (Not \<circ> comment_line) (splitlines script)"
    "\<forall>g\<in>set groups. g \<noteq> [] \<and> suffix '';'' (strip (last g))"
    by (auto simp: split_inv_def)
  show thesis
    by (rule that [of groups "sp_buf ?st"]) (use g in \<open>simp_all add: split_statements_def Let_def\<close>)
qed

lemma join_lines_concat: "\<forall>g\<in>set gs. g \<noteq> [] \<Longrightarrow> join_lines (map join_lines gs) = join_lines (concat gs)"
proof (induction gs)
  case (Cons g gs)
  then show ?case by (cases gs) (auto simp: join_lines_def join_str_Cons join_str_append)
qed simp

text \<open>No line is lost, repeated or moved: the statements are the script without its comment lines.\<close>

lemma split_statements_complete:
  "join_lines (split_statements script) = join_lines (filter (Not \<circ> comment_line) (splitlines script))"
proof -
  obtain groups rest where g: "split_statements script = map join_lines (groups @ (if rest \<noteq> [] then [rest] else []))"
    "concat groups @ rest = filter (Not \<circ> comment_line) (splitlines script)"
    "\<forall>g\<in>set groups. g \<noteq> [] \<and> suffix '';'' (strip (last g))"
    by (rule split_groups)
  have "join_lines (split_statements script) = join_lines (concat (groups @ (if rest \<noteq> [] then [rest] else [])))"
    unfolding g(1) using g(3) by (intro join_lines_concat) auto
  then show ?thesis using g(2) by (auto split: if_splits)
qed

section \<open>Running again\<close>

text \<open>
  A statement is settled in a database when executing it there changes nothing and is not an error the runner
  reports.  The discipline the migrations follow (\<open>IF NOT EXISTS\<close>, and \<open>ADD COLUMN\<close> with its duplicate
  error): what was executed without error or with a tolerated one is settled, and none of the statements undoes another.
\<close>

definition settled :: "'z sql_engine \<Rightarrow> 'z \<Rightarrow> string \<Rightarrow> bool" where
  "settled q z stmt =
     (case sq_execute q stmt z of (None, z') \<Rightarrow> z' = z | (Some msg, z') \<Rightarrow> z' = z \<and> tolerated msg)"

definition executing_settles :: "'z sql_engine \<Rightarrow> string set \<Rightarrow> bool" where
  "executing_settles q stmts \<longleftrightarrow>
     (\<forall>stmt\<in>stmts. \<forall>z. case sq_execute q stmt z of
        (None, z') \<Rightarrow> settled q z' stmt | (Some msg, z') \<Rightarrow> tolerated msg \<longrightarrow> z' = z)"

definition settled_stays :: "'z sql_engine \<Rightarrow> string set \<Rightarrow> bool" where
  "settled_stays q stmts \<longleftrightarrow>
     (\<forall>stmt\<in>stmts. \<forall>other\<in>stmts. \<forall>z. settled q z stmt \<longrightarrow> settled q (snd (sq_execute q other z)) stmt)"

definition all_statements :: "string list \<Rightarrow> string list" where
  "all_statements scripts = concat (map split_statements scripts)"

lemma run_statements_append:
  "run_statements q (xs @ ys) z =
     (case run_statements q xs z of (Inl msg, z') \<Rightarrow> (Inl msg, z') | (Inr _, z') \<Rightarrow> run_statements q ys z')"
  by (induction xs arbitrary: z) (auto split: prod.split option.split)

lemma run_scripts_eq: "run_scripts q scripts z = run_statements q (all_statements scripts) z"
  by (induction scripts arbitrary: z) (simp_all add: all_statements_def run_statements_append split: prod.split sum.split)

lemma run_settled:
  "(\<And>stmt. stmt \<in> set stmts \<Longrightarrow> strip stmt \<noteq> [] \<Longrightarrow> settled q z stmt) \<Longrightarrow> run_statements q stmts z = (Inr (), z)"
proof (induction stmts)
  case (Cons stmt rest)
  then have "run_statements q rest z = (Inr (), z)" by simp
  moreover have "strip stmt = [] \<or> settled q z stmt" using Cons.prems by auto
  ultimately show ?case by (auto simp: settled_def split: prod.splits option.splits)
qed simp

lemma run_settles:
  assumes "executing_settles q S" "settled_stays q S" "set stmts \<subseteq> S"
    and "run_statements q stmts z = (Inr (), z')" "seen \<subseteq> S" "\<And>stmt. stmt \<in> seen \<Longrightarrow> settled q z stmt"
  shows "(stmt \<in> set stmts \<and> strip stmt \<noteq> []) \<or> stmt \<in> seen \<Longrightarrow> settled q z' stmt"
  using assms(3-6)
proof (induction stmts arbitrary: z seen)
  case (Cons s rest)
  show ?case
  proof (cases "strip s = []")
    case True
    then show ?thesis using Cons.IH [where z = z and seen = seen] Cons.prems by auto
  next
    case False
    obtain r z1 where r: "sq_execute q s z = (r, z1)" by force
    have s: "s \<in> S" using Cons.prems(2) by simp
    have now: "settled q z1 s"
    proof (cases r)
      case None
      then show ?thesis using assms(1) s r by (auto simp: executing_settles_def split: prod.splits option.splits)
    next
      case (Some msg)
      then have "tolerated msg" using Cons.prems(3) False r by (simp split: if_splits)
      moreover from this have "z1 = z" using assms(1) s r Some by (fastforce simp: executing_settles_def split: prod.splits)
      ultimately show ?thesis using r Some by (simp add: settled_def)
    qed
    have "settled q z1 t" if "t \<in> insert s seen" for t
      using that now Cons.prems(4,5) assms(2) s r unfolding settled_stays_def by (metis insertE snd_conv subsetD)
    moreover have "run_statements q rest z1 = (Inr (), z')"
      using Cons.prems(3) False r by (simp split: option.splits if_splits)
    ultimately show ?thesis using Cons.IH [where z = z1 and seen = "insert s seen"] Cons.prems(1,2,4) s by auto
  qed
qed simp

section \<open>Properties\<close>

text \<open>
  A warm start: once the migrations went through on SQLite, applying them again, as every start of a
  process does, succeeds and leaves the database as it is.
\<close>

lemma migrations_rerun:
  assumes "executing_settles q (set (all_statements (migration_scripts dir)))"
    and "settled_stays q (set (all_statements (migration_scripts dir)))" and "\<And>z. sq_commit q z = z"
    and "apply_migrations Sqlite q (Some dir) z = (Inr (), z')"
  shows "apply_migrations Sqlite q (Some dir) z' = (Inr (), z')"
proof -
  let ?all = "all_statements (migration_scripts dir)"
  have run: "run_statements q ?all z = (Inr (), z')"
    using assms(3,4) by (auto simp: apply_migrations_def leave_connection_def run_scripts_eq split: prod.splits sum.splits)
  have "settled q z' stmt" if "stmt \<in> set ?all" "strip stmt \<noteq> []" for stmt
    using run_settles [OF assms(1,2) subset_refl run, of "{}" stmt] that by simp
  then show ?thesis
    using assms(3) by (simp add: apply_migrations_def leave_connection_def run_scripts_eq run_settled)
qed

section \<open>Witness\<close>

text \<open>The last migration of the repository, and an engine that has a column or has it not.\<close>

definition migration_004 :: migration where
  "migration_004 =
     (''004_review_escalation.sql'',
      ''-- swallows -- so this stays idempotent.'' @ [CHR 0x0A, CHR 0x0A]
      @ ''ALTER TABLE fraud_review_queue ADD COLUMN escalated_at REAL;'' @ [CHR 0x0A])"

definition column_engine :: "bool sql_engine" where
  "column_engine =
     \<lparr>sq_execute = (\<lambda>stmt z. if z then (Some ''duplicate column name: escalated_at'', z) else (None, True)),
      sq_commit = (\<lambda>z. z), sq_close = (\<lambda>z. z)\<rparr>"

lemma migration_004_statements:
  "all_statements (migration_scripts [migration_004])
     = [CHR 0x0A # ''ALTER TABLE fraud_review_queue ADD COLUMN escalated_at REAL;'']"
  by code_simp

lemma duplicate_tolerated: "tolerated ''duplicate column name: escalated_at''"
  by code_simp

lemma migrations_rerun_witness:
  "apply_migrations Sqlite column_engine (Some [migration_004]) False = (Inr (), True)
     \<and> apply_migrations Sqlite column_engine (Some [migration_004]) True = (Inr (), True)"
proof -
  have "strip (CHR 0x0A # ''ALTER TABLE fraud_review_queue ADD COLUMN escalated_at REAL;'') \<noteq> []" by code_simp
  then have first: "apply_migrations Sqlite column_engine (Some [migration_004]) False = (Inr (), True)"
    by (simp add: apply_migrations_def leave_connection_def run_scripts_eq migration_004_statements column_engine_def)
  have "executing_settles column_engine S" "settled_stays column_engine S" "sq_commit column_engine z = z" for S z
    by (auto simp: executing_settles_def settled_stays_def settled_def column_engine_def duplicate_tolerated)
  from migrations_rerun [OF this first] first show ?thesis by simp
qed

end
