(* ===== verification/Ledger_Schema.thy ===== *)
theory Ledger_Schema
  imports Migrations
begin

text \<open>
  How the ledger makes its own table: the schema text and \<open>_ensure_schema\<close> of \<open>audit/ledger.py\<close>, over the SQL engine
  of \<open>Migrations\<close>.  The lemmas show that the naive split at semicolons finds the four statements, that an engine
  which knows no partial index still gets an index, and that the work is done once.
\<close>

definition SCHEMA_SQL :: string where
  "SCHEMA_SQL = join_lines
     [[],
      ''CREATE TABLE IF NOT EXISTS audit_events ('',
      ''    event_id      TEXT PRIMARY KEY,'',
      ''    event_type    TEXT NOT NULL,'',
      ''    tenant_id     TEXT NOT NULL,'',
      ''    user_id       TEXT NOT NULL,'',
      ''    payload_json  TEXT NOT NULL,'',
      ''    ts            REAL NOT NULL,'',
      ''    seq           INTEGER NOT NULL,'',
      ''    prev_hash     TEXT NOT NULL,'',
      ''    payload_hash  TEXT NOT NULL,'',
      ''    row_hash      TEXT NOT NULL,'',
      ''    anchored_in   TEXT REFERENCES anchors(batch_id) ON DELETE SET NULL'',
      '');'',
      ''CREATE INDEX IF NOT EXISTS idx_audit_tenant_seq ON audit_events(tenant_id, seq);'',
      ''CREATE INDEX IF NOT EXISTS idx_audit_type       ON audit_events(event_type, ts);'',
      ''CREATE INDEX IF NOT EXISTS idx_audit_unanchored ON audit_events(tenant_id, anchored_in)'',
      ''    WHERE anchored_in IS NULL;'',
      []]"

definition SQLITE_FALLBACK :: string where
  "SQLITE_FALLBACK = join_lines
     [[], ''CREATE INDEX IF NOT EXISTS idx_audit_unanchored ON audit_events(tenant_id, anchored_in);'', []]"

definition partial_failed :: "string \<Rightarrow> string \<Rightarrow> bool" where
  "partial_failed stmt msg \<longleftrightarrow> contains ''partial index'' (lower_str msg) \<or> contains ''WHERE'' (upper_str stmt)"

fun schema_statements :: "'z sql_engine \<Rightarrow> string list \<Rightarrow> 'z \<Rightarrow> (string + unit) \<times> 'z" where
  "schema_statements q [] z = (Inr (), z)"
| "schema_statements q (raw_stmt # rest) z =
     (let stmt = strip raw_stmt
      in if stmt = [] then schema_statements q rest z
         else case sq_execute q stmt z of
           (None, z) \<Rightarrow> schema_statements q rest z
         | (Some msg, z) \<Rightarrow>
             if partial_failed stmt msg
             then (case sq_execute q SQLITE_FALLBACK z of
                     (None, z) \<Rightarrow> schema_statements q rest z
                   | (Some msg', z) \<Rightarrow> (Inl msg', z))
             else (Inl msg, z))"

text \<open>The state of the ledger object is its flag.\<close>

definition ensure_schema :: "db_backend \<Rightarrow> 'z sql_engine \<Rightarrow> bool \<times> 'z \<Rightarrow> (string + unit) \<times> bool \<times> 'z" where
  "ensure_schema b q st =
     (let (initialised, z) = st
      in if initialised then (Inr (), st)
         else case schema_statements q (split_on CHR '';'' (strip SCHEMA_SQL)) z of
           (Inl msg, z) \<Rightarrow> (Inl msg, False, leave_connection b q z)
         | (Inr _, z) \<Rightarrow> (Inr (), True, leave_connection b q (sq_commit q z)))"

lemma schema_has_four_statements:
  "length (filter (\<lambda>s. s \<noteq> []) (map strip (split_on CHR '';'' (strip SCHEMA_SQL)))) = 4"
  by code_simp

lemma fallback_is_plain: "\<not> contains ''WHERE'' (upper_str SQLITE_FALLBACK)"
  by code_simp

text \<open>An engine that raises on statements with a WHERE only.\<close>

lemma plain_statements_succeed:
  "(\<And>s z. \<not> contains ''WHERE'' (upper_str s) \<Longrightarrow> fst (sq_execute q s z) = None) \<Longrightarrow> fst (schema_statements q stmts z) = Inr ()"
proof (induction stmts arbitrary: z)
  case (Cons s rest)
  obtain out z' where e: "sq_execute q (strip s) z = (out, z')" by force
  obtain out2 z2 where f: "sq_execute q SQLITE_FALLBACK z' = (out2, z2)" by force
  have "out2 = None" using Cons.prems [OF fallback_is_plain, of z'] f by simp
  moreover have "out \<noteq> None \<Longrightarrow> contains ''WHERE'' (upper_str (strip s))" using Cons.prems [of "strip s" z] e by auto
  ultimately show ?case using Cons.IH [OF Cons.prems] e f by (auto simp: partial_failed_def Let_def split: option.split)
qed simp

lemma schema_on_old_engine:
  "(\<And>s z. \<not> contains ''WHERE'' (upper_str s) \<Longrightarrow> fst (sq_execute q s z) = None) \<Longrightarrow> fst (ensure_schema b q (False, z)) = Inr ()"
  using plain_statements_succeed [of q "split_on CHR '';'' (strip SCHEMA_SQL)" z]
  by (cases "schema_statements q (split_on CHR '';'' (strip SCHEMA_SQL)) z") (auto simp: ensure_schema_def split: sum.split)

text \<open>After a success nothing is executed again; after a failure the next use tries again.\<close>

lemma ensure_schema_once:
  "ensure_schema b q st = (Inr (), st') \<Longrightarrow> ensure_schema b q st' = (Inr (), st')"
  by (auto simp: ensure_schema_def Let_def split: if_splits prod.splits sum.splits)

lemma ensure_schema_retries:
  "ensure_schema b q st = (Inl msg, st') \<Longrightarrow> fst st' = False"
  by (auto simp: ensure_schema_def Let_def split: if_splits prod.splits sum.splits)

end
