(* ===== verification/Sbom.thy ===== *)
theory Sbom
  imports Offline Migrations
begin

text \<open>
  The generator of the frontend's bill of materials, \<open>scripts/_sbom_frontend_fallback.py\<close>: the line-level
  reader of \<open>bun.lock\<close>, the declared dependencies of \<open>package.json\<close>, and the CycloneDX document.

  The texts of the two files, the UUID and the time stamp are arguments, and so is what an f-string makes of a
  JSON value that is no text.

  The lemmas show that no two components share a \<open>bom-ref\<close>, that every declared dependency and every
  entry of the lock file is listed, and that the \<open>bom-ref\<close> of a scoped package is not its purl.
\<close>

section \<open>Package URLs\<close>

definition purl :: "string \<Rightarrow> string \<Rightarrow> string" where
  "purl name version =
     (if prefix ''@'' name
      then let rest = drop 1 name;
               scope = takeWhile (\<lambda>c. c \<noteq> CHR ''/'') rest;
               pkg = drop (Suc (length scope)) rest
           in ''pkg:npm/%40'' @ scope @ ''/'' @ pkg @ ''@'' @ version
      else ''pkg:npm/'' @ name @ ''@'' @ version)"

section \<open>The lock file\<close>

text \<open>
  \<open>"([^"]+)@([^"]+)":\<close> at the head of a text.  Between the first quote and the next one lies the whole of
  both groups; the first group is greedy, so the last possible \<open>@\<close> divides them.
\<close>

definition lock_at :: "string \<Rightarrow> (string \<times> string) option" where
  "lock_at s =
     (case s of
        [] \<Rightarrow> None
      | c # rest \<Rightarrow>
          if c \<noteq> CHR 0x22 then None
          else
            let t = takeWhile (\<lambda>c. c \<noteq> CHR 0x22) rest
            in if \<not> prefix [CHR 0x22, CHR '':''] (drop (length t) rest) then None
               else map_option (\<lambda>i. (take i t, drop (Suc i) t))
                      (find (\<lambda>i. t ! i = CHR ''@'') (rev [1..<length t - 1])))"

fun lock_search :: "string \<Rightarrow> (string \<times> string) option" where
  "lock_search [] = None"
| "lock_search (c # cs) = (case lock_at (c # cs) of Some m \<Rightarrow> Some m | None \<Rightarrow> lock_search cs)"

definition protocol_selector :: "string \<Rightarrow> bool" where
  "protocol_selector version =
     (contains ''://'' version \<or> prefix ''file:'' version \<or> prefix ''link:'' version \<or> prefix ''workspace:'' version)"

definition lock_step :: "string \<Rightarrow> (string \<times> string) list \<Rightarrow> (string \<times> string) list" where
  "lock_step line resolved =
     (case lock_search (strip line) of
        None \<Rightarrow> resolved
      | Some (name, version) \<Rightarrow>
          if protocol_selector version then resolved
          else if map_of resolved name \<noteq> None then resolved
          else resolved @ [(name, version)])"

text \<open>\<open>None\<close> is a file that is not there or cannot be read.\<close>

definition parse_bun_lock :: "string option \<Rightarrow> (string \<times> string) list" where
  "parse_bun_lock lockfile =
     (case lockfile of None \<Rightarrow> [] | Some text_of_file \<Rightarrow> fold lock_step (splitlines text_of_file) [])"

section \<open>The declared dependencies\<close>

record declared =
  de_name :: string
  de_spec :: json
  de_scope :: string

text \<open>\<open>(x or {}).items()\<close>.\<close>

definition items_of :: "(string \<Rightarrow> bool) \<Rightarrow> json \<Rightarrow> (string \<times> json) list res" where
  "items_of float_zero value =
     (if py_falsy float_zero value then Inr []
      else case value of JObj kvs \<Rightarrow> Inr kvs | _ \<Rightarrow> Inl AttributeError)"

definition SCOPES :: "(string \<times> string) list" where
  "SCOPES = [(''dependencies'', ''required''), (''devDependencies'', ''optional''), (''peerDependencies'', ''optional'')]"

definition from_package_json :: "(string \<Rightarrow> bool) \<Rightarrow> json \<Rightarrow> declared list res" where
  "from_package_json float_zero pj =
     res_bind
       (map_res (\<lambda>(scope_key, scope_label).
          res_bind (py_get scope_key JNull pj) (\<lambda>deps.
          res_bind (items_of float_zero deps) (\<lambda>items.
            Inr (map (\<lambda>(name, spec). \<lparr>de_name = name, de_spec = spec, de_scope = scope_label\<rparr>) items)))) SCOPES)
       (\<lambda>css. Inr (concat css))"

section \<open>The document\<close>

record component =
  cp_ref :: string
  cp_name :: string
  cp_version :: string
  cp_purl :: string
  cp_scope :: string

definition clean_version :: "string \<Rightarrow> string" where
  "clean_version version = dropWhile (\<lambda>c. c \<in> set ''^~><='') version"

definition bom_ref :: "string \<Rightarrow> string \<Rightarrow> string" where
  "bom_ref name version = ''pkg:npm/'' @ name @ ''@'' @ version"

definition library_component :: "string \<Rightarrow> string \<Rightarrow> string \<Rightarrow> component" where
  "library_component name version scope =
     \<lparr>cp_ref = bom_ref name version, cp_name = name, cp_version = version, cp_purl = purl name version, cp_scope = scope\<rparr>"

text \<open>\<open>seen\<close> is the set of the references listed so far.\<close>

definition list_once :: "component \<Rightarrow> component list \<Rightarrow> component list" where
  "list_once c cs = (if cp_ref c \<in> cp_ref ` set cs then cs else cs @ [c])"

definition declared_version :: "(string \<times> string) list \<Rightarrow> declared \<Rightarrow> string res" where
  "declared_version resolved d =
     res_bind
       (case map_of resolved (de_name d) of
          Some v \<Rightarrow> if v = [] then Inr (de_spec d) else Inr (JStr v)
        | None \<Rightarrow> Inr (de_spec d))
       (\<lambda>v. case v of JStr version \<Rightarrow> Inr (clean_version version) | _ \<Rightarrow> Inl TypeError)"

fun add_declared :: "(string \<times> string) list \<Rightarrow> declared list \<Rightarrow> component list \<Rightarrow> component list res" where
  "add_declared resolved [] cs = Inr cs"
| "add_declared resolved (d # ds) cs =
     res_bind (declared_version resolved d) (\<lambda>version.
       add_declared resolved ds (list_once (library_component (de_name d) version (de_scope d)) cs))"

fun add_locked :: "string set \<Rightarrow> (string \<times> string) list \<Rightarrow> component list \<Rightarrow> component list" where
  "add_locked declared_names [] cs = cs"
| "add_locked declared_names ((name, version) # rest) cs =
     (if name \<in> declared_names then add_locked declared_names rest cs
      else add_locked declared_names rest (list_once (library_component name (clean_version version) ''required'') cs))"

definition bom_components :: "(string \<Rightarrow> bool) \<Rightarrow> json \<Rightarrow> string option \<Rightarrow> component list res" where
  "bom_components float_zero pj lockfile =
     (let resolved = parse_bun_lock lockfile
      in res_bind (from_package_json float_zero pj) (\<lambda>ds.
         res_bind (add_declared resolved ds []) (\<lambda>cs.
           Inr (add_locked (de_name ` set ds) resolved cs))))"

definition component_json :: "component \<Rightarrow> json" where
  "component_json c =
     JObj [(''type'', JStr ''library''), (''bom-ref'', JStr (cp_ref c)), (''name'', JStr (cp_name c)),
           (''version'', JStr (cp_version c)), (''purl'', JStr (cp_purl c)), (''scope'', JStr (cp_scope c))]"

definition format_json :: "(json \<Rightarrow> string) \<Rightarrow> json \<Rightarrow> string" where
  "format_json str_of value = (case value of JStr s \<Rightarrow> s | _ \<Rightarrow> str_of value)"

definition build_bom ::
  "(string \<Rightarrow> bool) \<Rightarrow> (json \<Rightarrow> string) \<Rightarrow> string \<Rightarrow> string \<Rightarrow> string \<Rightarrow> string option \<Rightarrow> json res" where
  "build_bom float_zero str_of uuid timestamp package_json lockfile =
     res_bind (json_loads package_json) (\<lambda>pj.
     res_bind (bom_components float_zero pj lockfile) (\<lambda>components.
     res_bind (py_get ''name'' (JStr ''landguard-frontend'') pj) (\<lambda>name.
     res_bind (py_get ''version'' (JStr ''0.1.0'') pj) (\<lambda>version.
       Inr (JObj
         [(''bomFormat'', JStr ''CycloneDX''), (''specVersion'', JStr ''1.5''),
          (''serialNumber'', JStr (''urn:uuid:'' @ uuid)), (''version'', JInt 1),
          (''metadata'', JObj
             [(''timestamp'', JStr timestamp),
              (''tools'', JList [JObj [(''vendor'', JStr ''LandGuard Uganda''), (''name'', JStr ''sbom-frontend-fallback''),
                                       (''version'', JStr ''1.0.0'')]]),
              (''component'', JObj
                 [(''type'', JStr ''application''),
                  (''bom-ref'', JStr (bom_ref (format_json str_of name) (format_json str_of version))),
                  (''name'', name), (''version'', version)])]),
          (''components'', JList (map component_json components))])))))"

definition sbom_text ::
  "(string \<Rightarrow> bool) \<Rightarrow> (json \<Rightarrow> string) \<Rightarrow> string \<Rightarrow> string \<Rightarrow> string \<Rightarrow> string option \<Rightarrow> string res" where
  "sbom_text float_zero str_of uuid timestamp package_json lockfile =
     res_bind (build_bom float_zero str_of uuid timestamp package_json lockfile) (\<lambda>bom.
       Inr (dumps_indent 2 0 bom @ [NEWLINE]))"

section \<open>What is listed\<close>

lemma list_once_keeps: "distinct (map cp_ref cs) \<Longrightarrow> distinct (map cp_ref (list_once c cs))"
  by (auto simp: list_once_def)

lemma list_once_refs: "cp_ref ` set (list_once c cs) = insert (cp_ref c) (cp_ref ` set cs)"
  by (auto simp: list_once_def)

lemma add_declared_refs:
  assumes "add_declared resolved ds cs = Inr cs'" "distinct (map cp_ref cs)"
  shows "distinct (map cp_ref cs')"
    and "cp_ref ` set cs' = cp_ref ` set cs \<union> {bom_ref (de_name d) v |d v. d \<in> set ds \<and> declared_version resolved d = Inr v}"
proof -
  have "distinct (map cp_ref cs') \<and> cp_ref ` set cs' = cp_ref ` set cs
      \<union> {bom_ref (de_name d) v |d v. d \<in> set ds \<and> declared_version resolved d = Inr v}"
    using assms
  proof (induction ds arbitrary: cs)
    case (Cons d ds)
    then obtain v where v: "declared_version resolved d = Inr v"
      "add_declared resolved ds (list_once (library_component (de_name d) v (de_scope d)) cs) = Inr cs'"
      by (auto simp: res_simps)
    from Cons.IH [OF v(2) list_once_keeps [OF Cons.prems(2)]] v(1) show ?case
      by (auto simp: list_once_refs library_component_def)
  qed simp
  then show "distinct (map cp_ref cs')"
    and "cp_ref ` set cs' = cp_ref ` set cs \<union> {bom_ref (de_name d) v |d v. d \<in> set ds \<and> declared_version resolved d = Inr v}"
    by simp_all
qed

lemma add_declared_total: "add_declared resolved ds cs = Inr cs' \<Longrightarrow> d \<in> set ds \<Longrightarrow> \<exists>v. declared_version resolved d = Inr v"
  by (induction ds arbitrary: cs) (auto simp: res_simps)

lemma add_locked_refs:
  "distinct (map cp_ref cs) \<Longrightarrow> distinct (map cp_ref (add_locked N locked cs))
   \<and> cp_ref ` set (add_locked N locked cs) = cp_ref ` set cs
       \<union> {bom_ref n (clean_version v) |n v. (n, v) \<in> set locked \<and> n \<notin> N}"
proof (induction N locked cs rule: add_locked.induct)
  case (2 N name version rest cs)
  show ?case
  proof (cases "name \<in> N")
    case True
    then show ?thesis using 2 by auto
  next
    case False
    from 2(2) [OF False list_once_keeps [OF 2(3)]] False show ?thesis
      by (auto simp: list_once_refs library_component_def)
  qed
qed simp

text \<open>The references of the document, each once: the declared dependencies and the rest of the lock file.\<close>

lemma bom_components_exact:
  assumes "bom_components float_zero pj lockfile = Inr cs"
  obtains ds where "from_package_json float_zero pj = Inr ds" "distinct (map cp_ref cs)"
    "cp_ref ` set cs = {bom_ref (de_name d) v |d v. d \<in> set ds \<and> declared_version (parse_bun_lock lockfile) d = Inr v}
       \<union> {bom_ref n (clean_version v) |n v. (n, v) \<in> set (parse_bun_lock lockfile) \<and> n \<notin> de_name ` set ds}"
    "\<And>d. d \<in> set ds \<Longrightarrow> \<exists>v. declared_version (parse_bun_lock lockfile) d = Inr v"
proof -
  let ?r = "parse_bun_lock lockfile"
  obtain ds cs1 where d: "from_package_json float_zero pj = Inr ds" "add_declared ?r ds [] = Inr cs1"
    "cs = add_locked (de_name ` set ds) ?r cs1"
    using assms by (auto simp: bom_components_def Let_def res_simps)
  have one: "distinct (map cp_ref cs1)"
    "cp_ref ` set cs1 = {bom_ref (de_name d) v |d v. d \<in> set ds \<and> declared_version ?r d = Inr v}"
    using add_declared_refs [OF d(2)] by simp_all
  show thesis
    using that [OF d(1)] add_locked_refs [OF one(1), of "de_name ` set ds" ?r] add_declared_total [OF d(2)]
    unfolding d(3) one(2) by simp
qed

text \<open>The reference of a scoped package is not its purl, although the header of the script says so.\<close>

lemma scoped_ref_is_no_purl: "bom_ref (CHR ''@'' # name) version \<noteq> purl (CHR ''@'' # name) version"
  by (simp add: bom_ref_def purl_def Let_def)

lemma plain_ref_is_purl: "\<not> prefix ''@'' name \<Longrightarrow> bom_ref name version = purl name version"
  by (simp add: bom_ref_def purl_def)

lemma lock_search_sample:
  "lock_search ([CHR 0x22] @ ''@types/node@22.1.0'' @ [CHR 0x22] @ '': 1'') = Some (''@types/node'', ''22.1.0'')"
  by code_simp

end
