(* ===== verification/Live_Nira.thy ===== *)
theory Live_Nira
  imports Nira Offline
begin

text \<open>
  The live NIRA client \<open>backend/app/nira/live_client.py\<close> and the factory \<open>get_nira_client\<close> of \<open>client.py\<close>.

  The HTTP client is a parameter: a request raises, or gives a status and what \<open>resp.json()\<close> gives or
  raises.  The body is any JSON, and the dataclasses do not check their fields, so a live result holds JSON
  values.  A result whose fields have the declared types is one of \<open>Nira\<close>, with the same dictionary.
  The error that \<open>raise_for_status\<close> raises is written \<open>RuntimeError\<close>: no caller tells it from others.
\<close>

section \<open>The client\<close>

type_synonym http_response = "int \<times> json res"

record http_client =
  ht_post :: "string \<Rightarrow> json \<Rightarrow> http_response res"
  ht_post_file :: "string \<Rightarrow> string \<Rightarrow> bytes \<Rightarrow> http_response res"
  ht_get :: "string \<Rightarrow> http_response res"

record live_result =
  lr_valid :: bool
  lr_matched :: bool
  lr_demographics :: "(string \<times> json) list option"
  lr_reason :: json

definition new_live_client :: "string \<Rightarrow> unit res" where
  "new_live_client nira_base_url = (if nira_base_url = [] then Inl RuntimeError else Inr ())"

text \<open>Everything but 2xx raises; then the body is read.\<close>

definition ok_body :: "http_response res \<Rightarrow> json res" where
  "ok_body r =
     res_bind r (\<lambda>(status, body). if 200 \<le> status \<and> status < 300 then body else Inl RuntimeError)"

definition DEMOGRAPHIC_FIELDS :: "string list" where
  "DEMOGRAPHIC_FIELDS = [''full_name'', ''dob'', ''gender'', ''district_of_birth'', ''nationality'']"

text \<open>
  \<open>NIRADemographics(**demo)\<close>: a key that is no field and a missing field without a default are errors.
\<close>

definition demographics_of :: "json \<Rightarrow> (string \<times> json) list res" where
  "demographics_of demo =
     (case demo of
        JObj kvs \<Rightarrow>
          if (\<exists>k\<in>set (map fst kvs). k \<notin> set DEMOGRAPHIC_FIELDS)
             \<or> (\<exists>k\<in>set (butlast DEMOGRAPHIC_FIELDS). json_get k kvs = None) then Inl TypeError
          else Inr (map (\<lambda>k. (k, case json_get k kvs of Some j \<Rightarrow> j | None \<Rightarrow> JStr ''UG'')) DEMOGRAPHIC_FIELDS)
      | _ \<Rightarrow> Inl TypeError)"

definition live_verify_nin :: "(string \<Rightarrow> bool) \<Rightarrow> http_client \<Rightarrow> string \<Rightarrow> live_result res" where
  "live_verify_nin float_zero http nin =
     res_bind (ok_body (ht_post http ''/verify'' (JObj [(''nin'', JStr nin)]))) (\<lambda>body.
     res_bind (py_get ''demographics'' JNull body) (\<lambda>demo.
     res_bind (py_get ''nin_valid'' JNull body) (\<lambda>valid.
     res_bind (py_get ''matched'' JNull body) (\<lambda>matched.
     res_bind (if py_falsy float_zero demo then Inr None
               else res_bind (demographics_of demo) (\<lambda>d. Inr (Some d))) (\<lambda>demographics.
     res_bind (py_get ''reason'' JNull body) (\<lambda>reason.
       Inr \<lparr>lr_valid = \<not> py_falsy float_zero valid, lr_matched = \<not> py_falsy float_zero matched,
            lr_demographics = demographics, lr_reason = reason\<rparr>))))))"

definition live_fetch_demographics :: "(string \<Rightarrow> bool) \<Rightarrow> http_client \<Rightarrow> string \<Rightarrow> (string \<times> json) list option res" where
  "live_fetch_demographics float_zero http nin =
     res_bind (live_verify_nin float_zero http nin) (\<lambda>r. Inr (lr_demographics r))"

text \<open>\<open>float(x)\<close> and \<open>str(x)\<close> of a JSON value are arguments.\<close>

definition live_biometric_match ::
  "(string \<Rightarrow> bool) \<Rightarrow> (json \<Rightarrow> real res) \<Rightarrow> (json \<Rightarrow> string) \<Rightarrow> http_client \<Rightarrow> string \<Rightarrow> bytes \<Rightarrow> biometric_match res" where
  "live_biometric_match float_zero to_float to_str http nin template =
     res_bind (ok_body (ht_post_file http ''/biometric'' nin template)) (\<lambda>body.
     res_bind (py_item ''matched'' body) (\<lambda>matched.
     res_bind (res_bind (py_item ''confidence'' body) to_float) (\<lambda>confidence.
     res_bind (py_item ''template_hash'' body) (\<lambda>h.
       Inr \<lparr>bm_matched = \<not> py_falsy float_zero matched, bm_confidence = confidence, bm_template_hash = to_str h\<rparr>))))"

text \<open>\<open>exc_str\<close> is the text of an exception.\<close>

definition live_health :: "(exc \<Rightarrow> string) \<Rightarrow> http_client \<Rightarrow> json" where
  "live_health exc_str http =
     (case ht_get http ''/health'' of
        Inr (status, _) \<Rightarrow> JObj [(''provider'', JStr ''live''), (''ok'', JBool (status < 500)), (''status'', JInt status)]
      | Inl e \<Rightarrow> JObj [(''provider'', JStr ''live''), (''ok'', JBool False), (''error'', JStr (exc_str e))])"

definition live_dict :: "live_result \<Rightarrow> (string \<times> json) list" where
  "live_dict r =
     [(''nin_valid'', JBool (lr_valid r)), (''matched'', JBool (lr_matched r)),
      (''demographics'', jopt JObj (lr_demographics r)), (''reason'', lr_reason r), (''source'', JStr ''NIRA_LIVE'')]"

section \<open>A well-typed answer\<close>

definition opt_text :: "json \<Rightarrow> string option option" where
  "opt_text j = (case j of JNull \<Rightarrow> Some None | JStr s \<Rightarrow> Some (Some s) | _ \<Rightarrow> None)"

definition typed_demographics :: "(string \<times> json) list \<Rightarrow> demographics option" where
  "typed_demographics kvs =
     (case map snd kvs of
        [JStr n, JStr d, JStr g, b, JStr c] \<Rightarrow>
          map_option (\<lambda>b. \<lparr>dm_name = n, dm_dob = d, dm_gender = g, dm_district = b, dm_nationality = c\<rparr>) (opt_text b)
      | _ \<Rightarrow> None)"

definition typed_result :: "live_result \<Rightarrow> nira_result option" where
  "typed_result r =
     (case opt_text (lr_reason r) of
        None \<Rightarrow> None
      | Some reason \<Rightarrow>
          (case lr_demographics r of
             None \<Rightarrow> Some \<lparr>nr_valid = lr_valid r, nr_matched = lr_matched r, nr_demographics = None, nr_reason = reason, nr_source = ''NIRA_LIVE''\<rparr>
           | Some kvs \<Rightarrow>
               map_option (\<lambda>d. \<lparr>nr_valid = lr_valid r, nr_matched = lr_matched r, nr_demographics = Some d, nr_reason = reason, nr_source = ''NIRA_LIVE''\<rparr>)
                 (typed_demographics kvs)))"

lemma opt_text_jopt: "opt_text j = Some t \<Longrightarrow> jopt JStr t = j"
  by (auto simp: opt_text_def jopt_def split: json.splits)

lemma demographics_of_keys: "demographics_of demo = Inr kvs \<Longrightarrow> map fst kvs = DEMOGRAPHIC_FIELDS"
  by (auto simp: demographics_of_def DEMOGRAPHIC_FIELDS_def split: json.splits if_splits)

lemma typed_demographics_dict:
  assumes "typed_demographics kvs = Some d" "map fst kvs = DEMOGRAPHIC_FIELDS"
  shows "demographics_dict d = JObj kvs"
proof -
  obtain n e g b c where s: "map snd kvs = [JStr n, JStr e, JStr g, b, JStr c]" and b: "opt_text b = Some (dm_district d)"
    and d: "d = \<lparr>dm_name = n, dm_dob = e, dm_gender = g, dm_district = dm_district d, dm_nationality = c\<rparr>"
    using assms(1) by (auto simp: typed_demographics_def split: list.splits json.splits)
  have "kvs = zip (map fst kvs) (map snd kvs)" by (simp add: zip_map_fst_snd)
  then have "kvs = zip DEMOGRAPHIC_FIELDS [JStr n, JStr e, JStr g, b, JStr c]" unfolding s assms(2) .
  then show ?thesis using opt_text_jopt [OF b] by (subst d) (simp add: demographics_dict_def DEMOGRAPHIC_FIELDS_def)
qed

text \<open>
  An answer of the live service with fields of the declared types is a result of the interface the cache uses,
  and it is stored and shown as the same dictionary.
\<close>

lemma live_result_typed:
  assumes "live_verify_nin float_zero http nin = Inr r" "typed_result r = Some r'"
  shows "nira_dict r' = live_dict r \<and> nr_valid r' = lr_valid r \<and> nr_matched r' = lr_matched r"
proof (cases "lr_demographics r")
  case None
  then obtain reason where d: "opt_text (lr_reason r) = Some reason"
    "r' = \<lparr>nr_valid = lr_valid r, nr_matched = lr_matched r, nr_demographics = None, nr_reason = reason, nr_source = ''NIRA_LIVE''\<rparr>"
    using assms(2) by (auto simp: typed_result_def split: option.splits)
  from opt_text_jopt [OF d(1)] None d(2) show ?thesis by (simp add: nira_dict_def live_dict_def jopt_def)
next
  case (Some kvs)
  then have k: "map fst kvs = DEMOGRAPHIC_FIELDS"
    using assms(1) demographics_of_keys by (fastforce simp: live_verify_nin_def res_simps split: if_splits)
  obtain d reason where d: "typed_demographics kvs = Some d" "opt_text (lr_reason r) = Some reason"
    "r' = \<lparr>nr_valid = lr_valid r, nr_matched = lr_matched r, nr_demographics = Some d, nr_reason = reason, nr_source = ''NIRA_LIVE''\<rparr>"
    using assms(2) Some by (auto simp: typed_result_def split: option.splits)
  from typed_demographics_dict [OF d(1) k] opt_text_jopt [OF d(2)] Some d(3) show ?thesis
    by (simp add: nira_dict_def live_dict_def jopt_def)
qed

text \<open>No answer is a result unless the service said 2xx.\<close>

lemma live_needs_success:
  "live_verify_nin float_zero http nin = Inr r
   \<Longrightarrow> \<exists>status body. ht_post http ''/verify'' (JObj [(''nin'', JStr nin)]) = Inr (status, Inr body) \<and> 200 \<le> status \<and> status < 300"
  by (auto simp: live_verify_nin_def ok_body_def res_simps split: if_splits)

end
