(* ===== verification/Crypto.thy ===== *)
theory Crypto
  imports Auth
begin

text \<open>
  Encryption of personal data at rest, \<open>backend/app/crypto.py\<close>.  AES-GCM is a parameter; Base64 and UTF-8
  are those of Python's standard library.  A text is the list of its code points here, so that what is
  encrypted may be any text.  The nonce of \<open>os.urandom\<close> is an argument.  The cache of the key is not
  modelled: the settings do not change.

  The lemmas show that what \<open>encrypt\<close> returns, \<open>decrypt\<close> reads back.
\<close>

section \<open>Base64\<close>

definition B64_ALPHABET :: string where
  "B64_ALPHABET = ''ABCDEFGHIJKLMNOPQRSTUVWXYZabcdefghijklmnopqrstuvwxyz0123456789+/''"

definition b64_value :: "char \<Rightarrow> nat option" where
  "b64_value c = find (\<lambda>i. B64_ALPHABET ! i = c) [0..<64]"

text \<open>
  \<open>binascii.a2b_base64\<close> without the strict mode: characters outside of the alphabet are skipped, and padding
  that completes a group ends the input.  The arguments are the position in the group of four, the bits left
  over, and the padding seen since the last character of data.
\<close>

fun b64_loop :: "nat \<Rightarrow> nat \<Rightarrow> nat \<Rightarrow> string \<Rightarrow> bytes res" where
  "b64_loop quad left pads [] = (if quad = 0 then Inr [] else Inl ValueError)"
| "b64_loop quad left pads (c # cs) =
     (if c = CHR ''='' then
        (if 2 \<le> quad then (if 4 \<le> quad + Suc pads then Inr [] else b64_loop quad left (Suc pads) cs)
         else b64_loop quad left pads cs)
      else case b64_value c of
        None \<Rightarrow> b64_loop quad left pads cs
      | Some v \<Rightarrow>
          if quad = 0 then b64_loop 1 v 0 cs
          else if quad = 1 then res_bind (b64_loop 2 (v mod 16) 0 cs) (\<lambda>r. Inr (word_of_nat (left * 4 + v div 16) # r))
          else if quad = 2 then res_bind (b64_loop 3 (v mod 4) 0 cs) (\<lambda>r. Inr (word_of_nat (left * 16 + v div 4) # r))
          else res_bind (b64_loop 0 0 0 cs) (\<lambda>r. Inr (word_of_nat (left * 64 + v) # r)))"

definition b64decode :: "string \<Rightarrow> bytes res" where
  "b64decode s = (if \<exists>c\<in>set s. 128 \<le> (of_char c :: nat) then Inl ValueError else b64_loop 0 0 0 s)"

section \<open>UTF-8\<close>

definition surrogate :: "nat \<Rightarrow> bool" where
  "surrogate n \<longleftrightarrow> 0xD800 \<le> n \<and> n \<le> 0xDFFF"

definition encode_point :: "nat \<Rightarrow> nat list" where
  "encode_point n =
     (if n < 0x80 then [n]
      else if n < 0x800 then [0xC0 + n div 64, 0x80 + n mod 64]
      else if n < 0x10000 then [0xE0 + n div 4096, 0x80 + n div 64 mod 64, 0x80 + n mod 64]
      else [0xF0 + n div 262144, 0x80 + n div 4096 mod 64, 0x80 + n div 64 mod 64, 0x80 + n mod 64])"

definition utf8_encode :: "nat list \<Rightarrow> bytes res" where
  "utf8_encode s =
     (if \<exists>n\<in>set s. surrogate n then Inl ValueError
      else Inr (map word_of_nat (concat (map encode_point s))))"

definition cont :: "nat \<Rightarrow> bool" where
  "cont b \<longleftrightarrow> 0x80 \<le> b \<and> b < 0xC0"

text \<open>Strict decoding: overlong forms, surrogates and values above U+10FFFF are errors.\<close>

fun decode_points :: "nat list \<Rightarrow> nat list option" where
  "decode_points [] = Some []"
| "decode_points (b # bs) =
     (if b < 0x80 then map_option ((#) b) (decode_points bs)
      else if 0xC2 \<le> b \<and> b < 0xE0 then
        (case bs of
           c # rest \<Rightarrow> if cont c then map_option ((#) ((b - 0xC0) * 64 + (c - 0x80))) (decode_points rest) else None
         | _ \<Rightarrow> None)
      else if 0xE0 \<le> b \<and> b < 0xF0 then
        (case bs of
           c # d # rest \<Rightarrow>
             let n = (b - 0xE0) * 4096 + (c - 0x80) * 64 + (d - 0x80)
             in if cont c \<and> cont d \<and> 0x800 \<le> n \<and> \<not> surrogate n then map_option ((#) n) (decode_points rest) else None
         | _ \<Rightarrow> None)
      else if 0xF0 \<le> b \<and> b < 0xF5 then
        (case bs of
           c # d # e # rest \<Rightarrow>
             let n = (b - 0xF0) * 262144 + (c - 0x80) * 4096 + (d - 0x80) * 64 + (e - 0x80)
             in if cont c \<and> cont d \<and> cont e \<and> 0x10000 \<le> n \<and> n < 0x110000 then map_option ((#) n) (decode_points rest) else None
         | _ \<Rightarrow> None)
      else None)"

definition utf8_decode :: "bytes \<Rightarrow> nat list res" where
  "utf8_decode bs = (case decode_points (map unat bs) of Some s \<Rightarrow> Inr s | None \<Rightarrow> Inl ValueError)"

section \<open>crypto.py\<close>

record aes_gcm =
  gcm_encrypt :: "bytes \<Rightarrow> bytes \<Rightarrow> bytes \<Rightarrow> bytes option \<Rightarrow> bytes"
  gcm_decrypt :: "bytes \<Rightarrow> bytes \<Rightarrow> bytes \<Rightarrow> bytes option \<Rightarrow> bytes res"

definition get_key :: "settings \<Rightarrow> bytes res" where
  "get_key st =
     res_bind (b64decode (pii_encryption_key st)) (\<lambda>key.
       if length key < 32 then Inl RuntimeError else Inr (take 32 key))"

definition encrypt :: "aes_gcm \<Rightarrow> settings \<Rightarrow> bytes \<Rightarrow> nat list \<Rightarrow> bytes option \<Rightarrow> bytes res" where
  "encrypt aes st nonce plaintext associated_data =
     res_bind (get_key st) (\<lambda>key.
     res_bind (utf8_encode plaintext) (\<lambda>data.
       Inr (nonce @ gcm_encrypt aes key nonce data associated_data)))"

definition decrypt :: "aes_gcm \<Rightarrow> settings \<Rightarrow> bytes \<Rightarrow> bytes option \<Rightarrow> nat list res" where
  "decrypt aes st blob associated_data =
     (if length blob < 13 then Inl ValueError
      else
        res_bind (get_key st) (\<lambda>key.
        res_bind (gcm_decrypt aes key (take 12 blob) (drop 12 blob) associated_data) utf8_decode))"

section \<open>Lemmas\<close>

lemma decode_two:
  "2 \<le> q \<Longrightarrow> q < 32 \<Longrightarrow> r < 64 \<Longrightarrow>
   decode_points ((0xC0 + q) # (0x80 + r) # rest) = map_option ((#) (q * 64 + r)) (decode_points rest)"
  by (simp add: cont_def)

lemma decode_three:
  "p < 16 \<Longrightarrow> q < 64 \<Longrightarrow> r < 64 \<Longrightarrow> 0x800 \<le> p * 4096 + q * 64 + r \<Longrightarrow> \<not> surrogate (p * 4096 + q * 64 + r) \<Longrightarrow>
   decode_points ((0xE0 + p) # (0x80 + q) # (0x80 + r) # rest) = map_option ((#) (p * 4096 + q * 64 + r)) (decode_points rest)"
  by (simp add: cont_def)

lemma decode_four:
  "m < 5 \<Longrightarrow> p < 64 \<Longrightarrow> q < 64 \<Longrightarrow> r < 64 \<Longrightarrow> 0x10000 \<le> m * 262144 + p * 4096 + q * 64 + r
   \<Longrightarrow> m * 262144 + p * 4096 + q * 64 + r < 0x110000 \<Longrightarrow>
   decode_points ((0xF0 + m) # (0x80 + p) # (0x80 + q) # (0x80 + r) # rest)
     = map_option ((#) (m * 262144 + p * 4096 + q * 64 + r)) (decode_points rest)"
  by (simp add: cont_def)

lemma decode_encode_point:
  assumes "n < 0x110000" "\<not> surrogate n"
  shows "decode_points (encode_point n @ rest) = map_option ((#) n) (decode_points rest)"
proof -
  have two: "n div 64 * 64 + n mod 64 = n" by simp
  have "n div 4096 * 4096 + n div 64 mod 64 * 64 + n mod 64 = (n div 64 div 64 * 64 + n div 64 mod 64) * 64 + n mod 64"
    by (simp only: div_mult2_eq [symmetric]) simp
  also have "\<dots> = n" by (simp only: div_mult_mod_eq)
  finally have three: "n div 4096 * 4096 + n div 64 mod 64 * 64 + n mod 64 = n" .
  have "n div 262144 * 262144 + n div 4096 mod 64 * 4096 + n div 64 mod 64 * 64 + n mod 64
      = (n div 4096 div 64 * 64 + n div 4096 mod 64) * 4096 + n div 64 mod 64 * 64 + n mod 64"
    by (simp only: div_mult2_eq [symmetric]) simp
  also have "\<dots> = n" by (simp only: div_mult_mod_eq three)
  finally have four: "n div 262144 * 262144 + n div 4096 mod 64 * 4096 + n div 64 mod 64 * 64 + n mod 64 = n" .
  have below: "n div 64 mod 64 < 64" "n mod 64 < 64" "n div 4096 mod 64 < 64" by simp_all
  consider "n < 0x80" | "0x80 \<le> n" "n < 0x800" | "0x800 \<le> n" "n < 0x10000" | "0x10000 \<le> n" by linarith
  then show ?thesis
  proof cases
    case 1
    then show ?thesis by (simp add: encode_point_def)
  next
    case 2
    then have e: "encode_point n = [0xC0 + n div 64, 0x80 + n mod 64]" by (simp add: encode_point_def)
    have "2 \<le> n div 64" "n div 64 < 32" using 2 by linarith+
    from decode_two [OF this below(2), of rest] show ?thesis unfolding e two append.simps .
  next
    case 3
    then have e: "encode_point n = [0xE0 + n div 4096, 0x80 + n div 64 mod 64, 0x80 + n mod 64]" by (simp add: encode_point_def)
    have "n div 4096 < 16" using 3 by linarith
    from decode_three [OF this below(1,2), of rest, unfolded three, OF 3(1) assms(2)] show ?thesis unfolding e append.simps .
  next
    case 4
    then have e: "encode_point n = [0xF0 + n div 262144, 0x80 + n div 4096 mod 64, 0x80 + n div 64 mod 64, 0x80 + n mod 64]"
      by (simp add: encode_point_def)
    have "n div 262144 < 5" using assms(1) by linarith
    from decode_four [OF this below(3,1,2), of rest, unfolded four, OF 4 assms(1)] show ?thesis unfolding e append.simps .
  qed
qed

lemma encode_point_bytes:
  assumes "n < 0x110000" "b \<in> set (encode_point n)"
  shows "b < 256"
proof -
  have "n div 64 mod 64 < 64" "n mod 64 < 64" "n div 4096 mod 64 < 64" by simp_all
  moreover have "n < 0x800 \<Longrightarrow> n div 64 < 32" "n < 0x10000 \<Longrightarrow> n div 4096 < 16" "n div 262144 < 5" using assms(1) by linarith+
  ultimately show ?thesis using assms(2) by (auto simp: encode_point_def split: if_splits)
qed

lemma decode_encode_points:
  "(\<And>n. n \<in> set s \<Longrightarrow> n < 0x110000 \<and> \<not> surrogate n) \<Longrightarrow> decode_points (concat (map encode_point s)) = Some s"
  by (induction s) (simp_all add: decode_encode_point)

lemma utf8_roundtrip:
  assumes "utf8_encode s = Inr bs" "\<And>n. n \<in> set s \<Longrightarrow> n < 0x110000"
  shows "utf8_decode bs = Inr s"
proof -
  let ?ns = "concat (map encode_point s)"
  have bs: "bs = map word_of_nat ?ns" and ok: "\<And>n. n \<in> set s \<Longrightarrow> \<not> surrogate n"
    using assms(1) by (auto simp: utf8_encode_def split: if_splits)
  have "unat (word_of_nat b :: 8 word) = b" if "b \<in> set ?ns" for b
  proof -
    have "b < 256" using that encode_point_bytes assms(2) by auto
    then show ?thesis by (simp add: unsigned_of_nat take_bit_eq_mod)
  qed
  then have "map unat bs = ?ns" unfolding bs by (simp only: map_map map_idI comp_apply)
  then show ?thesis using decode_encode_points [of s] ok assms(2) by (simp add: utf8_decode_def)
qed

lemma get_key_length: "get_key st = Inr key \<Longrightarrow> length key = 32"
  by (auto simp: get_key_def res_simps split: if_splits)

text \<open>What the code relies on of AES-GCM: a sixteen-byte tag, and decryption with the same key, nonce and data.\<close>

definition gcm_inverts :: "aes_gcm \<Rightarrow> bool" where
  "gcm_inverts aes \<longleftrightarrow>
     (\<forall>key nonce data ad. length key = 32 \<longrightarrow> length nonce = 12 \<longrightarrow>
        gcm_decrypt aes key nonce (gcm_encrypt aes key nonce data ad) ad = Inr data)"

definition gcm_tagged :: "aes_gcm \<Rightarrow> bool" where
  "gcm_tagged aes \<longleftrightarrow> (\<forall>key nonce data ad. length (gcm_encrypt aes key nonce data ad) = length data + 16)"

section \<open>Properties\<close>

text \<open>
  C40. Personal data is readable again: whatever text \<open>encrypt\<close> encrypts, \<open>decrypt\<close> returns with the same
  key and associated data.
\<close>

theorem pii_roundtrip:
  assumes "gcm_inverts aes" "gcm_tagged aes" "length nonce = 12" "\<And>n. n \<in> set plaintext \<Longrightarrow> n < 0x110000"
    and "encrypt aes st nonce plaintext ad = Inr blob"
  shows "decrypt aes st blob ad = Inr plaintext"
proof -
  obtain key data where k: "get_key st = Inr key" "utf8_encode plaintext = Inr data"
    and blob: "blob = nonce @ gcm_encrypt aes key nonce data ad"
    using assms(5) by (auto simp: encrypt_def res_simps)
  have "\<not> length blob < 13" using assms(2,3) unfolding blob gcm_tagged_def by simp
  moreover have "gcm_decrypt aes key (take 12 blob) (drop 12 blob) ad = Inr data"
    using assms(1,3) get_key_length [OF k(1)] unfolding blob gcm_inverts_def by simp
  ultimately show ?thesis using k(1) utf8_roundtrip [OF k(2) assms(4)] by (simp add: decrypt_def)
qed

section \<open>Witness\<close>

text \<open>A cipher that only appends a tag of zeros, and a key of 32 zero bytes.\<close>

definition plain_gcm :: aes_gcm where
  "plain_gcm =
     \<lparr>gcm_encrypt = (\<lambda>key nonce data ad. data @ replicate 16 0),
      gcm_decrypt = (\<lambda>key nonce ct ad. Inr (take (length ct - 16) ct))\<rparr>"

definition zero_key_settings :: settings where
  "zero_key_settings = prod_settings\<lparr>pii_encryption_key := replicate 43 CHR ''A'' @ ''=''\<rparr>"

lemma zero_key: "get_key zero_key_settings = Inr (replicate 32 0)"
  by code_simp

theorem pii_roundtrip_witness:
  "\<exists>blob. encrypt plain_gcm zero_key_settings (replicate 12 7) [0x4E, 0xE9, 0x2014, 0x1F642] None = Inr blob
     \<and> decrypt plain_gcm zero_key_settings blob None = Inr [0x4E, 0xE9, 0x2014, 0x1F642]"
proof -
  let ?s = "[0x4E, 0xE9, 0x2014, 0x1F642] :: nat list"
  have "gcm_inverts plain_gcm" "gcm_tagged plain_gcm" by (simp_all add: gcm_inverts_def gcm_tagged_def plain_gcm_def)
  moreover obtain blob where b: "encrypt plain_gcm zero_key_settings (replicate 12 7) ?s None = Inr blob"
    by (simp add: encrypt_def zero_key utf8_encode_def surrogate_def)
  moreover have "n < 0x110000" if "n \<in> set ?s" for n using that by auto
  ultimately have "decrypt plain_gcm zero_key_settings blob None = Inr ?s"
    using pii_roundtrip [of plain_gcm "replicate 12 7" ?s zero_key_settings None blob] by simp
  then show ?thesis using b by blast
qed

end
