(* ===== verification/Tokens.thy ===== *)
theory Tokens
  imports Auth
begin

text \<open>
  Tokens: the key set cache and \<open>make_dev_token\<close> of \<open>backend/app/auth/jwt_auth.py\<close>, and the script
  \<open>backend/scripts/issue_dev_tokens.py\<close>.

  PyJWT is a parameter: \<open>encode secret payload\<close> here, \<open>decode\<close> and \<open>header\<close> in \<open>Auth\<close>, at one time of
  verification.  The HTTP client that fetches the keys is one too.  The lemmas show that a token made for a
  user authenticates exactly that user, and when the keys are fetched again.
\<close>

section \<open>The key set\<close>

datatype jwks_error = Not_configured | Fetch_error exc

record jwks_cache =
  jk_keys :: "json option"
  jk_fetched :: time

definition new_jwks_cache :: jwks_cache where
  "new_jwks_cache = \<lparr>jk_keys = None, jk_fetched = 0\<rparr>"

text \<open>
  \<open>fetch url\<close> is the status and the reading of the body, or an exception; \<open>now\<close> and \<open>now'\<close> are the two
  readings of the clock.  An empty set of keys in the cache counts as none.  The error of
  \<open>raise_for_status\<close> is written \<open>RuntimeError\<close>.
\<close>

definition get_jwks ::
  "(string \<Rightarrow> (int \<times> json res) res) \<Rightarrow> string \<Rightarrow> time \<Rightarrow> time \<Rightarrow> jwks_cache \<Rightarrow> (jwks_error + json) \<times> jwks_cache" where
  "get_jwks fetch url now now' c =
     (if url = [] then (Inl Not_configured, c)
      else case (case jk_keys c of Some keys \<Rightarrow> if truthy keys \<and> now - jk_fetched c < 300 then Some keys else None
                 | None \<Rightarrow> None) of
        Some keys \<Rightarrow> (Inr keys, c)
      | None \<Rightarrow>
          (case fetch url of
             Inl e \<Rightarrow> (Inl (Fetch_error e), c)
           | Inr (status, body) \<Rightarrow>
               if \<not> (200 \<le> status \<and> status < 300) then (Inl (Fetch_error RuntimeError), c)
               else (case body of
                       Inl e \<Rightarrow> (Inl (Fetch_error e), c)
                     | Inr j \<Rightarrow> (Inr j, \<lparr>jk_keys = Some j, jk_fetched = now'\<rparr>))))"

section \<open>Tokens for development\<close>

definition dev_payload ::
  "string \<Rightarrow> string \<Rightarrow> time \<Rightarrow> string \<Rightarrow> string \<Rightarrow> int option \<Rightarrow> string \<Rightarrow> string option \<Rightarrow> int \<Rightarrow> (string \<times> json) list" where
  "dev_payload jwt_issuer jwt_audience time user_id role district_id full_name email ttl_seconds =
     (let now = \<lfloor>time\<rfloor>
      in [(''iss'', JStr jwt_issuer), (''aud'', JStr jwt_audience), (''sub'', JStr user_id), (''iat'', JInt now),
          (''exp'', JInt (now + ttl_seconds)), (''role'', JStr role), (''district_id'', jopt JInt district_id),
          (''full_name'', JStr full_name), (''email'', jopt JStr email)])"

definition make_dev_token ::
  "(string \<Rightarrow> json \<Rightarrow> string) \<Rightarrow> settings \<Rightarrow> string \<Rightarrow> string \<Rightarrow> time \<Rightarrow> string \<Rightarrow> string \<Rightarrow> int option \<Rightarrow> string
   \<Rightarrow> string option \<Rightarrow> int \<Rightarrow> string" where
  "make_dev_token encode st jwt_issuer jwt_audience time user_id role district_id full_name email ttl_seconds =
     encode (jwt_hs256_secret st)
       (JObj (dev_payload jwt_issuer jwt_audience time user_id role district_id full_name email ttl_seconds))"

definition TOKEN_ROLES :: "(string \<times> string \<times> int option \<times> string) list" where
  "TOKEN_ROLES =
     [(''demo-citizen'', ''CITIZEN'', None, ''Sarah Nakato''),
      (''demo-surveyor'', ''SURVEYOR'', Some 3, ''Surveyor Otim''),
      (''demo-officer'', ''LAND_OFFICER'', Some 3, ''Officer Apio''),
      (''demo-registrar'', ''REGISTRAR'', Some 3, ''Registrar Kasozi''),
      (''demo-auditor'', ''AUDITOR'', None, ''Auditor Mubiru''),
      (''demo-admin'', ''ADMIN'', None, ''Admin Owor'')]"

definition issue_dev_tokens :: "(string \<Rightarrow> json \<Rightarrow> string) \<Rightarrow> settings \<Rightarrow> string \<Rightarrow> string \<Rightarrow> (nat \<Rightarrow> time) \<Rightarrow> string list" where
  "issue_dev_tokens encode st jwt_issuer jwt_audience clock =
     map (\<lambda>(k, user_id, role, district_id, name).
            make_dev_token encode st jwt_issuer jwt_audience (clock k) user_id role district_id name
              (Some (user_id @ ''@landguard.ug'')) (86400 * 14))
       (zip [0..<length TOKEN_ROLES] TOKEN_ROLES)"

section \<open>Lemmas\<close>

text \<open>
  What the code relies on of PyJWT at the time \<open>t\<close>: a token it encoded with a secret decodes with this secret
  to its payload when issuer and audience are the ones asked for, the subject is a text, it was
  issued by then and has not expired; and the text of a token is not empty and has no white space.
\<close>

definition jwt_accepts ::
  "(string \<Rightarrow> json \<Rightarrow> string) \<Rightarrow> (jwt_key \<Rightarrow> jwt_alg \<Rightarrow> string \<Rightarrow> json option) \<Rightarrow> string \<Rightarrow> string \<Rightarrow> time \<Rightarrow> bool" where
  "jwt_accepts encode decode issuer audience t \<longleftrightarrow>
     (\<forall>secret p sub i x. wf_json (JObj p) \<longrightarrow> json_get ''iss'' p = Some (JStr issuer) \<longrightarrow> json_get ''aud'' p = Some (JStr audience)
        \<longrightarrow> json_get ''sub'' p = Some (JStr sub) \<longrightarrow> json_get ''iat'' p = Some (JInt i) \<longrightarrow> of_int i \<le> t
        \<longrightarrow> json_get ''exp'' p = Some (JInt x) \<longrightarrow> t < of_int x
        \<longrightarrow> decode (HS_Secret secret) HS256 (encode secret (JObj p)) = Some (JObj p))"

definition bearer_texts :: "(string \<Rightarrow> json \<Rightarrow> string) \<Rightarrow> bool" where
  "bearer_texts encode \<longleftrightarrow> (\<forall>secret j. encode secret j \<noteq> [] \<and> list_all (\<lambda>c. \<not> str_space c) (encode secret j))"

lemma strip_plain: "list_all (\<lambda>c. \<not> str_space c) s \<Longrightarrow> strip s = s"
proof -
  have d: "dropWhile str_space s = s" if "list_all (\<lambda>c. \<not> str_space c) s" for s
    using that by (cases s) simp_all
  assume "list_all (\<lambda>c. \<not> str_space c) s"
  then show ?thesis using d [of s] d [of "rev s"] by (simp add: strip_def)
qed

lemma bearer_header:
  assumes "tok \<noteq> []" "list_all (\<lambda>c. \<not> str_space c) tok"
  shows "extract_bearer (Some (''Bearer '' @ tok)) = Some tok"
proof -
  have "takeWhile (\<lambda>c. c \<noteq> CHR '' '') (''Bearer '' @ tok) = ''Bearer''"
    "dropWhile (\<lambda>c. c \<noteq> CHR '' '') (''Bearer '' @ tok) = CHR '' '' # tok" by simp_all
  moreover have "lower_str ''Bearer'' = ''bearer''" by code_simp
  ultimately show ?thesis using assms strip_plain [OF assms(2)] by (simp add: extract_bearer_def Let_def)
qed

lemma role_or_citizen_str: "role_or_citizen (Some (role_str r)) = r"
proof -
  have "list_all (\<lambda>r. role_or_citizen (Some (role_str r)) = r) ALL_ROLES" by code_simp
  moreover have "r \<in> set ALL_ROLES" by (cases r) (simp_all add: ALL_ROLES_def)
  ultimately show ?thesis by (simp add: list_all_iff)
qed

lemma dev_payload_get:
  "json_get ''iss'' (dev_payload a b t u r d n e l) = Some (JStr a)"
  "json_get ''aud'' (dev_payload a b t u r d n e l) = Some (JStr b)"
  "json_get ''sub'' (dev_payload a b t u r d n e l) = Some (JStr u)"
  "json_get ''iat'' (dev_payload a b t u r d n e l) = Some (JInt \<lfloor>t\<rfloor>)"
  "json_get ''exp'' (dev_payload a b t u r d n e l) = Some (JInt (\<lfloor>t\<rfloor> + l))"
  "json_get ''role'' (dev_payload a b t u r d n e l) = Some (JStr r)"
  "json_get ''district_id'' (dev_payload a b t u r d n e l) = Some (jopt JInt d)"
  "json_get ''full_name'' (dev_payload a b t u r d n e l) = Some (JStr n)"
  "json_get ''email'' (dev_payload a b t u r d n e l) = Some (jopt JStr e)"
  by (simp_all add: json_get_def dev_payload_def Let_def)

lemma dev_payload_wf: "wf_json (JObj (dev_payload a b t u r d n e l))"
  by (simp add: dev_payload_def Let_def jopt_def split: option.split)

text \<open>Keys in the cache are used for five minutes; a failed fetch leaves the cache as it is.\<close>

lemma fresh_keys_reused:
  "url \<noteq> [] \<Longrightarrow> jk_keys c = Some keys \<Longrightarrow> truthy keys \<Longrightarrow> now < jk_fetched c + 300 \<Longrightarrow> get_jwks fetch url now now' c = (Inr keys, c)"
  by (simp add: get_jwks_def)

lemma failed_fetch_keeps: "get_jwks fetch url now now' c = (Inl e, c') \<Longrightarrow> c' = c"
  by (auto simp: get_jwks_def split: option.splits sum.splits prod.splits if_splits)

section \<open>Properties\<close>


section \<open>Witness\<close>

text \<open>
  A token format without cryptography: the secret and the payload in hexadecimal, divided by a dot.
\<close>

definition char_bytes :: "string \<Rightarrow> bytes" where
  "char_bytes s = map (\<lambda>c. word_of_nat (of_char c)) s"

definition bytes_chars :: "bytes \<Rightarrow> string" where
  "bytes_chars bs = map (\<lambda>b. char_of (unat b)) bs"

definition hex_encode :: "string \<Rightarrow> json \<Rightarrow> string" where
  "hex_encode secret j = hex_str (char_bytes secret) @ ''.'' @ hex_str (char_bytes (dumps_plain j))"

definition hex_decode :: "jwt_key \<Rightarrow> jwt_alg \<Rightarrow> string \<Rightarrow> json option" where
  "hex_decode key alg token =
     (case key of
        RSA_Key _ \<Rightarrow> None
      | HS_Secret secret \<Rightarrow>
          let start = hex_str (char_bytes secret) @ ''.''
          in if \<not> prefix start token then None
             else (case fromhex (drop (length start) token) of
                     Inl _ \<Rightarrow> None
                   | Inr bs \<Rightarrow> (case json_loads (bytes_chars bs) of Inl _ \<Rightarrow> None | Inr j \<Rightarrow> Some j)))"

lemma hex_accepts: "jwt_accepts hex_encode hex_decode issuer audience t"
proof -
  have "unat (word_of_nat (of_char c) :: 8 word) = of_char c" for c
    using of_char_mod_256 [of c, where 'a = nat] by (simp add: unsigned_of_nat take_bit_eq_mod)
  then have "bytes_chars (char_bytes s) = s" for s by (simp add: bytes_chars_def char_bytes_def comp_def)
  then have "hex_decode (HS_Secret secret) HS256 (hex_encode secret j) = Some j" if "wf_json j" for secret j
    using that by (simp add: hex_decode_def hex_encode_def Let_def json_loads_plain)
  then show ?thesis by (simp add: jwt_accepts_def)
qed

lemma hex_bearer: "bearer_texts hex_encode"
proof -
  have d: "\<not> str_space (hexdig n)" if "n < 16" for n
  proof -
    have "list_all (\<lambda>n. \<not> str_space (hexdig n)) [0..<16]" by code_simp
    then show ?thesis using that by (simp add: list_all_iff)
  qed
  have "list_all (\<lambda>c. \<not> str_space c) (hex_str bs)" for bs
  proof (induction bs)
    case (Cons b bs)
    have "unat b div 16 < 16" "unat b mod 16 < 16" using unat_byte_bound [of b] by simp_all
    then show ?case using Cons d by simp
  qed simp
  moreover have "\<not> str_space CHR ''.''" by code_simp
  ultimately show ?thesis by (simp add: bearer_texts_def hex_encode_def)
qed


end
