(* ===== verification/Probe.thy ===== *)
theory Probe
  imports Util Json
begin

text \<open>
  The measuring scripts: \<open>src/scripts/probe_verifier.py\<close>, which logs the availability of the verifier, and
  \<open>src/backend/scripts/load_test.py\<close>, which judges its latency; with what they use of \<open>csv\<close>.

  Clocks, answers of the network and signals are readings.  The text of a float is the argument \<open>show\<close>.  The lemmas
  show that the log reads back as its header and one row per sample, and what passing the load test means.
\<close>

section \<open>csv.writer\<close>

abbreviation CR :: char where "CR \<equiv> CHR 0x0D"
abbreviation LF :: char where "LF \<equiv> CHR 0x0A"

text \<open>A field is quoted when it holds the delimiter, a quote or an end of line.\<close>

definition csv_special :: "char \<Rightarrow> bool" where
  "csv_special c \<longleftrightarrow> c = CHR '','' \<or> c = QUOTE \<or> c = CR \<or> c = LF"

definition csv_double :: "char \<Rightarrow> string" where
  "csv_double c = (if c = QUOTE then [QUOTE, QUOTE] else [c])"

definition csv_field :: "string \<Rightarrow> string" where
  "csv_field f = (if list_ex csv_special f then QUOTE # concat (map csv_double f) @ [QUOTE] else f)"

definition csv_row :: "string list \<Rightarrow> string" where
  "csv_row fs = join_str '','' (map csv_field fs) @ [CR, LF]"

text \<open>A reader of such texts, as a consumer of the log has it: commas and ends of lines count outside of quotes only.\<close>

datatype csv_mode = Field_start | Plain | Quoted | Quote_seen

fun csv_read :: "csv_mode \<Rightarrow> string \<Rightarrow> string list \<Rightarrow> string \<Rightarrow> string list list" where
  "csv_read m f row [] = (if m = Field_start \<and> row = [] then [] else [row @ [f]])"
| "csv_read m f row (c # cs) =
     (if m = Quoted then (if c = QUOTE then csv_read Quote_seen f row cs else csv_read Quoted (f @ [c]) row cs)
      else if c = QUOTE \<and> m = Quote_seen then csv_read Quoted (f @ [c]) row cs
      else if c = QUOTE \<and> m = Field_start then csv_read Quoted f row cs
      else if c = CHR '','' then csv_read Field_start [] (row @ [f]) cs
      else if c = CR then csv_read m f row cs
      else if c = LF then (row @ [f]) # csv_read Field_start [] [] cs
      else csv_read Plain (f @ [c]) row cs)"

lemma csv_read_quoted: "csv_read Quoted g row (concat (map csv_double f) @ QUOTE # rest) = csv_read Quote_seen (g @ f) row rest"
  by (induction f arbitrary: g) (simp_all add: csv_double_def)

lemma csv_read_plain: "\<not> list_ex csv_special f \<Longrightarrow> csv_read Plain g row (f @ rest) = csv_read Plain (g @ f) row rest"
  by (induction f arbitrary: g) (simp_all add: csv_special_def)

lemma csv_read_field:
  "\<exists>m. m \<noteq> Quoted \<and> csv_read Field_start [] row (csv_field f @ rest) = csv_read m f row rest"
proof (cases "list_ex csv_special f")
  case True
  then show ?thesis using csv_read_quoted [of "[]" row f rest] by (intro exI [of _ Quote_seen]) (simp add: csv_field_def)
next
  case False
  then show ?thesis
  proof (cases f)
    case (Cons c cs)
    then show ?thesis using False csv_read_plain [of cs "[c]" row rest]
      by (intro exI [of _ Plain]) (simp add: csv_field_def csv_special_def)
  qed (auto simp: csv_field_def)
qed

lemma csv_read_row:
  "fs \<noteq> [] \<Longrightarrow> csv_read Field_start [] row (csv_row fs @ rest) = (row @ fs) # csv_read Field_start [] [] rest"
proof (induction fs arbitrary: row)
  case (Cons f fs)
  show ?case
  proof (cases "fs = []")
    case True
    obtain m where "m \<noteq> Quoted" "csv_read Field_start [] row (csv_field f @ CR # LF # rest) = csv_read m f row (CR # LF # rest)"
      using csv_read_field by blast
    then show ?thesis using True by (simp add: csv_row_def)
  next
    case False
    let ?t = "join_str '','' (map csv_field fs) @ CR # LF # rest"
    obtain m where "m \<noteq> Quoted" "csv_read Field_start [] row (csv_field f @ CHR '','' # ?t) = csv_read m f row (CHR '','' # ?t)"
      using csv_read_field by blast
    then show ?thesis using False Cons.IH [of "row @ [f]"] by (simp add: csv_row_def join_str_Cons)
  qed
qed simp

lemma csv_read_rows:
  "list_all (\<lambda>r. r \<noteq> []) rows \<Longrightarrow> csv_read Field_start [] [] (concat (map csv_row rows)) = rows"
  by (induction rows) (simp_all add: csv_read_row)

section \<open>probe_verifier.py\<close>

text \<open>What \<open>urlopen\<close> does: an answer, an \<open>HTTPError\<close>, one of the errors of the network, or another exception.\<close>

datatype probe_answer = Answered int | Http_error int | Unreachable | Raised exc

text \<open>The readings of one turn of the loop; \<open>pr_stopped i\<close> is the flag after i seconds of the pause.\<close>

record probe_reading =
  pr_answer :: probe_answer
  pr_started :: real
  pr_ended :: real
  pr_stamp :: string
  pr_stopped :: "nat \<Rightarrow> bool"

definition PROBE_HEADER :: "string list" where
  "PROBE_HEADER = [''timestamp_utc'', ''target'', ''http_status'', ''latency_ms'', ''ok'']"

definition probe_once :: "probe_reading \<Rightarrow> (int option \<times> real \<times> bool) res" where
  "probe_once r =
     (let latency_ms = (pr_ended r - pr_started r) * 1000
      in case pr_answer r of
           Answered status \<Rightarrow> Inr (Some status, latency_ms, 200 \<le> status \<and> status < 400)
         | Http_error code \<Rightarrow> Inr (Some code, latency_ms, False)
         | Unreachable \<Rightarrow> Inr (None, latency_ms, False)
         | Raised e \<Rightarrow> Inl e)"

definition ensure_csv :: "string option \<Rightarrow> string" where
  "ensure_csv file = (case file of None \<Rightarrow> csv_row PROBE_HEADER | Some [] \<Rightarrow> csv_row PROBE_HEADER | Some t \<Rightarrow> t)"

definition sample_row :: "(real \<Rightarrow> string) \<Rightarrow> string \<Rightarrow> string \<Rightarrow> int option \<times> real \<times> bool \<Rightarrow> string list" where
  "sample_row show target stamp x =
     (let (status, latency_ms, ok) = x
      in [stamp, target, case status of None \<Rightarrow> [] | Some s \<Rightarrow> int_str s, show (py_round_to 1 latency_ms),
          if ok then ''true'' else ''false''])"

definition append_sample :: "(real \<Rightarrow> string) \<Rightarrow> string \<Rightarrow> string \<Rightarrow> int option \<times> real \<times> bool \<Rightarrow> string \<Rightarrow> string" where
  "append_sample show target stamp x file = file @ csv_row (sample_row show target stamp x)"

text \<open>The pause sleeps in slices of a second and returns the number of them.\<close>

function pause_slices :: "int \<Rightarrow> (nat \<Rightarrow> bool) \<Rightarrow> nat \<Rightarrow> nat" where
  "pause_slices interval stopped slept =
     (if int slept < interval \<and> \<not> stopped slept then pause_slices interval stopped (Suc slept) else slept)"
  by auto
termination by (relation "measure (\<lambda>(interval, _, slept). nat (interval - int slept))") auto

declare pause_slices.simps [simp del]

text \<open>
  The loop over the readings of its turns; None when it is still running after them.  The result is the exit code, or the
  exception that ended the script, and the file.
\<close>

fun probe_loop ::
  "(real \<Rightarrow> string) \<Rightarrow> string \<Rightarrow> int \<Rightarrow> bool \<Rightarrow> int \<Rightarrow> probe_reading list \<Rightarrow> nat \<Rightarrow> string \<Rightarrow> (int, string) outcome option" where
  "probe_loop show target interval once max_samples [] samples file = None"
| "probe_loop show target interval once max_samples (r # rs) samples file =
     (case probe_once r of
        Inl e \<Rightarrow> Some (Inl e, file)
      | Inr x \<Rightarrow>
          let file = append_sample show target (pr_stamp r) x file;
              last_ok = snd (snd x);
              code = (if last_ok then 0 else 1)
          in if once \<or> max_samples \<noteq> 0 \<and> max_samples \<le> int (Suc samples) then Some (Inr code, file)
             else if pr_stopped r (pause_slices interval (pr_stopped r) 0) then Some (Inr code, file)
             else probe_loop show target interval once max_samples rs (Suc samples) file)"

text \<open>\<open>stopped\<close>: a signal has come before the first turn.\<close>

definition probe_main ::
  "(real \<Rightarrow> string) \<Rightarrow> string \<Rightarrow> int \<Rightarrow> bool \<Rightarrow> int \<Rightarrow> bool \<Rightarrow> probe_reading list \<Rightarrow> string option
   \<Rightarrow> (int, string) outcome option" where
  "probe_main show target interval once max_samples stopped rs file =
     (if stopped then Some (Inr 0, ensure_csv file)
      else probe_loop show target interval once max_samples rs 0 (ensure_csv file))"

text \<open>A pause lasts for the interval unless the flag is set.\<close>

lemma pause_slices_spec:
  "slept \<le> nat interval \<Longrightarrow> pause_slices interval stopped slept \<le> nat interval
   \<and> (stopped (pause_slices interval stopped slept) \<or> pause_slices interval stopped slept = nat interval)"
proof (induction interval stopped slept rule: pause_slices.induct)
  case (1 interval stopped slept)
  show ?case
    using 1 by (subst (1 2 3) pause_slices.simps) (auto simp: nat_less_iff intro: Suc_leI)
qed

definition probed :: "probe_reading \<Rightarrow> int option \<times> real \<times> bool" where
  "probed r = projr (probe_once r)"

definition logged_row :: "(real \<Rightarrow> string) \<Rightarrow> string \<Rightarrow> probe_reading \<Rightarrow> string list" where
  "logged_row show target r = sample_row show target (pr_stamp r) (probed r)"

lemma probe_loop_log:
  "probe_loop show target interval once mx rs samples out = Some (Inr code, out') \<Longrightarrow>
   \<exists>k. 0 < k \<and> k \<le> length rs \<and> out' = out @ concat (map (csv_row \<circ> logged_row show target) (take k rs))
     \<and> code = (if snd (snd (probed (rs ! (k - 1)))) then 0 else 1) \<and> (once \<longrightarrow> k = 1) \<and> (int samples < mx \<longrightarrow> int (samples + k) \<le> mx)"
proof (induction rs arbitrary: samples out)
  case (Cons r rs)
  obtain x where x: "probe_once r = Inr x" using Cons.prems by (cases "probe_once r") simp_all
  then have p: "probed r = x" by (simp add: probed_def)
  let ?out = "append_sample show target (pr_stamp r) x out"
  have app: "?out = out @ csv_row (logged_row show target r)" by (simp add: append_sample_def logged_row_def p)
  show ?case
  proof (cases "once \<or> mx \<noteq> 0 \<and> mx \<le> int (Suc samples) \<or> pr_stopped r (pause_slices interval (pr_stopped r) 0)")
    case True
    then show ?thesis using Cons.prems x app p by (intro exI [of _ 1]) (auto simp: Let_def split: if_splits)
  next
    case False
    then have "probe_loop show target interval once mx rs (Suc samples) ?out = Some (Inr code, out')"
      using Cons.prems x by (auto simp: Let_def split: if_splits)
    from Cons.IH [OF this] obtain k where k: "0 < k" "k \<le> length rs"
      "out' = ?out @ concat (map (csv_row \<circ> logged_row show target) (take k rs))"
      "code = (if snd (snd (probed (rs ! (k - 1)))) then 0 else 1)" "once \<longrightarrow> k = 1" "int (Suc samples) < mx \<longrightarrow> int (Suc samples + k) \<le> mx"
      by (elim exE conjE) (rule that; assumption)
    show ?thesis
    proof (intro exI [of _ "Suc k"] conjI)
      have "(r # rs) ! k = rs ! (k - 1)" using k(1) by (cases k) simp_all
      then show "code = (if snd (snd (probed ((r # rs) ! (Suc k - 1)))) then 0 else 1)" using k(4) by simp
      show "out' = out @ concat (map (csv_row \<circ> logged_row show target) (take (Suc k) (r # rs)))" using k(3) app by simp
      show "once \<longrightarrow> Suc k = 1" using False by blast
      show "int samples < mx \<longrightarrow> int (samples + Suc k) \<le> mx" using False k(6) by auto
    qed (use k(2) in simp_all)
  qed
qed simp

text \<open>With a bound on the samples the loop ends, whatever the network does.\<close>

lemma probe_loop_ends:
  "0 < mx \<Longrightarrow> mx \<le> int (samples + length rs) \<Longrightarrow> int samples < mx \<Longrightarrow> probe_loop show target interval once mx rs samples out \<noteq> None"
proof (induction rs arbitrary: samples out)
  case (Cons r rs)
  then show ?case by (cases "int (Suc samples) < mx") (auto simp: Let_def split: sum.split)
qed simp

section \<open>load_test.py\<close>

text \<open>A request: when it started, the status of the answer (0 when anything was raised), and how long it took.\<close>

record load_result =
  ld_start :: real
  ld_status :: int
  ld_duration :: real

definition load_one :: "real \<Rightarrow> real \<Rightarrow> int res \<Rightarrow> load_result" where
  "load_one start finish answer =
     \<lparr>ld_start = start, ld_status = (case answer of Inl _ \<Rightarrow> 0 | Inr s \<Rightarrow> s), ld_duration = finish - start\<rparr>"

text \<open>
  The pacing: a request is launched while the clock is before the end, and the loop sleeps up to the next tick when it
  is not late.  Each turn reads the clock twice; the list is what it sleeps.
\<close>

fun paced :: "real \<Rightarrow> real \<Rightarrow> real \<Rightarrow> (real \<times> real) list \<Rightarrow> real option list" where
  "paced end_time interval tick [] = []"
| "paced end_time interval tick ((now, later) # rs) =
     (if now < end_time
      then (let tick = tick + interval; sleep_for = tick - later
            in (if 0 < sleep_for then Some sleep_for else None) # paced end_time interval tick rs)
      else [])"

definition status_counts :: "load_result list \<Rightarrow> (int \<times> nat) list" where
  "status_counts results =
     fold (\<lambda>r counts. if ld_status r \<in> set (map fst counts)
                       then map (\<lambda>(s, n). if s = ld_status r then (s, n + 1) else (s, n)) counts
                       else counts @ [(ld_status r, 1)]) results []"

definition percentile :: "real \<Rightarrow> real list \<Rightarrow> real" where
  "percentile p durations_ms =
     (if durations_ms = [] then 0 else durations_ms ! nat (py_round (p / 100 * of_nat (length durations_ms - 1))))"

record load_summary =
  lo_completed :: nat
  lo_successful :: nat
  lo_ratio :: real
  lo_counts :: "(int \<times> nat) list"
  lo_p50 :: real
  lo_p90 :: real
  lo_p95 :: real
  lo_p99 :: real
  lo_max :: real
  lo_mean :: real
  lo_pass :: bool

definition load_summary_of :: "load_result list \<Rightarrow> load_summary" where
  "load_summary_of results =
     (let durations_ms = map (\<lambda>r. ld_duration r * 1000) results;
          successes = map snd (filter (\<lambda>(r, d). 200 \<le> ld_status r \<and> ld_status r < 300) (zip results durations_ms));
          ordered = sort durations_ms
      in \<lparr>lo_completed = length results, lo_successful = length successes,
          lo_ratio = (if results = [] then 0 else of_nat (length successes) / of_nat (length results)),
          lo_counts = status_counts results,
          lo_p50 = percentile 50 ordered, lo_p90 = percentile 90 ordered, lo_p95 = percentile 95 ordered,
          lo_p99 = percentile 99 ordered,
          lo_max = (if ordered = [] then 0 else Max (set ordered)),
          lo_mean = (if ordered = [] then 0 else sum_list ordered / of_nat (length ordered)),
          lo_pass = percentile 95 ordered < 250\<rparr>)"

definition load_csv :: "(real \<Rightarrow> string) \<Rightarrow> load_result list \<Rightarrow> string" where
  "load_csv show6 results =
     concat (map csv_row ([''start_perf_counter'', ''status'', ''duration_seconds'']
       # map (\<lambda>r. [show6 (ld_start r), int_str (ld_status r), show6 (ld_duration r)]) results))"

text \<open>The index of a percentile is in the list.\<close>

lemma py_round_between: "0 \<le> x \<Longrightarrow> x \<le> of_nat n \<Longrightarrow> 0 \<le> py_round x \<and> py_round x \<le> int n"
  by (auto simp: py_round_def Let_def le_floor_iff floor_le_iff)

lemma percentile_index:
  assumes "0 \<le> p" "p \<le> 100" "xs \<noteq> []"
  shows "nat (py_round (p / 100 * of_nat (length xs - 1))) < length xs"
proof -
  have "p / 100 * of_nat (length xs - 1) \<le> 1 * of_nat (length xs - 1)" using assms by (intro mult_right_mono) simp_all
  moreover have "0 \<le> p / 100 * of_nat (length xs - 1)" using assms by simp
  ultimately have "py_round (p / 100 * of_nat (length xs - 1)) \<le> int (length xs - 1)" using py_round_between by simp
  then show ?thesis using assms(3) by (cases xs) (simp_all add: nat_less_iff)
qed

text \<open>The entry at an index of a sorted list is below a bound when more entries than the index are.\<close>

lemma sorted_nth_less:
  "sorted xs \<Longrightarrow> i < length xs \<Longrightarrow> xs ! i < b \<longleftrightarrow> i < length (filter (\<lambda>x. x < b) xs)" for b :: "'a::linorder"
proof (induction xs arbitrary: i)
  case (Cons x xs)
  show ?case
  proof (cases "x < b")
    case True
    then show ?thesis using Cons by (cases i) simp_all
  next
    case False
    then have "filter (\<lambda>x. x < b) (x # xs) = []" using Cons.prems(1) by (auto simp: filter_empty_conv)
    moreover have "x \<le> (x # xs) ! i" using nth_mem [OF Cons.prems(2)] Cons.prems(1) by auto
    then have "\<not> (x # xs) ! i < b" using False by simp
    ultimately show ?thesis by simp
  qed
qed simp

lemma filter_sort_length: "length (filter p (sort xs)) = length (filter p xs)"
  by (metis mset_filter mset_sort size_mset)

text \<open>
  What passing means: more answers than the index of the percentile were faster than 250 ms, failures counted like
  any other; an empty run passes.
\<close>

lemma load_pass_exact:
  "lo_pass (load_summary_of results) \<longleftrightarrow> results = []
     \<or> nat (py_round (95 / 100 * of_nat (length results - 1))) < length (filter (\<lambda>r. ld_duration r * 1000 < 250) results)"
proof (cases "results = []")
  case True
  then show ?thesis by (simp add: load_summary_of_def percentile_def)
next
  case False
  let ?ds = "map (\<lambda>r. ld_duration r * 1000) results"
  define i where "i = nat (py_round (95 / 100 * of_nat (length results - 1)))"
  have ne: "sort ?ds \<noteq> []" using False by (metis length_0_conv length_map length_sort)
  have "i < length (sort ?ds)" using percentile_index [of 95, OF _ _ ne] by (simp only: i_def length_sort length_map)
  moreover have "percentile 95 (sort ?ds) = sort ?ds ! i" using ne by (simp only: percentile_def i_def length_sort length_map if_False)
  ultimately have "percentile 95 (sort ?ds) < 250 \<longleftrightarrow> i < length (filter (\<lambda>d. d < 250) (sort ?ds))"
    by (simp only: sorted_nth_less [OF sorted_sort])
  then show ?thesis using False
    unfolding i_def by (simp add: load_summary_of_def Let_def filter_sort_length filter_map comp_def)
qed

section \<open>Properties\<close>

text \<open>
  The availability log can be audited.  Started on no file, a run of the probe that returns leaves a file which any
  reader of CSV takes apart into the header and one row for every sample it took, in their order, whatever the network
  answered and whatever characters the target has; the exit code says whether the last sample was good,
  and a bound on the samples is kept.
\<close>

lemma probe_log_reads_back:
  assumes "probe_main show target interval once mx False rs None = Some (Inr code, out)"
  shows "\<exists>k. 0 < k \<and> k \<le> length rs
    \<and> csv_read Field_start [] [] out = PROBE_HEADER # map (logged_row show target) (take k rs)
    \<and> code = (if snd (snd (probed (rs ! (k - 1)))) then 0 else 1) \<and> (once \<longrightarrow> k = 1) \<and> (0 < mx \<longrightarrow> int k \<le> mx)"
proof -
  obtain k where k: "0 < k" "k \<le> length rs" "out = concat (map csv_row (PROBE_HEADER # map (logged_row show target) (take k rs)))"
    "code = (if snd (snd (probed (rs ! (k - 1)))) then 0 else 1)" "once \<longrightarrow> k = 1" "0 < mx \<longrightarrow> int k \<le> mx"
    using probe_loop_log [of "show" target interval once mx rs 0 "ensure_csv None" code out] assms
    by (auto simp: probe_main_def ensure_csv_def comp_def)
  have "list_all (\<lambda>r. r \<noteq> []) (PROBE_HEADER # map (logged_row show target) (take k rs))"
    by (simp add: list_all_iff PROBE_HEADER_def logged_row_def sample_row_def case_prod_beta)
  from csv_read_rows [OF this] k show ?thesis by blast
qed

definition demo_reading :: probe_reading where
  "demo_reading = \<lparr>pr_answer = Answered 200, pr_started = 1, pr_ended = 2, pr_stamp = ''2026-06-20T00:00:00Z'', pr_stopped = (\<lambda>_. False)\<rparr>"

lemma probe_log_reads_back_witness:
  "\<exists>out. probe_main (\<lambda>x. int_str \<lfloor>x\<rfloor>) ''http://h/?a,b'' 60 False 2 False [demo_reading, demo_reading\<lparr>pr_answer := Unreachable\<rparr>] None = Some (Inr 1, out)
     \<and> hd (csv_read Field_start [] [] out) = PROBE_HEADER"
proof -
  have "pause_slices 60 (\<lambda>_. False) 0 = 60" using pause_slices_spec [of 0 60 "\<lambda>_. False"] by simp
  then obtain out where out: "probe_main (\<lambda>x. int_str \<lfloor>x\<rfloor>) ''http://h/?a,b'' 60 False 2 False
      [demo_reading, demo_reading\<lparr>pr_answer := Unreachable\<rparr>] None = Some (Inr 1, out)"
    by (simp add: probe_main_def demo_reading_def probe_once_def Let_def)
  from probe_log_reads_back [OF out] out show ?thesis by auto
qed

end
