(* ===== verification/Training.thy ===== *)
theory Training
  imports Seed Fraud_Score
begin

text \<open>
  The training set of \<open>fraud/training/train.py\<close> and the loading of the model in \<open>fraud/scorer.py\<close>.  The generator of \<open>random\<close> is the record of \<open>Seed\<close>, with its other
  distributions added; the forest of scikit-learn and \<open>joblib\<close> are the arguments \<open>fit\<close> and \<open>dump\<close>.  The lemmas show
  that every row has the nine features of the scorer in their order, each within its range.
\<close>

text \<open>\<open>lognormvariate\<close> and \<open>gauss\<close>; \<open>randint(a, b)\<close> is \<open>a\<close> plus an index below \<open>b + 1 - a\<close>.\<close>

record 'r py_random = "'r rng" +
  rg_lognorm :: "real \<Rightarrow> real \<Rightarrow> 'r \<Rightarrow> real \<times> 'r"
  rg_gauss :: "real \<Rightarrow> real \<Rightarrow> 'r \<Rightarrow> real \<times> 'r"

definition rng_randint :: "'r py_random \<Rightarrow> int \<Rightarrow> int \<Rightarrow> 'r \<Rightarrow> int \<times> 'r" where
  "rng_randint R a b r = (let (i, r') = rg_below R (nat (b + 1 - a)) r in (a + int i, r'))"

text \<open>The seven columns that differ between the two kinds of samples.\<close>

record sample_columns =
  sm_hours :: real
  sm_consideration :: real
  sm_area :: real
  sm_age :: real
  sm_parcels :: int
  sm_disputes :: int
  sm_norm_z :: real

definition anomalous_columns :: "'r py_random \<Rightarrow> 'r \<Rightarrow> sample_columns \<times> 'r" where
  "anomalous_columns R r =
     (let (hours_since_last, r) = rng_choice (rng.truncate R) [1 / 2, 2, 6] r;
          (consideration, r) = rng_choice (rng.truncate R) [1, 50, 1000000000] r;
          (area_ha, r) = rng_choice (rng.truncate R) [1 / 1000, 9000] r;
          (owner_age, r) = rng_choice (rng.truncate R) [0, 1 / 2] r;
          (prior_parcels, r) = rng_randint R 15 40 r;
          (prior_disputes, r) = rng_randint R 3 12 r;
          (z, r) = rng_uniform (rng.truncate R) 3 6 r;
          (sign, r) = rng_choice (rng.truncate R) [-1, 1] r
      in (\<lparr>sm_hours = hours_since_last, sm_consideration = consideration, sm_area = area_ha, sm_age = owner_age,
           sm_parcels = prior_parcels, sm_disputes = prior_disputes, sm_norm_z = z * sign\<rparr>, r))"

definition honest_columns :: "'r py_random \<Rightarrow> 'r \<Rightarrow> sample_columns \<times> 'r" where
  "honest_columns R r =
     (let (hours_since_last, r) = rng_uniform (rng.truncate R) 48 5000 r;
          (consideration, r) = rg_lognorm R 15 (12 / 10) r;
          (area, r) = rg_gauss R 2 (15 / 10) r;
          (age, r) = rg_gauss R 600 300 r;
          (prior_parcels, r) = rng_randint R 0 3 r;
          (prior_disputes, r) = rng_randint R 0 1 r;
          (norm_z, r) = rg_gauss R 0 (8 / 10) r
      in (\<lparr>sm_hours = hours_since_last, sm_consideration = consideration, sm_area = \<bar>area\<bar> + 5 / 100, sm_age = \<bar>age\<bar>,
           sm_parcels = prior_parcels, sm_disputes = prior_disputes, sm_norm_z = norm_z\<rparr>, r))"

definition synthetic_sample :: "'r py_random \<Rightarrow> real \<Rightarrow> 'r \<Rightarrow> real list res \<times> 'r" where
  "synthetic_sample R anomaly_rate r =
     (let (u, r) = rg_random R r;
          (c, r) = (if u < anomaly_rate then anomalous_columns R r else honest_columns R r);
          (hour, r) = rng_randint R 0 23 r;
          (weekday, r) = rng_randint R 0 6 r
      in (res_bind (log1p (sm_consideration c)) (\<lambda>lc.
          res_bind (log1p (sm_area c)) (\<lambda>la.
          Inr [sm_hours c, lc, la, sm_age c, of_int (sm_parcels c), of_int (sm_disputes c), sm_norm_z c,
               of_int hour, of_int weekday])), r))"

fun synthetic_samples :: "nat \<Rightarrow> 'r py_random \<Rightarrow> real \<Rightarrow> 'r \<Rightarrow> real list list res" where
  "synthetic_samples 0 R anomaly_rate r = Inr []"
| "synthetic_samples (Suc n) R anomaly_rate r =
     (let (row, r) = synthetic_sample R anomaly_rate r
      in res_bind row (\<lambda>row. res_bind (synthetic_samples n R anomaly_rate r) (\<lambda>rows. Inr (row # rows))))"

definition train_and_save :: "'r py_random \<Rightarrow> (real list list \<Rightarrow> 'm res) \<Rightarrow> ('m \<Rightarrow> 'f \<Rightarrow> 'f) \<Rightarrow> 'f \<Rightarrow> 'f res" where
  "train_and_save R fit dump files =
     res_bind (synthetic_samples 2000 R (5 / 100) (rg_seed R 20260620)) (\<lambda>X.
     res_bind (fit X) (\<lambda>model. Inr (dump model files)))"

text \<open>
  \<open>_maybe_load_model\<close> of the scorer: the model in memory, else the file, where None is a file that does not exist and an
  error one that \<open>joblib\<close> cannot read.  The second part of the result is what stays in memory.
\<close>

definition maybe_load_model :: "'m res option \<Rightarrow> 'm option \<Rightarrow> 'm option \<times> 'm option" where
  "maybe_load_model file model =
     (if model \<noteq> None then (model, model)
      else case file of
        None \<Rightarrow> (None, None)
      | Some (Inl e) \<Rightarrow> (None, None)
      | Some (Inr m) \<Rightarrow> (Some m, Some m))"

text \<open>A model that was loaded once is kept, whatever becomes of the file; a failure is tried again at the next call.\<close>

lemma maybe_load_model_keeps:
  "maybe_load_model file None = (Some m, c) \<Longrightarrow> maybe_load_model file' c = (Some m, c)"
  "maybe_load_model file None = (None, c) \<Longrightarrow> maybe_load_model file' c = maybe_load_model file' None"
  by (auto simp: maybe_load_model_def split: option.splits sum.splits)

text \<open>What the documentation of \<open>random\<close> says of the draws.\<close>

definition random_laws :: "'r py_random \<Rightarrow> bool" where
  "random_laws R \<longleftrightarrow> (\<forall>r. 0 \<le> fst (rg_random R r) \<and> fst (rg_random R r) < 1) \<and> (\<forall>n r. 0 < n \<longrightarrow> fst (rg_below R n r) < n)
     \<and> (\<forall>m s r. 0 < fst (rg_lognorm R m s r))"

text \<open>A row of the scorer's feature vector: nine numbers, the first six not negative, an hour and a weekday.\<close>

definition feature_row :: "real list \<Rightarrow> bool" where
  "feature_row row \<longleftrightarrow> length row = 9 \<and> list_all (\<lambda>x. 0 \<le> x) (take 6 row) \<and> row ! 7 \<in> of_int ` {0..23} \<and> row ! 8 \<in> of_int ` {0..6}"

lemma randint_range: "random_laws R \<Longrightarrow> a \<le> b \<Longrightarrow> fst (rng_randint R a b r) \<in> {a..b}"
proof -
  assume "random_laws R" "a \<le> b"
  then have "fst (rg_below R (nat (b + 1 - a)) r) < nat (b + 1 - a)" by (simp add: random_laws_def)
  then show "fst (rng_randint R a b r) \<in> {a..b}" by (auto simp: rng_randint_def case_prod_beta)
qed

lemma choice_in: "random_laws R \<Longrightarrow> xs \<noteq> [] \<Longrightarrow> fst (rng_choice (rng.truncate R) xs r) \<in> set xs"
  by (simp add: rng_choice_def case_prod_beta rng.truncate_def random_laws_def)

lemma choice_all: "random_laws R \<Longrightarrow> xs \<noteq> [] \<Longrightarrow> list_all P xs \<Longrightarrow> P (fst (rng_choice (rng.truncate R) xs r))"
  using choice_in by (fastforce simp: list_all_iff)

lemma uniform_range: "random_laws R \<Longrightarrow> a \<le> b \<Longrightarrow> fst (rng_uniform (rng.truncate R) a b r) \<in> {a..b}"
proof -
  assume R: "random_laws R" and ab: "a \<le> b"
  then have "0 \<le> (b - a) * fst (rg_random R r)" "(b - a) * fst (rg_random R r) \<le> (b - a) * 1"
    by (intro mult_nonneg_nonneg mult_left_mono; simp add: random_laws_def less_imp_le)+
  then show ?thesis by (simp add: rng_uniform_def case_prod_beta rng.truncate_def)
qed

definition columns_ok :: "sample_columns \<Rightarrow> bool" where
  "columns_ok c \<longleftrightarrow> 0 \<le> sm_hours c \<and> 0 < sm_consideration c \<and> 0 < sm_area c \<and> 0 \<le> sm_age c \<and> 0 \<le> sm_parcels c \<and> 0 \<le> sm_disputes c"

lemma anomalous_ok:
  assumes "random_laws R"
  shows "columns_ok (fst (anomalous_columns R r))"
proof -
  have "0 \<le> fst (rng_choice (rng.truncate R) [1 / 2, 2, 6 :: real] r)"
    "0 < fst (rng_choice (rng.truncate R) [1, 50, 1000000000 :: real] r)"
    "0 < fst (rng_choice (rng.truncate R) [1 / 1000, 9000 :: real] r)"
    "0 \<le> fst (rng_choice (rng.truncate R) [0, 1 / 2 :: real] r)" for r
    by (rule choice_all [OF assms]; simp)+
  moreover have "0 \<le> fst (rng_randint R 15 40 r)" "0 \<le> fst (rng_randint R 3 12 r)" for r
    using randint_range [OF assms, of 15 40 r] randint_range [OF assms, of 3 12 r] by simp_all
  ultimately show ?thesis
    unfolding anomalous_columns_def columns_ok_def Let_def case_prod_beta by simp
qed

lemma honest_ok:
  assumes "random_laws R"
  shows "columns_ok (fst (honest_columns R r))"
proof -
  have "48 \<le> fst (rng_uniform (rng.truncate R) 48 5000 r)" for r using uniform_range [OF assms, of 48 5000 r] by simp
  moreover have "0 < fst (rg_lognorm R 15 (12 / 10) r)" for r using assms by (simp add: random_laws_def)
  moreover have "0 \<le> fst (rng_randint R 0 3 r)" "0 \<le> fst (rng_randint R 0 1 r)" for r
    using randint_range [OF assms, of 0 3 r] randint_range [OF assms, of 0 1 r] by simp_all
  ultimately show ?thesis
    unfolding honest_columns_def columns_ok_def Let_def case_prod_beta by (simp add: order_trans [of 0 48])
qed

lemma synthetic_sample_row:
  assumes "random_laws R"
  shows "\<exists>row. fst (synthetic_sample R anomaly r) = Inr row \<and> feature_row row"
proof -
  let ?r = "snd (rg_random R r)"
  let ?c = "if fst (rg_random R r) < anomaly then anomalous_columns R ?r else honest_columns R ?r"
  let ?h = "rng_randint R 0 23 (snd ?c)"
  let ?w = "rng_randint R 0 6 (snd ?h)"
  have c: "columns_ok (fst ?c)" using anomalous_ok [OF assms] honest_ok [OF assms] by simp
  have l: "log1p (sm_consideration (fst ?c)) = Inr (ln (1 + sm_consideration (fst ?c)))" "log1p (sm_area (fst ?c)) = Inr (ln (1 + sm_area (fst ?c)))"
    using c by (simp_all add: log1p_def columns_ok_def)
  have pos: "0 \<le> ln (1 + sm_consideration (fst ?c))" "0 \<le> ln (1 + sm_area (fst ?c))" using c by (simp_all add: columns_ok_def)
  have row: "fst (synthetic_sample R anomaly r) = Inr [sm_hours (fst ?c), ln (1 + sm_consideration (fst ?c)), ln (1 + sm_area (fst ?c)),
      sm_age (fst ?c), of_int (sm_parcels (fst ?c)), of_int (sm_disputes (fst ?c)), sm_norm_z (fst ?c), of_int (fst ?h), of_int (fst ?w)]"
    unfolding synthetic_sample_def Let_def case_prod_beta fst_conv l by simp
  have "fst ?h \<in> {0..23}" "fst ?w \<in> {0..6}" by (rule randint_range [OF assms]; simp)+
  then show ?thesis unfolding row using c pos by (simp add: feature_row_def columns_ok_def image_iff)
qed

text \<open>The training set: as many rows as asked for, all of them feature rows; the training fails only when the fit does.\<close>

lemma synthetic_samples_rows:
  "random_laws R \<Longrightarrow> \<exists>X. synthetic_samples n R anomaly r = Inr X \<and> length X = n \<and> list_all feature_row X"
proof (induction n arbitrary: r)
  case (Suc n)
  obtain row r' where s: "synthetic_sample R anomaly r = (Inr row, r')" "feature_row row"
    using synthetic_sample_row [OF Suc.prems, of anomaly r] by (cases "synthetic_sample R anomaly r") auto
  then show ?case using Suc.IH [OF Suc.prems, of r'] by auto
qed simp

lemma train_fits_rows:
  assumes "random_laws R"
  shows "\<exists>X. length X = 2000 \<and> list_all feature_row X \<and> train_and_save R fit dump files = res_bind (fit X) (\<lambda>model. Inr (dump model files))"
  using synthetic_samples_rows [OF assms, of 2000 "5 / 100" "rg_seed R 20260620"] by (auto simp: train_and_save_def)

text \<open>What the scorer asks of the model has the shape of the rows it was fitted on.\<close>

lemma scored_like_trained:
  assumes "assemble_features E x s = Inr row" "0 \<le> safe_float (sc_consideration x)" "0 \<le> sc_area x"
  shows "feature_row row"
proof -
  have "0 \<le> hours_since_last E p s" "0 \<le> owner_age_days E w s" for p w
    by (simp_all add: hours_since_last_def owner_age_days_def split: option.split)
  moreover have "hour_of t \<in> {0..23}" "weekday_of t \<in> {0..6}" for t by (simp_all add: hour_of_def weekday_of_def)
  ultimately show ?thesis using assms
    by (auto simp: assemble_features_def log1p_def res_simps feature_row_def image_iff Let_def split: if_splits)
qed

end
