(* ===== verification/Spec2Isabelle.thy ===== *)
theory Spec2Isabelle
  imports Title_Journey Ussd Cosign Middleware Offline Deploy Ledger_Schema Sbom Live_Nira Crypto Tokens Probe Training
begin

text \<open>
  LandGuard Uganda is the backend of a land registry.  Officers register parcels, owners, titles and
  transfers; a fraud scorer rates what they do and can stop a transfer until a human decides; every event goes
  to a hash-chained audit ledger per district; batches of events are anchored by their Merkle root on a chain, and
  anybody can check a title, or any anchored event, against that chain.  This development models the Python
  code of the backend with its scripts, and the two Solidity contracts, and proves what makes them correct.

  \<^bold>\<open>How the parts interact.\<close>  A request passes the middlewares (\<open>Middleware\<close>) to a route; a dependency resolves
  the caller (\<open>Auth\<close>, \<open>Tokens\<close>) and the handler reads and writes the tables (\<open>Store\<close>), emits events to the ledger
  (\<open>Ledger\<close>) and publishes work for the scorer (\<open>Outbox\<close>).  Background tasks anchor the ledger
  (\<open>Anchor\<close>, over a client of \<open>Chain\<close> or \<open>Chain_Evm\<close>), score subjects (\<open>Fraud_Worker\<close>) and run the
  governance jobs (\<open>Jobs\<close>).  \<open>Backend\<close> is the sum of it: one function from an event (a request or the turn of a
  task, with its readings of clock, random numbers and outside services) and a state to a state.  \<open>Boot\<close> adds the start of a
  process and sequences of such processes over one database and one chain.

  \<^bold>\<open>Which theory models what\<close> (paths below \<open>src/backend/app\<close> unless they start with \<open>src\<close>):
  \<^item> \<open>Prelude\<close>: exceptions, results, outcomes that keep the state on an error, tables as lists, text and bytes;
  \<^item> \<open>Merkle\<close>: \<open>audit/merkle.py\<close>, both regimes; \<open>Json\<close>, \<open>Json_Roundtrip\<close>, \<open>Json_Parse\<close>: what is used of \<open>json\<close>, and
    \<open>util/hashing.py\<close>;
  \<^item> \<open>Ledger\<close>, \<open>Ledger_Chain\<close>, \<open>Ledger_Verify\<close>: \<open>audit/ledger.py\<close>, \<open>audit/__init__.py\<close> and \<open>audit/verifier.py\<close>;
    \<open>Ledger_Schema\<close>: how the ledger makes its table;
  \<^item> \<open>Util\<close>, \<open>Resilience\<close>, \<open>Crypto\<close>: \<open>util/ids.py\<close>, \<open>sql.py\<close>, \<open>cache.py\<close>, \<open>resilience.py\<close>, \<open>crypto.py\<close>;
  \<^item> \<open>Store\<close>: the tables of \<open>db/migrations\<close> with their keys, and the environment record \<open>env\<close> of one request;
    \<open>Migrations\<close>: \<open>database.py\<close>;
  \<^item> \<open>Auth\<close>, \<open>Tokens\<close>: \<open>auth\<close> and \<open>config.py\<close>; \<open>Nira\<close>, \<open>Live_Nira\<close>: \<open>nira\<close> and its router;
  \<^item> \<open>Parcels\<close>, \<open>Owners\<close>, \<open>Titles\<close>, \<open>Transfers\<close>, \<open>Disputes\<close>, \<open>Reviews\<close>, \<open>Verify\<close>, \<open>Ussd\<close>: the routers of these names
    with their models (\<open>Reviews\<close> is \<open>routers/fraud.py\<close>); \<open>Ops\<close>: \<open>routers/admin.py\<close>, \<open>demo.py\<close>, \<open>health.py\<close>;
  \<^item> \<open>Fraud_Rules\<close>, \<open>Fraud_Score\<close>, \<open>Fraud_Worker\<close>, \<open>Worker_Safety\<close>, \<open>Training\<close>: \<open>fraud\<close>; \<open>Jobs\<close>: \<open>jobs\<close>;
  \<^item> \<open>Chain\<close>, \<open>Chain_Evm\<close>, \<open>Cosign\<close>: \<open>blockchain\<close> and \<open>src/backend/scripts/co_sign_daemon.py\<close>; \<open>Anchor\<close>, \<open>Anchor_Safety\<close>,
    \<open>Anchor_Props\<close>: \<open>blockchain/anchor_service.py\<close> and its router;
  \<^item> \<open>Contracts\<close>: \<open>src/contracts/src\<close>; \<open>Deploy\<close>: \<open>src/backend/scripts/deploy_contract.py\<close>;
  \<^item> \<open>Registry\<close>, \<open>Backend\<close>, \<open>Backend_Ledger\<close>, \<open>Backend_Safety\<close>: \<open>main.py\<close> and what spans its routes;
    \<open>Seed\<close>, \<open>Boot\<close>: \<open>bootstrap/seed.py\<close> and the lifespan of \<open>main.py\<close>; \<open>Title_Register\<close>, \<open>Title_Journey\<close>: what becomes
    of a title and its event over all of it;
  \<^item> \<open>Middleware\<close>: \<open>middleware\<close>; \<open>Offline\<close>: \<open>src/scripts/verify_offline.py\<close> and
    \<open>src/backend/scripts/emit_merkle_vectors.py\<close>; \<open>Sbom\<close>: \<open>src/scripts/_sbom_frontend_fallback.py\<close>; \<open>Probe\<close>:
    \<open>src/scripts/probe_verifier.py\<close> and \<open>src/backend/scripts/load_test.py\<close>.

  \<^bold>\<open>State and operations.\<close>  A table is a list of records, in the order of insertion; the tables together are the record
  \<open>db\<close>.  An operation takes the state and returns a result (a value or an exception of the type \<open>exc\<close>) with
  the new state.  The state is there in the error case too: the SQLite connection runs in autocommit, so what a handler
  wrote before it failed stays written.  The insertions check the primary, unique and foreign keys of the
  schema.  An \<open>HTTPException\<close> keeps its status code only.  The names of the definitions are those of the functions;
  where one Python function is several definitions, the inner loops and the parts between two awaits have a name of
  their own.  The clock, the identifiers of \<open>uuid4\<close> and whatever else a request reads of the outside are
  numbered readings in \<open>env\<close>.

  \<^bold>\<open>What is an argument.\<close>  SHA-256 and Keccak, AES-GCM, PyJWT, Shapely, the isolation forest with scikit-learn's fit, Redis, Web3 with the node
  behind it, AccessControl and Pausable of OpenZeppelin, the SQL engine of the migrations and HTTP clients are not in
  the repository.  They are functions or records of functions; what a proof uses of them is a named
  hypothesis or the assumptions of a locale (\<open>evm_node\<close>, \<open>access_laws\<close>, \<open>gcm_inverts\<close>, \<open>jwt_accepts\<close>,
  \<open>executing_settles\<close>, \<open>registrar_node\<close>, \<open>random_laws\<close>), each satisfied by a concrete instance in a witness.

  \<^bold>\<open>The interfaces.\<close>  \<open>pairing\<close> and \<open>sorted_pairing\<close> (a tree over a pair hash), \<open>printer\<close> (a text form of JSON and
  what reading gives back), \<open>chain_contract\<close> (what the anchor service needs of a chain), \<open>evm_node\<close> and
  \<open>registrar_node\<close> (a node that runs the contracts), \<open>guard\<close> (a breaker), \<open>exclusive_lock\<close>, \<open>fraud_rule\<close>, \<open>role_route\<close> and
  \<open>run_invariant\<close> (what every request, task and restart keeps once appends and flushes keep it) are locales; each is interpreted on the definitions of the code.

  \<^bold>\<open>What is shown.\<close>
  \<^item> Anchoring: an invariant of the ledger and the batches over every interleaving of appends, other operations and the parts of
    a flush; hence an event anchored in a confirmed batch has a proof that the chain accepts, in the mock chain, on
    the contract, in the running backend and over all lives of a deployment.  The offline verifier accepts a bundle
    exactly when the check of the backend does, and the contract decides as the Python mirror.
  \<^item> The ledger: the verifier accepts every ledger the backend writes, and two accepted ledgers with the same
    head carry the same payloads unless the hash collides.
  \<^item> The register: whatever is asked, by whom and however it ends, what the backend does to parcels and owners is a move of
    an abstract land register (\<open>Registry\<close>), in which each change of an owner or a status has its officer; owners of parcels
    are on the register of owners.
  \<^item> Titles: the public verifier calls a title valid only with an anchored event for it, and does so for every title
    whose event is anchored; the event of a title that is issued stays in the ledger for good, so the title can be verified
    once its district is anchored.
  \<^item> Fraud: scores are in their bounds, a transfer completes only with a current score that is not BLOCK, a review is decided
    once, the worker never touches the register, and the outbox settles after five sweeps whatever fails.
  \<^item> Custody: behind the wrapper a root needs a threshold of different signers, and what the deployer can still do; the co-signing
    daemon carries every proposal it sees to its execution when the signers suffice, and a commit of the k-of-n client with the
    daemon beside it comes back confirmed.
  \<^item> Data: canonical JSON, encrypted texts and tokens read back; breakers keep their invariant; migrations settle; the
    availability log reads back; what passing the load test means.

  \<^bold>\<open>Bounds and fuel.\<close>  The JSON reader takes the length of the text as fuel, which \<open>need_le_length\<close> shows to be enough
  for all texts \<open>dumps\<close> prints.  A commit through the k-of-n client polls at most 21 times, because the deadline is ten seconds
  and a poll sleeps half a second; with this fuel it returns.  Sweeps of the outbox give up a job after
  \<open>OUTBOX_MAX_ATTEMPTS\<close> attempts.  Words of the contracts are 256, 160, 64, 16 and 8 bits wide and wrap.  The other loops
  are structural or have a measure.

  \<^bold>\<open>Limits of the model.\<close>  Floats are real numbers: rounding of binary64 is left out, and what \<open>repr\<close> prints is an argument.  Texts
  have code points 0 to 255, except in \<open>Ussd\<close>, \<open>Crypto\<close> and the redacted NIN, where they are lists of code points.  Requests
  run one after the other, but for the awaits of a flush, which interleave with everything.

  \<^bold>\<open>Not modelled.\<close>  The rate limiter (one object of slowapi), CORS, OpenTelemetry, metrics and logging have no influence on
  a result.  The command-line wrappers print the result of a modelled function.  Opening a database
  connection, reading artifacts and configuration files, the concurrency of the load test, and the pauses and cancellation of the
  background loops are input and output.
\<close>

end
